(* ===== verification/Prelude.thy ===== *)
theory Prelude
  imports Main "HOL-Library.Monad_Syntax" "HOL-Library.AList"
begin

text \<open>
  Shared vocabulary of the development.

  \<^item> A Rust panic is the value \<^term>\<open>None\<close> of an option type, so a function that
    can panic returns \<^typ>\<open>'a option\<close> and is composed with the option monad.
  \<^item> A Rust \<^verbatim>\<open>Result<T, E>\<close> is the sum \<^typ>\<open>'e + 'a\<close>, with \<^term>\<open>Inl\<close> for \<^verbatim>\<open>Err\<close>.
    A function that returns a \<^verbatim>\<open>Result\<close> and can also panic has type
    \<^typ>\<open>('e + 'a) option\<close>; \<open>try_bind\<close> is the \<^verbatim>\<open>?\<close> operator there.
  \<^item> \<^verbatim>\<open>u64\<close> and \<^verbatim>\<open>U256\<close> values are natural numbers with the width written out in each
    operation: \<open>checked_*\<close> returns \<^term>\<open>None\<close> on overflow, \<open>wrapping_*\<close> reduces modulo
    the width.
  \<^item> A \<^verbatim>\<open>BTreeMap\<close> is an association list with strictly increasing keys.
    A \<^verbatim>\<open>HashMap\<close> is an association list with distinct keys.
\<close>

named_theorems width_simps \<open>exact results of the arithmetic at a width\<close>

section \<open>Panics and results\<close>

definition assert_p :: "bool \<Rightarrow> unit option" where
  "assert_p b = (if b then Some () else None)"

definition ok :: "'a \<Rightarrow> ('e + 'a) option" where
  "ok x = Some (Inr x)"

definition err :: "'e \<Rightarrow> ('e + 'a) option" where
  "err e = Some (Inl e)"

definition try_bind :: "('e + 'a) option \<Rightarrow> ('a \<Rightarrow> ('e + 'b) option) \<Rightarrow> ('e + 'b) option" where
  "try_bind m f = (case m of None \<Rightarrow> None | Some (Inl e) \<Rightarrow> Some (Inl e) | Some (Inr a) \<Rightarrow> f a)"

definition no_err :: "'a option \<Rightarrow> ('e + 'a) option" where
  "no_err m = map_option Inr m"

definition map_err :: "('e \<Rightarrow> 'f) \<Rightarrow> ('e + 'a) option \<Rightarrow> ('f + 'a) option" where
  "map_err f m = map_option (map_sum f id) m"

definition ok_or :: "'e \<Rightarrow> 'a option \<Rightarrow> ('e + 'a) option" where
  "ok_or e m = (case m of None \<Rightarrow> Some (Inl e) | Some a \<Rightarrow> Some (Inr a))"

definition ensure :: "bool \<Rightarrow> 'e \<Rightarrow> ('e + unit) option" where
  "ensure b e = (if b then ok () else err e)"

section \<open>Machine integers as naturals\<close>

type_synonym u64 = nat
type_synonym u256 = nat

definition u64_max :: u64 where
  "u64_max = 2 ^ 64 - 1"

definition u256_max :: u256 where
  "u256_max = 2 ^ 256 - 1"

definition checked_add :: "nat \<Rightarrow> nat \<Rightarrow> nat \<Rightarrow> nat option" where
  "checked_add hi a b = (if a + b \<le> hi then Some (a + b) else None)"

definition checked_sub :: "nat \<Rightarrow> nat \<Rightarrow> nat option" where
  "checked_sub a b = (if b \<le> a then Some (a - b) else None)"

definition checked_div :: "nat \<Rightarrow> nat \<Rightarrow> nat option" where
  "checked_div a b = (if b = 0 then None else Some (a div b))"

definition checked_rem :: "nat \<Rightarrow> nat \<Rightarrow> nat option" where
  "checked_rem a b = (if b = 0 then None else Some (a mod b))"

definition wrapping_add :: "nat \<Rightarrow> nat \<Rightarrow> nat \<Rightarrow> nat" where
  "wrapping_add hi a b = (a + b) mod (hi + 1)"

definition wrapping_mul :: "nat \<Rightarrow> nat \<Rightarrow> nat \<Rightarrow> nat" where
  "wrapping_mul hi a b = (a * b) mod (hi + 1)"

definition saturating_add :: "nat \<Rightarrow> nat \<Rightarrow> nat \<Rightarrow> nat" where
  "saturating_add hi a b = min hi (a + b)"

definition saturating_sub :: "nat \<Rightarrow> nat \<Rightarrow> nat" where
  "saturating_sub a b = a - b"

definition checked_mul :: "nat \<Rightarrow> nat \<Rightarrow> nat \<Rightarrow> nat option" where
  "checked_mul hi a b = (if a * b \<le> hi then Some (a * b) else None)"

definition saturating_mul :: "nat \<Rightarrow> nat \<Rightarrow> nat \<Rightarrow> nat" where
  "saturating_mul hi a b = min hi (a * b)"

definition div_ceil :: "nat \<Rightarrow> nat \<Rightarrow> nat" where
  "div_ceil a b = (a + b - 1) div b"

section \<open>Ordered maps, hash maps and ordered sets\<close>

type_synonym ('k, 'v) btree_map = "('k \<times> 'v) list"
type_synonym ('k, 'v) hash_map = "('k \<times> 'v) list"
type_synonym 'a btree_set = "'a list"

abbreviation bt_get :: "('k, 'v) btree_map \<Rightarrow> 'k \<Rightarrow> 'v option" where
  "bt_get m k \<equiv> map_of m k"

fun bt_insert :: "'k::linorder \<Rightarrow> 'v \<Rightarrow> ('k, 'v) btree_map \<Rightarrow> ('k, 'v) btree_map" where
  "bt_insert k v [] = [(k, v)]"
| "bt_insert k v ((k', v') # m) =
     (if k < k' then (k, v) # (k', v') # m
      else if k = k' then (k, v) # m
      else (k', v') # bt_insert k v m)"

definition bt_remove :: "'k \<Rightarrow> ('k, 'v) btree_map \<Rightarrow> ('k, 'v) btree_map" where
  "bt_remove k m = filter (\<lambda>e. fst e \<noteq> k) m"

definition bt_retain :: "('k \<Rightarrow> bool) \<Rightarrow> ('k, 'v) btree_map \<Rightarrow> ('k, 'v) btree_map" where
  "bt_retain P m = filter (\<lambda>e. P (fst e)) m"

definition bt_keys :: "('k, 'v) btree_map \<Rightarrow> 'k list" where
  "bt_keys m = map fst m"

definition bt_values :: "('k, 'v) btree_map \<Rightarrow> 'v list" where
  "bt_values m = map snd m"

definition bt_last :: "('k, 'v) btree_map \<Rightarrow> ('k \<times> 'v) option" where
  "bt_last m = (if m = [] then None else Some (last m))"

definition bt_wf :: "('k::linorder, 'v) btree_map \<Rightarrow> bool" where
  "bt_wf m \<longleftrightarrow> sorted_wrt (<) (map fst m)"

definition bt_of_list :: "('k::linorder \<times> 'v) list \<Rightarrow> ('k, 'v) btree_map" where
  "bt_of_list xs = fold (\<lambda>(k, v). bt_insert k v) xs []"

definition hm_wf :: "('k, 'v) hash_map \<Rightarrow> bool" where
  "hm_wf m \<longleftrightarrow> distinct (map fst m)"

definition entry_or :: "'v \<Rightarrow> 'v option \<Rightarrow> 'v" where
  "entry_or d e = (case e of None \<Rightarrow> d | Some v \<Rightarrow> v)"

section \<open>Lemmas: panics and results\<close>

lemma assert_p_Some [simp]: "assert_p b = Some u \<longleftrightarrow> b"
  by (simp add: assert_p_def)

lemma assert_p_True [simp]: "assert_p True = Some ()"
  by (simp add: assert_p_def)

lemma assert_p_False [simp]: "assert_p False = None"
  by (simp add: assert_p_def)

lemma assert_p_None [simp]: "assert_p b = None \<longleftrightarrow> \<not> b"
  by (simp add: assert_p_def)

lemma ok_eq [simp]:
  "ok x = Some r \<longleftrightarrow> r = Inr x" "Some r = ok x \<longleftrightarrow> r = Inr x" "ok x = ok y \<longleftrightarrow> x = y"
  by (auto simp: ok_def)

lemma ok_not_None [simp]: "ok x \<noteq> None" "None \<noteq> ok x" "err e \<noteq> None" "None \<noteq> err e"
  by (auto simp: ok_def err_def)

lemma err_eq [simp]:
  "err e = Some r \<longleftrightarrow> r = Inl e" "Some r = err e \<longleftrightarrow> r = Inl e" "err e = err d \<longleftrightarrow> e = d"
  by (auto simp: err_def)

lemma ok_neq_err [simp]: "ok x \<noteq> err e" "err e \<noteq> ok x"
  by (auto simp: ok_def err_def)

lemma try_bind_simps [simp]:
  "try_bind (ok a) f = f a"
  "try_bind (err e) f = err e"
  "try_bind None f = None"
  "try_bind (Some (Inr a)) f = f a"
  "try_bind (Some (Inl e)) f = Some (Inl e)"
  by (auto simp: try_bind_def ok_def err_def)

lemma try_bind_eq_ok:
  "try_bind m f = Some (Inr b) \<longleftrightarrow> (\<exists>a. m = Some (Inr a) \<and> f a = Some (Inr b))"
  by (auto simp: try_bind_def split: option.splits sum.splits)

lemma try_bind_eq_err:
  "try_bind m f = Some (Inl e) \<longleftrightarrow>
     m = Some (Inl e) \<or> (\<exists>a. m = Some (Inr a) \<and> f a = Some (Inl e))"
  by (auto simp: try_bind_def split: option.splits sum.splits)

lemma try_bind_eq_None:
  "try_bind m f = None \<longleftrightarrow> m = None \<or> (\<exists>a. m = Some (Inr a) \<and> f a = None)"
  by (auto simp: try_bind_def split: option.splits sum.splits)

lemma no_err_simps [simp]: "no_err None = None" "no_err (Some a) = Some (Inr a)"
  by (auto simp: no_err_def)

lemma no_err_eq [simp]:
  "no_err m = Some (Inr a) \<longleftrightarrow> m = Some a"
  "no_err m \<noteq> Some (Inl e)"
  "no_err m = None \<longleftrightarrow> m = None"
  by (auto simp: no_err_def)

lemma map_err_eq [simp]:
  "map_err f m = Some (Inr a) \<longleftrightarrow> m = Some (Inr a)"
  "map_err f m = Some (Inl d) \<longleftrightarrow> (\<exists>e. m = Some (Inl e) \<and> d = f e)"
  "map_err f m = None \<longleftrightarrow> m = None"
  by (auto simp: map_err_def map_option_case split: option.splits)
     (auto simp: map_sum_def split: sum.splits)

lemma ok_or_eq [simp]:
  "ok_or e m = Some (Inr a) \<longleftrightarrow> m = Some a"
  "ok_or e m = Some (Inl d) \<longleftrightarrow> m = None \<and> d = e"
  "ok_or e m \<noteq> None"
  by (auto simp: ok_or_def split: option.splits)

lemma ensure_eq [simp]:
  "ensure b e = Some (Inr u) \<longleftrightarrow> b"
  "ensure b e = Some (Inl d) \<longleftrightarrow> \<not> b \<and> d = e"
  "ensure b e \<noteq> None"
  by (auto simp: ensure_def)

lemma ensure_bool [simp]: "ensure True e = ok ()" "ensure False e = err e"
  by (auto simp: ensure_def)

lemma bind_eq_None:
  "Option.bind m f = None \<longleftrightarrow> m = None \<or> (\<exists>a. m = Some a \<and> f a = None)"
  by (cases m) auto

lemmas result_simps =
  try_bind_eq_ok try_bind_eq_err try_bind_eq_None bind_eq_Some_conv bind_eq_None

section \<open>Lemmas: arithmetic at a width\<close>

lemma checked_add_Some [simp]:
  "checked_add hi a b = Some c \<longleftrightarrow> a + b \<le> hi \<and> c = a + b"
  by (auto simp: checked_add_def)

lemma checked_sub_Some [simp]: "checked_sub a b = Some c \<longleftrightarrow> b \<le> a \<and> c = a - b"
  by (auto simp: checked_sub_def)

lemma checked_add_None [simp]: "checked_add hi a b = None \<longleftrightarrow> hi < a + b"
  by (auto simp: checked_add_def)

lemma checked_sub_None [simp]: "checked_sub a b = None \<longleftrightarrow> a < b"
  by (auto simp: checked_sub_def)

lemma checked_div_Some [simp]: "checked_div a b = Some c \<longleftrightarrow> b \<noteq> 0 \<and> c = a div b"
  by (auto simp: checked_div_def)

lemma checked_rem_Some [simp]: "checked_rem a b = Some c \<longleftrightarrow> b \<noteq> 0 \<and> c = a mod b"
  by (auto simp: checked_rem_def)

lemma wrapping_mul_exact [width_simps]: "a * b \<le> hi \<Longrightarrow> wrapping_mul hi a b = a * b"
  by (simp add: wrapping_mul_def)

lemma wrapping_add_exact [width_simps]: "a + b \<le> hi \<Longrightarrow> wrapping_add hi a b = a + b"
  by (simp add: wrapping_add_def)

section \<open>Lemmas: maps\<close>

lemma map_of_bt_insert [simp]: "map_of (bt_insert k v m) = (map_of m)(k \<mapsto> v)"
  by (induction k v m rule: bt_insert.induct) (auto simp: fun_eq_iff)

lemma fst_set_bt_insert [simp]: "fst ` set (bt_insert k v m) = insert k (fst ` set m)"
  by (induction k v m rule: bt_insert.induct) auto

lemma bt_insert_not_Nil [simp]: "bt_insert k v m \<noteq> []"
  by (induction k v m rule: bt_insert.induct) auto

lemma map_of_bt_remove [simp]: "map_of (bt_remove k m) = (map_of m)(k := None)"
  by (induction m) (auto simp: bt_remove_def fun_eq_iff)

lemma map_of_bt_retain [simp]: "map_of (bt_retain P m) k = (if P k then map_of m k else None)"
  by (induction m) (auto simp: bt_retain_def)

lemma bt_wf_Nil [simp]: "bt_wf []"
  by (simp add: bt_wf_def)

lemma bt_wf_Cons: "bt_wf (e # m) \<longleftrightarrow> (\<forall>x \<in> set m. fst e < fst x) \<and> bt_wf m"
  by (auto simp: bt_wf_def)

lemma bt_wf_distinct: "bt_wf m \<Longrightarrow> distinct (map fst m)"
  by (simp add: bt_wf_def strict_sorted_iff)

lemma set_bt_insert_subset: "set (bt_insert k v m) \<subseteq> insert (k, v) (set m)"
  by (induction k v m rule: bt_insert.induct) auto

lemma bt_wf_insert [simp]: "bt_wf m \<Longrightarrow> bt_wf (bt_insert k v m)"
proof (induction k v m rule: bt_insert.induct)
  case (2 k v k' v' m)
  then show ?case
    using set_bt_insert_subset[of k v m] by (auto simp: bt_wf_Cons)
qed (simp add: bt_wf_Cons)

lemma bt_wf_filter: "bt_wf m \<Longrightarrow> bt_wf (filter P m)"
  by (induction m) (auto simp: bt_wf_Cons)

lemma bt_wf_remove [simp]: "bt_wf m \<Longrightarrow> bt_wf (bt_remove k m)"
  by (simp add: bt_remove_def bt_wf_filter)

lemma bt_wf_retain [simp]: "bt_wf m \<Longrightarrow> bt_wf (bt_retain P m)"
  by (simp add: bt_retain_def bt_wf_filter)

lemma in_set_bt_get: "bt_wf m \<Longrightarrow> (k, v) \<in> set m \<longleftrightarrow> bt_get m k = Some v"
  by (meson bt_wf_distinct map_of_SomeD map_of_is_SomeI)

lemma set_bt_retain: "set (bt_retain P m) = {e \<in> set m. P (fst e)}"
  by (auto simp: bt_retain_def)

lemma set_bt_remove: "set (bt_remove k m) = {e \<in> set m. fst e \<noteq> k}"
  by (auto simp: bt_remove_def)

lemma alist_update_new: "map_of m k = None \<Longrightarrow> AList.update k v m = m @ [(k, v)]"
  by (induction m) (auto split: if_splits)

text \<open>How many entries satisfy a condition after an entry is deleted, replaced or added.\<close>

lemma alist_count_delete:
  "hm_wf m \<Longrightarrow> map_of m k = Some v \<Longrightarrow>
     length (filter P m) = length (filter P (AList.delete k m)) + (if P (k, v) then 1 else 0)"
proof (induction m)
  case (Cons e m)
  show ?case
  proof (cases "fst e = k")
    case True
    then have "AList.delete k m = m"
      using Cons.prems(1) by (intro delete_id) (simp add: hm_wf_def)
    then show ?thesis using True Cons.prems(2) by (cases e) simp
  next
    case False
    then show ?thesis using Cons by (cases e) (auto simp: hm_wf_def)
  qed
qed simp

lemma alist_count_update:
  "hm_wf m \<Longrightarrow> map_of m k = Some v \<Longrightarrow>
     length (filter P (AList.update k v' m)) + (if P (k, v) then 1 else 0) =
       length (filter P m) + (if P (k, v') then 1 else 0)"
  by (induction m) (auto simp: hm_wf_def)

lemma entry_or_simps [simp]: "entry_or d None = d" "entry_or d (Some v) = v"
  by (auto simp: entry_or_def)

section \<open>The contract of a map\<close>

text \<open>
  Both map types are used through the same few operations.  The locale states what a
  client relies on; \<open>upsert\<close> is the \<^verbatim>\<open>entry(k).or_default()\<close> idiom.
\<close>

locale keyed_map =
  fixes get :: "'m \<Rightarrow> 'k \<Rightarrow> 'v option"
    and put :: "'k \<Rightarrow> 'v \<Rightarrow> 'm \<Rightarrow> 'm"
    and del :: "'k \<Rightarrow> 'm \<Rightarrow> 'm"
    and wf :: "'m \<Rightarrow> bool"
  assumes get_put: "wf m \<Longrightarrow> get (put k v m) = (get m)(k \<mapsto> v)"
    and get_del: "wf m \<Longrightarrow> get (del k m) = (get m)(k := None)"
    and wf_put: "wf m \<Longrightarrow> wf (put k v m)"
    and wf_del: "wf m \<Longrightarrow> wf (del k m)"
begin

lemma get_upsert:
  "wf m \<Longrightarrow> get (put k (f (entry_or d (get m k))) m) k' =
     (if k' = k then Some (f (entry_or d (get m k))) else get m k')"
  by (simp add: get_put)

lemma dom_upsert: "wf m \<Longrightarrow> dom (get (put k v m)) = insert k (dom (get m))"
  by (simp add: get_put)

lemma put_put_get: "wf m \<Longrightarrow> get (put k v (put k w m)) = get (put k v m)"
  by (simp add: get_put wf_put)

lemma del_put_get: "wf m \<Longrightarrow> get (del k (put k v m)) = get (del k m)"
  by (simp add: get_put get_del wf_put)

lemma put_all:
  assumes "wf m" and "P v" and "\<And>k v. get m k = Some v \<Longrightarrow> P v"
    and "get (put j v m) k = Some w"
  shows "P w"
  using assms by (auto simp: get_put split: if_splits)

end

interpretation btm: keyed_map map_of bt_insert bt_remove bt_wf
  by unfold_locales auto

interpretation hmm: keyed_map map_of AList.update AList.delete hm_wf
  by unfold_locales
     (auto simp: hm_wf_def update_conv' delete_conv' distinct_update distinct_delete)

end
