(* ===== verification/Monad_Types.thy ===== *)
theory Monad_Types
  imports Prelude
begin

text \<open>
  The scalar types of \<^verbatim>\<open>monad-types/src/lib.rs\<close>.

  \<^verbatim>\<open>Round\<close>, \<^verbatim>\<open>Epoch\<close> and \<^verbatim>\<open>SeqNum\<close> wrap a \<^verbatim>\<open>u64\<close>; their \<^verbatim>\<open>Add\<close> and \<^verbatim>\<open>Sub\<close> panic on overflow.
  \<^verbatim>\<open>Stake\<close> wraps a \<^verbatim>\<open>U256\<close> with the same convention.
  A \<^verbatim>\<open>NodeId\<close> and a \<^verbatim>\<open>BlockId\<close> are the big-endian value of their byte array, so the derived
  lexicographic \<^verbatim>\<open>Ord\<close> is the order of the naturals and the genesis block id is 0.
\<close>

type_synonym round = u64
type_synonym epoch = u64
type_synonym seq_num = u64
type_synonym node_id = nat
type_synonym block_id = nat
type_synonym body_id = nat
type_synonym stake = u256

definition GENESIS_SEQ_NUM :: seq_num where
  "GENESIS_SEQ_NUM = 0"

definition GENESIS_ROUND :: round where
  "GENESIS_ROUND = 0"

definition GENESIS_BLOCK_ID :: block_id where
  "GENESIS_BLOCK_ID = 0"

section \<open>Rounds\<close>

definition round_add :: "round \<Rightarrow> round \<Rightarrow> round option" where
  "round_add a b = checked_add u64_max a b"

definition round_sub :: "round \<Rightarrow> round \<Rightarrow> round option" where
  "round_sub a b = checked_sub a b"

definition immediately_follows :: "round \<Rightarrow> round \<Rightarrow> bool" where
  "immediately_follows self previous_round =
     (case checked_add u64_max previous_round 1 of
        None \<Rightarrow> False
      | Some next_round \<Rightarrow> next_round = self)"

record round_span =
  span_start :: round
  span_end :: round

definition round_span_new :: "round \<Rightarrow> round \<Rightarrow> round_span option" where
  "round_span_new s e = (if e \<le> s then None else Some \<lparr>span_start = s, span_end = e\<rparr>)"

definition round_span_single :: "round \<Rightarrow> round_span option option" where
  "round_span_single s =
     (if u64_max \<le> s then Some None
      else do {
        e \<leftarrow> round_add s 1;
        Some (Some \<lparr>span_start = s, span_end = e\<rparr>)
      })"

definition round_span_contains :: "round_span \<Rightarrow> round \<Rightarrow> bool" where
  "round_span_contains sp r \<longleftrightarrow> span_start sp \<le> r \<and> r < span_end sp"

definition round_span_overlaps :: "round_span \<Rightarrow> round_span \<Rightarrow> bool" where
  "round_span_overlaps a b \<longleftrightarrow> span_start a < span_end b \<and> span_start b < span_end a"

section \<open>Epochs and sequence numbers\<close>

definition epoch_add :: "epoch \<Rightarrow> epoch \<Rightarrow> epoch option" where
  "epoch_add a b = checked_add u64_max a b"

definition epoch_sub :: "epoch \<Rightarrow> epoch \<Rightarrow> epoch option" where
  "epoch_sub a b = checked_sub a b"

definition epoch_checked_sub :: "epoch \<Rightarrow> nat \<Rightarrow> epoch option" where
  "epoch_checked_sub a n = checked_sub a n"

definition seq_num_add :: "seq_num \<Rightarrow> seq_num \<Rightarrow> seq_num option" where
  "seq_num_add a b = checked_add u64_max a b"

definition seq_num_sub :: "seq_num \<Rightarrow> seq_num \<Rightarrow> seq_num option" where
  "seq_num_sub a b = checked_sub a b"

definition seq_num_div :: "seq_num \<Rightarrow> seq_num \<Rightarrow> seq_num option" where
  "seq_num_div a b = checked_div a b"

definition seq_num_rem :: "seq_num \<Rightarrow> seq_num \<Rightarrow> seq_num option" where
  "seq_num_rem a b = checked_rem a b"

definition seq_num_saturating_add :: "seq_num \<Rightarrow> seq_num \<Rightarrow> seq_num" where
  "seq_num_saturating_add a b = saturating_add u64_max a b"

definition to_epoch :: "seq_num \<Rightarrow> seq_num \<Rightarrow> epoch option" where
  "to_epoch self epoch_length = do {
     q \<leftarrow> checked_div self epoch_length;
     Some (wrapping_add u64_max q 1)
   }"

definition is_boundary_block :: "seq_num \<Rightarrow> seq_num \<Rightarrow> bool option" where
  "is_boundary_block self epoch_length = do {
     r \<leftarrow> seq_num_rem self epoch_length;
     l \<leftarrow> seq_num_sub epoch_length 1;
     Some (r = l)
   }"

definition get_locked_epoch :: "seq_num \<Rightarrow> seq_num \<Rightarrow> epoch option" where
  "get_locked_epoch self epoch_length = do {
     b \<leftarrow> is_boundary_block self epoch_length;
     _ \<leftarrow> assert_p b;
     e \<leftarrow> to_epoch self epoch_length;
     epoch_add e 1
   }"

section \<open>Stake\<close>

definition stake_add :: "stake \<Rightarrow> stake \<Rightarrow> stake option" where
  "stake_add a b = checked_add u256_max a b"

definition stake_sub :: "stake \<Rightarrow> stake \<Rightarrow> stake option" where
  "stake_sub a b = checked_sub a b"

fun stake_fold :: "stake \<Rightarrow> stake list \<Rightarrow> stake option" where
  "stake_fold acc [] = Some acc"
| "stake_fold acc (x # xs) = do { a \<leftarrow> stake_add acc x; stake_fold a xs }"

definition stake_sum :: "stake list \<Rightarrow> stake option" where
  "stake_sum xs = stake_fold 0 xs"

section \<open>Bounded containers\<close>

definition bounded_u64_new :: "u64 \<Rightarrow> u64 \<Rightarrow> u64 option" where
  "bounded_u64_new hi value = (if value > hi then None else Some value)"

section \<open>Lemmas\<close>

lemma round_add_Some [simp]: "round_add a b = Some c \<longleftrightarrow> a + b \<le> u64_max \<and> c = a + b"
  by (simp add: round_add_def)

lemma round_add_None [simp]: "round_add a b = None \<longleftrightarrow> u64_max < a + b"
  by (simp add: round_add_def)

lemma round_sub_Some [simp]: "round_sub a b = Some c \<longleftrightarrow> b \<le> a \<and> c = a - b"
  by (simp add: round_sub_def)

lemma epoch_add_Some [simp]: "epoch_add a b = Some c \<longleftrightarrow> a + b \<le> u64_max \<and> c = a + b"
  by (simp add: epoch_add_def)

lemma seq_num_add_Some [simp]: "seq_num_add a b = Some c \<longleftrightarrow> a + b \<le> u64_max \<and> c = a + b"
  by (simp add: seq_num_add_def)

lemma seq_num_sub_Some [simp]: "seq_num_sub a b = Some c \<longleftrightarrow> b \<le> a \<and> c = a - b"
  by (simp add: seq_num_sub_def)

lemma immediately_follows_iff:
  "immediately_follows r p \<longleftrightarrow> r = p + 1 \<and> p < u64_max"
  by (auto simp: immediately_follows_def checked_add_def)

lemma round_span_single_total: "\<exists>sp. round_span_single s = Some sp"
  by (simp add: round_span_single_def round_add_def checked_add_def)

lemma round_span_single_contains:
  assumes "round_span_single s = Some (Some sp)"
  shows "round_span_contains sp r \<longleftrightarrow> r = s"
  using assms
  by (auto simp: round_span_single_def round_span_contains_def bind_eq_Some_conv split: if_splits)

lemma round_span_overlaps_iff:
  assumes "span_start a < span_end a" "span_start b < span_end b"
  shows "round_span_overlaps a b \<longleftrightarrow> (\<exists>r. round_span_contains a r \<and> round_span_contains b r)"
proof
  assume o: "round_span_overlaps a b"
  then show "\<exists>r. round_span_contains a r \<and> round_span_contains b r"
    using assms unfolding round_span_overlaps_def round_span_contains_def
    by (intro exI[of _ "max (span_start a) (span_start b)"]) auto
qed (auto simp: round_span_overlaps_def round_span_contains_def)

lemma is_boundary_block_Some:
  "is_boundary_block n len = Some b \<longleftrightarrow> len \<noteq> 0 \<and> b = (n mod len = len - 1)"
  by (auto simp: is_boundary_block_def seq_num_rem_def bind_eq_Some_conv)

lemma to_epoch_Some:
  "n div len < u64_max \<Longrightarrow> to_epoch n len = Some e \<longleftrightarrow> len \<noteq> 0 \<and> e = n div len + 1"
  by (auto simp: to_epoch_def bind_eq_Some_conv wrapping_add_exact)

lemma to_epoch_range:
  assumes "0 < len" "n div len < u64_max"
  shows "to_epoch n len = Some e \<longleftrightarrow> 0 < e \<and> (e - 1) * len \<le> n \<and> n < e * len"
proof -
  have "e = n div len + 1 \<longleftrightarrow> 0 < e \<and> (e - 1) * len \<le> n \<and> n < e * len"
  proof
    assume "e = n div len + 1"
    then show "0 < e \<and> (e - 1) * len \<le> n \<and> n < e * len"
      using assms(1) by (simp add: dividend_less_div_times)
  next
    assume r: "0 < e \<and> (e - 1) * len \<le> n \<and> n < e * len"
    then have "n div len = e - 1"
      by (intro div_nat_eqI) (auto simp: mult.commute)
    then show "e = n div len + 1" using r by simp
  qed
  then show ?thesis using to_epoch_Some[OF assms(2)] assms(1) by auto
qed

lemma boundary_block_next_epoch:
  assumes "is_boundary_block n len = Some True"
  shows "(n + 1) div len = n div len + 1"
proof -
  have "n mod len = len - 1" "0 < len"
    using assms by (auto simp: is_boundary_block_Some)
  then show ?thesis by (simp add: div_Suc mod_Suc)
qed

lemma get_locked_epoch_Some:
  assumes "n div len + 1 < u64_max"
  shows "get_locked_epoch n len = Some e \<longleftrightarrow>
           len \<noteq> 0 \<and> n mod len = len - 1 \<and> e = n div len + 2"
  using assms
  by (auto simp: get_locked_epoch_def bind_eq_Some_conv is_boundary_block_Some to_epoch_Some)

lemma stake_fold_Some: "stake_fold a xs = Some t \<Longrightarrow> t = a + sum_list xs \<and> (xs \<noteq> [] \<longrightarrow> t \<le> u256_max)"
  by (induction a xs rule: stake_fold.induct)
     (fastforce simp: bind_eq_Some_conv stake_add_def)+

lemma stake_fold_exact: "a + sum_list xs \<le> u256_max \<Longrightarrow> stake_fold a xs = Some (a + sum_list xs)"
  by (induction a xs rule: stake_fold.induct) (auto simp: bind_eq_Some_conv stake_add_def checked_add_def)

lemma stake_sum_exact: "sum_list xs \<le> u256_max \<Longrightarrow> stake_sum xs = Some (sum_list xs)"
  using stake_fold_exact[of 0 xs] by (simp add: stake_sum_def)

lemma stake_sum_Some: "stake_sum xs = Some t \<longleftrightarrow> t = sum_list xs \<and> sum_list xs \<le> u256_max"
proof
  assume "stake_sum xs = Some t"
  then show "t = sum_list xs \<and> sum_list xs \<le> u256_max"
    using stake_fold_Some[of 0 xs t] by (cases xs) (auto simp: stake_sum_def)
qed (simp add: stake_sum_exact)

end
