(* ===== verification/Validator_Set.thy ===== *)
theory Validator_Set
  imports Monad_Types
begin

text \<open>
  \<^verbatim>\<open>monad-validator/src/validator_set.rs\<close>: the stake-weighted validator set, its factory and
  its vote thresholds.

  The thresholds are computed with the operators of \<^verbatim>\<open>alloy_primitives::U256\<close>, which wrap
  modulo \<open>2 ^ 256\<close>; the sums of stakes use the checked \<^verbatim>\<open>Add\<close> of \<^verbatim>\<open>Stake\<close>, which panics.
  The lemmas give the meaning of the thresholds as fractions of the total stake, and the
  quorum intersection facts the consensus protocol rests on, as an interpretation of the
  locale \<open>quorum_system\<close>.
\<close>

datatype validator_set_creation_error =
    EmptyValidatorSet
  | ZeroStakeValidator node_id
  | DuplicateValidatorCreate node_id

datatype validator_set_error = DuplicateValidator node_id

record validator_set =
  validators :: "(node_id, stake) btree_map"
  total_stake :: stake

fun vs_create_loop ::
  "(node_id \<times> stake) list \<Rightarrow> (node_id, stake) btree_map \<Rightarrow> stake
     \<Rightarrow> (validator_set_creation_error + (node_id, stake) btree_map \<times> stake) option" where
  "vs_create_loop [] vmap tot = ok (vmap, tot)"
| "vs_create_loop ((node_id, st) # rest) vmap tot =
     (if st = 0 then err (ZeroStakeValidator node_id)
      else if bt_get vmap node_id \<noteq> None then err (DuplicateValidatorCreate node_id)
      else try_bind (no_err (stake_add tot st)) (\<lambda>tot'.
             vs_create_loop rest (bt_insert node_id st vmap) tot'))"

definition vs_create ::
  "(node_id \<times> stake) list \<Rightarrow> (validator_set_creation_error + validator_set) option" where
  "vs_create vs =
     try_bind (vs_create_loop vs [] 0) (\<lambda>(vmap, tot).
       if vmap = [] then err EmptyValidatorSet
       else ok \<lparr>validators = vmap, total_stake = tot\<rparr>)"

definition vs_new_unchecked :: "(node_id, stake) btree_map \<Rightarrow> validator_set option" where
  "vs_new_unchecked m = do {
     tot \<leftarrow> stake_sum (bt_values m);
     Some \<lparr>validators = m, total_stake = tot\<rparr>
   }"

definition is_member :: "validator_set \<Rightarrow> node_id \<Rightarrow> bool" where
  "is_member vs addr \<longleftrightarrow> bt_get (validators vs) addr \<noteq> None"

fun first_duplicate :: "'a list \<Rightarrow> 'a list \<Rightarrow> 'a option" where
  "first_duplicate seen [] = None"
| "first_duplicate seen (x # xs) =
     (if x \<in> set seen then Some x else first_duplicate (x # seen) xs)"

definition calculate_current_stake ::
  "validator_set \<Rightarrow> node_id list \<Rightarrow> (validator_set_error + stake) option" where
  "calculate_current_stake vs addrs =
     (case first_duplicate [] addrs of
        Some node \<Rightarrow> err (DuplicateValidator node)
      | None \<Rightarrow> no_err (stake_sum (List.map_filter (bt_get (validators vs)) addrs)))"

definition has_threshold_votes ::
  "validator_set \<Rightarrow> node_id list \<Rightarrow> stake \<Rightarrow> (validator_set_error + bool) option" where
  "has_threshold_votes vs addrs threshold =
     try_bind (calculate_current_stake vs addrs) (\<lambda>voter_stake. ok (voter_stake \<ge> threshold))"

definition super_majority_threshold :: "validator_set \<Rightarrow> stake" where
  "super_majority_threshold vs =
     wrapping_add u256_max (wrapping_mul u256_max (total_stake vs) 2 div 3) 1"

definition honest_threshold :: "validator_set \<Rightarrow> stake" where
  "honest_threshold vs = wrapping_add u256_max (total_stake vs div 3) 1"

definition has_super_majority_votes ::
  "validator_set \<Rightarrow> node_id list \<Rightarrow> (validator_set_error + bool) option" where
  "has_super_majority_votes vs addrs = has_threshold_votes vs addrs (super_majority_threshold vs)"

definition has_honest_vote ::
  "validator_set \<Rightarrow> node_id list \<Rightarrow> (validator_set_error + bool) option" where
  "has_honest_vote vs addrs = has_threshold_votes vs addrs (honest_threshold vs)"

text \<open>
  What the factory establishes.  \<open>vs_small\<close> is the bound under which doubling the total
  stake does not wrap; \<open>stake_of\<close> is the stake of a set of nodes.
\<close>

definition vs_valid :: "validator_set \<Rightarrow> bool" where
  "vs_valid vs \<longleftrightarrow>
     validators vs \<noteq> [] \<and> bt_wf (validators vs) \<and> (\<forall>e \<in> set (validators vs). 0 < snd e) \<and>
     total_stake vs = sum_list (map snd (validators vs)) \<and> total_stake vs \<le> u256_max"

definition vs_small :: "validator_set \<Rightarrow> bool" where
  "vs_small vs \<longleftrightarrow> 2 * total_stake vs \<le> u256_max"

definition stake_of :: "validator_set \<Rightarrow> node_id set \<Rightarrow> stake" where
  "stake_of vs A = (\<Sum>e \<leftarrow> validators vs. if fst e \<in> A then snd e else 0)"

definition super_majority :: "validator_set \<Rightarrow> node_id set \<Rightarrow> bool" where
  "super_majority vs A \<longleftrightarrow> 2 * total_stake vs < 3 * stake_of vs A"

definition tolerable :: "validator_set \<Rightarrow> node_id set \<Rightarrow> bool" where
  "tolerable vs F \<longleftrightarrow> 3 * stake_of vs F \<le> total_stake vs"

section \<open>The factory\<close>

lemma vs_create_loop_ok:
  "vs_create_loop xs m t = Some (Inr (m', t')) \<longleftrightarrow>
     distinct (map fst xs) \<and> fst ` set xs \<inter> fst ` set m = {} \<and> (\<forall>e \<in> set xs. snd e \<noteq> 0) \<and>
     (xs \<noteq> [] \<longrightarrow> t + sum_list (map snd xs) \<le> u256_max) \<and>
     m' = fold (\<lambda>(k, v). bt_insert k v) xs m \<and> t' = t + sum_list (map snd xs)"
proof (induction xs m t rule: vs_create_loop.induct)
  case (2 n s rest m t)
  have "map_of m n \<noteq> None \<longleftrightarrow> n \<in> fst ` set m"
    by (auto simp: map_of_eq_None_iff)
  then show ?case
    using 2 by (auto simp: result_simps stake_add_def)
qed auto

lemma bt_wf_fold_insert: "bt_wf m \<Longrightarrow> bt_wf (fold (\<lambda>(k, v). bt_insert k v) xs m)"
  by (induction xs arbitrary: m) auto

lemma sum_list_bt_insert:
  "bt_get m k = None \<Longrightarrow> sum_list (map snd (bt_insert k v m)) = v + sum_list (map snd m)"
  for v :: nat
  by (induction k v m rule: bt_insert.induct) (auto split: if_splits)

lemma set_bt_insert_new:
  "bt_get m k = None \<Longrightarrow> set (bt_insert k v m) = insert (k, v) (set m)"
  by (induction k v m rule: bt_insert.induct) (auto split: if_splits)

lemma fold_insert_set:
  assumes "distinct (map fst xs)" "fst ` set xs \<inter> fst ` set m = {}"
  shows "set (fold (\<lambda>(k, v). bt_insert k v) xs m) = set xs \<union> set m \<and>
         sum_list (map snd (fold (\<lambda>(k, v). bt_insert k v) xs m))
           = sum_list (map snd xs) + (sum_list (map snd m) :: nat)"
  using assms
proof (induction xs arbitrary: m)
  case (Cons e xs)
  obtain k v where e: "e = (k, v)" by (cases e)
  have n: "bt_get m k = None" using Cons.prems e by (auto simp: map_of_eq_None_iff)
  show ?case
    using Cons.IH[of "bt_insert k v m"] Cons.prems n e
    by (auto simp: sum_list_bt_insert set_bt_insert_new)
qed auto

lemma vs_create_ok_iff:
  "vs_create xs = Some (Inr vs) \<longleftrightarrow>
     xs \<noteq> [] \<and> distinct (map fst xs) \<and> (\<forall>e \<in> set xs. snd e \<noteq> 0) \<and>
     sum_list (map snd xs) \<le> u256_max \<and>
     vs = \<lparr>validators = bt_of_list xs, total_stake = sum_list (map snd xs)\<rparr>"
proof -
  have "bt_of_list xs = [] \<longleftrightarrow> xs = []" if "distinct (map fst xs)"
    using fold_insert_set[of xs "[]"] that by (auto simp: bt_of_list_def)
  then show ?thesis
    by (auto simp: vs_create_def result_simps vs_create_loop_ok bt_of_list_def split: if_splits)
qed

lemma vs_create_valid: "vs_create xs = Some (Inr vs) \<Longrightarrow> vs_valid vs"
  using fold_insert_set[of xs "[]"]
  by (auto simp: vs_create_ok_iff vs_valid_def bt_of_list_def bt_wf_fold_insert)

lemma vs_create_members: "vs_create xs = Some (Inr vs) \<Longrightarrow> set (validators vs) = set xs"
  using fold_insert_set[of xs "[]"] by (auto simp: vs_create_ok_iff bt_of_list_def)

lemma vs_valid_unique:
  assumes "vs_valid v" "vs_valid w" "set (validators v) = set (validators w)"
  shows "v = w"
proof -
  have "validators v = validators w"
    using assms bt_wf_distinct[of "validators w"]
    by (intro map_sorted_distinct_set_unique[of fst])
       (auto simp: vs_valid_def bt_wf_def strict_sorted_iff distinct_map)
  then show ?thesis using assms by (auto simp: vs_valid_def)
qed

section \<open>Stake of a set of nodes\<close>

lemma first_duplicate_None:
  "first_duplicate seen xs = None \<longleftrightarrow> distinct xs \<and> set xs \<inter> set seen = {}"
  by (induction seen xs rule: first_duplicate.induct) auto

lemma first_duplicate_Some_mem: "first_duplicate seen xs = Some x \<Longrightarrow> x \<in> set xs"
  by (induction seen xs rule: first_duplicate.induct) (auto split: if_splits)

lemma stake_of_Un_Int: "stake_of vs (A \<union> B) + stake_of vs (A \<inter> B) = stake_of vs A + stake_of vs B"
  unfolding stake_of_def sum_list_addf[symmetric]
  by (intro arg_cong[of _ _ sum_list] map_cong) auto

lemma stake_of_mono: "A \<subseteq> B \<Longrightarrow> stake_of vs A \<le> stake_of vs B"
  unfolding stake_of_def by (intro sum_list_mono) auto

lemma stake_of_empty [simp]: "stake_of vs {} = 0"
  by (simp add: stake_of_def)

lemma stake_of_le_total: "vs_valid vs \<Longrightarrow> stake_of vs A \<le> total_stake vs"
  unfolding vs_valid_def stake_of_def by (auto intro!: sum_list_mono)

lemma stake_of_insert:
  assumes "vs_valid vs" "a \<notin> A"
  shows "stake_of vs (insert a A) = entry_or 0 (bt_get (validators vs) a) + stake_of vs A"
proof -
  have "(\<Sum>e \<leftarrow> m. if fst e \<in> insert a A then snd e else 0) =
          entry_or 0 (map_of m a) + (\<Sum>e \<leftarrow> m. if fst e \<in> A then snd e else (0::nat))"
    if "distinct (map fst m)" for m :: "(node_id \<times> stake) list"
    using that
  proof (induction m)
    case (Cons e m)
    have "map_of m (fst e) = None" using Cons.prems by (auto simp: map_of_eq_None_iff)
    then show ?case using Cons assms(2) by (cases e) auto
  qed auto
  then show ?thesis
    using assms(1) by (simp add: stake_of_def vs_valid_def bt_wf_distinct)
qed

lemma sum_map_filter_stake:
  assumes "vs_valid vs" "distinct addrs"
  shows "sum_list (List.map_filter (bt_get (validators vs)) addrs) = stake_of vs (set addrs)"
  using assms(2)
proof (induction addrs)
  case (Cons a addrs)
  then show ?case
    using stake_of_insert[OF assms(1), of a "set addrs"]
    by (auto simp: List.map_filter_simps split: option.split)
qed (simp add: List.map_filter_simps)

lemma stake_of_member_pos:
  assumes "0 < stake_of vs A"
  shows "\<exists>n \<in> A. is_member vs n"
proof (rule ccontr)
  assume "\<not> ?thesis"
  then have "\<forall>e \<in> set (validators vs). fst e \<notin> A"
    by (auto simp: is_member_def map_of_eq_None_iff image_iff)
  then have "stake_of vs A = 0" by (auto simp: stake_of_def)
  then show False using assms by simp
qed

lemma stake_of_members: "stake_of vs {n \<in> A. is_member vs n} = stake_of vs A"
  unfolding stake_of_def is_member_def
  by (intro arg_cong[of _ _ sum_list] map_cong) (auto simp: map_of_eq_None_iff image_iff)

section \<open>Thresholds\<close>

lemma calculate_current_stake_distinct:
  assumes "vs_valid vs" "distinct addrs"
  shows "calculate_current_stake vs addrs = ok (stake_of vs (set addrs))"
proof -
  have "first_duplicate [] addrs = None" using assms(2) by (simp add: first_duplicate_None)
  moreover have "stake_of vs (set addrs) \<le> u256_max"
    using stake_of_le_total[OF assms(1)] assms(1) by (meson vs_valid_def order_trans)
  ultimately show ?thesis
    by (simp add: calculate_current_stake_def sum_map_filter_stake[OF assms] stake_sum_exact ok_def)
qed

lemma calculate_current_stake_duplicate:
  "\<not> distinct addrs \<Longrightarrow>
     \<exists>n \<in> set addrs. calculate_current_stake vs addrs = err (DuplicateValidator n)"
  using first_duplicate_None[of "[]" addrs] first_duplicate_Some_mem[of "[]" addrs]
  by (auto simp: calculate_current_stake_def)

lemma super_majority_threshold_exact:
  assumes "vs_small vs"
  shows "super_majority_threshold vs = total_stake vs * 2 div 3 + 1"
proof -
  have "total_stake vs * 2 \<le> u256_max" using assms by (simp add: vs_small_def)
  moreover have "total_stake vs * 2 div 3 + 1 \<le> u256_max"
    using calculation by (simp add: u256_max_def)
  ultimately show ?thesis
    unfolding super_majority_threshold_def by (simp only: wrapping_mul_exact wrapping_add_exact)
qed

lemma honest_threshold_exact:
  assumes "total_stake vs \<le> u256_max" shows "honest_threshold vs = total_stake vs div 3 + 1"
proof -
  have "total_stake vs div 3 + 1 \<le> u256_max"
    using assms by (cases "total_stake vs = 0") (simp_all add: u256_max_def)
  then show ?thesis unfolding honest_threshold_def by (rule wrapping_add_exact)
qed

lemma has_super_majority_votes_iff:
  assumes "vs_valid vs" "vs_small vs" "distinct addrs"
  shows "has_super_majority_votes vs addrs = ok (super_majority vs (set addrs))"
  using assms
  by (auto simp: has_super_majority_votes_def has_threshold_votes_def super_majority_def
        calculate_current_stake_distinct super_majority_threshold_exact)

lemma has_super_majority_votes_true:
  assumes "vs_valid vs" "vs_small vs" "has_super_majority_votes vs addrs = Some (Inr True)"
  shows "distinct addrs \<and> super_majority vs (set addrs)"
proof -
  have "distinct addrs"
    using assms(3) calculate_current_stake_duplicate[of addrs vs]
    by (rule_tac ccontr) (auto simp: has_super_majority_votes_def has_threshold_votes_def result_simps)
  then show ?thesis using assms has_super_majority_votes_iff by (auto simp: ok_def)
qed

lemma has_honest_vote_iff:
  assumes "vs_valid vs" "distinct addrs"
  shows "has_honest_vote vs addrs = ok (total_stake vs < 3 * stake_of vs (set addrs))"
  using assms
  by (auto simp: has_honest_vote_def has_threshold_votes_def vs_valid_def
        calculate_current_stake_distinct[OF assms] honest_threshold_exact)

lemma all_validators_super_majority:
  assumes "vs_valid vs" "set (bt_keys (validators vs)) \<subseteq> A"
  shows "super_majority vs A"
proof -
  have "stake_of vs A = total_stake vs"
    using assms unfolding stake_of_def vs_valid_def bt_keys_def
    by (auto intro!: arg_cong[of _ _ sum_list] simp: image_subset_iff)
  moreover have "0 < total_stake vs"
    using assms(1) by (cases "validators vs") (auto simp: vs_valid_def)
  ultimately show ?thesis by (simp add: super_majority_def)
qed

lemma super_majority_mono: "super_majority vs A \<Longrightarrow> A \<subseteq> B \<Longrightarrow> super_majority vs B"
  unfolding super_majority_def using stake_of_mono[of A B vs] by linarith

section \<open>Quorum intersection\<close>

text \<open>
  The contract the protocol relies on: quorums meet outside the faulty nodes, and so does
  a quorum with a set that may contain an honest vote.
\<close>

locale quorum_system =
  fixes quorum :: "'n set \<Rightarrow> bool"
    and faulty :: "'n set"
    and member :: "'n \<Rightarrow> bool"
  assumes quorum_inter: "quorum A \<Longrightarrow> quorum B \<Longrightarrow> \<exists>n \<in> A \<inter> B. n \<notin> faulty \<and> member n"
begin

lemma quorum_honest: "quorum A \<Longrightarrow> \<exists>n \<in> A. n \<notin> faulty \<and> member n"
  using quorum_inter[of A A] by auto

lemma quorum_agree:
  assumes "quorum A" "quorum B"
    and "\<And>n. n \<in> A \<Longrightarrow> n \<notin> faulty \<Longrightarrow> choice n = a"
    and "\<And>n. n \<in> B \<Longrightarrow> n \<notin> faulty \<Longrightarrow> choice n = b"
  shows "a = b"
  using quorum_inter[OF assms(1,2)] assms(3,4) by auto

lemma quorum_not_faulty: "quorum A \<Longrightarrow> \<not> A \<subseteq> faulty"
  using quorum_honest by auto

end

definition byz_quorum :: "validator_set \<Rightarrow> node_id set \<Rightarrow> node_id set \<Rightarrow> bool" where
  "byz_quorum vs F A \<longleftrightarrow> vs_valid vs \<and> tolerable vs F \<and> super_majority vs A"

lemma super_majority_inter_stake:
  assumes "vs_valid vs" "super_majority vs A" "super_majority vs B"
  shows "total_stake vs < 3 * stake_of vs (A \<inter> B)"
proof -
  have "stake_of vs (A \<union> B) \<le> total_stake vs" by (rule stake_of_le_total[OF assms(1)])
  then show ?thesis
    using assms(2,3) stake_of_Un_Int[of vs A B] unfolding super_majority_def by linarith
qed

lemma above_third_not_faulty:
  assumes "tolerable vs F" "total_stake vs < 3 * stake_of vs A"
  shows "\<exists>n \<in> A. n \<notin> F \<and> is_member vs n"
proof -
  have "stake_of vs A \<le> stake_of vs (A - F) + stake_of vs F"
    using stake_of_Un_Int[of vs "A - F" F] stake_of_mono[of A "A - F \<union> F" vs] by auto
  then have "0 < stake_of vs (A - F)" using assms by (simp add: tolerable_def)
  then show ?thesis using stake_of_member_pos[of vs "A - F"] by auto
qed

interpretation vsq: quorum_system "byz_quorum vs F" F "is_member vs" for vs F
proof
  fix A B assume "byz_quorum vs F A" "byz_quorum vs F B"
  then show "\<exists>n \<in> A \<inter> B. n \<notin> F \<and> is_member vs n"
    using super_majority_inter_stake[of vs A B] above_third_not_faulty[of vs F "A \<inter> B"]
    by (auto simp: byz_quorum_def)
qed

section \<open>Properties\<close>

text \<open>
  C28: quorum intersection.  When the total stake is small enough for the threshold not to
  wrap and the faulty nodes hold at most a third of it, any two lists of addresses that pass
  \<open>has_super_majority_votes\<close> share a validator that is not faulty.
\<close>
theorem super_majorities_share_honest_validator:
  assumes "vs_valid vs" "vs_small vs" "tolerable vs F"
    and "has_super_majority_votes vs as = Some (Inr True)"
    and "has_super_majority_votes vs bs = Some (Inr True)"
  shows "\<exists>n \<in> set as \<inter> set bs. n \<notin> F \<and> is_member vs n"
  by (rule vsq.quorum_inter[of vs F])
     (use assms has_super_majority_votes_true in \<open>auto simp: byz_quorum_def\<close>)

definition example_vs :: validator_set where
  "example_vs = \<lparr>validators = [(1, 1), (2, 1), (3, 1), (4, 1)], total_stake = 4\<rparr>"

theorem super_majorities_share_honest_validator_witness:
  "\<exists>n \<in> set [1, 2, 3] \<inter> set [2, 4, 3]. n \<notin> {3} \<and> is_member example_vs n"
  by (rule super_majorities_share_honest_validator)
     (simp_all add: example_vs_def vs_valid_def bt_wf_def vs_small_def tolerable_def stake_of_def
        u256_max_def has_super_majority_votes_def has_threshold_votes_def
        calculate_current_stake_def List.map_filter_def stake_sum_def stake_add_def
        super_majority_threshold_def wrapping_add_def wrapping_mul_def checked_add_def ok_def)

text \<open>
  A list of addresses that passes \<open>has_honest_vote\<close> contains a validator that is not
  faulty, as long as the faulty nodes hold at most a third of the stake.
\<close>
theorem honest_vote_contains_honest_validator:
  assumes "vs_valid vs" "tolerable vs F" "distinct as"
    and "has_honest_vote vs as = Some (Inr True)"
  shows "\<exists>n \<in> set as. n \<notin> F \<and> is_member vs n"
  using assms above_third_not_faulty[of vs F "set as"] by (simp add: has_honest_vote_iff)

theorem honest_vote_contains_honest_validator_witness:
  "\<exists>n \<in> set [1, 2]. n \<notin> {2} \<and> is_member example_vs n"
  by (rule honest_vote_contains_honest_validator)
     (simp_all add: example_vs_def vs_valid_def bt_wf_def tolerable_def stake_of_def
        u256_max_def has_honest_vote_def has_threshold_votes_def
        calculate_current_stake_def List.map_filter_def stake_sum_def stake_add_def
        honest_threshold_def wrapping_add_def checked_add_def ok_def)

text \<open>
  The factory accepts exactly the non-empty lists without duplicates, without zero
  stakes and whose total fits a \<open>U256\<close>; what it returns is a valid set holding exactly the
  given entries.
\<close>
theorem vs_create_correct:
  "vs_create xs = Some (Inr vs) \<longleftrightarrow>
     xs \<noteq> [] \<and> distinct (map fst xs) \<and> 0 \<notin> snd ` set xs \<and> sum_list (map snd xs) \<le> u256_max \<and>
     vs_valid vs \<and> set (validators vs) = set xs"
  (is "?L \<longleftrightarrow> ?R")
proof
  assume ?L
  then show ?R using vs_create_valid vs_create_members by (auto simp: vs_create_ok_iff)
next
  assume R: ?R
  let ?vs = "\<lparr>validators = bt_of_list xs, total_stake = sum_list (map snd xs)\<rparr>"
  have c: "vs_create xs = Some (Inr ?vs)"
    unfolding vs_create_ok_iff using R by (auto simp: image_iff)
  then have "?vs = vs"
    using R vs_create_valid[OF c] vs_create_members[OF c] by (intro vs_valid_unique) auto
  then show ?L using c by simp
qed

end
