(* ===== verification/Signature_Collection.thy ===== *)
theory Signature_Collection
  imports Monad_Types
begin

text \<open>
  Signatures and signature collections.

  \<^item> \<^verbatim>\<open>monad-crypto/src/signing_domain.rs\<close>: the domain prefixes (bytes are naturals).
  \<^item> \<^verbatim>\<open>monad-crypto/src/certificate_signature.rs\<close>: \<^verbatim>\<open>NopSignature\<close>, with the hash of the standard
    library as a parameter \<open>h\<close>.
  \<^item> \<^verbatim>\<open>monad-validator/src/signature_collection.rs\<close>: the trait, as the record \<open>sct_ops\<close> of its
    operations and the locale \<open>sct_laws\<close> of what the consensus code relies on.
  \<^item> \<^verbatim>\<open>monad-multi-sig/src/lib.rs\<close>: \<^verbatim>\<open>MultiSig\<close>, for any recoverable signature scheme, and the
    proof that it satisfies \<open>sct_laws\<close>.
\<close>

type_synonym bytes = "nat list"
type_synonym cert_pubkey = nat
type_synonym validator_mapping = "(node_id, cert_pubkey) btree_map"

datatype signing_domain =
    DomainConsensusMessage
  | DomainTip
  | DomainVote
  | DomainTimeout
  | DomainNoEndorsement
  | DomainRoundSignature
  | DomainNameRecord
  | DomainRaptorcastAppMessage
  | DomainRaptorcastChunk

definition ascii :: "string \<Rightarrow> bytes" where
  "ascii s = map of_char s"

fun signing_prefix :: "signing_domain \<Rightarrow> bytes" where
  "signing_prefix DomainConsensusMessage = 26 # ascii ''monad/consensus-message/1'' @ [10]"
| "signing_prefix DomainTip = 12 # ascii ''monad/tip/1'' @ [10]"
| "signing_prefix DomainVote = 13 # ascii ''monad/vote/1'' @ [10]"
| "signing_prefix DomainTimeout = 16 # ascii ''monad/timeout/1'' @ [10]"
| "signing_prefix DomainNoEndorsement = 23 # ascii ''monad/no-endorsement/1'' @ [10]"
| "signing_prefix DomainRoundSignature = 24 # ascii ''monad/round-signature/1'' @ [10]"
| "signing_prefix DomainNameRecord = 20 # ascii ''monad/name-record/1'' @ [10]"
| "signing_prefix DomainRaptorcastAppMessage = 31 # ascii ''monad/raptorcast-app-message/1'' @ [10]"
| "signing_prefix DomainRaptorcastChunk = 25 # ascii ''monad/raptorcast-chunk/1'' @ [10]"

definition signing_prefix_ok :: "bytes \<Rightarrow> bool" where
  "signing_prefix_ok prefix \<longleftrightarrow>
     hd prefix < 128 \<and> hd prefix = length prefix - 1 \<and> last prefix = 10"

section \<open>The trait\<close>

datatype 's sct_error =
    NodeIdNotInMapping "(node_id \<times> 's) list"
  | ConflictingSignatures "node_id \<times> 's \<times> 's"
  | InvalidSignaturesCreate "(node_id \<times> 's) list"
  | InvalidSignaturesVerify
  | DeserializeError string

record ('s, 'c) sct_ops =
  sct_new :: "signing_domain \<Rightarrow> (node_id \<times> 's) list \<Rightarrow> validator_mapping \<Rightarrow> bytes \<Rightarrow> 's sct_error + 'c"
  sct_verify :: "signing_domain \<Rightarrow> 'c \<Rightarrow> validator_mapping \<Rightarrow> bytes \<Rightarrow> 's sct_error + node_id list"
  num_signatures :: "'c \<Rightarrow> nat"

record 's sig_ops =
  sig_recover :: "signing_domain \<Rightarrow> bytes \<Rightarrow> 's \<Rightarrow> cert_pubkey option"
  sig_verify :: "signing_domain \<Rightarrow> bytes \<Rightarrow> cert_pubkey \<Rightarrow> 's \<Rightarrow> bool"

section \<open>NopSignature\<close>

record nop_signature =
  nop_pubkey :: cert_pubkey
  nop_id :: u64

definition nop_sign ::
  "(bytes \<Rightarrow> u64) \<Rightarrow> signing_domain \<Rightarrow> bytes \<Rightarrow> cert_pubkey \<Rightarrow> nop_signature" where
  "nop_sign h d msg keypair = \<lparr>nop_pubkey = keypair, nop_id = h (signing_prefix d @ msg)\<rparr>"

definition nop_verify ::
  "(bytes \<Rightarrow> u64) \<Rightarrow> signing_domain \<Rightarrow> bytes \<Rightarrow> cert_pubkey \<Rightarrow> nop_signature \<Rightarrow> bool" where
  "nop_verify h d msg pubkey self =
     (if nop_pubkey self = pubkey then nop_id self = h (signing_prefix d @ msg) else False)"

definition nop_recover_pubkey ::
  "(bytes \<Rightarrow> u64) \<Rightarrow> signing_domain \<Rightarrow> bytes \<Rightarrow> nop_signature \<Rightarrow> cert_pubkey option" where
  "nop_recover_pubkey h d msg self =
     (if nop_id self = h (signing_prefix d @ msg) then Some (nop_pubkey self) else None)"

definition nop_ops :: "(bytes \<Rightarrow> u64) \<Rightarrow> nop_signature sig_ops" where
  "nop_ops h = \<lparr>sig_recover = nop_recover_pubkey h, sig_verify = nop_verify h\<rparr>"

section \<open>MultiSig\<close>

record 's multi_sig =
  ms_sigs :: "'s list"

record 's ms_acc =
  acc_sig_map :: "(node_id, 's) btree_map"
  acc_external :: "(node_id \<times> 's) list"
  acc_invalid :: "(node_id \<times> 's) list"

fun ms_new_loop ::
  "'s sig_ops \<Rightarrow> signing_domain \<Rightarrow> validator_mapping \<Rightarrow> bytes \<Rightarrow> (node_id \<times> 's) list
     \<Rightarrow> 's ms_acc \<Rightarrow> 's sct_error + 's ms_acc" where
  "ms_new_loop S d vm msg [] a = Inr a"
| "ms_new_loop S d vm msg ((node_id, s) # rest) a =
     (case bt_get vm node_id of
        None \<Rightarrow>
          ms_new_loop S d vm msg rest (a\<lparr>acc_external := acc_external a @ [(node_id, s)]\<rparr>)
      | Some pubkey \<Rightarrow>
          (case sig_recover S d msg s of
             None \<Rightarrow>
               ms_new_loop S d vm msg rest (a\<lparr>acc_invalid := acc_invalid a @ [(node_id, s)]\<rparr>)
           | Some pubkey_recovered \<Rightarrow>
               if pubkey_recovered \<noteq> pubkey \<or> \<not> sig_verify S d msg pubkey s then
                 ms_new_loop S d vm msg rest (a\<lparr>acc_invalid := acc_invalid a @ [(node_id, s)]\<rparr>)
               else
                 (let sig_entry = entry_or s (bt_get (acc_sig_map a) node_id) in
                  if sig_entry \<noteq> s then Inl (ConflictingSignatures (node_id, sig_entry, s))
                  else ms_new_loop S d vm msg rest
                         (a\<lparr>acc_sig_map := bt_insert node_id sig_entry (acc_sig_map a)\<rparr>))))"

definition ms_new ::
  "'s sig_ops \<Rightarrow> signing_domain \<Rightarrow> (node_id \<times> 's) list \<Rightarrow> validator_mapping \<Rightarrow> bytes
     \<Rightarrow> 's sct_error + 's multi_sig" where
  "ms_new S d ss vm msg =
     (case ms_new_loop S d vm msg ss \<lparr>acc_sig_map = [], acc_external = [], acc_invalid = []\<rparr> of
        Inl e \<Rightarrow> Inl e
      | Inr a \<Rightarrow>
          if acc_external a \<noteq> [] then Inl (NodeIdNotInMapping (acc_external a))
          else if acc_invalid a \<noteq> [] then Inl (InvalidSignaturesCreate (acc_invalid a))
          else Inr \<lparr>ms_sigs = bt_values (acc_sig_map a)\<rparr>)"

fun ms_recover_loop ::
  "'s sig_ops \<Rightarrow> signing_domain \<Rightarrow> bytes \<Rightarrow> 's list \<Rightarrow> (cert_pubkey, 's) hash_map \<times> 's list
     \<Rightarrow> (cert_pubkey, 's) hash_map \<times> 's list" where
  "ms_recover_loop S d msg [] a = a"
| "ms_recover_loop S d msg (s # rest) (verified, invalid) =
     (case sig_recover S d msg s of
        None \<Rightarrow> ms_recover_loop S d msg rest (verified, invalid @ [s])
      | Some pubkey \<Rightarrow>
          if \<not> sig_verify S d msg pubkey s then
            ms_recover_loop S d msg rest (verified, invalid @ [s])
          else ms_recover_loop S d msg rest (AList.update pubkey s verified, invalid))"

fun ms_claim_loop ::
  "validator_mapping \<Rightarrow> (cert_pubkey, 's) hash_map \<Rightarrow> node_id list
     \<Rightarrow> (cert_pubkey, 's) hash_map \<times> node_id list" where
  "ms_claim_loop [] verified node_ids = (verified, node_ids)"
| "ms_claim_loop ((node_id, pk) # rest) verified node_ids =
     (if map_of verified pk \<noteq> None
      then ms_claim_loop rest (AList.delete pk verified) (node_ids @ [node_id])
      else ms_claim_loop rest verified node_ids)"

definition ms_verify ::
  "'s sig_ops \<Rightarrow> signing_domain \<Rightarrow> 's multi_sig \<Rightarrow> validator_mapping \<Rightarrow> bytes
     \<Rightarrow> 's sct_error + node_id list" where
  "ms_verify S d self vm msg =
     (let (verified, invalid) = ms_recover_loop S d msg (ms_sigs self) ([], []);
          (unclaimed, node_ids) = ms_claim_loop vm verified [];
          invalid_sigs = invalid @ map snd unclaimed
      in if invalid_sigs \<noteq> [] then Inl InvalidSignaturesVerify else Inr node_ids)"

definition ms_num_signatures :: "'s multi_sig \<Rightarrow> nat" where
  "ms_num_signatures self = length (ms_sigs self)"

definition ms_ops :: "'s sig_ops \<Rightarrow> ('s, 's multi_sig) sct_ops" where
  "ms_ops S = \<lparr>sct_new = ms_new S, sct_verify = ms_verify S, num_signatures = ms_num_signatures\<rparr>"

definition ms_valid :: "'s sig_ops \<Rightarrow> signing_domain \<Rightarrow> bytes \<Rightarrow> cert_pubkey \<Rightarrow> 's \<Rightarrow> bool" where
  "ms_valid S d msg pk s \<longleftrightarrow> sig_recover S d msg s = Some pk \<and> sig_verify S d msg pk s"

definition vm_inj :: "validator_mapping \<Rightarrow> bool" where
  "vm_inj vm \<longleftrightarrow> bt_wf vm \<and> distinct (map snd vm)"

section \<open>Domain separation\<close>

lemma signing_prefixes_ok: "signing_prefix_ok (signing_prefix d)"
  by (cases d) (simp_all add: signing_prefix_ok_def ascii_def)

lemma signing_prefix_length: "length (signing_prefix d) = hd (signing_prefix d) + 1"
  by (cases d) (simp_all add: ascii_def)

lemma signing_prefix_inj: "hd (signing_prefix d) = hd (signing_prefix e) \<Longrightarrow> d = e"
  by (cases d; cases e) simp_all

section \<open>The contract of a signature collection\<close>

text \<open>
  \<open>valid d msg pk s\<close> says that \<open>s\<close> is a signature of \<open>msg\<close> under the certificate key \<open>pk\<close>.
  With at most one signature per known validator, \<open>new\<close> either succeeds or names exactly
  signatures it was given that are invalid; a collection that was created verifies and
  returns its signers; a collection that verifies names distinct validators each of whom has
  a valid signature.
\<close>

locale sct_laws =
  fixes ops :: "('s, 'c, 'z) sct_ops_scheme"
    and valid :: "signing_domain \<Rightarrow> bytes \<Rightarrow> cert_pubkey \<Rightarrow> 's \<Rightarrow> bool"
  assumes new_all_valid:
    "bt_wf vm \<Longrightarrow> distinct (map fst ss) \<Longrightarrow>
     (\<And>n s. (n, s) \<in> set ss \<Longrightarrow> \<exists>pk. bt_get vm n = Some pk \<and> valid d msg pk s) \<Longrightarrow>
     \<exists>c. sct_new ops d ss vm msg = Inr c"
    and new_some_invalid:
    "bt_wf vm \<Longrightarrow> distinct (map fst ss) \<Longrightarrow> fst ` set ss \<subseteq> dom (bt_get vm) \<Longrightarrow>
     sct_new ops d ss vm msg = Inl e \<Longrightarrow>
     \<exists>bad. e = InvalidSignaturesCreate bad \<and> bad \<noteq> [] \<and> set bad \<subseteq> set ss \<and>
       (\<forall>(n, s) \<in> set bad. \<forall>pk. bt_get vm n = Some pk \<longrightarrow> \<not> valid d msg pk s)"
    and new_verify:
    "vm_inj vm \<Longrightarrow> sct_new ops d ss vm msg = Inr c \<Longrightarrow>
     \<exists>ids. sct_verify ops d c vm msg = Inr ids \<and> set ids = fst ` set ss"
    and verify_sound:
    "bt_wf vm \<Longrightarrow> sct_verify ops d c vm msg = Inr ids \<Longrightarrow>
     distinct ids \<and> (\<forall>n \<in> set ids. \<exists>pk s. bt_get vm n = Some pk \<and> valid d msg pk s)"
begin

lemma new_ok_signers:
  assumes "vm_inj vm" "sct_new ops d ss vm msg = Inr c" "n \<in> fst ` set ss"
  shows "\<exists>pk s. bt_get vm n = Some pk \<and> valid d msg pk s"
proof -
  obtain ids where "sct_verify ops d c vm msg = Inr ids" "set ids = fst ` set ss"
    using new_verify[OF assms(1,2)] by auto
  then show ?thesis using verify_sound[of vm d c msg ids] assms(1,3) by (auto simp: vm_inj_def)
qed

lemma verify_members:
  "bt_wf vm \<Longrightarrow> sct_verify ops d c vm msg = Inr ids \<Longrightarrow> set ids \<subseteq> dom (bt_get vm)"
  using verify_sound[of vm d c msg ids] by auto

end

section \<open>MultiSig satisfies the contract\<close>

definition ms_sig_ok :: "'s sig_ops \<Rightarrow> signing_domain \<Rightarrow> validator_mapping \<Rightarrow> bytes \<Rightarrow> node_id \<times> 's \<Rightarrow> bool" where
  "ms_sig_ok S d vm msg e =
     (case bt_get vm (fst e) of None \<Rightarrow> False | Some pk \<Rightarrow> ms_valid S d msg pk (snd e))"

lemma ms_new_loop_Cons:
  "ms_new_loop S d vm msg (e # rest) a =
     (if bt_get vm (fst e) = None
      then ms_new_loop S d vm msg rest (a\<lparr>acc_external := acc_external a @ [e]\<rparr>)
      else if \<not> ms_sig_ok S d vm msg e
      then ms_new_loop S d vm msg rest (a\<lparr>acc_invalid := acc_invalid a @ [e]\<rparr>)
      else if bt_get (acc_sig_map a) (fst e) \<noteq> None \<and> bt_get (acc_sig_map a) (fst e) \<noteq> Some (snd e)
      then Inl (ConflictingSignatures (fst e, the (bt_get (acc_sig_map a) (fst e)), snd e))
      else ms_new_loop S d vm msg rest
             (a\<lparr>acc_sig_map := bt_insert (fst e) (snd e) (acc_sig_map a)\<rparr>))"
  by (cases e) (auto simp: ms_sig_ok_def ms_valid_def Let_def split: option.splits)

lemma ms_new_loop_ok:
  assumes "ms_new_loop S d vm msg ss a = Inr a'"
  shows "acc_external a' = acc_external a @ filter (\<lambda>e. bt_get vm (fst e) = None) ss"
    and "acc_invalid a' = acc_invalid a @
           filter (\<lambda>e. bt_get vm (fst e) \<noteq> None \<and> \<not> ms_sig_ok S d vm msg e) ss"
    and "dom (bt_get (acc_sig_map a')) =
           dom (bt_get (acc_sig_map a)) \<union> fst ` {e \<in> set ss. ms_sig_ok S d vm msg e}"
  using assms
proof (induction ss arbitrary: a)
  case (Cons e ss)
  {
    case 1 then show ?case using Cons.IH(1)
      by (auto simp: ms_new_loop_Cons simp del: ms_new_loop.simps split: if_splits)
  next
    case 2 then show ?case using Cons.IH(2)
      by (auto simp: ms_new_loop_Cons ms_sig_ok_def simp del: ms_new_loop.simps split: if_splits)
  next
    case 3 then show ?case using Cons.IH(3)
      by (auto simp: ms_new_loop_Cons simp del: ms_new_loop.simps split: if_splits)
         (auto simp: ms_sig_ok_def)
  }
qed auto

lemma ms_new_loop_step:
  assumes "bt_get (acc_sig_map a) (fst e) \<in> {None, Some (snd e)} \<or> ms_new_loop S d vm msg (e # ss) a = Inr a'"
  shows "\<exists>b. ms_new_loop S d vm msg (e # ss) a = ms_new_loop S d vm msg ss b \<and>
             (acc_sig_map b = acc_sig_map a \<or>
              ms_sig_ok S d vm msg e \<and> acc_sig_map b = bt_insert (fst e) (snd e) (acc_sig_map a))"
proof -
  let ?b = "if bt_get vm (fst e) = None then a\<lparr>acc_external := acc_external a @ [e]\<rparr>
            else if \<not> ms_sig_ok S d vm msg e then a\<lparr>acc_invalid := acc_invalid a @ [e]\<rparr>
            else a\<lparr>acc_sig_map := bt_insert (fst e) (snd e) (acc_sig_map a)\<rparr>"
  have "ms_new_loop S d vm msg (e # ss) a = ms_new_loop S d vm msg ss ?b"
    using assms by (auto simp: ms_new_loop_Cons simp del: ms_new_loop.simps split: if_splits)
  then show ?thesis by (intro exI[of _ ?b]) simp
qed

lemma ms_new_loop_map:
  assumes "ms_new_loop S d vm msg ss a = Inr a'"
    and "bt_wf (acc_sig_map a)"
    and "\<And>n s. bt_get (acc_sig_map a) n = Some s \<Longrightarrow> ms_sig_ok S d vm msg (n, s)"
  shows "bt_wf (acc_sig_map a') \<and>
         (\<forall>n s. bt_get (acc_sig_map a') n = Some s \<longrightarrow> ms_sig_ok S d vm msg (n, s))"
  using assms
proof (induction ss arbitrary: a)
  case (Cons e ss)
  then obtain b where b: "ms_new_loop S d vm msg ss b = Inr a'"
    "acc_sig_map b = acc_sig_map a \<or>
     ms_sig_ok S d vm msg e \<and> acc_sig_map b = bt_insert (fst e) (snd e) (acc_sig_map a)"
    using ms_new_loop_step[of a e S d vm msg ss a'] by metis
  show ?case
    by (rule Cons.IH[OF b(1)]) (use b(2) Cons.prems(2,3) in \<open>auto split: if_splits\<close>)
qed auto

lemma ms_new_loop_no_conflict:
  assumes "distinct (map fst ss)" "fst ` set ss \<inter> dom (bt_get (acc_sig_map a)) = {}"
  shows "\<exists>a'. ms_new_loop S d vm msg ss a = Inr a'"
  using assms
proof (induction ss arbitrary: a)
  case (Cons e ss)
  have "bt_get (acc_sig_map a) (fst e) = None" using Cons.prems(2) by (auto simp: dom_def)
  then obtain b where b: "ms_new_loop S d vm msg (e # ss) a = ms_new_loop S d vm msg ss b"
    "acc_sig_map b = acc_sig_map a \<or> acc_sig_map b = bt_insert (fst e) (snd e) (acc_sig_map a)"
    using ms_new_loop_step[of a e S d vm msg ss] by auto
  have "dom (bt_get (acc_sig_map b)) \<subseteq> insert (fst e) (dom (bt_get (acc_sig_map a)))"
    using b(2) by auto
  moreover have "fst ` set ss \<inter> insert (fst e) (dom (bt_get (acc_sig_map a))) = {}"
    using Cons.prems by simp
  ultimately have "fst ` set ss \<inter> dom (bt_get (acc_sig_map b)) = {}" by blast
  then show ?case using Cons.IH[of b] Cons.prems(1) b(1) by simp
qed auto

lemma ms_new_ok:
  assumes "ms_new S d ss vm msg = Inr c"
  shows "\<exists>m. bt_wf m \<and> c = \<lparr>ms_sigs = bt_values m\<rparr> \<and> dom (bt_get m) = fst ` set ss \<and>
             (\<forall>n s. bt_get m n = Some s \<longrightarrow> ms_sig_ok S d vm msg (n, s))"
proof -
  obtain a where a: "ms_new_loop S d vm msg ss \<lparr>acc_sig_map = [], acc_external = [], acc_invalid = []\<rparr> = Inr a"
    "acc_external a = []" "acc_invalid a = []" "c = \<lparr>ms_sigs = bt_values (acc_sig_map a)\<rparr>"
    using assms by (auto simp: ms_new_def split: sum.splits if_splits)
  have "\<forall>e \<in> set ss. ms_sig_ok S d vm msg e"
    using ms_new_loop_ok(1,2)[OF a(1)] a(2,3) by (auto simp: filter_empty_conv eq_commute[of "[]"])
  then have "dom (bt_get (acc_sig_map a)) = fst ` set ss"
    using ms_new_loop_ok(3)[OF a(1)] by auto
  then show ?thesis using ms_new_loop_map[OF a(1)] a(4) by auto
qed

lemma ms_valid_known:
  "(\<exists>pk. ms_valid S d msg pk s) \<and> (\<forall>pk. ms_valid S d msg pk s \<longrightarrow> pk \<in> snd ` set vm) \<longleftrightarrow>
     (\<exists>n pk. (n, pk) \<in> set vm \<and> ms_valid S d msg pk s)"
  unfolding ms_valid_def by (cases "sig_recover S d msg s") force+

lemma ms_recover_loop_invalid:
  "snd (ms_recover_loop S d msg ss (v, bad)) = bad @ filter (\<lambda>s. \<nexists>pk. ms_valid S d msg pk s) ss"
  by (induction ss arbitrary: v bad) (auto simp: ms_valid_def split: option.splits)

lemma ms_recover_loop_verified:
  assumes "hm_wf v"
  shows "hm_wf (fst (ms_recover_loop S d msg ss (v, bad))) \<and>
         dom (map_of (fst (ms_recover_loop S d msg ss (v, bad)))) =
           dom (map_of v) \<union> {pk. \<exists>s \<in> set ss. ms_valid S d msg pk s}"
  using assms
proof (induction ss arbitrary: v bad)
  case (Cons s ss)
  show ?case
  proof (cases "\<exists>pk. ms_valid S d msg pk s")
    case True
    then obtain pk where pk: "ms_valid S d msg pk s" by auto
    then have "ms_valid S d msg qk s \<longleftrightarrow> qk = pk" for qk
      by (auto simp: ms_valid_def)
    then have "{qk. \<exists>t \<in> set (s # ss). ms_valid S d msg qk t} =
        insert pk {qk. \<exists>t \<in> set ss. ms_valid S d msg qk t}"
      by auto
    moreover have "ms_recover_loop S d msg (s # ss) (v, bad) =
        ms_recover_loop S d msg ss (AList.update pk s v, bad)"
      using pk by (simp add: ms_valid_def)
    ultimately show ?thesis
      using Cons.IH[OF hmm.wf_put[OF Cons.prems], of pk s bad]
      by (simp add: hmm.dom_upsert[OF Cons.prems] del: ms_recover_loop.simps)
  next
    case False
    then have "ms_recover_loop S d msg (s # ss) (v, bad) = ms_recover_loop S d msg ss (v, bad @ [s])"
      by (auto simp: ms_valid_def split: option.split)
    then show ?thesis using False Cons.IH[OF Cons.prems] by simp
  qed
qed simp

lemma ms_claim_loop_dom:
  "hm_wf v \<Longrightarrow> dom (map_of (fst (ms_claim_loop vm v ids))) = dom (map_of v) - snd ` set vm"
proof (induction vm v ids rule: ms_claim_loop.induct)
  case (2 n pk rest v ids)
  show ?case
  proof (cases "map_of v pk")
    case None
    then show ?thesis using 2(2)[OF _ 2(3)] by auto
  next
    case (Some s)
    then have "dom (map_of (fst (ms_claim_loop rest (AList.delete pk v) (ids @ [n])))) =
        dom (map_of (AList.delete pk v)) - snd ` set rest"
      by (intro 2(1) hmm.wf_del 2(3)) simp
    then show ?thesis using Some by (simp add: delete_conv' dom_fun_upd) blast
  qed
qed simp

lemma ms_claim_loop_ids:
  assumes "distinct (map fst vm)" "distinct ids" "set ids \<inter> fst ` set vm = {}"
  shows "distinct (snd (ms_claim_loop vm v ids)) \<and>
         (\<forall>n \<in> set (snd (ms_claim_loop vm v ids)).
            n \<in> set ids \<or> (\<exists>pk. (n, pk) \<in> set vm \<and> pk \<in> dom (map_of v)))"
  using assms
proof (induction vm v ids rule: ms_claim_loop.induct)
  case (2 n pk rest v ids)
  show ?case
  proof (cases "map_of v pk")
    case None
    then show ?thesis using 2(2) 2(3-5) by fastforce
  next
    case (Some s)
    then have "distinct (snd (ms_claim_loop rest (AList.delete pk v) (ids @ [n]))) \<and>
      (\<forall>m \<in> set (snd (ms_claim_loop rest (AList.delete pk v) (ids @ [n]))).
         m \<in> set (ids @ [n]) \<or> (\<exists>q. (m, q) \<in> set rest \<and> q \<in> dom (map_of (AList.delete pk v))))"
      using 2(3-5) by (intro 2(1)) auto
    moreover have "dom (map_of (AList.delete pk v)) \<subseteq> dom (map_of v)"
      by (auto simp: delete_conv' split: if_splits)
    ultimately show ?thesis using Some by (simp add: subset_iff) blast
  qed
qed auto

lemma ms_claim_loop_ids_inj:
  assumes "distinct (map snd vm)"
  shows "set (snd (ms_claim_loop vm v ids)) =
           set ids \<union> {n. \<exists>pk. (n, pk) \<in> set vm \<and> pk \<in> dom (map_of v)}"
  using assms
proof (induction vm v ids rule: ms_claim_loop.induct)
  case (2 n pk rest v ids)
  have new: "(m, q) \<in> set rest \<Longrightarrow> q \<noteq> pk" for m q using 2(3) by force
  show ?case
  proof (cases "map_of v pk")
    case None
    then show ?thesis using 2(2,3) by auto
  next
    case (Some s)
    then have "set (snd (ms_claim_loop rest (AList.delete pk v) (ids @ [n]))) =
      set (ids @ [n]) \<union> {m. \<exists>q. (m, q) \<in> set rest \<and> q \<in> dom (map_of (AList.delete pk v))}"
      using 2(3) by (intro 2(1)) auto
    also have "{m. \<exists>q. (m, q) \<in> set rest \<and> q \<in> dom (map_of (AList.delete pk v))} =
      {m. \<exists>q. (m, q) \<in> set rest \<and> q \<in> dom (map_of v)}"
      using new by (auto simp: delete_conv' split: if_splits)
    finally show ?thesis using Some by auto
  qed
qed auto

lemma ms_verify_ok_iff:
  "ms_verify S d c vm msg = Inr ids \<longleftrightarrow>
     (\<forall>s \<in> set (ms_sigs c). \<exists>n pk. (n, pk) \<in> set vm \<and> ms_valid S d msg pk s) \<and>
     ids = snd (ms_claim_loop vm (fst (ms_recover_loop S d msg (ms_sigs c) ([], []))) [])"
proof -
  obtain v bad where r: "ms_recover_loop S d msg (ms_sigs c) ([], []) = (v, bad)" by fastforce
  have bad: "bad = filter (\<lambda>s. \<nexists>pk. ms_valid S d msg pk s) (ms_sigs c)"
    using ms_recover_loop_invalid[of S d msg "ms_sigs c" "[]" "[]"] r by simp
  have v: "hm_wf v" "dom (map_of v) = {pk. \<exists>s \<in> set (ms_sigs c). ms_valid S d msg pk s}"
    using ms_recover_loop_verified[of "[]" S d msg "ms_sigs c" "[]"] r by (auto simp: hm_wf_def)
  obtain u js where u: "ms_claim_loop vm v [] = (u, js)" by fastforce
  have "u = [] \<longleftrightarrow> dom (map_of u) = {}" by (metis dom_eq_empty_conv map_of_eq_empty_iff)
  also have "\<dots> \<longleftrightarrow> (\<forall>s \<in> set (ms_sigs c). \<forall>pk. ms_valid S d msg pk s \<longrightarrow> pk \<in> snd ` set vm)"
    using ms_claim_loop_dom[OF v(1), of vm "[]"] u v(2) by auto
  finally have "bad = [] \<and> u = [] \<longleftrightarrow> (\<forall>s \<in> set (ms_sigs c).
      (\<exists>pk. ms_valid S d msg pk s) \<and> (\<forall>pk. ms_valid S d msg pk s \<longrightarrow> pk \<in> snd ` set vm))"
    unfolding bad filter_empty_conv by blast
  also have "\<dots> \<longleftrightarrow> (\<forall>s \<in> set (ms_sigs c). \<exists>n pk. (n, pk) \<in> set vm \<and> ms_valid S d msg pk s)"
    by (intro ball_cong refl ms_valid_known)
  finally have "bad = [] \<and> u = [] \<longleftrightarrow>
      (\<forall>s \<in> set (ms_sigs c). \<exists>n pk. (n, pk) \<in> set vm \<and> ms_valid S d msg pk s)" .
  moreover have "ms_verify S d c vm msg = (if bad = [] \<and> u = [] then Inr js else Inl InvalidSignaturesVerify)"
    by (simp add: ms_verify_def r u)
  ultimately show ?thesis using r u by auto
qed

lemma ms_verify_sound:
  assumes "bt_wf vm" "ms_verify S d c vm msg = Inr ids"
  shows "distinct ids \<and> (\<forall>n \<in> set ids. \<exists>pk s. bt_get vm n = Some pk \<and> ms_valid S d msg pk s)"
proof -
  let ?v = "fst (ms_recover_loop S d msg (ms_sigs c) ([], []))"
  have "dom (map_of ?v) = {pk. \<exists>s \<in> set (ms_sigs c). ms_valid S d msg pk s}"
    using ms_recover_loop_verified[of "[]" S d msg "ms_sigs c" "[]"] by (simp add: hm_wf_def)
  moreover have "distinct ids \<and> (\<forall>n \<in> set ids. \<exists>pk. (n, pk) \<in> set vm \<and> pk \<in> dom (map_of ?v))"
    using ms_claim_loop_ids[of vm "[]" ?v] assms by (simp add: ms_verify_ok_iff bt_wf_distinct)
  ultimately show ?thesis using in_set_bt_get[OF assms(1)] by blast
qed

lemma ms_new_verify:
  assumes "vm_inj vm" "ms_new S d ss vm msg = Inr c"
  shows "\<exists>ids. ms_verify S d c vm msg = Inr ids \<and> set ids = fst ` set ss"
proof -
  obtain m where m: "bt_wf m" "c = \<lparr>ms_sigs = bt_values m\<rparr>" "dom (bt_get m) = fst ` set ss"
    "\<And>n s. bt_get m n = Some s \<Longrightarrow> ms_sig_ok S d vm msg (n, s)"
    using ms_new_ok[OF assms(2)] by auto
  let ?v = "fst (ms_recover_loop S d msg (ms_sigs c) ([], []))"
  have wf: "bt_wf vm" "distinct (map snd vm)" using assms(1) by (auto simp: vm_inj_def)
  have ex: "\<exists>n pk. bt_get m n = Some s \<and> (n, pk) \<in> set vm \<and> ms_valid S d msg pk s"
    if "s \<in> set (ms_sigs c)" for s
    using that m(2,4) in_set_bt_get[OF m(1)] in_set_bt_get[OF wf(1)]
    by (fastforce simp: bt_values_def ms_sig_ok_def split: option.splits)
  have v: "dom (map_of ?v) = {pk. \<exists>s \<in> set (ms_sigs c). ms_valid S d msg pk s}"
    using ms_recover_loop_verified[of "[]" S d msg "ms_sigs c" "[]"] by (simp add: hm_wf_def)
  have "{n. \<exists>pk. (n, pk) \<in> set vm \<and> pk \<in> dom (map_of ?v)} = dom (bt_get m)"
  proof (intro set_eqI iffI)
    fix n assume "n \<in> {n. \<exists>pk. (n, pk) \<in> set vm \<and> pk \<in> dom (map_of ?v)}"
    then obtain pk s where ps: "(n, pk) \<in> set vm" "s \<in> set (ms_sigs c)" "ms_valid S d msg pk s"
      using v by auto
    obtain n' pk' where q: "bt_get m n' = Some s" "(n', pk') \<in> set vm" "ms_valid S d msg pk' s"
      using ex[OF ps(2)] by auto
    have "pk' = pk" using ps(3) q(3) by (simp add: ms_valid_def)
    then have "n' = n" using ps(1) q(2) wf(2) by (fastforce simp: distinct_map inj_on_def)
    then show "n \<in> dom (bt_get m)" using q(1) by auto
  next
    fix n assume "n \<in> dom (bt_get m)"
    then obtain s where s: "bt_get m n = Some s" by auto
    then have "s \<in> set (ms_sigs c)"
      using m(2) in_set_bt_get[OF m(1)] by (force simp: bt_values_def)
    moreover obtain pk where "bt_get vm n = Some pk" "ms_valid S d msg pk s"
      using m(4)[OF s] by (auto simp: ms_sig_ok_def split: option.splits)
    ultimately show "n \<in> {n. \<exists>pk. (n, pk) \<in> set vm \<and> pk \<in> dom (map_of ?v)}"
      using v in_set_bt_get[OF wf(1)] by auto
  qed
  moreover have "\<forall>s \<in> set (ms_sigs c). \<exists>n pk. (n, pk) \<in> set vm \<and> ms_valid S d msg pk s"
    using ex by blast
  ultimately show ?thesis
    using m(3) ms_claim_loop_ids_inj[OF wf(2), of ?v "[]"] by (simp add: ms_verify_ok_iff)
qed

interpretation msl: sct_laws "ms_ops S" "ms_valid S" for S
proof
  fix vm :: validator_mapping and ss :: "(node_id \<times> 'a) list" and d msg
  assume vm: "bt_wf vm" and ss: "distinct (map fst ss)"
  obtain a where a: "ms_new_loop S d vm msg ss \<lparr>acc_sig_map = [], acc_external = [], acc_invalid = []\<rparr> = Inr a"
    using ms_new_loop_no_conflict[of ss "\<lparr>acc_sig_map = [], acc_external = [], acc_invalid = []\<rparr>" S d vm msg] ss
    by auto
  have new: "sct_new (ms_ops S) d ss vm msg =
      (if \<exists>e \<in> set ss. bt_get vm (fst e) = None
       then Inl (NodeIdNotInMapping (filter (\<lambda>e. bt_get vm (fst e) = None) ss))
       else if \<exists>e \<in> set ss. \<not> ms_sig_ok S d vm msg e
       then Inl (InvalidSignaturesCreate (filter (\<lambda>e. \<not> ms_sig_ok S d vm msg e) ss))
       else Inr \<lparr>ms_sigs = bt_values (acc_sig_map a)\<rparr>)"
    using ms_new_loop_ok(1,2)[OF a]
    by (auto simp: ms_ops_def ms_new_def a filter_empty_conv intro!: filter_cong)
  {
    assume "\<And>n s. (n, s) \<in> set ss \<Longrightarrow> \<exists>pk. bt_get vm n = Some pk \<and> ms_valid S d msg pk s"
    then have "\<forall>e \<in> set ss. bt_get vm (fst e) \<noteq> None \<and> ms_sig_ok S d vm msg e"
      by (force simp: ms_sig_ok_def)
    then show "\<exists>c. sct_new (ms_ops S) d ss vm msg = Inr c" by (auto simp: new)
  next
    fix e assume "fst ` set ss \<subseteq> dom (bt_get vm)" "sct_new (ms_ops S) d ss vm msg = Inl e"
    then show "\<exists>bad. e = InvalidSignaturesCreate bad \<and> bad \<noteq> [] \<and> set bad \<subseteq> set ss \<and>
        (\<forall>(n, s) \<in> set bad. \<forall>pk. bt_get vm n = Some pk \<longrightarrow> \<not> ms_valid S d msg pk s)"
      by (force simp: new filter_empty_conv ms_sig_ok_def split: if_splits)
  }
next
  fix vm d ss msg c assume vm: "vm_inj vm" and c: "sct_new (ms_ops S) d ss vm msg = Inr c"
  then show "\<exists>ids. sct_verify (ms_ops S) d c vm msg = Inr ids \<and> set ids = fst ` set ss"
    by (simp add: ms_ops_def ms_new_verify)
next
  fix vm d c msg ids assume "bt_wf vm" "sct_verify (ms_ops S) d c vm msg = Inr ids"
  then show "distinct ids \<and> (\<forall>n \<in> set ids. \<exists>pk s. bt_get vm n = Some pk \<and> ms_valid S d msg pk s)"
    using ms_verify_sound[of vm S d c msg ids] by (simp add: ms_ops_def)
qed

section \<open>Properties\<close>

text \<open>
  C31: domain separation.  The bytes that are signed determine the signing domain and the
  message, so a signature made in one domain is never a signature of another one.
\<close>
theorem signing_domains_separate:
  "signing_prefix d @ m = signing_prefix e @ n \<longleftrightarrow> d = e \<and> m = n"
proof
  assume eq: "signing_prefix d @ m = signing_prefix e @ n"
  have "signing_prefix d \<noteq> []" "signing_prefix e \<noteq> []"
    using signing_prefix_length[of d] signing_prefix_length[of e] by auto
  then have "hd (signing_prefix d) = hd (signing_prefix e)"
    using eq by (metis hd_append2)
  then show "d = e \<and> m = n" using eq signing_prefix_inj[of d e] by auto
qed auto

text \<open>
  C34: a multi-signature that was created verifies, and verification returns exactly the
  nodes that contributed, each once, provided certificate keys are not shared.
\<close>
theorem multi_sig_round_trip:
  assumes "vm_inj vm" "ms_new S d ss vm msg = Inr c"
  shows "\<exists>ids. ms_verify S d c vm msg = Inr ids \<and> distinct ids \<and> set ids = fst ` set ss"
  using ms_new_verify[OF assms] ms_verify_sound[of vm S d c msg] assms(1)
  by (auto simp: vm_inj_def)

definition example_hash :: "bytes \<Rightarrow> u64" where
  "example_hash b = sum_list b mod 2 ^ 64"

definition example_sigs :: "signing_domain \<Rightarrow> bytes \<Rightarrow> node_id list \<Rightarrow> (node_id \<times> nop_signature) list" where
  "example_sigs d msg ns = map (\<lambda>n. (n, nop_sign example_hash d msg (n + 100))) ns"

definition example_vm :: validator_mapping where
  "example_vm = [(1, 101), (2, 102), (3, 103), (4, 104)]"

theorem multi_sig_round_trip_witness:
  "\<exists>ids. ms_verify (nop_ops example_hash) DomainVote
           \<lparr>ms_sigs = map snd (example_sigs DomainVote [7] [1, 3])\<rparr> example_vm [7] = Inr ids \<and>
         distinct ids \<and> set ids = fst ` set (example_sigs DomainVote [7] [3, 1])"
  by (rule multi_sig_round_trip)
     (simp_all add: vm_inj_def bt_wf_def example_vm_def example_sigs_def ms_new_def bt_values_def
        nop_ops_def nop_recover_pubkey_def nop_verify_def nop_sign_def)

end
