(* ===== verification/Certificates.thy ===== *)
theory Certificates
  imports Signature_Collection
begin

text \<open>
  The data types of \<^verbatim>\<open>monad-consensus-types/src\<close> that the consensus protocol exchanges: votes,
  quorum certificates, block headers, tips, no-endorsement certificates, timeouts and timeout
  certificates.

  The record \<open>env\<close> extends the signature collection operations with the other code that is
  only called: the RLP encodings, the block hash, signing and public key recovery, and the
  iteration order of a \<^verbatim>\<open>HashMap\<close>.  \<open>'s\<close> is the type of signatures, \<open>'c\<close> of signature collections and
  \<open>'x\<close> of the execution inputs and outputs a block carries.
\<close>

section \<open>Votes and quorum certificates\<close>

record vote =
  vote_id :: block_id
  vote_round :: round
  vote_epoch :: epoch

record 'c quorum_certificate =
  qc_info :: vote
  qc_signatures :: 'c

definition get_round :: "'c quorum_certificate \<Rightarrow> round" where
  "get_round qc = vote_round (qc_info qc)"

definition get_epoch_of_qc :: "'c quorum_certificate \<Rightarrow> epoch" where
  "get_epoch_of_qc qc = vote_epoch (qc_info qc)"

definition get_block_id :: "'c quorum_certificate \<Rightarrow> block_id" where
  "get_block_id qc = vote_id (qc_info qc)"

section \<open>Block headers\<close>

record ('s, 'c, 'x) consensus_block_header =
  block_round :: round
  bh_epoch :: epoch
  bh_qc :: "'c quorum_certificate"
  author :: node_id
  bh_seq_num :: seq_num
  timestamp_ns :: nat
  round_signature :: 's
  delayed_execution_results :: "'x list"
  execution_inputs :: 'x
  block_body_id :: body_id
  base_fee :: u64
  base_fee_trend :: u64
  base_fee_moment :: u64

definition get_parent_id :: "('s, 'c, 'x) consensus_block_header \<Rightarrow> block_id" where
  "get_parent_id h = get_block_id (bh_qc h)"

section \<open>No endorsement and fresh proposals\<close>

record no_endorsement =
  ne_epoch :: epoch
  ne_round :: round
  ne_tip_qc_round :: round

record 'c no_endorsement_certificate =
  nec_msg :: no_endorsement
  nec_signatures :: 'c

record 'c high_tip_round_sigcol_tuple =
  ht_high_qc_round :: round
  ht_high_tip_round :: round
  ht_sigs :: 'c

record 'c no_tip_certificate =
  nt_epoch :: epoch
  nt_round :: round
  nt_tip_rounds :: "'c high_tip_round_sigcol_tuple list"
  nt_high_qc :: "'c quorum_certificate"

datatype 'c fresh_proposal_certificate =
    Nec "'c no_endorsement_certificate"
  | NoTip "'c no_tip_certificate"

record ('s, 'c, 'x) consensus_tip =
  tip_block_header :: "('s, 'c, 'x) consensus_block_header"
  tip_signature :: 's
  tip_fresh_certificate :: "'c fresh_proposal_certificate option"

section \<open>Ranks\<close>

datatype ordering = Lt | Eq | Gt

definition cmp_round :: "round \<Rightarrow> round \<Rightarrow> ordering" where
  "cmp_round a b = (if a < b then Lt else if a = b then Eq else Gt)"

datatype high_extend_rank =
    RankTip (rank_tip_round: round) (rank_qc_round: round)
  | RankQc (rank_qc_round: round)

fun rank_cmp :: "high_extend_rank \<Rightarrow> high_extend_rank \<Rightarrow> ordering" where
  "rank_cmp (RankQc qc_round_1) (RankQc qc_round_2) = cmp_round qc_round_1 qc_round_2"
| "rank_cmp (RankTip tip_round_1 qc_round_1) (RankTip tip_round_2 qc_round_2) =
     (if tip_round_1 \<noteq> tip_round_2 then cmp_round tip_round_1 tip_round_2
      else cmp_round qc_round_1 qc_round_2)"
| "rank_cmp (RankQc qc_round_1) (RankTip tip_round_2 _) =
     (if qc_round_1 = tip_round_2 then Gt else cmp_round qc_round_1 tip_round_2)"
| "rank_cmp (RankTip tip_round_1 _) (RankQc qc_round_2) =
     (if tip_round_1 = qc_round_2 then Lt else cmp_round tip_round_1 qc_round_2)"

instantiation high_extend_rank :: linorder
begin

definition less_eq_high_extend_rank :: "high_extend_rank \<Rightarrow> high_extend_rank \<Rightarrow> bool" where
  "less_eq_high_extend_rank a b \<longleftrightarrow> rank_cmp a b \<noteq> Gt"

definition less_high_extend_rank :: "high_extend_rank \<Rightarrow> high_extend_rank \<Rightarrow> bool" where
  "less_high_extend_rank a b \<longleftrightarrow> rank_cmp a b = Lt"

instance
proof
  fix x y z :: high_extend_rank
  show "x < y \<longleftrightarrow> x \<le> y \<and> \<not> y \<le> x"
    by (cases x; cases y)
       (auto simp: less_eq_high_extend_rank_def less_high_extend_rank_def cmp_round_def split: if_splits)
  show "x \<le> x"
    by (cases x) (auto simp: less_eq_high_extend_rank_def cmp_round_def)
  show "x \<le> y \<Longrightarrow> y \<le> z \<Longrightarrow> x \<le> z"
    by (cases x; cases y; cases z)
       (auto simp: less_eq_high_extend_rank_def cmp_round_def split: if_splits)
  show "x \<le> y \<Longrightarrow> y \<le> x \<Longrightarrow> x = y"
    by (cases x; cases y) (auto simp: less_eq_high_extend_rank_def cmp_round_def split: if_splits)
  show "x \<le> y \<or> y \<le> x"
    by (cases x; cases y) (auto simp: less_eq_high_extend_rank_def cmp_round_def split: if_splits)
qed

end

definition rank_of_rounds :: "round \<Rightarrow> round \<Rightarrow> high_extend_rank" where
  "rank_of_rounds high_qc_round high_tip_round =
     (if high_tip_round = GENESIS_ROUND then RankQc high_qc_round
      else RankTip high_tip_round high_qc_round)"

definition ht_rank :: "'c high_tip_round_sigcol_tuple \<Rightarrow> high_extend_rank" where
  "ht_rank t = rank_of_rounds (ht_high_qc_round t) (ht_high_tip_round t)"

datatype ('s, 'c, 'x) high_extend =
    HeTip "('s, 'c, 'x) consensus_tip"
  | HeQc "'c quorum_certificate"

fun he_rank :: "('s, 'c, 'x) high_extend \<Rightarrow> high_extend_rank" where
  "he_rank (HeTip tip) =
     RankTip (block_round (tip_block_header tip)) (get_round (bh_qc (tip_block_header tip)))"
| "he_rank (HeQc qc) = RankQc (get_round qc)"

fun he_qc :: "('s, 'c, 'x) high_extend \<Rightarrow> 'c quorum_certificate" where
  "he_qc (HeTip tip) = bh_qc (tip_block_header tip)"
| "he_qc (HeQc qc) = qc"

definition he_partial_cmp :: "('s, 'c, 'x) high_extend \<Rightarrow> ('s, 'c, 'x) high_extend \<Rightarrow> ordering option" where
  "he_partial_cmp a b =
     (let ord = rank_cmp (he_rank a) (he_rank b) in
      if ord = Eq \<and> a \<noteq> b then None else Some ord)"

datatype ('s, 'c, 'x) high_extend_vote =
    HevTip "('s, 'c, 'x) consensus_tip" "'s option"
  | HevQc "'c quorum_certificate"

fun hev_rank :: "('s, 'c, 'x) high_extend_vote \<Rightarrow> high_extend_rank" where
  "hev_rank (HevTip tip _) =
     RankTip (block_round (tip_block_header tip)) (get_round (bh_qc (tip_block_header tip)))"
| "hev_rank (HevQc qc) = RankQc (get_round qc)"

fun hev_qc :: "('s, 'c, 'x) high_extend_vote \<Rightarrow> 'c quorum_certificate" where
  "hev_qc (HevTip tip _) = bh_qc (tip_block_header tip)"
| "hev_qc (HevQc qc) = qc"

fun he_of_hev :: "('s, 'c, 'x) high_extend_vote \<Rightarrow> ('s, 'c, 'x) high_extend" where
  "he_of_hev (HevQc qc) = HeQc qc"
| "he_of_hev (HevTip tip _) = HeTip tip"

section \<open>Timeouts and round certificates\<close>

record timeout_info =
  tm_epoch :: epoch
  tm_round :: round
  tm_high_qc_round :: round
  tm_high_tip_round :: round

definition tm_rank :: "timeout_info \<Rightarrow> high_extend_rank" where
  "tm_rank t = rank_of_rounds (tm_high_qc_round t) (tm_high_tip_round t)"

record ('s, 'c, 'x) timeout_certificate =
  tc_epoch :: epoch
  tc_round :: round
  tc_tip_rounds :: "'c high_tip_round_sigcol_tuple list"
  tc_high_extend :: "('s, 'c, 'x) high_extend"

datatype ('s, 'c, 'x) round_certificate =
    RcQc "'c quorum_certificate"
  | RcTc "('s, 'c, 'x) timeout_certificate"

fun rc_round :: "('s, 'c, 'x) round_certificate \<Rightarrow> round" where
  "rc_round (RcQc qc) = vote_round (qc_info qc)"
| "rc_round (RcTc tc) = tc_round tc"

fun rc_tc :: "('s, 'c, 'x) round_certificate \<Rightarrow> ('s, 'c, 'x) timeout_certificate option" where
  "rc_tc (RcQc _) = None"
| "rc_tc (RcTc tc) = Some tc"

fun rc_qc :: "('s, 'c, 'x) round_certificate \<Rightarrow> 'c quorum_certificate" where
  "rc_qc (RcQc qc) = qc"
| "rc_qc (RcTc tc) = he_qc (tc_high_extend tc)"

record ('s, 'c, 'x) timeout =
  to_tminfo :: timeout_info
  to_signature :: 's
  to_high_extend :: "('s, 'c, 'x) high_extend_vote"
  to_last_round_certificate :: "('s, 'c, 'x) round_certificate option"

section \<open>The environment\<close>

type_synonym keypair = nat
type_synonym 's tminfo_groups = "(timeout_info, (node_id \<times> 's) list) hash_map"

record ('s, 'c, 'x) env = "('s, 'c) sct_ops" +
  rlp_vote :: "vote \<Rightarrow> bytes"
  rlp_timeout_info :: "timeout_info \<Rightarrow> bytes"
  rlp_no_endorsement :: "no_endorsement \<Rightarrow> bytes"
  rlp_header :: "('s, 'c, 'x) consensus_block_header \<Rightarrow> bytes"
  rlp_round :: "round \<Rightarrow> bytes"
  hasher :: "bytes \<Rightarrow> nat"
  cert_sign :: "signing_domain \<Rightarrow> bytes \<Rightarrow> keypair \<Rightarrow> 's"
  st_sign :: "signing_domain \<Rightarrow> bytes \<Rightarrow> keypair \<Rightarrow> 's"
  st_recover_pubkey :: "signing_domain \<Rightarrow> bytes \<Rightarrow> 's \<Rightarrow> node_id option"
  tminfo_order :: "'s tminfo_groups \<Rightarrow> 's tminfo_groups"

definition get_id :: "('s, 'c, 'x) env \<Rightarrow> ('s, 'c, 'x) consensus_block_header \<Rightarrow> block_id" where
  "get_id E h = hasher E (rlp_header E h)"

definition genesis_qc :: "('s, 'c, 'x) env \<Rightarrow> 'c quorum_certificate option" where
  "genesis_qc E =
     (case sct_new E DomainVote [] [] [] of
        Inl _ \<Rightarrow> None
      | Inr sigs \<Rightarrow>
          Some \<lparr>qc_info = \<lparr>vote_id = GENESIS_BLOCK_ID, vote_round = GENESIS_ROUND, vote_epoch = 1\<rparr>,
                qc_signatures = sigs\<rparr>)"

definition get_committable_id ::
  "('s, 'c, 'x) env \<Rightarrow> 'c quorum_certificate \<Rightarrow> ('s, 'c, 'x) consensus_block_header
     \<Rightarrow> block_id option option" where
  "get_committable_id E qc qc_parent_block = do {
     _ \<leftarrow> assert_p (vote_id (qc_info qc) = get_id E qc_parent_block);
     next_round \<leftarrow> round_add (vote_round (qc_info (bh_qc qc_parent_block))) 1;
     Some (if vote_round (qc_info qc) = next_round then Some (get_parent_id qc_parent_block) else None)
   }"

definition tip_new ::
  "('s, 'c, 'x) env \<Rightarrow> keypair \<Rightarrow> ('s, 'c, 'x) consensus_block_header
     \<Rightarrow> 'c fresh_proposal_certificate option \<Rightarrow> ('s, 'c, 'x) consensus_tip" where
  "tip_new E kp block_header fresh_certificate =
     \<lparr>tip_block_header = block_header,
      tip_signature = st_sign E DomainTip (rlp_header E block_header) kp,
      tip_fresh_certificate = fresh_certificate\<rparr>"

definition signature_author :: "('s, 'c, 'x) env \<Rightarrow> ('s, 'c, 'x) consensus_tip \<Rightarrow> node_id option" where
  "signature_author E tip =
     st_recover_pubkey E DomainTip (rlp_header E (tip_block_header tip)) (tip_signature tip)"

definition round_signature_new :: "('s, 'c, 'x) env \<Rightarrow> round \<Rightarrow> keypair \<Rightarrow> 's" where
  "round_signature_new E r kp = cert_sign E DomainRoundSignature (rlp_round E r) kp"

definition timeout_new ::
  "('s, 'c, 'x) env \<Rightarrow> keypair \<Rightarrow> timeout_info \<Rightarrow> ('s, 'c, 'x) high_extend \<Rightarrow> bool
     \<Rightarrow> ('s, 'c, 'x) round_certificate option \<Rightarrow> ('s, 'c, 'x) timeout" where
  "timeout_new E kp tminfo high_extend safe_to_vote last_round_certificate =
     (let timeout_signature = cert_sign E DomainTimeout (rlp_timeout_info E tminfo) kp;
          hev = (case high_extend of
                   HeQc qc \<Rightarrow> HevQc qc
                 | HeTip tip \<Rightarrow>
                     HevTip tip
                       (if safe_to_vote then
                          Some (cert_sign E DomainVote
                            (rlp_vote E \<lparr>vote_id = get_id E (tip_block_header tip),
                                         vote_round = tm_round tminfo,
                                         vote_epoch = tm_epoch tminfo\<rparr>) kp)
                        else None))
      in \<lparr>to_tminfo = tminfo, to_signature = timeout_signature, to_high_extend = hev,
          to_last_round_certificate = last_round_certificate\<rparr>)"

section \<open>Timeout certificates\<close>

fun tc_collect ::
  "(node_id \<times> ('s, 'c, 'x) timeout) list \<Rightarrow> ('s, 'c, 'x) high_extend \<Rightarrow> 's tminfo_groups
     \<Rightarrow> ('s, 'c, 'x) high_extend \<times> 's tminfo_groups" where
  "tc_collect [] highest sigs = (highest, sigs)"
| "tc_collect ((node_id, timeout) # rest) highest sigs =
     (let entry = entry_or [] (map_of sigs (to_tminfo timeout));
          sigs' = AList.update (to_tminfo timeout) (entry @ [(node_id, to_signature timeout)]) sigs;
          he = he_of_hev (to_high_extend timeout)
      in tc_collect rest (if he_partial_cmp he highest = Some Gt then he else highest) sigs')"

fun tc_sign_groups ::
  "('s, 'c, 'x) env \<Rightarrow> validator_mapping \<Rightarrow> 's tminfo_groups
     \<Rightarrow> 's sct_error + 'c high_tip_round_sigcol_tuple list" where
  "tc_sign_groups E vm [] = Inr []"
| "tc_sign_groups E vm ((info, sigs) # rest) =
     (case sct_new E DomainTimeout sigs vm (rlp_timeout_info E info) of
        Inl e \<Rightarrow> Inl e
      | Inr sct \<Rightarrow>
          (case tc_sign_groups E vm rest of
             Inl e \<Rightarrow> Inl e
           | Inr tips \<Rightarrow>
               Inr (\<lparr>ht_high_qc_round = tm_high_qc_round info,
                     ht_high_tip_round = tm_high_tip_round info, ht_sigs = sct\<rparr> # tips)))"

definition tc_new ::
  "('s, 'c, 'x) env \<Rightarrow> epoch \<Rightarrow> round \<Rightarrow> (node_id \<times> ('s, 'c, 'x) timeout) list \<Rightarrow> validator_mapping
     \<Rightarrow> ('s sct_error + ('s, 'c, 'x) timeout_certificate) option" where
  "tc_new E ep r timeouts vm = do {
     genesis \<leftarrow> genesis_qc E;
     let (highest_extend, sigs) = tc_collect timeouts (HeQc genesis) [];
     Some (case tc_sign_groups E vm (tminfo_order E sigs) of
             Inl e \<Rightarrow> Inl e
           | Inr tip_rounds \<Rightarrow>
               Inr \<lparr>tc_epoch = ep, tc_round = r, tc_tip_rounds = tip_rounds,
                    tc_high_extend = highest_extend\<rparr>)
   }"

definition tminfo_group :: "timeout_info \<Rightarrow> (node_id \<times> ('s, 'c, 'x) timeout) list \<Rightarrow> (node_id \<times> 's) list" where
  "tminfo_group info ts = map (\<lambda>e. (fst e, to_signature (snd e))) (filter (\<lambda>e. to_tminfo (snd e) = info) ts)"

definition env_order_ok :: "('s, 'c, 'x) env \<Rightarrow> bool" where
  "env_order_ok E \<longleftrightarrow> (\<forall>g. set (tminfo_order E g) = set g \<and> (hm_wf g \<longrightarrow> hm_wf (tminfo_order E g)))"

text \<open>
  \<open>tc_signed_by E vm ts tc\<close>: the signature collections of \<open>tc\<close> are one for each of the timeout infos of
  \<open>ts\<close>, and each verifies over its info with exactly the nodes that sent it as signers.
\<close>

definition tc_signed_by ::
  "('s, 'c, 'x) env \<Rightarrow> validator_mapping \<Rightarrow> (node_id \<times> ('s, 'c, 'x) timeout) list \<Rightarrow> ('s, 'c, 'x) timeout_certificate \<Rightarrow> bool" where
  "tc_signed_by E vm ts tc \<longleftrightarrow>
     (\<exists>infos. distinct infos \<and> set infos = to_tminfo ` snd ` set ts \<and>
        list_all2 (\<lambda>info ht. ht_high_qc_round ht = tm_high_qc_round info \<and> ht_high_tip_round ht = tm_high_tip_round info \<and>
            (\<exists>ids. sct_verify E DomainTimeout (ht_sigs ht) vm (rlp_timeout_info E info) = Inr ids \<and> distinct ids \<and>
               set ids = fst ` {e \<in> set ts. to_tminfo (snd e) = info}))
          infos (tc_tip_rounds tc))"

section \<open>Lemmas: ranks\<close>

lemma cmp_round_simps [simp]:
  "cmp_round a b = Lt \<longleftrightarrow> a < b"
  "cmp_round a b = Eq \<longleftrightarrow> a = b"
  "cmp_round a b = Gt \<longleftrightarrow> b < a"
  by (auto simp: cmp_round_def)

lemma rank_cmp_Gt: "rank_cmp a b = Gt \<longleftrightarrow> b < a"
  by (cases a; cases b) (auto simp: less_high_extend_rank_def cmp_round_def)

lemma rank_cmp_Eq: "rank_cmp a b = Eq \<longleftrightarrow> a = b"
  by (cases a; cases b) (auto simp: cmp_round_def)

lemma rank_le_simps [simp]:
  "RankQc a \<le> RankQc b \<longleftrightarrow> a \<le> b"
  "RankTip a q \<le> RankQc b \<longleftrightarrow> a \<le> b"
  "RankQc a \<le> RankTip b q \<longleftrightarrow> a < b"
  "RankTip a q \<le> RankTip b q' \<longleftrightarrow> a < b \<or> a = b \<and> q \<le> q'"
  by (auto simp: less_eq_high_extend_rank_def cmp_round_def)

lemma he_partial_cmp_Gt: "he_partial_cmp a b = Some Gt \<longleftrightarrow> he_rank b < he_rank a"
  by (auto simp: he_partial_cmp_def Let_def rank_cmp_Gt rank_cmp_Eq)

lemma he_rank_of_hev [simp]: "he_rank (he_of_hev h) = hev_rank h"
  by (cases h) auto

lemma he_qc_of_hev [simp]: "he_qc (he_of_hev h) = hev_qc h"
  by (cases h) auto

lemma get_committable_id_Some:
  "get_committable_id E qc h = Some (Some b) \<longleftrightarrow>
     get_block_id qc = get_id E h \<and> get_round qc = get_round (bh_qc h) + 1 \<and>
     get_round (bh_qc h) < u64_max \<and> b = get_parent_id h"
  by (auto simp: get_committable_id_def get_block_id_def get_round_def bind_eq_Some_conv split: if_splits)

section \<open>Lemmas: timeout certificates\<close>

lemma tc_collect_highest:
  "tc_collect ts h g = (h', g') \<Longrightarrow>
     h' \<in> insert h (he_of_hev ` to_high_extend ` snd ` set ts) \<and> he_rank h \<le> he_rank h' \<and>
     (\<forall>t \<in> snd ` set ts. hev_rank (to_high_extend t) \<le> he_rank h')"
proof (induction ts arbitrary: h g)
  case (Cons e ts)
  obtain n t where e: "e = (n, t)" by (cases e)
  let ?he = "he_of_hev (to_high_extend t)"
  let ?h = "if he_rank h < he_rank ?he then ?he else h"
  obtain g1 where "tc_collect ts ?h g1 = (h', g')"
    using Cons.prems by (auto simp: e Let_def he_partial_cmp_Gt)
  from Cons.IH[OF this] show ?case by (auto simp: e split: if_splits)
qed auto

lemma tc_collect_groups:
  assumes "tc_collect ts h g = (h', g')" "hm_wf g"
  shows "hm_wf g' \<and> dom (map_of g') = dom (map_of g) \<union> to_tminfo ` snd ` set ts \<and>
         (\<forall>info. entry_or [] (map_of g' info) = entry_or [] (map_of g info) @ tminfo_group info ts)"
  using assms
proof (induction ts arbitrary: h g)
  case (Cons e ts)
  obtain n t where e: "e = (n, t)" by (cases e)
  let ?g = "AList.update (to_tminfo t) (entry_or [] (map_of g (to_tminfo t)) @ [(n, to_signature t)]) g"
  obtain h1 where "tc_collect ts h1 ?g = (h', g')"
    using Cons.prems(1) by (auto simp: e Let_def)
  note IH = Cons.IH[OF this hmm.wf_put[OF Cons.prems(2)]]
  have "hm_wf g'" "dom (map_of g') = dom (map_of g) \<union> to_tminfo ` snd ` set (e # ts)"
    using IH unfolding hmm.dom_upsert[OF Cons.prems(2)] by (simp_all add: e)
  moreover have "entry_or [] (map_of g' info) = entry_or [] (map_of g info) @ tminfo_group info (e # ts)" for info
    using IH by (simp add: e tminfo_group_def update_conv')
  ultimately show ?case by simp
qed (simp add: tminfo_group_def)

lemma tc_sign_groups_ok:
  assumes "tc_sign_groups E vm gs = Inr tips"
  shows "list_all2 (\<lambda>g ht. ht_high_qc_round ht = tm_high_qc_round (fst g) \<and>
           ht_high_tip_round ht = tm_high_tip_round (fst g) \<and>
           sct_new E DomainTimeout (snd g) vm (rlp_timeout_info E (fst g)) = Inr (ht_sigs ht)) gs tips"
  using assms
proof (induction gs arbitrary: tips)
  case (Cons g gs)
  obtain sct ts where "sct_new E DomainTimeout (snd g) vm (rlp_timeout_info E (fst g)) = Inr sct"
    "tc_sign_groups E vm gs = Inr ts"
    "tips = \<lparr>ht_high_qc_round = tm_high_qc_round (fst g),
             ht_high_tip_round = tm_high_tip_round (fst g), ht_sigs = sct\<rparr> # ts"
    using Cons.prems by (cases g) (auto split: sum.splits)
  then show ?case using Cons.IH by simp
qed simp

lemma tc_sign_groups_err:
  "tc_sign_groups E vm gs = Inl e \<Longrightarrow>
     \<exists>(info, ss) \<in> set gs. sct_new E DomainTimeout ss vm (rlp_timeout_info E info) = Inl e"
  by (induction gs) (auto split: sum.splits)

lemma tc_new_groups:
  assumes "env_order_ok E" "tc_collect ts h [] = (h', g')"
  shows "set (tminfo_order E g') = (\<lambda>info. (info, tminfo_group info ts)) ` to_tminfo ` snd ` set ts"
proof -
  have g: "hm_wf g'" "dom (map_of g') = to_tminfo ` snd ` set ts"
    "\<And>info. entry_or [] (map_of g' info) = tminfo_group info ts"
    using tc_collect_groups[OF assms(2)] by (auto simp: hm_wf_def)
  have "(info, ss) \<in> set g' \<longleftrightarrow> info \<in> to_tminfo ` snd ` set ts \<and> ss = tminfo_group info ts" for info ss
    using g(1) g(2)[symmetric] g(3)[of info]
    by (auto simp: hm_wf_def dest: map_of_SomeD map_of_is_SomeI)
  then show ?thesis using assms(1) by (auto simp: env_order_ok_def)
qed

lemma tc_new_elim:
  assumes "tc_new E ep r ts vm = Some (Inr tc)"
  obtains g h' g' tips where "genesis_qc E = Some g" "tc_collect ts (HeQc g) [] = (h', g')"
    "tc_sign_groups E vm (tminfo_order E g') = Inr tips"
    "tc = \<lparr>tc_epoch = ep, tc_round = r, tc_tip_rounds = tips, tc_high_extend = h'\<rparr>"
proof -
  obtain g where g: "genesis_qc E = Some g" using assms by (auto simp: tc_new_def bind_eq_Some_conv)
  obtain h' g' where c: "tc_collect ts (HeQc g) [] = (h', g')" by fastforce
  show thesis
    using assms that[OF g c] by (auto simp: tc_new_def g c split: sum.splits)
qed

lemma tminfo_group_senders: "fst ` set (tminfo_group info ts) = fst ` {e \<in> set ts. to_tminfo (snd e) = info}"
  by (simp add: tminfo_group_def image_image)

lemma tc_new_high:
  assumes "tc_new E ep r ts vm = Some (Inr tc)"
  shows "tc_epoch tc = ep \<and> tc_round tc = r \<and>
    tc_high_extend tc \<in> HeQc ` set_option (genesis_qc E) \<union> he_of_hev ` to_high_extend ` snd ` set ts \<and>
    (\<forall>t \<in> snd ` set ts. hev_rank (to_high_extend t) \<le> he_rank (tc_high_extend tc))"
proof -
  obtain g h' g' tips where "genesis_qc E = Some g" "tc_collect ts (HeQc g) [] = (h', g')"
    "tc = \<lparr>tc_epoch = ep, tc_round = r, tc_tip_rounds = tips, tc_high_extend = h'\<rparr>"
    using assms by (rule tc_new_elim)
  then show ?thesis using tc_collect_highest by fastforce
qed

lemma tc_new_signed:
  assumes "sct_laws E valid" "vm_inj vm" "env_order_ok E" "tc_new E ep r ts vm = Some (Inr tc)"
  shows "tc_signed_by E vm ts tc"
proof -
  obtain g h' g' tips where c: "tc_collect ts (HeQc g) [] = (h', g')"
    and t: "tc_sign_groups E vm (tminfo_order E g') = Inr tips"
    and tc: "tc = \<lparr>tc_epoch = ep, tc_round = r, tc_tip_rounds = tips, tc_high_extend = h'\<rparr>"
    using assms(4) by (rule tc_new_elim)
  let ?gs = "tminfo_order E g'"
  have "hm_wf g'" using tc_collect_groups[OF c] by (simp add: hm_wf_def)
  then have d: "distinct (map fst ?gs)" using assms(3) by (simp add: env_order_ok_def hm_wf_def)
  note gs = tc_new_groups[OF assms(3) c]
  have ver: "\<exists>ids. sct_verify E DomainTimeout (ht_sigs ht) vm (rlp_timeout_info E (fst x)) = Inr ids \<and> distinct ids \<and>
      set ids = fst ` {e \<in> set ts. to_tminfo (snd e) = fst x}"
    if x: "x \<in> set ?gs" "sct_new E DomainTimeout (snd x) vm (rlp_timeout_info E (fst x)) = Inr (ht_sigs ht)" for x ht
  proof -
    obtain ids where ids: "sct_verify E DomainTimeout (ht_sigs ht) vm (rlp_timeout_info E (fst x)) = Inr ids"
      "set ids = fst ` set (snd x)"
      using sct_laws.new_verify[OF assms(1,2) x(2)] by blast
    have "bt_wf vm" using assms(2) by (simp add: vm_inj_def)
    moreover have "snd x = tminfo_group (fst x) ts" using x(1) unfolding gs by force
    then have "fst ` set (snd x) = fst ` {e \<in> set ts. to_tminfo (snd e) = fst x}" by (simp only: tminfo_group_senders)
    ultimately show ?thesis using ids sct_laws.verify_sound[OF assms(1) _ ids(1)] by auto
  qed
  have "list_all2 (\<lambda>info ht. ht_high_qc_round ht = tm_high_qc_round info \<and> ht_high_tip_round ht = tm_high_tip_round info \<and>
      (\<exists>ids. sct_verify E DomainTimeout (ht_sigs ht) vm (rlp_timeout_info E info) = Inr ids \<and> distinct ids \<and>
         set ids = fst ` {e \<in> set ts. to_tminfo (snd e) = info})) (map fst ?gs) tips"
    unfolding list_all2_map1 by (rule list.rel_mono_strong[OF tc_sign_groups_ok[OF t]]) (use ver in blast)
  moreover have "set (map fst ?gs) = to_tminfo ` snd ` set ts"
    unfolding set_map gs by (simp add: image_image)
  ultimately show ?thesis
    unfolding tc_signed_by_def tc timeout_certificate.simps using d by (intro exI[of _ "map fst ?gs"] conjI)
qed

section \<open>Properties\<close>

definition rank_key :: "high_extend_rank \<Rightarrow> nat \<times> nat \<times> nat" where
  "rank_key r = (case r of RankQc q \<Rightarrow> (q, 1, 0) | RankTip t q \<Rightarrow> (t, 0, q))"

text \<open>
  The comparison of ranks orders them lexicographically by round, then a quorum
  certificate above a tip of the same round, then by the round of the certificate below the
  tip.  In particular it is a total order.
\<close>
theorem rank_cmp_lexicographic:
  "rank_cmp a b =
     (case (rank_key a, rank_key b) of
        ((r, k, q), (r', k', q')) \<Rightarrow>
          if r \<noteq> r' then cmp_round r r' else if k \<noteq> k' then cmp_round k k' else cmp_round q q')"
  by (cases a; cases b) (auto simp: rank_key_def cmp_round_def)

text \<open>
  C22: a timeout certificate built from timeout messages carries a highest extend that is the
  genesis certificate or comes from one of the timeouts and that no timeout outranks.  Its signature
  collections are in one-to-one correspondence with the distinct infos of the timeouts: each carries the
  rounds of its info and verifies over it, and the signers it then names are exactly the nodes that sent
  that info, each once.  The certificate keys of the validators are distinct.
\<close>
theorem tc_new_correct:
  assumes "sct_laws E valid" "vm_inj vm" "env_order_ok E" "tc_new E ep r ts vm = Some (Inr tc)"
  shows "tc_epoch tc = ep \<and> tc_round tc = r \<and>
    tc_high_extend tc \<in> HeQc ` set_option (genesis_qc E) \<union> he_of_hev ` to_high_extend ` snd ` set ts \<and>
    (\<forall>t \<in> snd ` set ts. hev_rank (to_high_extend t) \<le> he_rank (tc_high_extend tc)) \<and>
    (\<exists>infos. distinct infos \<and> set infos = to_tminfo ` snd ` set ts \<and>
       list_all2 (\<lambda>info ht. ht_high_qc_round ht = tm_high_qc_round info \<and> ht_high_tip_round ht = tm_high_tip_round info \<and>
           (\<exists>ids. sct_verify E DomainTimeout (ht_sigs ht) vm (rlp_timeout_info E info) = Inr ids \<and> distinct ids \<and>
              set ids = fst ` {e \<in> set ts. to_tminfo (snd e) = info}))
         infos (tc_tip_rounds tc))"
  using tc_new_signed[OF assms] tc_new_high[OF assms(4)] unfolding tc_signed_by_def by (elim conjE, intro conjI)

text \<open>
  A concrete environment: \<^verbatim>\<open>NopSignature\<close> signatures collected in a \<^verbatim>\<open>MultiSig\<close>, and simple
  injective encodings.  The certificate key of node \<open>n\<close> is \<open>n + 100\<close>.
\<close>

definition example_rlp_header :: "('s, 'c, 'x) consensus_block_header \<Rightarrow> bytes" where
  "example_rlp_header h =
     [block_round h, bh_epoch h, vote_id (qc_info (bh_qc h)), vote_round (qc_info (bh_qc h)),
      vote_epoch (qc_info (bh_qc h)), author h, bh_seq_num h, timestamp_ns h, block_body_id h]"

definition example_env :: "(nop_signature, nop_signature multi_sig, unit) env" where
  "example_env =
     \<lparr>sct_new = ms_new (nop_ops example_hash), sct_verify = ms_verify (nop_ops example_hash),
      num_signatures = ms_num_signatures,
      rlp_vote = (\<lambda>v. [vote_id v, vote_round v, vote_epoch v]),
      rlp_timeout_info = (\<lambda>t. [tm_epoch t, tm_round t, tm_high_qc_round t, tm_high_tip_round t]),
      rlp_no_endorsement = (\<lambda>n. [ne_epoch n, ne_round n, ne_tip_qc_round n]),
      rlp_header = example_rlp_header,
      rlp_round = (\<lambda>r. [r]),
      hasher = foldl (\<lambda>a b. 7 * a + b) 1,
      cert_sign = nop_sign example_hash,
      st_sign = nop_sign example_hash,
      st_recover_pubkey = nop_recover_pubkey example_hash,
      tminfo_order = rev\<rparr>"

lemmas example_env_simps =
  example_env_def example_rlp_header_def ms_new_def bt_values_def nop_ops_def nop_recover_pubkey_def
  nop_verify_def nop_sign_def example_vm_def

definition example_qc :: "nop_signature multi_sig quorum_certificate" where
  "example_qc = \<lparr>qc_info = \<lparr>vote_id = 5, vote_round = 2, vote_epoch = 1\<rparr>, qc_signatures = \<lparr>ms_sigs = []\<rparr>\<rparr>"

definition example_header :: "round \<Rightarrow> (nop_signature, nop_signature multi_sig, unit) consensus_block_header" where
  "example_header r =
     \<lparr>block_round = r, bh_epoch = 1, bh_qc = example_qc, author = 1, bh_seq_num = 3, timestamp_ns = 3,
      round_signature = nop_sign example_hash DomainRoundSignature [r] 101,
      delayed_execution_results = [], execution_inputs = (), block_body_id = 0,
      base_fee = 0, base_fee_trend = 0, base_fee_moment = 0\<rparr>"

definition example_tip :: "round \<Rightarrow> (nop_signature, nop_signature multi_sig, unit) consensus_tip" where
  "example_tip r = tip_new example_env 1 (example_header r) None"

definition example_timeout :: "node_id \<Rightarrow> (nop_signature, nop_signature multi_sig, unit) timeout" where
  "example_timeout n =
     timeout_new example_env (n + 100)
       \<lparr>tm_epoch = 1, tm_round = 4, tm_high_qc_round = 2, tm_high_tip_round = 0\<rparr> (HeQc example_qc) False None"

lemma example_env_order_ok: "env_order_ok example_env"
  by (simp add: env_order_ok_def example_env_def hm_wf_def rev_map[symmetric])

lemma sct_laws_cong:
  fixes E :: "('s, 'c, 'z) sct_ops_scheme" and F :: "('s, 'c, 'y) sct_ops_scheme"
  assumes "sct_new E = sct_new F" "sct_verify E = sct_verify F" "sct_laws F valid"
  shows "sct_laws E valid"
  using assms(3) unfolding sct_laws_def assms(1,2) .

lemma example_env_laws: "sct_laws example_env (ms_valid (nop_ops example_hash))"
  by (rule sct_laws_cong[OF _ _ msl.sct_laws_axioms]) (simp_all add: example_env_def ms_ops_def)

lemma example_vm_inj: "vm_inj example_vm"
  by (simp add: vm_inj_def bt_wf_def example_vm_def)

theorem tc_new_correct_witness:
  "\<exists>tc. tc_new example_env 1 4 [(1, example_timeout 1), (2, example_timeout 2)] example_vm = Some (Inr tc) \<and>
     tc_round tc = 4 \<and> length (tc_tip_rounds tc) = 1 \<and>
     RankQc 2 \<le> he_rank (tc_high_extend tc)"
proof -
  let ?ts = "[(1, example_timeout 1), (2, example_timeout 2)]"
  obtain tc where tc: "tc_new example_env 1 4 ?ts example_vm = Some (Inr tc)"
    by (simp add: example_timeout_def timeout_new_def tc_new_def genesis_qc_def example_qc_def
      he_partial_cmp_def cmp_round_def get_round_def GENESIS_ROUND_def GENESIS_BLOCK_ID_def example_env_simps)
  note ok = tc_new_correct[OF example_env_laws example_vm_inj example_env_order_ok tc]
  obtain infos where i: "distinct infos" "set infos = to_tminfo ` snd ` set ?ts" "length infos = length (tc_tip_rounds tc)"
    using ok by (elim conjE exE) (rule that, auto dest: list_all2_lengthD)
  have "set infos = {\<lparr>tm_epoch = 1, tm_round = 4, tm_high_qc_round = 2, tm_high_tip_round = 0\<rparr>}"
    unfolding i(2) by (simp add: example_timeout_def timeout_new_def)
  then have "length infos = 1" using i(1) by (metis distinct_card card_1_singleton_iff One_nat_def)
  moreover have "hev_rank (to_high_extend (example_timeout 1)) = RankQc 2"
    by (simp add: example_timeout_def timeout_new_def example_qc_def get_round_def)
  ultimately show ?thesis using tc ok i(3) by auto
qed

end
