(* ===== verification/Safety.thy ===== *)
theory Safety
  imports Certificates
begin

text \<open>
  \<^verbatim>\<open>monad-consensus/src/validation/safety.rs\<close>: the stateful safety checks of a node.

  Every operation of the struct is a function from the state to the new state, with
  \<^term>\<open>None\<close> where the code's assertion fails.  The relation \<open>safety_run\<close> is the set of histories
  the operations can produce, with the votes and no-endorsements that leave the node as
  events: a vote is sent by \<open>vote\<close>, or inside a timeout message when \<open>timeout\<close> returns
  true and there is a high tip (\<^verbatim>\<open>Pacemaker::local_timeout_round\<close>, \<^verbatim>\<open>Timeout::new\<close>).
\<close>

definition HANDLED_PROPOSAL_CACHE_SIZE :: nat where
  "HANDLED_PROPOSAL_CACHE_SIZE = 100"

record high_no_endorse =
  hne_round :: round
  hne_tip :: block_id

record ('s, 'c, 'x) safety =
  maybe_high_tip :: "('s, 'c, 'x) consensus_tip option"
  high_certificate_qc_round :: round
  highest_vote :: round
  highest_no_endorse :: high_no_endorse
  highest_propose :: round
  highest_recovery_request :: round
  handled_proposals :: "round btree_set"

definition safety_default :: "('s, 'c, 'x) safety" where
  "safety_default =
     \<lparr>maybe_high_tip = None, high_certificate_qc_round = GENESIS_ROUND, highest_vote = GENESIS_ROUND,
      highest_no_endorse = \<lparr>hne_round = GENESIS_ROUND, hne_tip = GENESIS_BLOCK_ID\<rparr>,
      highest_propose = GENESIS_ROUND, highest_recovery_request = GENESIS_ROUND,
      handled_proposals = []\<rparr>"

definition safety_new ::
  "('s, 'c, 'x) round_certificate \<Rightarrow> ('s, 'c, 'x) consensus_tip option \<Rightarrow> ('s, 'c, 'x) safety option" where
  "safety_new high_certificate high_tip = do {
     current_round \<leftarrow> round_add (rc_round high_certificate) 1;
     Some \<lparr>maybe_high_tip = high_tip,
           high_certificate_qc_round = get_round (rc_qc high_certificate),
           highest_vote = current_round,
           highest_no_endorse = \<lparr>hne_round = current_round, hne_tip = GENESIS_BLOCK_ID\<rparr>,
           highest_propose = current_round, highest_recovery_request = current_round,
           handled_proposals = []\<rparr>
   }"

definition safety_process_certificate ::
  "('s, 'c, 'x) safety \<Rightarrow> ('s, 'c, 'x) round_certificate \<Rightarrow> ('s, 'c, 'x) safety" where
  "safety_process_certificate s certificate =
     (let s = (if get_round (rc_qc certificate) > high_certificate_qc_round s
               then s\<lparr>high_certificate_qc_round := get_round (rc_qc certificate)\<rparr> else s)
      in case maybe_high_tip s of
           None \<Rightarrow> s
         | Some tip \<Rightarrow>
             if block_round (tip_block_header tip) \<le> high_certificate_qc_round s
             then s\<lparr>maybe_high_tip := None\<rparr> else s)"

definition is_safe_to_vote :: "('s, 'c, 'x) safety \<Rightarrow> round \<Rightarrow> block_id option \<Rightarrow> bool" where
  "is_safe_to_vote s r last_round_tc_tip =
     (if r = hne_round (highest_no_endorse s) \<and>
         last_round_tc_tip \<noteq> Some (hne_tip (highest_no_endorse s))
      then False else r > highest_vote s)"

definition safety_vote ::
  "('s, 'c, 'x) safety \<Rightarrow> round \<Rightarrow> block_id option \<Rightarrow> ('s, 'c, 'x) consensus_tip
     \<Rightarrow> ('s, 'c, 'x) safety option" where
  "safety_vote s r last_round_tc_tip tip = do {
     _ \<leftarrow> assert_p (is_safe_to_vote s r last_round_tc_tip);
     let s = s\<lparr>highest_vote := r\<rparr>;
     Some (if block_round (tip_block_header tip) > high_certificate_qc_round s
           then s\<lparr>maybe_high_tip := Some tip\<rparr>
           else s\<lparr>maybe_high_tip := None\<rparr>)
   }"

definition is_safe_to_no_endorse :: "('s, 'c, 'x) safety \<Rightarrow> round \<Rightarrow> bool" where
  "is_safe_to_no_endorse s r \<longleftrightarrow> r > max (hne_round (highest_no_endorse s)) (highest_vote s)"

definition no_endorse :: "('s, 'c, 'x) safety \<Rightarrow> round \<Rightarrow> block_id \<Rightarrow> ('s, 'c, 'x) safety option" where
  "no_endorse s r tip = do {
     _ \<leftarrow> assert_p (is_safe_to_no_endorse s r);
     Some (s\<lparr>highest_no_endorse := \<lparr>hne_round = r, hne_tip = tip\<rparr>\<rparr>)
   }"

definition safety_timeout :: "('s, 'c, 'x) safety \<Rightarrow> round \<Rightarrow> (('s, 'c, 'x) safety \<times> bool) option" where
  "safety_timeout s r = do {
     _ \<leftarrow> assert_p (r \<ge> highest_vote s);
     let s = s\<lparr>highest_vote := r\<rparr>;
     Some (s, hne_round (highest_no_endorse s) < r \<or>
              (case maybe_high_tip s of
                 None \<Rightarrow> False
               | Some tip \<Rightarrow> block_round (tip_block_header tip) = r))
   }"

definition is_safe_to_propose :: "('s, 'c, 'x) safety \<Rightarrow> round \<Rightarrow> bool" where
  "is_safe_to_propose s r \<longleftrightarrow> r > max (highest_propose s) (highest_vote s)"

definition safety_propose :: "('s, 'c, 'x) safety \<Rightarrow> round \<Rightarrow> ('s, 'c, 'x) safety option" where
  "safety_propose s r = do {
     _ \<leftarrow> assert_p (is_safe_to_propose s r);
     Some (s\<lparr>highest_propose := r\<rparr>)
   }"

definition is_safe_to_recovery_request :: "('s, 'c, 'x) safety \<Rightarrow> round \<Rightarrow> bool" where
  "is_safe_to_recovery_request s r \<longleftrightarrow> r > highest_recovery_request s"

definition recovery_request :: "('s, 'c, 'x) safety \<Rightarrow> round \<Rightarrow> ('s, 'c, 'x) safety option" where
  "recovery_request s r = do {
     _ \<leftarrow> assert_p (is_safe_to_recovery_request s r);
     Some (s\<lparr>highest_recovery_request := r\<rparr>)
   }"

definition is_safe_to_handle_proposal :: "('s, 'c, 'x) safety \<Rightarrow> round \<Rightarrow> bool" where
  "is_safe_to_handle_proposal s r \<longleftrightarrow> r \<notin> set (handled_proposals s)"

fun pop_excess :: "nat \<Rightarrow> 'a btree_set \<Rightarrow> 'a btree_set" where
  "pop_excess n [] = []"
| "pop_excess n (x # xs) = (if length (x # xs) > n then pop_excess n xs else x # xs)"

definition handle_proposal :: "('s, 'c, 'x) safety \<Rightarrow> round \<Rightarrow> ('s, 'c, 'x) safety option" where
  "handle_proposal s r = do {
     _ \<leftarrow> assert_p (is_safe_to_handle_proposal s r);
     Some (s\<lparr>handled_proposals :=
               pop_excess HANDLED_PROPOSAL_CACHE_SIZE (insort_insert r (handled_proposals s))\<rparr>)
   }"

section \<open>Histories\<close>

datatype ('s, 'c, 'x) safety_event =
    SentVote round "block_id option" "('s, 'c, 'x) consensus_tip"
  | SentTimeoutVote round "('s, 'c, 'x) consensus_tip"
  | SentNoEndorse round block_id

definition timeout_events ::
  "round \<Rightarrow> ('s, 'c, 'x) safety \<Rightarrow> bool \<Rightarrow> ('s, 'c, 'x) safety_event list" where
  "timeout_events r s safe_to_vote =
     (case maybe_high_tip s of
        Some tip \<Rightarrow> if safe_to_vote then [SentTimeoutVote r tip] else []
      | None \<Rightarrow> [])"

inductive safety_run :: "('s, 'c, 'x) safety \<Rightarrow> ('s, 'c, 'x) safety_event list \<Rightarrow> bool" where
  run_default: "safety_run safety_default []"
| run_new: "safety_new rc high_tip = Some s \<Longrightarrow> safety_run s []"
| run_vote: "safety_run s es \<Longrightarrow> safety_vote s r tct tip = Some s' \<Longrightarrow>
    safety_run s' (SentVote r tct tip # es)"
| run_timeout: "safety_run s es \<Longrightarrow> safety_timeout s r = Some (s', b) \<Longrightarrow>
    safety_run s' (timeout_events r s' b @ es)"
| run_no_endorse: "safety_run s es \<Longrightarrow> no_endorse s r t = Some s' \<Longrightarrow>
    safety_run s' (SentNoEndorse r t # es)"
| run_certificate: "safety_run s es \<Longrightarrow> safety_run (safety_process_certificate s rc) es"
| run_propose: "safety_run s es \<Longrightarrow> safety_propose s r = Some s' \<Longrightarrow> safety_run s' es"
| run_recovery: "safety_run s es \<Longrightarrow> recovery_request s r = Some s' \<Longrightarrow> safety_run s' es"
| run_handle: "safety_run s es \<Longrightarrow> handle_proposal s r = Some s' \<Longrightarrow> safety_run s' es"

fun voted :: "('s, 'c, 'x) safety_event \<Rightarrow> (round \<times> ('s, 'c, 'x) consensus_tip) option" where
  "voted (SentVote r _ tip) = Some (r, tip)"
| "voted (SentTimeoutVote r tip) = Some (r, tip)"
| "voted (SentNoEndorse _ _) = None"

definition votes_in :: "('s, 'c, 'x) safety_event list \<Rightarrow> (round \<times> ('s, 'c, 'x) consensus_tip) set" where
  "votes_in es = {v. Some v \<in> voted ` set es}"

text \<open>
  The rounds in which a node acts never decrease (\<^verbatim>\<open>Pacemaker\<close> keeps the current round);
  \<open>monotone_history\<close> says so of a history, most recent event first.
\<close>

fun event_round :: "('s, 'c, 'x) safety_event \<Rightarrow> round" where
  "event_round (SentVote r _ _) = r"
| "event_round (SentTimeoutVote r _) = r"
| "event_round (SentNoEndorse r _) = r"

definition monotone_history :: "('s, 'c, 'x) safety_event list \<Rightarrow> bool" where
  "monotone_history es \<longleftrightarrow> sorted_wrt (\<lambda>a b. event_round b \<le> event_round a) es"

section \<open>What each operation does to the state\<close>

lemma safety_vote_Some:
  "safety_vote s r t tip = Some s' \<longleftrightarrow>
     is_safe_to_vote s r t \<and>
     s' = s\<lparr>highest_vote := r,
            maybe_high_tip := (if high_certificate_qc_round s < block_round (tip_block_header tip)
                               then Some tip else None)\<rparr>"
  by (auto simp: safety_vote_def bind_eq_Some_conv)

lemma is_safe_to_vote_iff:
  "is_safe_to_vote s r t \<longleftrightarrow>
     highest_vote s < r \<and>
     (r = hne_round (highest_no_endorse s) \<longrightarrow> t = Some (hne_tip (highest_no_endorse s)))"
  by (auto simp: is_safe_to_vote_def)

lemma safety_timeout_Some:
  "safety_timeout s r = Some (s', b) \<longleftrightarrow>
     highest_vote s \<le> r \<and> s' = s\<lparr>highest_vote := r\<rparr> \<and>
     b = (hne_round (highest_no_endorse s) < r \<or>
          (\<exists>tip. maybe_high_tip s = Some tip \<and> block_round (tip_block_header tip) = r))"
  by (auto simp: safety_timeout_def bind_eq_Some_conv split: option.splits)

lemma no_endorse_Some:
  "no_endorse s r t = Some s' \<longleftrightarrow>
     hne_round (highest_no_endorse s) < r \<and> highest_vote s < r \<and>
     s' = s\<lparr>highest_no_endorse := \<lparr>hne_round = r, hne_tip = t\<rparr>\<rparr>"
  by (auto simp: no_endorse_def bind_eq_Some_conv is_safe_to_no_endorse_def)

lemma safety_process_certificate_simps [simp]:
  "highest_vote (safety_process_certificate s rc) = highest_vote s"
  "highest_no_endorse (safety_process_certificate s rc) = highest_no_endorse s"
  "highest_propose (safety_process_certificate s rc) = highest_propose s"
  "high_certificate_qc_round (safety_process_certificate s rc) =
     max (high_certificate_qc_round s) (get_round (rc_qc rc))"
  by (auto simp: safety_process_certificate_def Let_def split: option.splits)

lemma safety_process_certificate_tip:
  "maybe_high_tip (safety_process_certificate s rc) =
     (case maybe_high_tip s of
        None \<Rightarrow> None
      | Some tip \<Rightarrow>
          if block_round (tip_block_header tip) \<le> max (high_certificate_qc_round s) (get_round (rc_qc rc))
          then None else Some tip)"
  by (auto simp: safety_process_certificate_def Let_def split: option.splits)

lemma timeout_events_mem:
  "ev \<in> set (timeout_events r s b) \<longleftrightarrow> (\<exists>tip. maybe_high_tip s = Some tip \<and> b \<and> ev = SentTimeoutVote r tip)"
  by (auto simp: timeout_events_def split: option.splits)

lemma votes_in_simps [simp]:
  "votes_in [] = {}"
  "votes_in (SentVote r t tip # es) = insert (r, tip) (votes_in es)"
  "votes_in (SentNoEndorse r u # es) = votes_in es"
  "votes_in (es @ fs) = votes_in es \<union> votes_in fs"
  "votes_in (timeout_events r s b) = (case maybe_high_tip s of Some tip \<Rightarrow> if b then {(r, tip)} else {} | None \<Rightarrow> {})"
  by (auto simp: votes_in_def timeout_events_def split: option.splits)

lemmas safety_op_defs =
  safety_vote_Some is_safe_to_vote_iff safety_timeout_Some no_endorse_Some

section \<open>The voting invariant\<close>

definition votes_inv :: "('s, 'c, 'x) safety \<Rightarrow> (round \<times> ('s, 'c, 'x) consensus_tip) set \<Rightarrow> bool" where
  "votes_inv s V \<longleftrightarrow>
     (\<forall>(r, tip) \<in> V. r \<le> highest_vote s \<and> (r = highest_vote s \<longrightarrow> maybe_high_tip s \<in> {None, Some tip})) \<and>
     (\<forall>(r, tip) \<in> V. \<forall>(r', tip') \<in> V. r = r' \<longrightarrow> tip = tip')"

lemma votes_inv_extend:
  assumes "votes_inv s V" "highest_vote s < r" "highest_vote s' = r" "maybe_high_tip s' \<in> {None, Some tip}"
  shows "votes_inv s' (insert (r, tip) V)"
  using assms unfolding votes_inv_def by fastforce

lemma votes_inv_certificate: "votes_inv s V \<Longrightarrow> votes_inv (safety_process_certificate s rc) V"
  unfolding votes_inv_def by (auto simp: safety_process_certificate_tip split: option.splits)

lemma votes_inv_timeout:
  assumes "votes_inv s V" "safety_timeout s r = Some (s', b)"
  shows "votes_inv s' (votes_in (timeout_events r s' b) \<union> V)"
proof -
  have s': "highest_vote s \<le> r" "highest_vote s' = r" "maybe_high_tip s' = maybe_high_tip s"
    using assms(2) by (auto simp: safety_timeout_Some)
  show ?thesis
  proof (cases "highest_vote s = r")
    case True
    then show ?thesis using assms(1) s'
      unfolding votes_inv_def by (auto split: option.splits if_splits)
  next
    case False
    then have V: "\<forall>(q, t) \<in> V. q < r" using assms(1) s'(1) by (auto simp: votes_inv_def)
    then show ?thesis using assms(1) s'
      unfolding votes_inv_def by (fastforce split: option.splits if_splits)
  qed
qed

lemma safety_other_ops:
  "safety_propose s r = Some s' \<Longrightarrow> s' = s\<lparr>highest_propose := r\<rparr> \<and> highest_propose s < r \<and> highest_vote s < r"
  "recovery_request s r = Some s' \<Longrightarrow> s' = s\<lparr>highest_recovery_request := r\<rparr>"
  "handle_proposal s r = Some s' \<Longrightarrow>
     s' = s\<lparr>handled_proposals :=
              pop_excess HANDLED_PROPOSAL_CACHE_SIZE (insort_insert r (handled_proposals s))\<rparr>"
  by (auto simp: safety_propose_def is_safe_to_propose_def recovery_request_def handle_proposal_def
        bind_eq_Some_conv)

lemma votes_inv_run: "safety_run s es \<Longrightarrow> votes_inv s (votes_in es)"
proof (induction rule: safety_run.induct)
  case (run_vote s es r tct tip s')
  then show ?case
    using votes_inv_extend[of s "votes_in es" r s' tip] by (auto simp: safety_op_defs)
next
  case (run_timeout s es r s' b)
  then show ?case using votes_inv_timeout[of s "votes_in es" r s' b] by simp
next
  case (run_no_endorse s es r t s')
  then show ?case by (auto simp: safety_op_defs votes_inv_def)
next
  case (run_propose s es r s')
  then show ?case using safety_other_ops(1)[of s r s'] by (auto simp: votes_inv_def)
next
  case (run_recovery s es r s')
  then show ?case using safety_other_ops(2)[of s r s'] by (auto simp: votes_inv_def)
next
  case (run_handle s es r s')
  then show ?case using safety_other_ops(3)[of s r s'] by (auto simp: votes_inv_def)
next
  case (run_certificate s es rc)
  then show ?case by (simp add: votes_inv_certificate)
qed (auto simp: votes_inv_def)

section \<open>The no-endorsement invariant\<close>

definition ne_compatible :: "('s, 'c, 'x) safety_event list \<Rightarrow> ('s, 'c, 'x) safety_event \<Rightarrow> bool" where
  "ne_compatible es ev =
     (case ev of
        SentVote r tct _ \<Rightarrow> \<forall>T. SentNoEndorse r T \<in> set es \<longrightarrow> tct = Some T
      | SentTimeoutVote r tip \<Rightarrow>
          \<forall>T. SentNoEndorse r T \<in> set es \<longrightarrow> block_round (tip_block_header tip) = r
      | SentNoEndorse r T \<Rightarrow> \<forall>T'. SentNoEndorse r T' \<in> set es \<longrightarrow> T' = T)"

definition ne_inv :: "('s, 'c, 'x) safety \<Rightarrow> ('s, 'c, 'x) safety_event list \<Rightarrow> bool" where
  "ne_inv s es \<longleftrightarrow>
     (\<forall>r T. SentNoEndorse r T \<in> set es \<longrightarrow>
        r \<le> hne_round (highest_no_endorse s) \<and>
        (r = hne_round (highest_no_endorse s) \<longrightarrow> T = hne_tip (highest_no_endorse s)) \<and>
        SentNoEndorse (hne_round (highest_no_endorse s)) (hne_tip (highest_no_endorse s)) \<in> set es) \<and>
     (\<forall>ev \<in> set es. ne_compatible es ev)"

lemma monotone_history_Cons:
  "monotone_history (ev # es) \<longleftrightarrow> (\<forall>x \<in> set es. event_round x \<le> event_round ev) \<and> monotone_history es"
  by (simp add: monotone_history_def)

lemma ne_inv_current:
  assumes "ne_inv s es" "SentNoEndorse r T \<in> set es" "\<forall>x \<in> set es. event_round x \<le> r"
  shows "hne_round (highest_no_endorse s) = r \<and> hne_tip (highest_no_endorse s) = T"
  using assms unfolding ne_inv_def by (metis event_round.simps(3) le_antisym)

lemma ne_inv_vote_event:
  assumes "ne_inv s es" "highest_no_endorse s' = highest_no_endorse s"
    and "ne_compatible es ev" "\<And>r T. ev \<noteq> SentNoEndorse r T"
  shows "ne_inv s' (ev # es)"
proof -
  have "ne_compatible (ev # es) x \<longleftrightarrow> ne_compatible es x" for x
    using assms(4) by (cases ev; cases x) (auto simp: ne_compatible_def)
  then show ?thesis using assms unfolding ne_inv_def by auto
qed

lemma ne_inv_no_endorse:
  assumes "ne_inv s es" "votes_inv s (votes_in es)" "no_endorse s r t = Some s'"
  shows "ne_inv s' (SentNoEndorse r t # es)"
proof -
  have r: "hne_round (highest_no_endorse s) < r" "highest_vote s < r"
    "highest_no_endorse s' = \<lparr>hne_round = r, hne_tip = t\<rparr>"
    using assms(3) by (auto simp: no_endorse_Some)
  have lt: "SentNoEndorse q T \<in> set es \<Longrightarrow> q < r" for q T
    using assms(1) r(1) unfolding ne_inv_def by (meson le_less_trans)
  then have no_ne: "SentNoEndorse r T \<notin> set es" for T by blast
  have "(r, tip) \<notin> votes_in es" for tip
    using assms(2) r(2) by (auto simp: votes_inv_def)
  then have no_vote: "SentVote r u tip \<notin> set es" "SentTimeoutVote r tip \<notin> set es" for u tip
    unfolding votes_in_def by (force dest: imageI[of _ _ voted])+
  have "ne_compatible (SentNoEndorse r t # es) x" if "x \<in> set es" for x
  proof -
    have "ne_compatible es x" using assms(1) that by (simp add: ne_inv_def)
    moreover have "event_round x \<noteq> r" using that no_ne no_vote by (cases x rule: safety_event.exhaust) auto
    ultimately show ?thesis by (cases x) (simp_all add: ne_compatible_def)
  qed
  moreover have "ne_compatible (SentNoEndorse r t # es) (SentNoEndorse r t)"
    using no_ne by (simp add: ne_compatible_def)
  ultimately show ?thesis
    using r(3) unfolding ne_inv_def by (auto dest: lt)
qed

lemma ne_inv_run:
  assumes "safety_run s es" "monotone_history es"
  shows "ne_inv s es"
  using assms
proof (induction rule: safety_run.induct)
  case (run_vote s es r tct tip s')
  then have IH: "ne_inv s es" and mono: "\<forall>x \<in> set es. event_round x \<le> r"
    by (auto simp: monotone_history_Cons)
  have "ne_compatible es (SentVote r tct tip)"
    using ne_inv_current[OF IH _ mono] run_vote.hyps(2)
    by (auto simp: ne_compatible_def safety_op_defs)
  then show ?case using ne_inv_vote_event[OF IH] run_vote.hyps(2) by (auto simp: safety_op_defs)
next
  case (run_timeout s es r s' b)
  show ?case
  proof (cases "timeout_events r s' b")
    case Nil
    then show ?thesis using run_timeout by (auto simp: safety_op_defs ne_inv_def)
  next
    case (Cons ev evs)
    then obtain tip where t: "maybe_high_tip s' = Some tip" b "timeout_events r s' b = [SentTimeoutVote r tip]"
      by (auto simp: timeout_events_def split: option.splits if_splits)
    then have IH: "ne_inv s es" and mono: "\<forall>x \<in> set es. event_round x \<le> r"
      using run_timeout by (auto simp: monotone_history_Cons)
    have "ne_compatible es (SentTimeoutVote r tip)"
      using ne_inv_current[OF IH _ mono] run_timeout.hyps(2) t
      by (auto simp: ne_compatible_def safety_op_defs)
    then show ?thesis
      using ne_inv_vote_event[OF IH] run_timeout.hyps(2) t(3) by (auto simp: safety_op_defs)
  qed
next
  case (run_no_endorse s es r t s')
  then show ?case
    by (intro ne_inv_no_endorse[OF _ votes_inv_run]) (auto simp: monotone_history_Cons)
next
  case (run_propose s es r s')
  then show ?case using safety_other_ops(1)[of s r s'] by (auto simp: ne_inv_def)
next
  case (run_recovery s es r s')
  then show ?case using safety_other_ops(2)[of s r s'] by (auto simp: ne_inv_def)
next
  case (run_handle s es r s')
  then show ?case using safety_other_ops(3)[of s r s'] by (auto simp: ne_inv_def)
next
  case (run_certificate s es rc)
  then show ?case by (simp add: ne_inv_def)
qed (auto simp: ne_inv_def)

text \<open>A no-endorsement is above everything sent before it, in every history.\<close>

fun ne_order :: "('s, 'c, 'x) safety_event \<Rightarrow> ('s, 'c, 'x) safety_event \<Rightarrow> bool" where
  "ne_order (SentNoEndorse r _) b \<longleftrightarrow> event_round b < r"
| "ne_order _ b \<longleftrightarrow> True"

lemma ne_order_run:
  "safety_run s es \<Longrightarrow>
     (\<forall>ev \<in> set es. event_round ev \<le> max (hne_round (highest_no_endorse s)) (highest_vote s)) \<and> sorted_wrt ne_order es"
proof (induction rule: safety_run.induct)
  case (run_vote s es r tct tip s')
  then show ?case by (fastforce simp: safety_op_defs)
next
  case (run_timeout s es r s' b)
  then show ?case
    by (fastforce simp: safety_op_defs timeout_events_def sorted_wrt_append split: option.splits)
next
  case (run_no_endorse s es r t s')
  then show ?case by (fastforce simp: safety_op_defs)
next
  case (run_propose s es r s')
  then show ?case using safety_other_ops(1)[of s r s'] by auto
next
  case (run_recovery s es r s')
  then show ?case using safety_other_ops(2)[of s r s'] by auto
next
  case (run_handle s es r s')
  then show ?case using safety_other_ops(3)[of s r s'] by auto
qed simp_all

section \<open>High tips and handled proposals\<close>

text \<open>
  The comment on \<^verbatim>\<open>high_certificate_qc_round\<close> promises that a timeout carries a tip above its
  quorum certificate.  \<open>tip_inv\<close> is the invariant that gives it.
\<close>

definition tip_inv :: "('s, 'c, 'x) safety \<Rightarrow> bool" where
  "tip_inv s \<longleftrightarrow>
     (\<forall>tip. maybe_high_tip s = Some tip \<longrightarrow> high_certificate_qc_round s < block_round (tip_block_header tip))"

definition handled_inv :: "('s, 'c, 'x) safety \<Rightarrow> bool" where
  "handled_inv s \<longleftrightarrow>
     sorted (handled_proposals s) \<and> distinct (handled_proposals s) \<and>
     length (handled_proposals s) \<le> HANDLED_PROPOSAL_CACHE_SIZE"

lemma tip_inv_vote: "safety_vote s r t tip = Some s' \<Longrightarrow> tip_inv s'"
  by (auto simp: safety_vote_Some tip_inv_def)

lemma tip_inv_certificate: "tip_inv (safety_process_certificate s rc)"
  by (auto simp: tip_inv_def safety_process_certificate_tip split: option.splits if_splits)

lemma pop_excess_drop: "pop_excess n xs = drop (length xs - n) xs"
  by (induction n xs rule: pop_excess.induct) (auto simp: Suc_diff_le)

lemma handled_inv_handle:
  assumes "handled_inv s" "handle_proposal s r = Some s'"
  shows "handled_inv s'"
  using assms
  by (auto simp: handled_inv_def handle_proposal_def bind_eq_Some_conv pop_excess_drop
        sorted_insort_insert distinct_insort_insert intro: sorted_wrt_drop)

section \<open>Properties\<close>

text \<open>
  C5: no double voting.  Whatever sequence of calls is made on the safety module, from a
  fresh start or from a restart, all votes it lets out for one round, directly or inside
  timeout messages, are for the same tip.
\<close>
theorem no_double_vote:
  assumes "safety_run s es" "(r, tip) \<in> votes_in es" "(r, tip') \<in> votes_in es"
  shows "tip = tip'"
  using votes_inv_run[OF assms(1)] assms(2,3) unfolding votes_inv_def by blast

text \<open>
  C8: no-endorsement exclusion.  In a history whose rounds do not decrease (as those of a node), when the
  node refuses to endorse the tip \<open>T\<close> in round \<open>r\<close>, everything it sent before is of an earlier round.
  Afterwards it votes directly in \<open>r\<close> only for proposals whose timeout certificate of the previous round
  has \<open>T\<close> as its tip, votes inside a timeout of \<open>r\<close> only for a block first proposed in \<open>r\<close>, and sends no
  second no-endorsement in \<open>r\<close>.
\<close>
theorem no_endorse_excludes_conflicting_votes:
  assumes "safety_run s (later @ SentNoEndorse r T # earlier)" "monotone_history (later @ SentNoEndorse r T # earlier)"
  shows "(\<forall>ev \<in> set earlier. event_round ev < r) \<and>
         (\<forall>tct tip. SentVote r tct tip \<in> set later \<longrightarrow> tct = Some T) \<and>
         (\<forall>tip. SentTimeoutVote r tip \<in> set later \<longrightarrow> block_round (tip_block_header tip) = r) \<and>
         (\<forall>T'. SentNoEndorse r T' \<notin> set later)"
proof -
  let ?es = "later @ SentNoEndorse r T # earlier"
  have c: "ev \<in> set ?es \<Longrightarrow> ne_compatible ?es ev" for ev
    using ne_inv_run[OF assms] unfolding ne_inv_def by blast
  have o: "sorted_wrt ne_order ?es" using ne_order_run[OF assms(1)] by simp
  have "\<forall>ev \<in> set earlier. event_round ev < r" using o by (simp add: sorted_wrt_append)
  moreover have "SentNoEndorse r T' \<notin> set later" for T'
    using o by (fastforce simp: sorted_wrt_append)
  ultimately show ?thesis
    using c[of "SentVote r _ _"] c[of "SentTimeoutVote r _"] by (simp add: ne_compatible_def) blast
qed

lemma example_run_no_endorse:
  "safety_run
     (safety_default\<lparr>highest_no_endorse := \<lparr>hne_round = 4, hne_tip = 9\<rparr>, highest_vote := 4,
                     maybe_high_tip := Some (example_tip 4)\<rparr>)
     [SentTimeoutVote 4 (example_tip 4), SentVote 4 (Some 9) (example_tip 4), SentNoEndorse 4 9]"
proof -
  let ?s1 = "safety_default\<lparr>highest_no_endorse := \<lparr>hne_round = 4, hne_tip = 9\<rparr>\<rparr>"
  let ?s2 = "?s1\<lparr>highest_vote := 4, maybe_high_tip := Some (example_tip 4)\<rparr>"
  have 1: "safety_run ?s1 [SentNoEndorse 4 9]"
    by (rule run_no_endorse[OF run_default])
       (simp add: no_endorse_Some safety_default_def GENESIS_ROUND_def)
  have 2: "safety_run ?s2 [SentVote 4 (Some 9) (example_tip 4), SentNoEndorse 4 9]"
    by (rule run_vote[OF 1])
       (simp add: safety_op_defs safety_default_def GENESIS_ROUND_def example_tip_def tip_new_def example_header_def)
  have "safety_run ?s2 (timeout_events 4 ?s2 True @ [SentVote 4 (Some 9) (example_tip 4), SentNoEndorse 4 9])"
    by (rule run_timeout[OF 2])
       (simp add: safety_op_defs safety_default_def GENESIS_ROUND_def example_tip_def tip_new_def example_header_def)
  then show ?thesis by (simp add: timeout_events_def safety_default_def)
qed

theorem no_double_vote_witness:
  "\<exists>s es. safety_run s es \<and> (4, example_tip 4) \<in> votes_in es \<and>
     (\<forall>tip. (4, tip) \<in> votes_in es \<longrightarrow> example_tip 4 = tip)"
proof -
  have "(4, example_tip 4) \<in> votes_in
      [SentTimeoutVote 4 (example_tip 4), SentVote 4 (Some 9) (example_tip 4), SentNoEndorse 4 9]"
    by (simp add: votes_in_def)
  then show ?thesis using no_double_vote[OF example_run_no_endorse] example_run_no_endorse by blast
qed

theorem no_endorse_excludes_conflicting_votes_witness:
  "\<exists>s es. safety_run s (es @ [SentNoEndorse 4 9]) \<and> SentVote 4 (Some 9) (example_tip 4) \<in> set es \<and>
     (\<forall>tct tip. SentVote 4 tct tip \<in> set es \<longrightarrow> tct = Some 9) \<and> (\<forall>T'. SentNoEndorse 4 T' \<notin> set es)"
proof -
  let ?es = "[SentTimeoutVote 4 (example_tip 4), SentVote 4 (Some 9) (example_tip 4)]"
  obtain s where run: "safety_run s (?es @ SentNoEndorse 4 9 # [])" using example_run_no_endorse by auto
  have "monotone_history (?es @ SentNoEndorse 4 9 # [])" by (simp add: monotone_history_def)
  from no_endorse_excludes_conflicting_votes[OF run this] show ?thesis
    using run by (intro exI[of _ s] exI[of _ ?es]) simp
qed

end
