(* ===== verification/Epoch_Manager.thy ===== *)
theory Epoch_Manager
  imports Validator_Set Signature_Collection
begin

text \<open>
  \<^verbatim>\<open>monad-validator/src/epoch_manager.rs\<close>: which epoch a round belongs to, and
  \<^verbatim>\<open>monad-validator/src/validators_epoch_mapping.rs\<close>: the validators of each epoch.
\<close>

record epoch_manager =
  epoch_length :: seq_num
  epoch_start_delay :: round
  epoch_starts :: "(epoch, round) btree_map"

definition insert_epoch_start :: "epoch_manager \<Rightarrow> epoch \<Rightarrow> round \<Rightarrow> epoch_manager option" where
  "insert_epoch_start em e r =
     (case bt_get (epoch_starts em) e of
        None \<Rightarrow> Some (em\<lparr>epoch_starts := bt_insert e r (epoch_starts em)\<rparr>)
      | Some r' \<Rightarrow> do { _ \<leftarrow> assert_p (r' = r); Some em })"

fun insert_known_epochs :: "epoch_manager \<Rightarrow> (epoch \<times> round) list \<Rightarrow> epoch_manager option" where
  "insert_known_epochs em [] = Some em"
| "insert_known_epochs em ((e, r) # known) = do {
     em' \<leftarrow> insert_epoch_start em e r;
     insert_known_epochs em' known
   }"

definition epoch_manager_new ::
  "seq_num \<Rightarrow> round \<Rightarrow> (epoch \<times> round) list \<Rightarrow> epoch_manager option" where
  "epoch_manager_new len delay known_epochs =
     insert_known_epochs \<lparr>epoch_length = len, epoch_start_delay = delay, epoch_starts = []\<rparr> known_epochs"

definition schedule_epoch_start :: "epoch_manager \<Rightarrow> seq_num \<Rightarrow> round \<Rightarrow> epoch_manager option" where
  "schedule_epoch_start em block_num blk_round = do {
     b \<leftarrow> is_boundary_block block_num (epoch_length em);
     if b then do {
       e \<leftarrow> to_epoch block_num (epoch_length em);
       next_epoch \<leftarrow> epoch_add e 1;
       epoch_start_round \<leftarrow> round_add blk_round (epoch_start_delay em);
       insert_epoch_start em next_epoch epoch_start_round
     }
     else Some em
   }"

definition get_epoch :: "epoch_manager \<Rightarrow> round \<Rightarrow> epoch option" where
  "get_epoch em r = map_option fst (find (\<lambda>k. snd k \<le> r) (rev (epoch_starts em)))"

section \<open>Validators of an epoch\<close>

type_synonym validators_epoch_mapping = "(epoch, validator_set \<times> validator_mapping) hash_map"

definition get_val_set :: "validators_epoch_mapping \<Rightarrow> epoch \<Rightarrow> validator_set option" where
  "get_val_set vem e = map_option fst (map_of vem e)"

definition get_cert_pubkeys :: "validators_epoch_mapping \<Rightarrow> epoch \<Rightarrow> validator_mapping option" where
  "get_cert_pubkeys vem e = map_option snd (map_of vem e)"

definition vem_insert ::
  "validators_epoch_mapping \<Rightarrow> epoch \<Rightarrow> (node_id \<times> stake) list \<Rightarrow> validator_mapping
     \<Rightarrow> validators_epoch_mapping option" where
  "vem_insert vem e val_stakes val_cert_pubkeys =
     (case vs_create val_stakes of
        Some (Inr vs) \<Rightarrow>
          (case map_of vem e of
             None \<Rightarrow> Some (AList.update e (vs, val_cert_pubkeys) vem)
           | Some (vs0, vm0) \<Rightarrow> do {
               _ \<leftarrow> assert_p (validators vs0 = validators vs);
               _ \<leftarrow> assert_p (vm0 = val_cert_pubkeys);
               Some vem
             })
      | _ \<Rightarrow> None)"

section \<open>Lemmas\<close>

definition em_wf :: "epoch_manager \<Rightarrow> bool" where
  "em_wf em \<longleftrightarrow> bt_wf (epoch_starts em)"

definition vem_wf :: "validators_epoch_mapping \<Rightarrow> bool" where
  "vem_wf vem \<longleftrightarrow> hm_wf vem \<and> (\<forall>e vs vm. map_of vem e = Some (vs, vm) \<longrightarrow> vs_valid vs)"

lemma find_rev_sorted:
  assumes "bt_wf m"
  shows "find (\<lambda>k. P (snd k)) (rev m) = Some (e, v) \<longleftrightarrow>
           bt_get m e = Some v \<and> P v \<and> (\<forall>e' v'. e < e' \<longrightarrow> bt_get m e' = Some v' \<longrightarrow> \<not> P v')"
  using assms
proof (induction m rule: rev_induct)
  case (snoc x m)
  obtain e0 v0 where x: "x = (e0, v0)" by (cases x)
  have wf: "bt_wf m" and lt: "\<And>k. k \<in> fst ` set m \<Longrightarrow> k < e0"
    using snoc.prems by (auto simp: bt_wf_def sorted_wrt_append x)
  have none: "bt_get m e0 = None" using lt by (force simp: map_of_eq_None_iff)
  have get: "bt_get (m @ [x]) k = (if k = e0 then Some v0 else bt_get m k)" for k
    using none by (auto simp: x map_add_def split: option.splits)
  have dom: "bt_get m k = Some v' \<Longrightarrow> k < e0" for k v'
    using lt by (force dest: map_of_SomeD)
  show ?case
  proof (cases "P v0")
    case True
    then have "find (\<lambda>k. P (snd k)) (rev (m @ [x])) = Some (e0, v0)" by (simp add: x)
    then show ?thesis
      unfolding get using True dom by (metis (full_types) less_asym option.inject prod.inject)
  next
    case False
    then have "find (\<lambda>k. P (snd k)) (rev (m @ [x])) = find (\<lambda>k. P (snd k)) (rev m)" by (simp add: x)
    then show ?thesis
      unfolding get using False snoc.IH[OF wf] none by (metis option.inject option.distinct(1))
  qed
qed simp

lemma get_epoch_Some:
  assumes "em_wf em"
  shows "get_epoch em r = Some e \<longleftrightarrow>
     (\<exists>st. bt_get (epoch_starts em) e = Some st \<and> st \<le> r) \<and>
     (\<forall>e' st. e < e' \<longrightarrow> bt_get (epoch_starts em) e' = Some st \<longrightarrow> r < st)"
  using find_rev_sorted[of "epoch_starts em" "\<lambda>v. v \<le> r" e] assms
  unfolding get_epoch_def em_wf_def by (auto simp: not_le)

lemma get_epoch_None:
  "get_epoch em r = None \<longleftrightarrow> (\<forall>e st. (e, st) \<in> set (epoch_starts em) \<longrightarrow> r < st)"
  by (auto simp: get_epoch_def find_None_iff not_le)

lemma insert_epoch_start_Some:
  "insert_epoch_start em e r = Some em' \<longleftrightarrow>
     bt_get (epoch_starts em) e \<in> {None, Some r} \<and>
     em' = (if bt_get (epoch_starts em) e = None
            then em\<lparr>epoch_starts := bt_insert e r (epoch_starts em)\<rparr> else em)"
  by (auto simp: insert_epoch_start_def bind_eq_Some_conv split: option.splits)

lemma insert_epoch_start_wf: "em_wf em \<Longrightarrow> insert_epoch_start em e r = Some em' \<Longrightarrow> em_wf em'"
  by (auto simp: insert_epoch_start_Some em_wf_def)

lemma insert_epoch_start_get:
  "insert_epoch_start em e r = Some em' \<Longrightarrow>
     bt_get (epoch_starts em') = (bt_get (epoch_starts em))(e \<mapsto> r)"
  by (auto simp: insert_epoch_start_Some)

lemma epoch_manager_new_wf: "epoch_manager_new len delay known = Some em \<Longrightarrow> em_wf em"
proof -
  have "insert_known_epochs em0 known = Some em \<Longrightarrow> em_wf em0 \<Longrightarrow> em_wf em" for em0
    by (induction em0 known rule: insert_known_epochs.induct)
       (auto simp: bind_eq_Some_conv intro: insert_epoch_start_wf)
  then show "epoch_manager_new len delay known = Some em \<Longrightarrow> em_wf em"
    by (auto simp: epoch_manager_new_def em_wf_def)
qed

lemma schedule_epoch_start_wf: "em_wf em \<Longrightarrow> schedule_epoch_start em n br = Some em' \<Longrightarrow> em_wf em'"
  by (auto simp: schedule_epoch_start_def bind_eq_Some_conv split: if_splits intro: insert_epoch_start_wf)

lemma schedule_epoch_start_Some:
  assumes "n div epoch_length em < u64_max" "schedule_epoch_start em n br = Some em'"
  shows "if n mod epoch_length em = epoch_length em - 1
         then bt_get (epoch_starts em') =
                (bt_get (epoch_starts em))(n div epoch_length em + 2 \<mapsto> br + epoch_start_delay em)
         else em' = em"
  using assms
  by (auto simp: schedule_epoch_start_def bind_eq_Some_conv is_boundary_block_Some to_epoch_Some
        dest: insert_epoch_start_get split: if_splits)

lemma get_epoch_mono:
  assumes "em_wf em" "r \<le> r'" "get_epoch em r = Some e"
  shows "\<exists>e'. get_epoch em r' = Some e' \<and> e \<le> e'"
proof -
  obtain st where st: "bt_get (epoch_starts em) e = Some st" "st \<le> r"
    using assms(1,3) get_epoch_Some by auto
  have "(e, st) \<in> set (epoch_starts em)" using st(1) by (rule map_of_SomeD)
  then have "get_epoch em r' \<noteq> None"
    unfolding get_epoch_None using st(2) assms(2) by (meson leD order_trans)
  then obtain e' where e': "get_epoch em r' = Some e'" by auto
  have "e \<le> e'"
  proof (rule ccontr)
    assume "\<not> e \<le> e'"
    then have "e' < e" by simp
    then have "r' < st" using e' st(1) get_epoch_Some[OF assms(1), of r' e'] by blast
    then show False using st(2) assms(2) by simp
  qed
  then show ?thesis using e' by blast
qed

lemma get_epoch_insert_later:
  assumes "em_wf em" "insert_epoch_start em e st = Some em'" "r < st"
  shows "get_epoch em' r = get_epoch em r"
proof -
  have wf: "em_wf em'" using insert_epoch_start_wf[OF assms(1,2)] .
  have "bt_get (epoch_starts em') k = Some q \<longleftrightarrow> bt_get (epoch_starts em) k = Some q \<or> k = e \<and> q = st" for k q
    using assms(2) by (auto simp: insert_epoch_start_Some)
  then have "get_epoch em' r = Some k \<longleftrightarrow> get_epoch em r = Some k" for k
    unfolding get_epoch_Some[OF wf] get_epoch_Some[OF assms(1)] using assms(3) by (metis leD)
  then show ?thesis by (metis not_None_eq)
qed

lemma vem_insert_Some:
  "vem_insert vem e xs vm = Some vem' \<Longrightarrow>
     \<exists>vs. vs_create xs = Some (Inr vs) \<and> (vem' = vem \<or> vem' = AList.update e (vs, vm) vem)"
  by (auto simp: vem_insert_def bind_eq_Some_conv split: option.splits sum.splits)

lemma vem_insert_wf:
  assumes "vem_wf vem" "vem_insert vem e xs vm = Some vem'"
  shows "vem_wf vem'"
proof -
  obtain vs where vs: "vs_create xs = Some (Inr vs)" "vem' = vem \<or> vem' = AList.update e (vs, vm) vem"
    using vem_insert_Some[OF assms(2)] by auto
  moreover have "vem_wf (AList.update e (vs, vm) vem)"
    using assms(1) vs_create_valid[OF vs(1)] hmm.wf_put[of vem e "(vs, vm)"]
    by (simp add: vem_wf_def update_conv')
  ultimately show ?thesis using assms(1) by auto
qed

section \<open>Properties\<close>

definition example_em :: epoch_manager where
  "example_em = \<lparr>epoch_length = 10, epoch_start_delay = 5, epoch_starts = [(1, 0), (2, 17)]\<rparr>"

text \<open>
  C35: the epoch of a round is the highest epoch whose start round is at or before it, and
  there is none only if every known epoch starts later.
\<close>
theorem get_epoch_latest_start:
  assumes "em_wf em"
  shows "get_epoch em r =
    (if \<exists>e st. bt_get (epoch_starts em) e = Some st \<and> st \<le> r
     then Some (Max {e. \<exists>st. bt_get (epoch_starts em) e = Some st \<and> st \<le> r}) else None)"
proof -
  let ?A = "{e. \<exists>st. bt_get (epoch_starts em) e = Some st \<and> st \<le> r}"
  have fin: "finite ?A"
    by (rule finite_subset[OF _ finite_dom_map_of[of "epoch_starts em"]]) auto
  show ?thesis
  proof (cases "get_epoch em r")
    case None
    then have "\<nexists>e st. bt_get (epoch_starts em) e = Some st \<and> st \<le> r"
      unfolding get_epoch_None by (meson leD map_of_SomeD)
    then show ?thesis using None by simp
  next
    case (Some e)
    then have e: "e \<in> ?A" "\<And>e'. e' \<in> ?A \<Longrightarrow> e' \<le> e"
      unfolding get_epoch_Some[OF assms] by (auto simp: not_less[symmetric])
    then have "Max ?A = e" by (intro Max_eqI fin) auto
    then show ?thesis using Some e(1) by auto
  qed
qed

theorem get_epoch_latest_start_witness:
  "get_epoch example_em 18 = Some 2 \<and> get_epoch example_em 16 = Some 1"
proof -
  have wf: "em_wf example_em" by (simp add: em_wf_def bt_wf_def example_em_def)
  show ?thesis
    using get_epoch_latest_start[OF wf, of 18] get_epoch_latest_start[OF wf, of 16]
    by (simp add: get_epoch_def example_em_def)
qed

text \<open>
  C36: committing a boundary block schedules the next epoch without changing the epoch of
  any round before the new start, so rounds that were already entered keep their epoch.
\<close>
theorem schedule_epoch_start_stable:
  assumes "em_wf em" "schedule_epoch_start em n br = Some em'" "r < br + epoch_start_delay em"
  shows "em_wf em' \<and> get_epoch em' r = get_epoch em r"
proof -
  have "get_epoch em' r = get_epoch em r"
    using assms(2,3) get_epoch_insert_later[OF assms(1), of _ "br + epoch_start_delay em" em' r]
    by (auto simp: schedule_epoch_start_def bind_eq_Some_conv split: if_splits)
  then show ?thesis using schedule_epoch_start_wf[OF assms(1,2)] by simp
qed

theorem schedule_epoch_start_stable_witness:
  "get_epoch (example_em\<lparr>epoch_starts := [(1, 0), (2, 17), (3, 27)]\<rparr>) 26 = get_epoch example_em 26"
  using schedule_epoch_start_stable[of example_em 19 22
      "example_em\<lparr>epoch_starts := [(1, 0), (2, 17), (3, 27)]\<rparr>" 26]
  by (simp add: em_wf_def bt_wf_def example_em_def schedule_epoch_start_def is_boundary_block_def
      seq_num_rem_def checked_rem_def seq_num_sub_def checked_sub_def to_epoch_def checked_div_def
      wrapping_add_def u64_max_def epoch_add_def checked_add_def round_add_def insert_epoch_start_def)

end
