(* ===== verification/Leader_Election.thy ===== *)
theory Leader_Election
  imports Validator_Set
begin

text \<open>
  \<^verbatim>\<open>monad-validator/src/weighted_round_robin.rs\<close> and \<^verbatim>\<open>simple_round_robin.rs\<close>: the choice of the
  leader of a round.

  The random generator (\<^verbatim>\<open>rand_chacha::ChaCha20Rng\<close>) is a parameter: \<open>gen k\<close> is the \<open>k\<close>-th
  32-byte draw of the generator as a little-endian integer, and \<open>rng seed\<close> the generator
  seeded with \<open>seed\<close>.  The rejection loop is a \<open>partial_function\<close>: \<^term>\<open>None\<close> is a loop that never
  accepts a draw.
\<close>

definition randomize_bound :: "u256 \<Rightarrow> u256" where
  "randomize_bound m = u256_max - wrapping_add u256_max (u256_max - m) 1 mod m"

partial_function (option) randomize_loop :: "(nat \<Rightarrow> u256) \<Rightarrow> u256 \<Rightarrow> u256 \<Rightarrow> nat \<Rightarrow> u256 option" where
  "randomize_loop gen hi m k =
     (let r = gen k in if r \<le> hi then Some (r mod m) else randomize_loop gen hi m (k + 1))"

declare randomize_loop.simps [code]

definition randomize_256_with_rng :: "(nat \<Rightarrow> u256) \<Rightarrow> u256 \<Rightarrow> u256 option" where
  "randomize_256_with_rng gen m =
     (if m = 0 then None else randomize_loop gen (randomize_bound m) m 0)"

fun stake_bounds :: "(node_id \<times> stake) list \<Rightarrow> u256 \<Rightarrow> (node_id \<times> u256) list \<times> u256" where
  "stake_bounds [] tot = ([], tot)"
| "stake_bounds ((n, st) # vs) tot =
     (if st > 0 then
        (let tot' = wrapping_add u256_max tot st;
             (bs, final) = stake_bounds vs tot'
         in ((n, tot') # bs, final))
      else stake_bounds vs tot)"

definition upper_bound :: "(node_id \<times> u256) list \<Rightarrow> u256 \<Rightarrow> nat" where
  "upper_bound bs stake_index = length (takeWhile (\<lambda>b. \<not> snd b > stake_index) bs)"

definition select_validator :: "(node_id \<times> u256) list \<Rightarrow> u256 \<Rightarrow> node_id option" where
  "select_validator bs stake_index =
     (let i = upper_bound bs stake_index in if i < length bs then Some (fst (bs ! i)) else None)"

definition generate_random_validator_with_randomizer ::
  "(node_id \<times> stake) list \<Rightarrow> (u256 \<Rightarrow> u256 option) \<Rightarrow> node_id option" where
  "generate_random_validator_with_randomizer vs randomize = do {
     let (bs, tot) = stake_bounds vs 0;
     _ \<leftarrow> assert_p (bs \<noteq> []);
     stake_index \<leftarrow> randomize tot;
     select_validator bs stake_index
   }"

definition weighted_get_leader ::
  "(u64 \<Rightarrow> nat \<Rightarrow> u256) \<Rightarrow> round \<Rightarrow> (node_id, stake) btree_map \<Rightarrow> node_id option" where
  "weighted_get_leader rng r vs =
     generate_random_validator_with_randomizer vs (randomize_256_with_rng (rng r))"

definition simple_get_leader :: "round \<Rightarrow> (node_id, stake) btree_map \<Rightarrow> node_id option" where
  "simple_get_leader r vs =
     (if vs = [] then None else Some (bt_keys vs ! (r mod length vs)))"

section \<open>The rejection loop\<close>

lemma randomize_bound_exact:
  assumes "0 < m" "m \<le> u256_max"
  shows "randomize_bound m + 1 = (u256_max + 1) div m * m"
proof -
  have w: "wrapping_add u256_max (u256_max - m) 1 = u256_max + 1 - m"
    using assms by (simp add: wrapping_add_def)
  have q: "(u256_max + 1 - m) mod m = (u256_max + 1) mod m"
    using assms(2) by (metis le_mod_geq le_add1 order_trans)
  have "(u256_max + 1) mod m < m" using assms(1) by simp
  then have "randomize_bound m + 1 = u256_max + 1 - (u256_max + 1) mod m"
    unfolding randomize_bound_def w q using assms(2) by linarith
  then show ?thesis by (simp add: minus_mod_eq_div_mult)
qed

lemma randomize_loop_returns:
  assumes "gen (k + n) \<le> hi" "\<And>j. j < n \<Longrightarrow> \<not> gen (k + j) \<le> hi"
  shows "randomize_loop gen hi m k = Some (gen (k + n) mod m)"
  using assms
proof (induction n arbitrary: k)
  case 0
  then show ?case by (subst randomize_loop.simps) simp
next
  case (Suc n)
  have "\<not> gen k \<le> hi" using Suc.prems(2)[of 0] by simp
  then have "randomize_loop gen hi m k = randomize_loop gen hi m (k + 1)"
    by (subst randomize_loop.simps) simp
  also have "\<dots> = Some (gen (k + 1 + n) mod m)"
  proof (rule Suc.IH)
    show "gen (k + 1 + n) \<le> hi" using Suc.prems(1) by simp
    show "\<not> gen (k + 1 + j) \<le> hi" if "j < n" for j using Suc.prems(2)[of "Suc j"] that by simp
  qed
  finally show ?case by simp
qed

lemma randomize_returns:
  assumes "0 < m" "gen n \<le> randomize_bound m"
  shows "\<exists>n. gen n \<le> randomize_bound m \<and> randomize_256_with_rng gen m = Some (gen n mod m)"
proof -
  obtain n0 where n0: "gen n0 \<le> randomize_bound m" "\<forall>j < n0. \<not> gen j \<le> randomize_bound m"
    using assms(2) exists_least_iff[of "\<lambda>n. gen n \<le> randomize_bound m"] by blast
  have "randomize_loop gen (randomize_bound m) m 0 = Some (gen (0 + n0) mod m)"
    by (rule randomize_loop_returns) (use n0 in simp_all)
  then show ?thesis using n0(1) assms(1) by (auto simp: randomize_256_with_rng_def)
qed

lemma residues_equal_count:
  fixes m c :: nat
  assumes "0 < m" "i < m"
  shows "card {r. r < c * m \<and> r mod m = i} = c"
proof -
  have "{r. r < c * m \<and> r mod m = i} = (\<lambda>q. q * m + i) ` {..<c}"
  proof (intro set_eqI iffI)
    fix r assume r: "r \<in> {r. r < c * m \<and> r mod m = i}"
    then have "r = (r div m) * m + i" by (metis (mono_tags) div_mult_mod_eq mem_Collect_eq)
    moreover have "r div m < c" using r assms(1) by (simp add: less_mult_imp_div_less)
    ultimately show "r \<in> (\<lambda>q. q * m + i) ` {..<c}" by blast
  next
    fix r assume "r \<in> (\<lambda>q. q * m + i) ` {..<c}"
    then obtain q where q: "q < c" "r = q * m + i" by auto
    then have "r < Suc q * m" using assms(2) by simp
    also have "\<dots> \<le> c * m" using q(1) by (intro mult_le_mono1) simp
    finally show "r \<in> {r. r < c * m \<and> r mod m = i}" using q(2) assms(2) by simp
  qed
  moreover have "inj_on (\<lambda>q. q * m + i) {..<c}" using assms(1) by (auto simp: inj_on_def)
  ultimately show ?thesis by (simp add: card_image)
qed

section \<open>The weighted choice\<close>

text \<open>\<open>pick\<close> is the reference: walk the validators, giving each an interval as long as its stake.\<close>

fun pick :: "(node_id \<times> stake) list \<Rightarrow> nat \<Rightarrow> node_id option" where
  "pick [] j = None"
| "pick ((n, st) # vs) j = (if j < st then Some n else pick vs (j - st))"

lemma select_validator_Cons:
  "select_validator (b # bs) i = (if snd b > i then Some (fst b) else select_validator bs i)"
  by (auto simp: select_validator_def upper_bound_def Let_def)

lemma stake_bounds_total:
  "a + sum_list (map snd vs) \<le> u256_max \<Longrightarrow> snd (stake_bounds vs a) = a + sum_list (map snd vs)"
proof (induction vs a rule: stake_bounds.induct)
  case (2 n st vs a)
  show ?case
  proof (cases "st = 0")
    case False
    have "wrapping_add u256_max a st = a + st" using 2(3) by (simp add: wrapping_add_exact)
    then show ?thesis using 2(1)[of "a + st"] 2(3) False by (simp add: Let_def case_prod_beta)
  qed (use 2 in simp)
qed simp

lemma stake_bounds_pick:
  "a + sum_list (map snd vs) \<le> u256_max \<Longrightarrow> a \<le> i \<Longrightarrow>
     select_validator (fst (stake_bounds vs a)) i = pick vs (i - a)"
proof (induction vs a rule: stake_bounds.induct)
  case (2 n st vs a)
  show ?case
  proof (cases "st = 0")
    case False
    have "wrapping_add u256_max a st = a + st" using 2(3) by (simp add: wrapping_add_exact)
    then show ?thesis
      using 2(1)[of "a + st"] 2(3,4) False
      by (auto simp: Let_def case_prod_beta select_validator_Cons)
  qed (use 2 in simp)
qed (simp add: select_validator_def upper_bound_def)

lemma stake_bounds_not_Nil:
  "\<exists>e \<in> set vs. 0 < snd e \<Longrightarrow> fst (stake_bounds vs a) \<noteq> []"
  by (induction vs a rule: stake_bounds.induct) (auto simp: Let_def case_prod_beta)

lemma pick_total: "j < sum_list (map snd vs) \<Longrightarrow> \<exists>n \<in> fst ` set vs. pick vs j = Some n"
proof (induction vs j rule: pick.induct)
  case (2 n st vs j)
  then show ?case by (cases "j < st") auto
qed simp

lemma pick_in: "pick vs j = Some n \<Longrightarrow> n \<in> fst ` set vs"
  by (induction vs j rule: pick.induct) (auto split: if_splits)

lemma pick_count:
  assumes "distinct (map fst vs)" "(n, st) \<in> set vs"
  shows "card {j. j < sum_list (map snd vs) \<and> pick vs j = Some n} = st"
  using assms
proof (induction vs)
  case (Cons e vs)
  obtain m s where e: "e = (m, s)" by (cases e)
  let ?T = "sum_list (map snd vs)"
  have split: "{j. j < s + ?T \<and> pick (e # vs) j = Some n} =
      {j. j < s \<and> m = n} \<union> (\<lambda>j. j + s) ` {j. j < ?T \<and> pick vs j = Some n}"
  proof (intro set_eqI iffI)
    fix j assume j: "j \<in> {j. j < s + ?T \<and> pick (e # vs) j = Some n}"
    show "j \<in> {j. j < s \<and> m = n} \<union> (\<lambda>j. j + s) ` {j. j < ?T \<and> pick vs j = Some n}"
    proof (cases "j < s")
      case False
      then have "j = (j - s) + s" "j - s < ?T" "pick vs (j - s) = Some n" using j by (auto simp: e)
      then show ?thesis by blast
    qed (use j in \<open>simp add: e\<close>)
  qed (auto simp: e)
  have disj: "{j. j < s \<and> m = n} \<inter> (\<lambda>j. j + s) ` {j. j < ?T \<and> pick vs j = Some n} = {}" by auto
  have img: "card ((\<lambda>j. j + s) ` {j. j < ?T \<and> pick vs j = Some n}) =
      card {j. j < ?T \<and> pick vs j = Some n}"
    by (intro card_image) (auto simp: inj_on_def)
  have c: "card {j. j < s + ?T \<and> pick (e # vs) j = Some n} =
      card {j. j < s \<and> m = n} + card {j. j < ?T \<and> pick vs j = Some n}"
    unfolding split using disj img by (subst card_Un_disjoint) auto
  show ?case
  proof (cases "m = n")
    case True
    then have "n \<notin> fst ` set vs" using Cons.prems(1) by (simp add: e)
    then have "{j. j < ?T \<and> pick vs j = Some n} = {}" using pick_in by blast
    moreover have "s = st" using True Cons.prems e by (auto simp: image_iff)
    ultimately show ?thesis using c True by (simp add: e)
  next
    case False
    then show ?thesis using Cons c by (simp add: e)
  qed
qed simp

lemma weighted_get_leader_pick:
  assumes "vs_valid vs" "randomize_256_with_rng (rng r) (total_stake vs) = Some i"
  shows "weighted_get_leader rng r (validators vs) = pick (validators vs) i"
proof -
  have t: "sum_list (map snd (validators vs)) = total_stake vs" "total_stake vs \<le> u256_max"
    using assms(1) by (auto simp: vs_valid_def)
  have "fst (stake_bounds (validators vs) 0) \<noteq> []"
    using assms(1) by (intro stake_bounds_not_Nil) (cases "validators vs"; auto simp: vs_valid_def)
  moreover have "snd (stake_bounds (validators vs) 0) = total_stake vs"
    using stake_bounds_total[of 0 "validators vs"] t by simp
  moreover have "select_validator (fst (stake_bounds (validators vs) 0)) i = pick (validators vs) i"
    using stake_bounds_pick[of 0 "validators vs" i] t by simp
  ultimately show ?thesis
    using assms(2)
    by (simp add: weighted_get_leader_def generate_random_validator_with_randomizer_def case_prod_beta)
qed

section \<open>Properties\<close>

text \<open>
  C25: leader election returns.  If the generator ever draws an acceptable number, the
  leader of a round over a valid validator set is defined and is one of its validators.
\<close>
theorem weighted_leader_is_validator:
  assumes "vs_valid vs" "rng r k \<le> randomize_bound (total_stake vs)"
  shows "\<exists>n. weighted_get_leader rng r (validators vs) = Some n \<and> is_member vs n"
proof -
  have t: "0 < total_stake vs" "sum_list (map snd (validators vs)) = total_stake vs"
    using assms(1) by (cases "validators vs"; auto simp: vs_valid_def)+
  obtain q where q: "randomize_256_with_rng (rng r) (total_stake vs) = Some (rng r q mod total_stake vs)"
    using randomize_returns[of "total_stake vs" "rng r" k] t(1) assms(2) by auto
  obtain n where "n \<in> fst ` set (validators vs)" "pick (validators vs) (rng r q mod total_stake vs) = Some n"
    using pick_total[of "rng r q mod total_stake vs" "validators vs"] t by auto
  then show ?thesis
    using weighted_get_leader_pick[where rng = rng and r = r, OF assms(1) q] by (auto simp: is_member_def map_of_eq_None_iff)
qed

theorem weighted_leader_is_validator_witness:
  "\<exists>n. weighted_get_leader (\<lambda>seed k. seed + k) 5 (validators example_vs) = Some n \<and> is_member example_vs n"
  by (rule weighted_leader_is_validator[where k = 0])
     (simp_all add: example_vs_def vs_valid_def bt_wf_def u256_max_def randomize_bound_def wrapping_add_def)

text \<open>
  C37: leader election is proportional to stake and unbiased.  Among the draws the rejection
  loop accepts, each index below the total stake comes from the same number of draws; and
  exactly as many indices select a validator as it has stake.
\<close>
theorem weighted_leader_proportional:
  assumes "vs_valid vs" "(n, st) \<in> set (validators vs)" "i < total_stake vs"
  shows "card {j. j < total_stake vs \<and>
           select_validator (fst (stake_bounds (validators vs) 0)) j = Some n} = st \<and>
         card {d. d \<le> randomize_bound (total_stake vs) \<and> d mod total_stake vs = i} =
           (u256_max + 1) div total_stake vs"
proof
  have t: "sum_list (map snd (validators vs)) = total_stake vs" "total_stake vs \<le> u256_max"
    "distinct (map fst (validators vs))"
    using assms(1) by (auto simp: vs_valid_def bt_wf_distinct)
  show "card {j. j < total_stake vs \<and>
      select_validator (fst (stake_bounds (validators vs) 0)) j = Some n} = st"
    using pick_count[OF t(3) assms(2)] stake_bounds_pick[of 0 "validators vs"] t(1,2) by simp
  have "{d. d \<le> randomize_bound (total_stake vs) \<and> d mod total_stake vs = i} =
      {d. d < (u256_max + 1) div total_stake vs * total_stake vs \<and> d mod total_stake vs = i}"
    unfolding less_Suc_eq_le[symmetric] Suc_eq_plus1
    using randomize_bound_exact[of "total_stake vs"] assms(3) t(2) by simp
  then show "card {d. d \<le> randomize_bound (total_stake vs) \<and> d mod total_stake vs = i} =
      (u256_max + 1) div total_stake vs"
    using residues_equal_count[of "total_stake vs" i] assms(3) by simp
qed

theorem weighted_leader_proportional_witness:
  "card {j. j < total_stake example_vs \<and>
     select_validator (fst (stake_bounds (validators example_vs) 0)) j = Some 2} = 1"
  using weighted_leader_proportional[of example_vs 2 1 0]
  by (simp add: example_vs_def vs_valid_def bt_wf_def u256_max_def)

end
