(* ===== verification/Vote_State.thy ===== *)
theory Vote_State
  imports Certificates Validator_Set
begin

text \<open>
  \<^verbatim>\<open>monad-consensus/src/vote_state.rs\<close>: collecting votes into quorum certificates.

  \<open>collect_loop\<close> is the loop that \<^verbatim>\<open>VoteState::process_vote\<close> shares, line by line, with
  \<^verbatim>\<open>NoEndorsementState::process_no_endorsement\<close>: while the collected signers hold a super
  majority, try to aggregate, and on invalid signatures drop their senders and retry.  It is
  a \<open>partial_function\<close>, so \<^term>\<open>None\<close> stands for a panic and for a loop that does not end; the
  lemmas show that neither happens for a signature collection that satisfies \<open>sct_laws\<close>.
\<close>

type_synonym 's pending = "(node_id, 's) btree_map"

fun insert_all :: "'a::linorder list \<Rightarrow> 'a btree_set \<Rightarrow> 'a btree_set" where
  "insert_all [] s = s"
| "insert_all (x # xs) s = insert_all xs (insort_insert x s)"

definition handle_invalid_vote ::
  "'s pending \<Rightarrow> node_id btree_set \<Rightarrow> (node_id \<times> 's) list \<Rightarrow> 's pending \<times> node_id btree_set" where
  "handle_invalid_vote pending_entry invalid_voters invalid_votes =
     (let invalid_voters' = insert_all (map fst invalid_votes) invalid_voters
      in (bt_retain (\<lambda>node_id. node_id \<notin> set invalid_voters') pending_entry, invalid_voters'))"

partial_function (option) collect_loop ::
  "('s, 'c, 'z) sct_ops_scheme \<Rightarrow> validator_set \<Rightarrow> validator_mapping \<Rightarrow> signing_domain \<Rightarrow> bytes
     \<Rightarrow> 's pending \<Rightarrow> node_id btree_set \<Rightarrow> ('c option \<times> 's pending \<times> node_id btree_set) option" where
  "collect_loop E vs vm d msg pending invalid =
     (case has_super_majority_votes vs (bt_keys pending) of
        Some (Inr enough) \<Rightarrow>
          if \<not> enough then Some (None, pending, invalid)
          else
            (case sct_new E d pending vm msg of
               Inr sigcol \<Rightarrow> Some (Some sigcol, pending, invalid)
             | Inl (InvalidSignaturesCreate invalid_sigs) \<Rightarrow>
                 collect_loop E vs vm d msg
                   (fst (handle_invalid_vote pending invalid invalid_sigs))
                   (snd (handle_invalid_vote pending invalid invalid_sigs))
             | Inl _ \<Rightarrow> None)
      | _ \<Rightarrow> None)"

declare collect_loop.simps [code]

record 's round_vote_state =
  rvs_pending_votes :: "(vote, 's pending) hash_map"
  rvs_node_votes :: "(node_id, 's list) hash_map"
  rvs_invalid_voters :: "node_id btree_set"

definition round_vote_state_default :: "'s round_vote_state" where
  "round_vote_state_default = \<lparr>rvs_pending_votes = [], rvs_node_votes = [], rvs_invalid_voters = []\<rparr>"

record 's vote_state =
  vs_pending_votes :: "(round, 's round_vote_state) btree_map"
  vs_earliest_round :: round

record 's vote_message =
  vmsg_vote :: vote
  vmsg_sig :: 's

definition vote_message_new :: "('s, 'c, 'x) env \<Rightarrow> vote \<Rightarrow> keypair \<Rightarrow> 's vote_message" where
  "vote_message_new E v key = \<lparr>vmsg_vote = v, vmsg_sig = cert_sign E DomainVote (rlp_vote E v) key\<rparr>"

definition vote_state_new :: "round \<Rightarrow> 's vote_state" where
  "vote_state_new r = \<lparr>vs_pending_votes = [], vs_earliest_round = r\<rparr>"

definition note_vote :: "'s round_vote_state \<Rightarrow> node_id \<Rightarrow> 's vote_message \<Rightarrow> 's round_vote_state" where
  "note_vote rs node_author msg =
     (let node_votes = entry_or [] (map_of (rvs_node_votes rs) node_author);
          bucket = entry_or [] (map_of (rvs_pending_votes rs) (vmsg_vote msg))
      in rs\<lparr>rvs_node_votes :=
              AList.update node_author (List.insert (vmsg_sig msg) node_votes) (rvs_node_votes rs),
            rvs_pending_votes := AList.update (vmsg_vote msg) bucket (rvs_pending_votes rs)\<rparr>)"

definition process_vote ::
  "('s, 'c, 'x) env \<Rightarrow> 's vote_state \<Rightarrow> node_id \<Rightarrow> 's vote_message \<Rightarrow> validator_set \<Rightarrow> validator_mapping
     \<Rightarrow> ('s vote_state \<times> 'c quorum_certificate option) option" where
  "process_vote E st node_author msg vals vm =
     (let v = vmsg_vote msg;
          r = vote_round v
      in if r < vs_earliest_round st then Some (st, None)
         else
           (let rs = note_vote (entry_or round_vote_state_default (bt_get (vs_pending_votes st) r)) node_author msg;
                bucket = entry_or [] (map_of (rvs_pending_votes rs) v)
            in if node_author \<in> set (rvs_invalid_voters rs)
               then Some (st\<lparr>vs_pending_votes := bt_insert r rs (vs_pending_votes st)\<rparr>, None)
               else do {
                 (res, bucket', invalid') \<leftarrow>
                   collect_loop E vals vm DomainVote (rlp_vote E v)
                     (bt_insert node_author (vmsg_sig msg) bucket) (rvs_invalid_voters rs);
                 let rs' = rs\<lparr>rvs_pending_votes := AList.update v bucket' (rvs_pending_votes rs),
                              rvs_invalid_voters := invalid'\<rparr>;
                 let st' = st\<lparr>vs_pending_votes := bt_insert r rs' (vs_pending_votes st)\<rparr>;
                 case res of
                   None \<Rightarrow> Some (st', None)
                 | Some sigcol \<Rightarrow> do {
                     _ \<leftarrow> assert_p (r \<ge> vs_earliest_round st);
                     next_round \<leftarrow> round_add r 1;
                     Some (st'\<lparr>vs_earliest_round := next_round\<rparr>,
                           Some \<lparr>qc_info = v, qc_signatures = sigcol\<rparr>)
                   }
               }))"

definition vote_state_start_new_round :: "'s vote_state \<Rightarrow> round \<Rightarrow> 's vote_state" where
  "vote_state_start_new_round st new_round =
     st\<lparr>vs_earliest_round := new_round,
        vs_pending_votes := bt_retain (\<lambda>k. k \<ge> new_round) (vs_pending_votes st)\<rparr>"

section \<open>The collection loop\<close>

lemma set_insert_all [simp]: "set (insert_all xs s) = set xs \<union> set s"
  by (induction xs s rule: insert_all.induct) (auto simp: set_insort_insert)

lemma sorted_insert_all: "sorted s \<Longrightarrow> sorted (insert_all xs s)"
  by (induction xs s rule: insert_all.induct) (auto simp: sorted_insort_insert)

lemma bt_keys_retain: "set (bt_keys (bt_retain P m)) = {k \<in> set (bt_keys m). P k}"
  by (auto simp: bt_keys_def bt_retain_def)

lemma distinct_bt_keys: "bt_wf m \<Longrightarrow> distinct (bt_keys m)"
  by (simp add: bt_keys_def bt_wf_distinct)

lemma handle_invalid_vote_simps:
  "fst (handle_invalid_vote p i bad) = bt_retain (\<lambda>n. n \<notin> fst ` set bad \<union> set i) p"
  "set (snd (handle_invalid_vote p i bad)) = fst ` set bad \<union> set i"
  by (simp_all add: handle_invalid_vote_def Let_def)

text \<open>
  What the loop computes.  \<open>collect_result\<close> relates the pending entries it started with to
  its outcome: either an aggregate of entries that hold a super majority, or entries that
  do not; no entry with a valid signature is dropped unless its sender is barred, the sender of a
  dropped entry is barred from then on, and a sender is barred only for an invalid entry.
\<close>

definition good_entry ::
  "(signing_domain \<Rightarrow> bytes \<Rightarrow> cert_pubkey \<Rightarrow> 's \<Rightarrow> bool) \<Rightarrow> validator_mapping \<Rightarrow> signing_domain \<Rightarrow> bytes
     \<Rightarrow> node_id btree_set \<Rightarrow> node_id \<times> 's \<Rightarrow> bool" where
  "good_entry valid vm d msg invalid e \<longleftrightarrow>
     fst e \<notin> set invalid \<and> (\<exists>pk. bt_get vm (fst e) = Some pk \<and> valid d msg pk (snd e))"

definition collect_result ::
  "('s, 'c, 'z) sct_ops_scheme \<Rightarrow> (signing_domain \<Rightarrow> bytes \<Rightarrow> cert_pubkey \<Rightarrow> 's \<Rightarrow> bool) \<Rightarrow> validator_set
     \<Rightarrow> validator_mapping \<Rightarrow> signing_domain \<Rightarrow> bytes \<Rightarrow> 's pending \<Rightarrow> node_id btree_set
     \<Rightarrow> 'c option \<times> 's pending \<times> node_id btree_set \<Rightarrow> bool" where
  "collect_result E valid vs vm d msg pending invalid out =
     (case out of (res, pending', invalid') \<Rightarrow>
        bt_wf pending' \<and> set pending' \<subseteq> set pending \<and> set invalid \<subseteq> set invalid' \<and>
        set invalid' \<subseteq> set invalid \<union> fst ` {e \<in> set pending. \<not> good_entry valid vm d msg invalid e} \<and>
        fst ` (set pending - set pending') \<subseteq> set invalid' \<and>
        {e \<in> set pending. good_entry valid vm d msg invalid e} \<subseteq> set pending' \<and>
        (case res of
           None \<Rightarrow> \<not> super_majority vs (set (bt_keys pending'))
         | Some c \<Rightarrow> super_majority vs (set (bt_keys pending')) \<and> sct_new E d pending' vm msg = Inr c))"

lemma collect_result_retry:
  assumes "collect_result E valid vs vm d msg
             (fst (handle_invalid_vote p i bad)) (snd (handle_invalid_vote p i bad)) out"
    and "bt_wf p" "set bad \<subseteq> set p" "\<And>x. x \<in> set bad \<Longrightarrow> \<not> good_entry valid vm d msg i x"
  shows "collect_result E valid vs vm d msg p i out"
proof -
  let ?p = "fst (handle_invalid_vote p i bad)" and ?i = "snd (handle_invalid_vote p i bad)"
  have p: "set ?p = {e \<in> set p. fst e \<notin> fst ` set bad \<union> set i}" "set ?i = fst ` set bad \<union> set i"
    by (simp_all add: handle_invalid_vote_simps set_bt_retain)
  have good: "e \<in> set ?p \<and> good_entry valid vm d msg ?i e"
    if e: "e \<in> set p" "good_entry valid vm d msg i e" for e
  proof -
    have "fst e \<notin> fst ` set bad"
    proof
      assume "fst e \<in> fst ` set bad"
      then obtain x where x: "x \<in> set bad" "fst x = fst e" by auto
      have "inj_on fst (set p)" using bt_wf_distinct[OF assms(2)] by (simp add: distinct_map)
      then have "x = e" using x e(1) assms(3) inj_onD[of fst "set p" x e] by auto
      then show False using assms(4)[OF x(1)] e(2) by simp
    qed
    then show ?thesis using e p by (auto simp: good_entry_def)
  qed
  obtain res p' i' where out: "out = (res, p', i')" by (cases out)
  note R = assms(1)[unfolded collect_result_def out prod.case]
  have R': "set p' \<subseteq> set ?p" "set ?i \<subseteq> set i'"
    "set i' \<subseteq> set ?i \<union> fst ` {e \<in> set ?p. \<not> good_entry valid vm d msg ?i e}"
    "{e \<in> set ?p. good_entry valid vm d msg ?i e} \<subseteq> set p'" "fst ` (set ?p - set p') \<subseteq> set i'"
    using R by - (elim conjE; assumption)+
  have "set p' \<subseteq> set p" using R'(1) p(1) by blast
  moreover have "set i \<subseteq> set i'" using R'(2) p(2) by blast
  moreover have "set i' \<subseteq> set i \<union> fst ` {e \<in> set p. \<not> good_entry valid vm d msg i e}"
  proof -
    have "fst ` set bad \<subseteq> fst ` {e \<in> set p. \<not> good_entry valid vm d msg i e}" using assms(3,4) by blast
    moreover have "{e \<in> set ?p. \<not> good_entry valid vm d msg ?i e} \<subseteq> {e \<in> set p. \<not> good_entry valid vm d msg i e}"
      using good p(1) by blast
    ultimately show ?thesis using R'(3) unfolding p(2) by blast
  qed
  moreover have "fst ` (set p - set p') \<subseteq> set i'"
  proof -
    have "fst e \<in> set ?i" if "e \<in> set p - set ?p" for e using that unfolding p by blast
    then show ?thesis using R'(2,5) by blast
  qed
  moreover have "{e \<in> set p. good_entry valid vm d msg i e} \<subseteq> set p'" using R'(4) good by blast
  ultimately show ?thesis using R unfolding collect_result_def out prod.case by - (elim conjE, intro conjI)
qed

context sct_laws
begin

lemma collect_loop_step:
  assumes "vs_valid vs" "vs_small vs" "bt_wf vm" "bt_wf p" "set (bt_keys p) \<subseteq> dom (bt_get vm)"
    and "super_majority vs (set (bt_keys p))" "sct_new ops d p vm msg = Inl e"
  obtains bad where "e = InvalidSignaturesCreate bad" "bad \<noteq> []" "set bad \<subseteq> set p"
    "\<And>x. x \<in> set bad \<Longrightarrow> \<not> good_entry valid vm d msg i x"
proof -
  have "distinct (map fst p)" "fst ` set p \<subseteq> dom (bt_get vm)"
    using assms(4,5) by (auto simp: bt_wf_distinct bt_keys_def)
  then obtain bad where bad: "e = InvalidSignaturesCreate bad" "bad \<noteq> []" "set bad \<subseteq> set p"
    "\<forall>(n, s) \<in> set bad. \<forall>pk. bt_get vm n = Some pk \<longrightarrow> \<not> valid d msg pk s"
    using new_some_invalid[OF assms(3) _ _ assms(7)] by blast
  moreover have "\<not> good_entry valid vm d msg i x" if "x \<in> set bad" for x
    using bad(4) that by (fastforce simp: good_entry_def)
  ultimately show thesis using that by blast
qed

lemma collect_loop_correct:
  assumes "vs_valid vs" "vs_small vs" "bt_wf vm" "bt_wf p" "set (bt_keys p) \<subseteq> dom (bt_get vm)"
  shows "\<exists>out. collect_loop ops vs vm d msg p i = Some out \<and> collect_result ops valid vs vm d msg p i out"
  using assms(4,5)
proof (induction "length p" arbitrary: p i rule: less_induct)
  case less
  have maj: "has_super_majority_votes vs (bt_keys p) = Some (Inr (super_majority vs (set (bt_keys p))))"
    using has_super_majority_votes_iff[OF assms(1,2) distinct_bt_keys[OF less.prems(1)]] by simp
  consider (none) "\<not> super_majority vs (set (bt_keys p))"
    | (aggregated) c where "super_majority vs (set (bt_keys p))" "sct_new ops d p vm msg = Inr c"
    | (retry) e where "super_majority vs (set (bt_keys p))" "sct_new ops d p vm msg = Inl e"
    by (cases "sct_new ops d p vm msg") auto
  then show ?case
  proof cases
    case none
    then show ?thesis
      using less.prems by (subst collect_loop.simps) (simp add: maj collect_result_def)
  next
    case (aggregated c)
    then show ?thesis
      using less.prems by (subst collect_loop.simps) (simp add: maj collect_result_def)
  next
    case (retry e)
    obtain bad where bad: "e = InvalidSignaturesCreate bad" "bad \<noteq> []" "set bad \<subseteq> set p"
      "\<And>x. x \<in> set bad \<Longrightarrow> \<not> good_entry valid vm d msg i x"
      using collect_loop_step[OF assms(1-3) less.prems retry] by blast
    let ?p = "fst (handle_invalid_vote p i bad)" and ?i = "snd (handle_invalid_vote p i bad)"
    have p: "?p = bt_retain (\<lambda>n. n \<notin> fst ` set bad \<union> set i) p" "set ?i = fst ` set bad \<union> set i"
      by (simp_all only: handle_invalid_vote_simps)
    obtain x where "x \<in> set bad" "x \<in> set p" using bad(2,3) by (cases bad) auto
    then have len: "length ?p < length p"
      unfolding p bt_retain_def by (intro length_filter_less[of x]) auto
    have "bt_wf ?p" "set (bt_keys ?p) \<subseteq> dom (bt_get vm)"
      using less.prems by (auto simp: p bt_keys_retain)
    from less.hyps[OF len this]
    obtain out where out: "collect_loop ops vs vm d msg ?p ?i = Some out"
      "collect_result ops valid vs vm d msg ?p ?i out" by blast
    have "collect_loop ops vs vm d msg p i = Some out"
      using out(1) retry bad(1) by (subst collect_loop.simps) (simp add: maj)
    moreover have "collect_result ops valid vs vm d msg p i out"
      by (rule collect_result_retry[OF out(2) less.prems(1) bad(3,4)])
    ultimately show ?thesis by blast
  qed
qed

end

text \<open>
  The outcome as the callers see it, for the entries \<open>p\<close> and barred senders \<open>bar\<close> before and \<open>p'\<close>, \<open>bar'\<close> after.
  An aggregate verifies, with exactly the senders of the entries that are left, when certificate keys are distinct.
\<close>

definition collected ::
  "('s, 'c, 'z) sct_ops_scheme \<Rightarrow> (signing_domain \<Rightarrow> bytes \<Rightarrow> cert_pubkey \<Rightarrow> 's \<Rightarrow> bool) \<Rightarrow> validator_set
     \<Rightarrow> validator_mapping \<Rightarrow> signing_domain \<Rightarrow> bytes \<Rightarrow> 's pending \<Rightarrow> node_id btree_set \<Rightarrow> 's pending
     \<Rightarrow> node_id btree_set \<Rightarrow> 'c option \<Rightarrow> bool" where
  "collected E valid vals vm d msg p bar p' bar' res \<longleftrightarrow>
     set p' \<subseteq> set p \<and> {e \<in> set p. good_entry valid vm d msg bar e} \<subseteq> set p' \<and>
     fst ` (set p - set p') \<subseteq> set bar' \<and> set bar \<subseteq> set bar' \<and>
     set bar' \<subseteq> set bar \<union> fst ` {e \<in> set p. \<not> good_entry valid vm d msg bar e} \<and>
     (case res of
        None \<Rightarrow> \<not> super_majority vals (fst ` set p')
      | Some c \<Rightarrow>
          super_majority vals (fst ` set p') \<and> sct_new E d p' vm msg = Inr c \<and>
          (vm_inj vm \<longrightarrow> (\<exists>ids. sct_verify E d c vm msg = Inr ids \<and> distinct ids \<and> set ids = fst ` set p')))"

lemma collect_result_collected:
  assumes "sct_laws E valid" "collect_result E valid vals vm d msg p bar (res, p', bar')"
  shows "collected E valid vals vm d msg p bar p' bar' res"
proof -
  have "\<exists>ids. sct_verify E d c vm msg = Inr ids \<and> distinct ids \<and> set ids = fst ` set p'"
    if "sct_new E d p' vm msg = Inr c" "vm_inj vm" for c
    using sct_laws.new_verify[OF assms(1) that(2,1)] sct_laws.verify_sound[OF assms(1), of vm d c msg] that(2)
    by (auto simp: vm_inj_def)
  then show ?thesis
    using assms(2) unfolding collect_result_def collected_def by (auto simp: bt_keys_def split: option.splits)
qed

section \<open>Processing a vote\<close>

definition round_state_of :: "'s vote_state \<Rightarrow> round \<Rightarrow> 's round_vote_state" where
  "round_state_of st r = entry_or round_vote_state_default (bt_get (vs_pending_votes st) r)"

definition bucket_of :: "'s vote_state \<Rightarrow> vote \<Rightarrow> 's pending" where
  "bucket_of st v = entry_or [] (map_of (rvs_pending_votes (round_state_of st (vote_round v))) v)"

definition vote_state_wf :: "(epoch \<Rightarrow> validator_mapping) \<Rightarrow> 's vote_state \<Rightarrow> bool" where
  "vote_state_wf VM st \<longleftrightarrow>
     bt_wf (vs_pending_votes st) \<and>
     (\<forall>r rs. bt_get (vs_pending_votes st) r = Some rs \<longrightarrow>
        (\<forall>v b. map_of (rvs_pending_votes rs) v = Some b \<longrightarrow>
           bt_wf b \<and> set (bt_keys b) \<subseteq> dom (bt_get (VM (vote_epoch v)))))"

lemma bucket_of_wf:
  assumes "vote_state_wf VM st"
  shows "bt_wf (bucket_of st v) \<and> set (bt_keys (bucket_of st v)) \<subseteq> dom (bt_get (VM (vote_epoch v)))"
proof (cases "bt_get (vs_pending_votes st) (vote_round v)")
  case None
  then show ?thesis by (simp add: bucket_of_def round_state_of_def round_vote_state_default_def bt_keys_def)
next
  case (Some rs)
  then show ?thesis
    using assms by (cases "map_of (rvs_pending_votes rs) v")
      (auto simp: bucket_of_def round_state_of_def vote_state_wf_def bt_keys_def)
qed

lemma vote_state_wf_update:
  assumes "vote_state_wf VM st" "bt_wf b" "set (bt_keys b) \<subseteq> dom (bt_get (VM (vote_epoch v)))"
    and "\<And>u. u \<noteq> v \<Longrightarrow> map_of (rvs_pending_votes rs) u = map_of (rvs_pending_votes (round_state_of st r)) u"
    and "map_of (rvs_pending_votes rs) v = Some b"
  shows "vote_state_wf VM (st\<lparr>vs_pending_votes := bt_insert r rs (vs_pending_votes st)\<rparr>)"
proof -
  have "bt_wf b' \<and> set (bt_keys b') \<subseteq> dom (bt_get (VM (vote_epoch u)))"
    if "map_of (rvs_pending_votes rs) u = Some b'" for u b'
  proof (cases "u = v")
    case False
    then have "map_of (rvs_pending_votes (round_state_of st r)) u = Some b'" using assms(4) that by simp
    then show ?thesis
      using assms(1) by (cases "bt_get (vs_pending_votes st) r")
        (auto simp: round_state_of_def round_vote_state_default_def vote_state_wf_def)
  qed (use assms(2,3,5) that in simp)
  then show ?thesis using assms(1) unfolding vote_state_wf_def by simp
qed

lemma process_vote_stale:
  "vote_round (vmsg_vote msg) < vs_earliest_round st \<Longrightarrow> process_vote E st n msg vals vm = Some (st, None)"
  by (simp add: process_vote_def Let_def)

lemma note_vote_simps [simp]:
  "rvs_invalid_voters (note_vote rs n msg) = rvs_invalid_voters rs"
  "map_of (rvs_pending_votes (note_vote rs n msg)) =
     (map_of (rvs_pending_votes rs))(vmsg_vote msg \<mapsto> entry_or [] (map_of (rvs_pending_votes rs) (vmsg_vote msg)))"
  by (simp_all add: note_vote_def Let_def update_conv')

lemma process_vote_barred:
  assumes "vs_earliest_round st \<le> vote_round v" "vmsg_vote msg = v"
    "n \<in> set (rvs_invalid_voters (round_state_of st (vote_round v)))"
  shows "process_vote E st n msg vals vm =
       Some (st\<lparr>vs_pending_votes :=
         bt_insert (vote_round v) (note_vote (round_state_of st (vote_round v)) n msg) (vs_pending_votes st)\<rparr>, None)"
  using assms by (simp add: process_vote_def Let_def not_less round_state_of_def)

lemma process_vote_collected:
  assumes "vs_earliest_round st \<le> vote_round v" "vmsg_vote msg = v"
    "n \<notin> set (rvs_invalid_voters (round_state_of st (vote_round v)))"
    "collect_loop E vals vm DomainVote (rlp_vote E v) (bt_insert n (vmsg_sig msg) (bucket_of st v))
       (rvs_invalid_voters (round_state_of st (vote_round v))) = Some (res, b', i')"
    "vote_round v < u64_max"
    "rs = note_vote (round_state_of st (vote_round v)) n msg"
  shows "process_vote E st n msg vals vm =
       Some (st\<lparr>vs_pending_votes :=
                  bt_insert (vote_round v)
                    (rs\<lparr>rvs_pending_votes := AList.update v b' (rvs_pending_votes rs), rvs_invalid_voters := i'\<rparr>)
                    (vs_pending_votes st),
                vs_earliest_round := (if res = None then vs_earliest_round st else vote_round v + 1)\<rparr>,
             map_option (\<lambda>c. \<lparr>qc_info = v, qc_signatures = c\<rparr>) res)"
  using assms
  by (cases res)
     (simp_all add: process_vote_def Let_def not_less round_state_of_def bucket_of_def
        round_add_def checked_add_def)

text \<open>
  The guarantee of \<open>process_vote\<close>, on every branch.  A stale vote changes nothing; a vote of a barred
  sender is only noted as evidence; any other vote joins the votes stored for the same block, which are then
  collected.  Nothing stored for other votes changes.
\<close>

definition process_vote_ok ::
  "('s, 'c, 'x) env \<Rightarrow> (signing_domain \<Rightarrow> bytes \<Rightarrow> cert_pubkey \<Rightarrow> 's \<Rightarrow> bool) \<Rightarrow> 's vote_state \<Rightarrow> node_id
     \<Rightarrow> 's vote_message \<Rightarrow> validator_set \<Rightarrow> validator_mapping \<Rightarrow> 's vote_state
     \<Rightarrow> 'c quorum_certificate option \<Rightarrow> bool" where
  "process_vote_ok E valid st n msg vals vm st' q \<longleftrightarrow>
     (let v = vmsg_vote msg; r = vote_round v; rs = round_state_of st r; rs' = round_state_of st' r in
      if r < vs_earliest_round st then st' = st \<and> q = None
      else
        (\<forall>u. u \<noteq> v \<longrightarrow> bucket_of st' u = bucket_of st u) \<and>
        (\<forall>k. k \<noteq> r \<longrightarrow> round_state_of st' k = round_state_of st k) \<and>
        vmsg_sig msg \<in> set (entry_or [] (map_of (rvs_node_votes rs') n)) \<and>
        vs_earliest_round st' = (if q = None then vs_earliest_round st else r + 1) \<and>
        (\<forall>qc. q = Some qc \<longrightarrow> qc_info qc = v) \<and>
        (if n \<in> set (rvs_invalid_voters rs)
         then bucket_of st' v = bucket_of st v \<and> rvs_invalid_voters rs' = rvs_invalid_voters rs \<and> q = None
         else collected E valid vals vm DomainVote (rlp_vote E v) (bt_insert n (vmsg_sig msg) (bucket_of st v))
                (rvs_invalid_voters rs) (bucket_of st' v) (rvs_invalid_voters rs') (map_option qc_signatures q)))"

lemma round_state_of_insert:
  "round_state_of (st\<lparr>vs_pending_votes := bt_insert r rs (vs_pending_votes st)\<rparr>) k = (if k = r then rs else round_state_of st k)"
  "round_state_of (st\<lparr>vs_earliest_round := e\<rparr>) k = round_state_of st k"
  by (simp_all add: round_state_of_def)

lemma note_vote_evidence:
  "vmsg_sig msg \<in> set (entry_or [] (map_of (rvs_node_votes (note_vote rs n msg)) n))"
  by (simp add: note_vote_def Let_def update_conv')

lemma process_vote_correct:
  assumes "sct_laws E valid" "vs_valid vals" "vs_small vals" "vote_state_wf VM st"
    and "vm = VM (vote_epoch (vmsg_vote msg))" "bt_wf vm" "n \<in> dom (bt_get vm)"
    and "vote_round (vmsg_vote msg) < u64_max"
  shows "\<exists>st' q. process_vote E st n msg vals vm = Some (st', q) \<and> vote_state_wf VM st' \<and>
           process_vote_ok E valid st n msg vals vm st' q"
proof -
  define v where "v = vmsg_vote msg"
  let ?rs = "round_state_of st (vote_round v)"
  let ?p = "bt_insert n (vmsg_sig msg) (bucket_of st v)"
  have b: "bt_wf (bucket_of st v)" "set (bt_keys (bucket_of st v)) \<subseteq> dom (bt_get (VM (vote_epoch v)))"
    using bucket_of_wf[OF assms(4)] by auto
  consider (stale) "vote_round v < vs_earliest_round st"
    | (barred) "vs_earliest_round st \<le> vote_round v" "n \<in> set (rvs_invalid_voters ?rs)"
    | (live) "vs_earliest_round st \<le> vote_round v" "n \<notin> set (rvs_invalid_voters ?rs)"
    by linarith
  then show ?thesis
  proof cases
    case stale
    then show ?thesis using assms(4) by (simp add: process_vote_stale process_vote_ok_def v_def Let_def)
  next
    case barred
    let ?st = "st\<lparr>vs_pending_votes := bt_insert (vote_round v) (note_vote ?rs n msg) (vs_pending_votes st)\<rparr>"
    have "process_vote E st n msg vals vm = Some (?st, None)"
      by (rule process_vote_barred[OF barred(1) _ barred(2)]) (simp add: v_def)
    moreover have "vote_state_wf VM ?st"
      by (rule vote_state_wf_update[OF assms(4) b]) (simp_all add: bucket_of_def v_def)
    moreover have "process_vote_ok E valid st n msg vals vm ?st None"
      using barred note_vote_evidence[of msg ?rs n]
      by (auto simp: process_vote_ok_def Let_def v_def bucket_of_def round_state_of_insert)
    ultimately show ?thesis by blast
  next
    case live
    have p: "bt_wf ?p" "set (bt_keys ?p) \<subseteq> dom (bt_get vm)"
      using b assms(5,7) by (auto simp: bt_keys_def v_def)
    obtain res b' i' where c: "collect_loop E vals vm DomainVote (rlp_vote E v) ?p (rvs_invalid_voters ?rs) = Some (res, b', i')"
      and r: "collect_result E valid vals vm DomainVote (rlp_vote E v) ?p (rvs_invalid_voters ?rs) (res, b', i')"
      using sct_laws.collect_loop_correct[OF assms(1,2,3,6) p, of DomainVote "rlp_vote E v"] by fastforce
    have b': "bt_wf b'" "set b' \<subseteq> set ?p" using r by (auto simp: collect_result_def)
    have k: "set (bt_keys b') \<subseteq> dom (bt_get (VM (vote_epoch v)))"
      using order_trans[OF image_mono[OF b'(2)] p(2)[unfolded bt_keys_def set_map]] assms(5)
      by (simp add: bt_keys_def v_def)
    let ?rs' = "(note_vote ?rs n msg)\<lparr>rvs_pending_votes := AList.update v b' (rvs_pending_votes (note_vote ?rs n msg)),
                  rvs_invalid_voters := i'\<rparr>"
    let ?su = "st\<lparr>vs_pending_votes := bt_insert (vote_round v) ?rs' (vs_pending_votes st)\<rparr>"
    let ?st = "?su\<lparr>vs_earliest_round := (if res = None then vs_earliest_round st else vote_round v + 1)\<rparr>"
    have "process_vote E st n msg vals vm = Some (?st, map_option (\<lambda>c. \<lparr>qc_info = v, qc_signatures = c\<rparr>) res)"
      using process_vote_collected[OF live(1) _ live(2) c _ refl] assms(8) by (simp add: v_def)
    moreover have "vote_state_wf VM ?su"
      by (rule vote_state_wf_update[OF assms(4) b'(1) k]) (simp_all add: update_conv' v_def)
    then have "vote_state_wf VM ?st" by (simp add: vote_state_wf_def)
    moreover have "process_vote_ok E valid st n msg vals vm ?st (map_option (\<lambda>c. \<lparr>qc_info = v, qc_signatures = c\<rparr>) res)"
      using live note_vote_evidence[of msg ?rs n] collect_result_collected[OF assms(1) r]
      by (auto simp: process_vote_ok_def Let_def v_def bucket_of_def round_state_of_insert option.map_comp comp_def
          update_conv')
    ultimately show ?thesis by blast
  qed
qed

lemma vote_state_start_new_round_wf: "vote_state_wf VM st \<Longrightarrow> vote_state_wf VM (vote_state_start_new_round st r)"
  by (auto simp: vote_state_wf_def vote_state_start_new_round_def)

section \<open>Properties\<close>


definition example_vote :: vote where
  "example_vote = \<lparr>vote_id = 8, vote_round = 3, vote_epoch = 1\<rparr>"

lemma example_vs_ok: "vs_valid example_vs" "vs_small example_vs"
  by (simp_all add: example_vs_def vs_valid_def vs_small_def bt_wf_def u256_max_def)


end
