(* ===== verification/No_Endorsement_State.thy ===== *)
theory No_Endorsement_State
  imports Vote_State
begin

text \<open>
  \<^verbatim>\<open>monad-consensus/src/no_endorsement_state.rs\<close>: collecting no-endorsements into certificates.
  The aggregation loop is \<open>collect_loop\<close> of \<open>Vote_State\<close>; here a certificate is also stored,
  and the code asserts that none was stored before.
\<close>

record ('s, 'c) round_no_endorsement_state =
  rne_qc_round_no_endorsements :: "(round, 's pending) hash_map"
  rne_node_no_endorsements :: "(node_id, 's list) hash_map"
  rne_invalid_senders :: "node_id btree_set"
  rne_certificate :: "'c no_endorsement_certificate option"

definition round_ne_state_default :: "('s, 'c) round_no_endorsement_state" where
  "round_ne_state_default =
     \<lparr>rne_qc_round_no_endorsements = [], rne_node_no_endorsements = [], rne_invalid_senders = [],
      rne_certificate = None\<rparr>"

record ('s, 'c) no_endorsement_state =
  nes_pending :: "(round, ('s, 'c) round_no_endorsement_state) btree_map"
  nes_earliest_round :: round

record 's no_endorsement_message =
  nem_msg :: no_endorsement
  nem_signature :: 's

definition no_endorsement_message_new ::
  "('s, 'c, 'x) env \<Rightarrow> no_endorsement \<Rightarrow> keypair \<Rightarrow> 's no_endorsement_message" where
  "no_endorsement_message_new E ne key =
     \<lparr>nem_msg = ne, nem_signature = cert_sign E DomainNoEndorsement (rlp_no_endorsement E ne) key\<rparr>"

definition no_endorsement_state_new :: "round \<Rightarrow> ('s, 'c) no_endorsement_state" where
  "no_endorsement_state_new r = \<lparr>nes_pending = [], nes_earliest_round = r\<rparr>"

definition note_no_endorsement ::
  "('s, 'c) round_no_endorsement_state \<Rightarrow> node_id \<Rightarrow> 's no_endorsement_message
     \<Rightarrow> ('s, 'c) round_no_endorsement_state" where
  "note_no_endorsement rs node_author msg =
     (let node_votes = entry_or [] (map_of (rne_node_no_endorsements rs) node_author);
          bucket = entry_or [] (map_of (rne_qc_round_no_endorsements rs) (ne_tip_qc_round (nem_msg msg)))
      in rs\<lparr>rne_node_no_endorsements :=
              AList.update node_author (List.insert (nem_signature msg) node_votes) (rne_node_no_endorsements rs),
            rne_qc_round_no_endorsements :=
              AList.update (ne_tip_qc_round (nem_msg msg)) bucket (rne_qc_round_no_endorsements rs)\<rparr>)"

definition process_no_endorsement ::
  "('s, 'c, 'x) env \<Rightarrow> ('s, 'c) no_endorsement_state \<Rightarrow> node_id \<Rightarrow> 's no_endorsement_message
     \<Rightarrow> validator_set \<Rightarrow> validator_mapping
     \<Rightarrow> (('s, 'c) no_endorsement_state \<times> 'c no_endorsement_certificate option) option" where
  "process_no_endorsement E st node_author msg vals vm =
     (let ne = nem_msg msg;
          r = ne_round ne
      in if r < nes_earliest_round st then Some (st, None)
         else
           (let rs = note_no_endorsement (entry_or round_ne_state_default (bt_get (nes_pending st) r)) node_author msg;
                bucket = entry_or [] (map_of (rne_qc_round_no_endorsements rs) (ne_tip_qc_round ne))
            in if node_author \<in> set (rne_invalid_senders rs)
               then Some (st\<lparr>nes_pending := bt_insert r rs (nes_pending st)\<rparr>, None)
               else do {
                 (res, bucket', invalid') \<leftarrow>
                   collect_loop E vals vm DomainNoEndorsement (rlp_no_endorsement E ne)
                     (bt_insert node_author (nem_signature msg) bucket) (rne_invalid_senders rs);
                 let rs' = rs\<lparr>rne_qc_round_no_endorsements :=
                                AList.update (ne_tip_qc_round ne) bucket' (rne_qc_round_no_endorsements rs),
                              rne_invalid_senders := invalid'\<rparr>;
                 case res of
                   None \<Rightarrow> Some (st\<lparr>nes_pending := bt_insert r rs' (nes_pending st)\<rparr>, None)
                 | Some sigcol \<Rightarrow> do {
                     _ \<leftarrow> assert_p (r \<ge> nes_earliest_round st);
                     let nec = \<lparr>nec_msg = ne, nec_signatures = sigcol\<rparr>;
                     next_round \<leftarrow> round_add r 1;
                     _ \<leftarrow> assert_p (rne_certificate rs' = None);
                     Some (st\<lparr>nes_pending := bt_insert r (rs'\<lparr>rne_certificate := Some nec\<rparr>) (nes_pending st),
                              nes_earliest_round := next_round\<rparr>, Some nec)
                   }
               }))"

definition ne_start_new_round :: "('s, 'c) no_endorsement_state \<Rightarrow> round \<Rightarrow> ('s, 'c) no_endorsement_state" where
  "ne_start_new_round st new_round =
     st\<lparr>nes_earliest_round := new_round, nes_pending := bt_retain (\<lambda>k. k \<ge> new_round) (nes_pending st)\<rparr>"

definition get_nec :: "('s, 'c) no_endorsement_state \<Rightarrow> round \<Rightarrow> 'c no_endorsement_certificate option" where
  "get_nec st r =
     (case bt_get (nes_pending st) r of None \<Rightarrow> None | Some rs \<Rightarrow> rne_certificate rs)"

section \<open>Invariant\<close>

definition ne_round_state_of :: "('s, 'c) no_endorsement_state \<Rightarrow> round \<Rightarrow> ('s, 'c) round_no_endorsement_state" where
  "ne_round_state_of st r = entry_or round_ne_state_default (bt_get (nes_pending st) r)"

definition ne_bucket_of :: "('s, 'c) no_endorsement_state \<Rightarrow> no_endorsement \<Rightarrow> 's pending" where
  "ne_bucket_of st ne =
     entry_or [] (map_of (rne_qc_round_no_endorsements (ne_round_state_of st (ne_round ne))) (ne_tip_qc_round ne))"

text \<open>
  \<open>VM r\<close> is the validator mapping of the epoch of round \<open>r\<close>.  The last conjunct is what keeps
  the assertion on the stored certificate from failing.
\<close>

definition ne_round_wf ::
  "(round \<Rightarrow> validator_mapping) \<Rightarrow> round \<Rightarrow> round \<Rightarrow> ('s, 'c) round_no_endorsement_state \<Rightarrow> bool" where
  "ne_round_wf VM e r rs \<longleftrightarrow>
     (\<forall>q b. map_of (rne_qc_round_no_endorsements rs) q = Some b \<longrightarrow>
        bt_wf b \<and> set (bt_keys b) \<subseteq> dom (bt_get (VM r))) \<and>
     (rne_certificate rs \<noteq> None \<longrightarrow> r < e)"

definition ne_state_wf :: "(round \<Rightarrow> validator_mapping) \<Rightarrow> ('s, 'c) no_endorsement_state \<Rightarrow> bool" where
  "ne_state_wf VM st \<longleftrightarrow>
     bt_wf (nes_pending st) \<and>
     (\<forall>r rs. bt_get (nes_pending st) r = Some rs \<longrightarrow> ne_round_wf VM (nes_earliest_round st) r rs)"

lemma ne_round_wf_mono: "ne_round_wf VM e r rs \<Longrightarrow> e \<le> e' \<Longrightarrow> ne_round_wf VM e' r rs"
  by (auto simp: ne_round_wf_def)

lemma note_no_endorsement_simps [simp]:
  "rne_invalid_senders (note_no_endorsement rs n msg) = rne_invalid_senders rs"
  "rne_certificate (note_no_endorsement rs n msg) = rne_certificate rs"
  "map_of (rne_qc_round_no_endorsements (note_no_endorsement rs n msg)) =
     (map_of (rne_qc_round_no_endorsements rs))(ne_tip_qc_round (nem_msg msg) \<mapsto>
        entry_or [] (map_of (rne_qc_round_no_endorsements rs) (ne_tip_qc_round (nem_msg msg))))"
  by (simp_all add: note_no_endorsement_def Let_def update_conv')

lemma ne_state_wf_round:
  assumes "ne_state_wf VM st"
  shows "ne_round_wf VM (nes_earliest_round st) r (ne_round_state_of st r)"
  using assms
  by (cases "bt_get (nes_pending st) r")
     (auto simp: ne_round_state_of_def round_ne_state_default_def ne_state_wf_def ne_round_wf_def)

lemma ne_bucket_of_wf:
  assumes "ne_state_wf VM st"
  shows "bt_wf (ne_bucket_of st ne) \<and> set (bt_keys (ne_bucket_of st ne)) \<subseteq> dom (bt_get (VM (ne_round ne)))"
  using ne_state_wf_round[OF assms, of "ne_round ne"]
  by (cases "map_of (rne_qc_round_no_endorsements (ne_round_state_of st (ne_round ne))) (ne_tip_qc_round ne)")
     (auto simp: ne_bucket_of_def bt_keys_def ne_round_wf_def)

lemma ne_state_wf_update:
  assumes "ne_state_wf VM st" "nes_earliest_round st \<le> e" "ne_round_wf VM e r rs"
  shows "ne_state_wf VM (st\<lparr>nes_pending := bt_insert r rs (nes_pending st), nes_earliest_round := e\<rparr>)"
proof -
  have "ne_round_wf VM e r' rs'" if "bt_get (bt_insert r rs (nes_pending st)) r' = Some rs'" for r' rs'
    using that assms(1,3) ne_round_wf_mono[OF _ assms(2), of VM r' rs']
    by (cases "r' = r") (simp_all add: ne_state_wf_def)
  then show ?thesis using assms(1) by (simp add: ne_state_wf_def)
qed

lemma ne_round_wf_put:
  assumes "ne_round_wf VM e r rs" "bt_wf b" "set (bt_keys b) \<subseteq> dom (bt_get (VM r))"
    and "map_of (rne_qc_round_no_endorsements rs') = (map_of (rne_qc_round_no_endorsements rs))(q \<mapsto> b)"
    and "rne_certificate rs' \<noteq> None \<Longrightarrow> r < e'"
  shows "ne_round_wf VM e' r rs'"
  using assms unfolding ne_round_wf_def by auto

section \<open>Processing a no-endorsement\<close>

text \<open>
  The guarantee of \<open>process_no_endorsement\<close>, on every branch: a stale message changes nothing, one of a barred
  sender is only noted as evidence, any other joins the no-endorsements stored for its round and
  certificate round, which are then collected.  Nothing stored for others changes.
\<close>

definition process_ne_ok ::
  "('s, 'c, 'x) env \<Rightarrow> (signing_domain \<Rightarrow> bytes \<Rightarrow> cert_pubkey \<Rightarrow> 's \<Rightarrow> bool) \<Rightarrow> ('s, 'c) no_endorsement_state
     \<Rightarrow> node_id \<Rightarrow> 's no_endorsement_message \<Rightarrow> validator_set \<Rightarrow> validator_mapping
     \<Rightarrow> ('s, 'c) no_endorsement_state \<Rightarrow> 'c no_endorsement_certificate option \<Rightarrow> bool" where
  "process_ne_ok E valid st n msg vals vm st' c \<longleftrightarrow>
     (let ne = nem_msg msg; r = ne_round ne; rs = ne_round_state_of st r; rs' = ne_round_state_of st' r in
      if r < nes_earliest_round st then st' = st \<and> c = None
      else
        (\<forall>u. (ne_round u, ne_tip_qc_round u) \<noteq> (r, ne_tip_qc_round ne) \<longrightarrow> ne_bucket_of st' u = ne_bucket_of st u) \<and>
        (\<forall>k. k \<noteq> r \<longrightarrow> ne_round_state_of st' k = ne_round_state_of st k) \<and>
        nem_signature msg \<in> set (entry_or [] (map_of (rne_node_no_endorsements rs') n)) \<and>
        nes_earliest_round st' = (if c = None then nes_earliest_round st else r + 1) \<and>
        (\<forall>nec. c = Some nec \<longrightarrow> nec_msg nec = ne) \<and> get_nec st' r = (if c = None then get_nec st r else c) \<and>
        (if n \<in> set (rne_invalid_senders rs)
         then ne_bucket_of st' ne = ne_bucket_of st ne \<and> rne_invalid_senders rs' = rne_invalid_senders rs \<and> c = None
         else collected E valid vals vm DomainNoEndorsement (rlp_no_endorsement E ne)
                (bt_insert n (nem_signature msg) (ne_bucket_of st ne)) (rne_invalid_senders rs)
                (ne_bucket_of st' ne) (rne_invalid_senders rs') (map_option nec_signatures c)))"

lemma ne_round_state_of_insert:
  "ne_round_state_of (st\<lparr>nes_pending := bt_insert r rs (nes_pending st), nes_earliest_round := e\<rparr>) k =
     (if k = r then rs else ne_round_state_of st k)"
  by (simp add: ne_round_state_of_def)

lemma get_nec_round: "get_nec st r = rne_certificate (ne_round_state_of st r)"
  by (simp add: get_nec_def ne_round_state_of_def round_ne_state_default_def split: option.splits)

lemma note_ne_evidence:
  "nem_signature msg \<in> set (entry_or [] (map_of (rne_node_no_endorsements (note_no_endorsement rs n msg)) n))"
  by (simp add: note_no_endorsement_def Let_def update_conv')

lemma process_ne_ok_step:
  assumes "nes_earliest_round st \<le> ne_round (nem_msg msg)"
    and "st' = st\<lparr>nes_pending := bt_insert (ne_round (nem_msg msg)) rs' (nes_pending st),
                  nes_earliest_round := (if c = None then nes_earliest_round st else ne_round (nem_msg msg) + 1)\<rparr>"
    and "rs = ne_round_state_of st (ne_round (nem_msg msg))"
    and "map_of (rne_qc_round_no_endorsements rs') = (map_of (rne_qc_round_no_endorsements rs))(ne_tip_qc_round (nem_msg msg) \<mapsto> b)"
    and "rne_node_no_endorsements rs' = rne_node_no_endorsements (note_no_endorsement rs n msg)"
    and "\<forall>nec. c = Some nec \<longrightarrow> nec_msg nec = nem_msg msg" "rne_certificate rs' = (if c = None then rne_certificate rs else c)"
    and "if n \<in> set (rne_invalid_senders rs)
         then b = ne_bucket_of st (nem_msg msg) \<and> rne_invalid_senders rs' = rne_invalid_senders rs \<and> c = None
         else collected E valid vals vm DomainNoEndorsement (rlp_no_endorsement E (nem_msg msg))
           (bt_insert n (nem_signature msg) (ne_bucket_of st (nem_msg msg))) (rne_invalid_senders rs) b
           (rne_invalid_senders rs') (map_option nec_signatures c)"
  shows "process_ne_ok E valid st n msg vals vm st' c"
proof -
  let ?r = "ne_round (nem_msg msg)"
  have rs': "ne_round_state_of st' k = (if k = ?r then rs' else ne_round_state_of st k)" for k
    unfolding assms(2) by (rule ne_round_state_of_insert)
  have b: "ne_bucket_of st' (nem_msg msg) = b" by (simp add: ne_bucket_of_def rs' assms(4))
  have other: "ne_bucket_of st' u = ne_bucket_of st u" if "(ne_round u, ne_tip_qc_round u) \<noteq> (?r, ne_tip_qc_round (nem_msg msg))" for u
    using that by (auto simp: ne_bucket_of_def rs' assms(3,4))
  have e: "nes_earliest_round st' = (if c = None then nes_earliest_round st else ?r + 1)" by (simp add: assms(2))
  show ?thesis
    using assms(1,6,7,8) other e note_ne_evidence[of msg rs n]
    unfolding process_ne_ok_def Let_def get_nec_round b by (simp add: rs' assms(5) flip: assms(3))
qed

lemma process_no_endorsement_correct:
  assumes "sct_laws E valid" "vs_valid vals" "vs_small vals" "ne_state_wf VM st"
    and "vm = VM (ne_round (nem_msg msg))" "bt_wf vm" "n \<in> dom (bt_get vm)"
    and "ne_round (nem_msg msg) < u64_max"
  shows "\<exists>st' c. process_no_endorsement E st n msg vals vm = Some (st', c) \<and> ne_state_wf VM st' \<and>
           process_ne_ok E valid st n msg vals vm st' c"
proof -
  define ne where "ne = nem_msg msg"
  let ?r = "ne_round ne"
  define rs where "rs = note_no_endorsement (ne_round_state_of st ?r) n msg"
  let ?e = "nes_earliest_round st"
  let ?p = "bt_insert n (nem_signature msg) (ne_bucket_of st ne)"
  have b: "bt_wf (ne_bucket_of st ne)" "set (bt_keys (ne_bucket_of st ne)) \<subseteq> dom (bt_get (VM ?r))"
    using ne_bucket_of_wf[OF assms(4), of ne] by auto
  have rs: "map_of (rne_qc_round_no_endorsements rs) =
      (map_of (rne_qc_round_no_endorsements (ne_round_state_of st ?r)))(ne_tip_qc_round ne \<mapsto> ne_bucket_of st ne)"
    "rne_certificate rs = rne_certificate (ne_round_state_of st ?r)"
    by (simp_all add: rs_def ne_def ne_bucket_of_def)
  have wr: "ne_round_wf VM ?e ?r (ne_round_state_of st ?r)" by (rule ne_state_wf_round[OF assms(4)])
  have wrs: "ne_round_wf VM ?e ?r rs"
    by (rule ne_round_wf_put[OF wr b rs(1)]) (use wr rs(2) in \<open>simp add: ne_round_wf_def\<close>)
  consider (stale) "?r < ?e" | (barred) "?e \<le> ?r" "n \<in> set (rne_invalid_senders rs)"
    | (live) "?e \<le> ?r" "n \<notin> set (rne_invalid_senders rs)"
    by linarith
  then show ?thesis
  proof cases
    case stale
    then show ?thesis using assms(4) by (simp add: process_no_endorsement_def process_ne_ok_def ne_def Let_def)
  next
    case barred
    then have "process_no_endorsement E st n msg vals vm =
        Some (st\<lparr>nes_pending := bt_insert ?r rs (nes_pending st), nes_earliest_round := ?e\<rparr>, None)"
      by (simp add: process_no_endorsement_def Let_def ne_def rs_def ne_round_state_of_def not_less)
    moreover have "process_ne_ok E valid st n msg vals vm
        (st\<lparr>nes_pending := bt_insert ?r rs (nes_pending st), nes_earliest_round := ?e\<rparr>) None"
      by (rule process_ne_ok_step[where rs' = rs and b = "ne_bucket_of st ne", OF _ _ refl])
        (use barred in \<open>simp_all add: ne_def rs_def ne_bucket_of_def\<close>)
    ultimately show ?thesis
      using ne_state_wf_update[OF assms(4) order_refl wrs] by blast
  next
    case live
    have cert: "rne_certificate rs = None" using wrs live(1) by (auto simp: ne_round_wf_def)
    have p: "bt_wf ?p" "set (bt_keys ?p) \<subseteq> dom (bt_get vm)"
      using b assms(5,7) by (auto simp: bt_keys_def ne_def)
    obtain res b' i' where
      c: "collect_loop E vals vm DomainNoEndorsement (rlp_no_endorsement E ne) ?p (rne_invalid_senders rs) = Some (res, b', i')"
      and r: "collect_result E valid vals vm DomainNoEndorsement (rlp_no_endorsement E ne) ?p (rne_invalid_senders rs) (res, b', i')"
      using sct_laws.collect_loop_correct[OF assms(1,2,3,6) p, of DomainNoEndorsement "rlp_no_endorsement E ne"]
      by fastforce
    note coll = collect_result_collected[OF assms(1) r]
    have rs_same: "rne_invalid_senders rs = rne_invalid_senders (ne_round_state_of st ?r)" by (simp add: rs_def)
    have b': "bt_wf b'" "set b' \<subseteq> set ?p" using r by (auto simp: collect_result_def)
    have k: "set (bt_keys b') \<subseteq> dom (bt_get (VM ?r))"
      using order_trans[OF image_mono[OF b'(2)] p(2)[unfolded bt_keys_def set_map]] assms(5)
      by (simp add: bt_keys_def ne_def)
    let ?rs = "rs\<lparr>rne_qc_round_no_endorsements := AList.update (ne_tip_qc_round ne) b' (rne_qc_round_no_endorsements rs),
                 rne_invalid_senders := i'\<rparr>"
    note unf = process_no_endorsement_def Let_def ne_round_state_of_def[symmetric] ne_def[symmetric]
      rs_def[symmetric]
    have bucket: "entry_or [] (map_of (rne_qc_round_no_endorsements rs) (ne_tip_qc_round ne)) = ne_bucket_of st ne"
      by (simp add: rs(1))
    show ?thesis
    proof (cases res)
      case None
      have "process_no_endorsement E st n msg vals vm =
          Some (st\<lparr>nes_pending := bt_insert ?r ?rs (nes_pending st), nes_earliest_round := ?e\<rparr>, None)"
        using live None by (simp add: unf bucket c not_less)
      moreover have "ne_round_wf VM ?e ?r ?rs"
        by (rule ne_round_wf_put[OF wrs b'(1) k]) (simp_all add: update_conv' cert)
      moreover have "process_ne_ok E valid st n msg vals vm
          (st\<lparr>nes_pending := bt_insert ?r ?rs (nes_pending st), nes_earliest_round := ?e\<rparr>) None"
        by (rule process_ne_ok_step[where rs' = ?rs and b = b', OF _ _ refl])
          (use live None coll rs_same in \<open>simp_all add: ne_def rs_def update_conv'\<close>)
      ultimately show ?thesis
        using ne_state_wf_update[OF assms(4) order_refl] by blast
    next
      case (Some sc)
      let ?nec = "\<lparr>nec_msg = ne, nec_signatures = sc\<rparr>"
      let ?su = "st\<lparr>nes_pending := bt_insert ?r (?rs\<lparr>rne_certificate := Some ?nec\<rparr>) (nes_pending st), nes_earliest_round := ?r + 1\<rparr>"
      have "process_no_endorsement E st n msg vals vm = Some (?su, Some ?nec)"
        using live Some cert assms(8)
        by (simp add: unf bucket c not_less round_add_def checked_add_def)
      moreover have "ne_round_wf VM (?r + 1) ?r (?rs\<lparr>rne_certificate := Some ?nec\<rparr>)"
        by (rule ne_round_wf_put[OF wrs b'(1) k]) (simp_all add: update_conv')
      then have "ne_state_wf VM ?su" using ne_state_wf_update[OF assms(4)] live(1) by simp
      moreover have "process_ne_ok E valid st n msg vals vm ?su (Some ?nec)"
        by (rule process_ne_ok_step[where rs' = "?rs\<lparr>rne_certificate := Some ?nec\<rparr>" and b = b', OF _ _ refl])
          (use live Some coll rs_same in \<open>simp_all add: ne_def rs_def update_conv'\<close>)
      ultimately show ?thesis by blast
    qed
  qed
qed

lemma ne_start_new_round_wf:
  assumes "ne_state_wf VM st" "nes_earliest_round st \<le> r"
  shows "ne_state_wf VM (ne_start_new_round st r)"
proof -
  have "ne_round_wf VM r k rs" if "bt_get (nes_pending st) k = Some rs" for k rs
    using that assms(1) ne_round_wf_mono[OF _ assms(2), of VM k rs] by (simp add: ne_state_wf_def)
  then show ?thesis using assms(1) by (simp add: ne_state_wf_def ne_start_new_round_def)
qed

section \<open>Properties\<close>


definition example_nem :: "node_id \<Rightarrow> nop_signature no_endorsement_message" where
  "example_nem n =
     no_endorsement_message_new example_env \<lparr>ne_epoch = 1, ne_round = 5, ne_tip_qc_round = 2\<rparr> (n + 100)"



definition example_ne_stored :: "(nop_signature, nop_signature multi_sig) no_endorsement_state" where
  "example_ne_stored =
     \<lparr>nes_pending = [(5, \<lparr>rne_qc_round_no_endorsements = [(2, map (\<lambda>n. (n, nem_signature (example_nem n))) [1, 2, 3])],
        rne_node_no_endorsements = [], rne_invalid_senders = [],
        rne_certificate = Some \<lparr>nec_msg = nem_msg (example_nem 1), nec_signatures = \<lparr>ms_sigs = []\<rparr>\<rparr>\<rparr>)],
      nes_earliest_round = 6\<rparr>"


end
