(* ===== verification/Pacemaker.thy ===== *)
theory Pacemaker
  imports Safety Vote_State Epoch_Manager
begin

text \<open>
  \<^verbatim>\<open>monad-consensus/src/pacemaker.rs\<close>: tracking and advancing rounds.

  \<open>pm_vote_pace\<close> is the chain configuration's vote delay of a round.  Durations are
  nanoseconds, with the overflow panics of \<^verbatim>\<open>std::time::Duration\<close>.  \<open>tc_loop\<close> is the loop of
  \<^verbatim>\<open>process_remote_timeout\<close>, as a \<open>partial_function\<close>: \<^term>\<open>None\<close> is a panic or a loop that does
  not end.  The model is of the release build, so the \<^verbatim>\<open>debug_assert_eq\<close> of \<^verbatim>\<open>handle_invalid_timeout\<close> is left out.
\<close>

definition duration_max :: nat where
  "duration_max = 2 ^ 64 * 10 ^ 9 - 1"

definition duration_add :: "nat \<Rightarrow> nat \<Rightarrow> nat option" where
  "duration_add a b = checked_add duration_max a b"

definition duration_mul :: "nat \<Rightarrow> nat \<Rightarrow> nat option" where
  "duration_mul a k = (if a * k \<le> duration_max then Some (a * k) else None)"

datatype phase_honest = PhaseZero | PhaseOne

record ('s, 'c, 'x) pacemaker =
  pm_delta :: nat
  pm_vote_pace :: "round \<Rightarrow> nat"
  pm_local_processing :: nat
  pm_current_epoch :: epoch
  pm_high_certificate :: "('s, 'c, 'x) round_certificate"
  pm_pending_timeouts :: "(node_id, ('s, 'c, 'x) timeout) btree_map"
  pm_invalid_timeout_senders :: "node_id btree_set"
  pm_phase :: phase_honest

datatype ('s, 'c, 'x) pacemaker_command =
    PcEnterRound epoch round "('s, 'c, 'x) round_certificate"
  | PcPrepareTimeout timeout_info "('s, 'c, 'x) high_extend" bool "('s, 'c, 'x) round_certificate option"
  | PcSchedule round nat
  | PcScheduleReset

definition pacemaker_new ::
  "nat \<Rightarrow> (round \<Rightarrow> nat) \<Rightarrow> nat \<Rightarrow> epoch_manager \<Rightarrow> ('s, 'c, 'x) round_certificate
     \<Rightarrow> ('s, 'c, 'x) pacemaker option" where
  "pacemaker_new delta vote_pace local_processing em high_certificate = do {
     current_round \<leftarrow> round_add (rc_round high_certificate) 1;
     ep \<leftarrow> get_epoch em current_round;
     Some \<lparr>pm_delta = delta, pm_vote_pace = vote_pace, pm_local_processing = local_processing,
           pm_current_epoch = ep, pm_high_certificate = high_certificate, pm_pending_timeouts = [],
           pm_invalid_timeout_senders = [], pm_phase = PhaseZero\<rparr>
   }"

definition get_current_round :: "('s, 'c, 'x) pacemaker \<Rightarrow> round option" where
  "get_current_round pm = round_add (rc_round (pm_high_certificate pm)) 1"

definition get_round_timer :: "('s, 'c, 'x) pacemaker \<Rightarrow> round \<Rightarrow> nat option" where
  "get_round_timer pm r = do {
     d \<leftarrow> duration_mul (pm_delta pm) 3;
     d \<leftarrow> duration_add d (pm_vote_pace pm r);
     duration_add d (pm_local_processing pm)
   }"

definition pm_process_certificate ::
  "('s, 'c, 'x) pacemaker \<Rightarrow> epoch_manager \<Rightarrow> ('s, 'c, 'x) safety \<Rightarrow> ('s, 'c, 'x) round_certificate
     \<Rightarrow> (('s, 'c, 'x) pacemaker \<times> ('s, 'c, 'x) safety \<times> ('s, 'c, 'x) pacemaker_command list) option" where
  "pm_process_certificate pm em saf certificate =
     (if rc_round certificate \<le> rc_round (pm_high_certificate pm) then Some (pm, saf, [])
      else do {
        let saf = safety_process_certificate saf certificate;
        let pm = pm\<lparr>pm_high_certificate := certificate\<rparr>;
        current_round \<leftarrow> get_current_round pm;
        ep \<leftarrow> get_epoch em current_round;
        let pm = pm\<lparr>pm_current_epoch := ep, pm_phase := PhaseZero, pm_pending_timeouts := [],
                    pm_invalid_timeout_senders := []\<rparr>;
        duration \<leftarrow> get_round_timer pm current_round;
        Some (pm, saf,
              [PcEnterRound ep current_round (pm_high_certificate pm), PcSchedule current_round duration])
      })"

definition local_timeout_round ::
  "('s, 'c, 'x) pacemaker \<Rightarrow> ('s, 'c, 'x) safety
     \<Rightarrow> (('s, 'c, 'x) safety \<times> ('s, 'c, 'x) pacemaker_command list) option" where
  "local_timeout_round pm saf = do {
     current_round \<leftarrow> get_current_round pm;
     (saf, safe_to_include_vote) \<leftarrow> safety_timeout saf current_round;
     let high_extend = (case maybe_high_tip saf of
                          None \<Rightarrow> HeQc (rc_qc (pm_high_certificate pm))
                        | Some tip \<Rightarrow> HeTip tip);
     let (high_tip_round, high_extend_qc_round) =
       (case high_extend of
          HeTip tip \<Rightarrow> (block_round (tip_block_header tip), get_round (bh_qc (tip_block_header tip)))
        | HeQc qc \<Rightarrow> (GENESIS_ROUND, get_round qc));
     let tminfo = \<lparr>tm_epoch = pm_current_epoch pm, tm_round = current_round,
                   tm_high_qc_round = high_extend_qc_round, tm_high_tip_round = high_tip_round\<rparr>;
     next_round \<leftarrow> round_add high_extend_qc_round 1;
     let last_round_rc = (if next_round = current_round then None else Some (pm_high_certificate pm));
     duration \<leftarrow> get_round_timer pm current_round;
     Some (saf,
           [PcScheduleReset,
            PcPrepareTimeout tminfo high_extend safe_to_include_vote last_round_rc,
            PcSchedule current_round duration])
   }"

definition process_local_timeout ::
  "('s, 'c, 'x) pacemaker \<Rightarrow> ('s, 'c, 'x) safety
     \<Rightarrow> (('s, 'c, 'x) pacemaker \<times> ('s, 'c, 'x) safety \<times> ('s, 'c, 'x) pacemaker_command list) option" where
  "process_local_timeout pm saf = do {
     let pm = pm\<lparr>pm_phase := PhaseOne\<rparr>;
     (saf, cmds) \<leftarrow> local_timeout_round pm saf;
     Some (pm, saf, cmds)
   }"

fun remove_all :: "'k list \<Rightarrow> ('k, 'v) btree_map \<Rightarrow> ('k, 'v) btree_map" where
  "remove_all [] m = m"
| "remove_all (k # ks) m = remove_all ks (bt_remove k m)"

definition handle_invalid_timeout ::
  "('s, 'c, 'x) pacemaker \<Rightarrow> (node_id \<times> 's) list \<Rightarrow> ('s, 'c, 'x) pacemaker" where
  "handle_invalid_timeout pm invalid_timeouts =
     pm\<lparr>pm_invalid_timeout_senders := insert_all (map fst invalid_timeouts) (pm_invalid_timeout_senders pm),
        pm_pending_timeouts := remove_all (map fst invalid_timeouts) (pm_pending_timeouts pm)\<rparr>"

partial_function (option) tc_loop ::
  "('s, 'c, 'x) env \<Rightarrow> epoch_manager \<Rightarrow> validator_set \<Rightarrow> validator_mapping \<Rightarrow> timeout_info
     \<Rightarrow> ('s, 'c, 'x) pacemaker \<Rightarrow> ('s, 'c, 'x) safety \<Rightarrow> node_id list \<Rightarrow> ('s, 'c, 'x) pacemaker_command list
     \<Rightarrow> (('s, 'c, 'x) pacemaker \<times> ('s, 'c, 'x) safety \<times> ('s, 'c, 'x) pacemaker_command list) option" where
  "tc_loop E em vals vm info pm saf timeouts cmds =
     (if pm_phase pm = PhaseOne then
        (case has_super_majority_votes vals timeouts of
           Some (Inr enough) \<Rightarrow>
             if \<not> enough then Some (pm, saf, cmds)
             else
               (case tc_new E (tm_epoch info) (tm_round info) (pm_pending_timeouts pm) vm of
                  Some (Inr tc) \<Rightarrow>
                    Option.bind (pm_process_certificate pm em saf (RcTc tc)) (\<lambda>(pm', saf', cs).
                      if pm_phase pm' = PhaseZero
                      then tc_loop E em vals vm info pm' saf' timeouts (cmds @ cs)
                      else None)
                | Some (Inl (InvalidSignaturesCreate invalid_sigs)) \<Rightarrow>
                    tc_loop E em vals vm info (handle_invalid_timeout pm invalid_sigs) saf
                      (bt_keys (pm_pending_timeouts (handle_invalid_timeout pm invalid_sigs))) cmds
                | _ \<Rightarrow> None)
         | _ \<Rightarrow> None)
      else Some (pm, saf, cmds))"

declare tc_loop.simps [code]

definition process_remote_timeout ::
  "('s, 'c, 'x) env \<Rightarrow> ('s, 'c, 'x) pacemaker \<Rightarrow> epoch_manager \<Rightarrow> validator_set \<Rightarrow> validator_mapping
     \<Rightarrow> ('s, 'c, 'x) safety \<Rightarrow> node_id \<Rightarrow> ('s, 'c, 'x) timeout
     \<Rightarrow> (('s, 'c, 'x) pacemaker \<times> ('s, 'c, 'x) safety \<times> ('s, 'c, 'x) pacemaker_command list) option" where
  "process_remote_timeout E pm em vals vm saf node_author timeout_msg = do {
     current_round \<leftarrow> get_current_round pm;
     let tm_info = to_tminfo timeout_msg;
     if tm_round tm_info < current_round then Some (pm, saf, [])
     else do {
       _ \<leftarrow> assert_p (tm_round tm_info = current_round);
       if node_author \<in> set (pm_invalid_timeout_senders pm) then Some (pm, saf, [])
       else do {
         let pm = pm\<lparr>pm_pending_timeouts := bt_insert node_author timeout_msg (pm_pending_timeouts pm)\<rparr>;
         let timeouts = bt_keys (pm_pending_timeouts pm);
         honest \<leftarrow> (if pm_phase pm = PhaseZero
                    then (case has_honest_vote vals timeouts of Some (Inr b) \<Rightarrow> Some b | _ \<Rightarrow> None)
                    else Some False);
         (pm, saf, cmds) \<leftarrow>
           (if honest then do {
              (saf, cmds) \<leftarrow> local_timeout_round pm saf;
              Some (pm\<lparr>pm_phase := PhaseOne\<rparr>, saf, cmds)
            }
            else Some (pm, saf, []));
         tc_loop E em vals vm tm_info pm saf timeouts cmds
       }
     }
   }"

section \<open>Advancing rounds\<close>

definition timers_ok :: "('s, 'c, 'x) pacemaker \<Rightarrow> bool" where
  "timers_ok pm \<longleftrightarrow> (\<forall>r. pm_delta pm * 3 + pm_vote_pace pm r + pm_local_processing pm \<le> duration_max)"

lemma get_round_timer_exact:
  "timers_ok pm \<Longrightarrow> get_round_timer pm r = Some (pm_delta pm * 3 + pm_vote_pace pm r + pm_local_processing pm)"
  unfolding timers_ok_def
  by (drule spec[of _ r])
     (auto simp: get_round_timer_def duration_mul_def duration_add_def checked_add_def)

lemma get_current_round_Some [simp]:
  "get_current_round pm = Some r \<longleftrightarrow>
     rc_round (pm_high_certificate pm) + 1 \<le> u64_max \<and> r = rc_round (pm_high_certificate pm) + 1"
  by (simp add: get_current_round_def)

lemma pm_process_certificate_stale:
  "rc_round c \<le> rc_round (pm_high_certificate pm) \<Longrightarrow> pm_process_certificate pm em saf c = Some (pm, saf, [])"
  by (simp add: pm_process_certificate_def)

definition round_timer :: "('s, 'c, 'x) pacemaker \<Rightarrow> round \<Rightarrow> nat" where
  "round_timer pm r = pm_delta pm * 3 + pm_vote_pace pm r + pm_local_processing pm"

definition enter_commands ::
  "('s, 'c, 'x) pacemaker \<Rightarrow> epoch \<Rightarrow> ('s, 'c, 'x) round_certificate \<Rightarrow> ('s, 'c, 'x) pacemaker_command list" where
  "enter_commands pm e c =
     [PcEnterRound e (rc_round c + 1) c, PcSchedule (rc_round c + 1) (round_timer pm (rc_round c + 1))]"

lemma pm_process_certificate_advance:
  assumes "rc_round (pm_high_certificate pm) < rc_round c" "rc_round c < u64_max"
    "get_epoch em (rc_round c + 1) = Some e" "timers_ok pm"
  shows "pm_process_certificate pm em saf c =
    Some (pm\<lparr>pm_high_certificate := c, pm_current_epoch := e, pm_phase := PhaseZero,
             pm_pending_timeouts := [], pm_invalid_timeout_senders := []\<rparr>,
          safety_process_certificate saf c, enter_commands pm e c)"
proof -
  let ?pm = "pm\<lparr>pm_high_certificate := c, pm_current_epoch := e, pm_phase := PhaseZero,
                pm_pending_timeouts := [], pm_invalid_timeout_senders := []\<rparr>"
  have t: "timers_ok ?pm" using assms(4) by (simp add: timers_ok_def)
  have r: "get_current_round (pm\<lparr>pm_high_certificate := c\<rparr>) = Some (rc_round c + 1)"
    using assms(2) by simp
  show ?thesis
    using assms(1,3) get_round_timer_exact[OF t, of "rc_round c + 1"]
    by (simp add: pm_process_certificate_def r Let_def enter_commands_def round_timer_def)
qed

section \<open>Building a timeout certificate\<close>

definition good_timeout ::
  "('s, 'c, 'x) env \<Rightarrow> (signing_domain \<Rightarrow> bytes \<Rightarrow> cert_pubkey \<Rightarrow> 's \<Rightarrow> bool) \<Rightarrow> validator_mapping
     \<Rightarrow> node_id \<times> ('s, 'c, 'x) timeout \<Rightarrow> bool" where
  "good_timeout E valid vm e \<longleftrightarrow>
     (\<exists>pk. bt_get vm (fst e) = Some pk \<and>
           valid DomainTimeout (rlp_timeout_info E (to_tminfo (snd e))) pk (to_signature (snd e)))"

lemma genesis_qc_total:
  assumes "sct_laws E valid"
  shows "\<exists>g. genesis_qc E = Some g"
  using sct_laws.new_all_valid[OF assms, of "[]" "[]" DomainVote "[]"]
  by (auto simp: genesis_qc_def)

lemma distinct_tminfo_group: "distinct (map fst ts) \<Longrightarrow> distinct (map fst (tminfo_group info ts))"
  by (simp add: tminfo_group_def comp_def distinct_map_filter)

lemma tc_new_total:
  assumes "sct_laws E valid" "env_order_ok E" "bt_wf vm" "bt_wf p" "set (bt_keys p) \<subseteq> dom (bt_get vm)"
  shows "(\<exists>tc. tc_new E ep r p vm = Some (Inr tc)) \<or>
    (\<exists>bad. tc_new E ep r p vm = Some (Inl (InvalidSignaturesCreate bad)) \<and> bad \<noteq> [] \<and>
       fst ` set bad \<subseteq> fst ` {e \<in> set p. \<not> good_timeout E valid vm e})"
proof -
  obtain g where g: "genesis_qc E = Some g" using genesis_qc_total[OF assms(1)] by auto
  obtain h gs where c: "tc_collect p (HeQc g) [] = (h, gs)" by fastforce
  show ?thesis
  proof (cases "tc_sign_groups E vm (tminfo_order E gs)")
    case (Inr tips)
    then show ?thesis by (simp add: tc_new_def g c)
  next
    case (Inl e)
    from tc_sign_groups_err[OF Inl] obtain info where
      err: "sct_new E DomainTimeout (tminfo_group info p) vm (rlp_timeout_info E info) = Inl e"
      unfolding tc_new_groups[OF assms(2) c] by auto
    have d: "distinct (map fst (tminfo_group info p))" "fst ` set (tminfo_group info p) \<subseteq> dom (bt_get vm)"
      using distinct_tminfo_group[OF bt_wf_distinct[OF assms(4)]] assms(5)
      by (auto simp: tminfo_group_def bt_keys_def)
    from sct_laws.new_some_invalid[OF assms(1,3) d err] obtain bad where
      bad: "e = InvalidSignaturesCreate bad" "bad \<noteq> []" "set bad \<subseteq> set (tminfo_group info p)"
        "\<forall>(n, s) \<in> set bad. \<forall>pk. bt_get vm n = Some pk \<longrightarrow> \<not> valid DomainTimeout (rlp_timeout_info E info) pk s"
      by blast
    have "fst x \<in> fst ` {e \<in> set p. \<not> good_timeout E valid vm e}" if x: "x \<in> set bad" for x
    proof -
      obtain t where t: "(fst x, t) \<in> set p" "to_tminfo t = info" "to_signature t = snd x"
        using subsetD[OF bad(3) x] by (auto simp: tminfo_group_def)
      then have "\<not> good_timeout E valid vm (fst x, t)"
        using bad(4) x by (auto simp: good_timeout_def)
      then show ?thesis using t(1) by force
    qed
    then show ?thesis using bad(1,2) Inl by (auto simp: tc_new_def g c)
  qed
qed

lemma remove_all_retain: "remove_all ks m = bt_retain (\<lambda>k. k \<notin> set ks) m"
  by (induction ks m rule: remove_all.induct)
     (auto simp: bt_retain_def bt_remove_def intro!: filter_cong)

text \<open>The outcome of the loop of \<open>process_remote_timeout\<close>.\<close>

definition tc_loop_result ::
  "('s, 'c, 'x) env \<Rightarrow> (signing_domain \<Rightarrow> bytes \<Rightarrow> cert_pubkey \<Rightarrow> 's \<Rightarrow> bool) \<Rightarrow> epoch_manager \<Rightarrow> validator_set
     \<Rightarrow> validator_mapping \<Rightarrow> timeout_info \<Rightarrow> ('s, 'c, 'x) pacemaker \<Rightarrow> ('s, 'c, 'x) safety
     \<Rightarrow> ('s, 'c, 'x) pacemaker \<Rightarrow> ('s, 'c, 'x) safety \<Rightarrow> ('s, 'c, 'x) pacemaker_command list \<Rightarrow> bool" where
  "tc_loop_result E valid em vals vm info pm saf pm' saf' cs \<longleftrightarrow>
     (pm' = pm\<lparr>pm_pending_timeouts := pm_pending_timeouts pm', pm_invalid_timeout_senders := pm_invalid_timeout_senders pm'\<rparr> \<and>
      saf' = saf \<and> cs = [] \<and> bt_wf (pm_pending_timeouts pm') \<and>
      set (pm_pending_timeouts pm') \<subseteq> set (pm_pending_timeouts pm) \<and>
      {e \<in> set (pm_pending_timeouts pm). good_timeout E valid vm e} \<subseteq> set (pm_pending_timeouts pm') \<and>
      fst ` (set (pm_pending_timeouts pm) - set (pm_pending_timeouts pm')) \<subseteq> set (pm_invalid_timeout_senders pm') \<and>
      set (pm_invalid_timeout_senders pm) \<subseteq> set (pm_invalid_timeout_senders pm') \<and>
      set (pm_invalid_timeout_senders pm') \<subseteq> set (pm_invalid_timeout_senders pm) \<union>
        fst ` {e \<in> set (pm_pending_timeouts pm). \<not> good_timeout E valid vm e} \<and>
      (pm_phase pm = PhaseOne \<longrightarrow> \<not> super_majority vals (fst ` set (pm_pending_timeouts pm')))) \<or>
     (pm_phase pm = PhaseOne \<and>
      (\<exists>tc p e. pm' = pm\<lparr>pm_high_certificate := RcTc tc, pm_current_epoch := e, pm_phase := PhaseZero,
                        pm_pending_timeouts := [], pm_invalid_timeout_senders := []\<rparr> \<and>
        saf' = safety_process_certificate saf (RcTc tc) \<and> cs = enter_commands pm e (RcTc tc) \<and>
        get_epoch em (tm_round info + 1) = Some e \<and>
        bt_wf p \<and> set p \<subseteq> set (pm_pending_timeouts pm) \<and>
        {e \<in> set (pm_pending_timeouts pm). good_timeout E valid vm e} \<subseteq> set p \<and> super_majority vals (fst ` set p) \<and>
        tc_new E (tm_epoch info) (tm_round info) p vm = Some (Inr tc) \<and> (vm_inj vm \<longrightarrow> tc_signed_by E vm p tc)))"

lemma tc_loop_result_retry:
  assumes "tc_loop_result E valid em vals vm info (handle_invalid_timeout pm bad) saf pm' saf' cs"
    and "bt_wf (pm_pending_timeouts pm)"
    and "fst ` set bad \<subseteq> fst ` {e \<in> set (pm_pending_timeouts pm). \<not> good_timeout E valid vm e}"
  shows "tc_loop_result E valid em vals vm info pm saf pm' saf' cs"
proof -
  let ?h = "handle_invalid_timeout pm bad"
  let ?p = "pm_pending_timeouts pm" and ?q = "pm_pending_timeouts ?h"
  have q: "set ?q = {e \<in> set ?p. fst e \<notin> fst ` set bad}"
    by (simp add: handle_invalid_timeout_def remove_all_retain set_bt_retain)
  have "fst e \<notin> fst ` set bad" if e: "e \<in> set ?p" "good_timeout E valid vm e" for e
  proof
    assume "fst e \<in> fst ` set bad"
    then obtain x where x: "x \<in> set ?p" "\<not> good_timeout E valid vm x" "fst x = fst e"
      using subsetD[OF assms(3)] by fastforce
    have "inj_on fst (set ?p)" using bt_wf_distinct[OF assms(2)] by (simp add: distinct_map)
    then have "x = e" using x(1,3) e(1) by (auto dest: inj_onD)
    then show False using x(2) e(2) by simp
  qed
  then have g: "{e \<in> set ?q. good_timeout E valid vm e} = {e \<in> set ?p. good_timeout E valid vm e}"
    unfolding q by blast
  have sub: "set ?q \<subseteq> set ?p" using q by auto
  have inv: "set (pm_invalid_timeout_senders ?h) = fst ` set bad \<union> set (pm_invalid_timeout_senders pm)"
    by (simp add: handle_invalid_timeout_def)
  have out: "fst ` (set ?p - set ?q) \<subseteq> set (pm_invalid_timeout_senders ?h)" unfolding q inv by blast
  have eqs: "pm_phase ?h = pm_phase pm" "enter_commands ?h = enter_commands pm"
    by (simp_all add: handle_invalid_timeout_def enter_commands_def round_timer_def fun_eq_iff)
  have upd: "?h\<lparr>pm_pending_timeouts := x, pm_invalid_timeout_senders := y\<rparr> = pm\<lparr>pm_pending_timeouts := x, pm_invalid_timeout_senders := y\<rparr>"
    "?h\<lparr>pm_high_certificate := c, pm_current_epoch := e, pm_phase := f, pm_pending_timeouts := x, pm_invalid_timeout_senders := y\<rparr> =
     pm\<lparr>pm_high_certificate := c, pm_current_epoch := e, pm_phase := f, pm_pending_timeouts := x, pm_invalid_timeout_senders := y\<rparr>" for x y c e f
    by (simp_all add: handle_invalid_timeout_def)
  show ?thesis
    using assms(1) unfolding tc_loop_result_def g eqs upd
  proof (elim disjE exE conjE, goal_cases)
    case 1
    have "fst ` (set ?p - set (pm_pending_timeouts pm')) \<subseteq> set (pm_invalid_timeout_senders pm')"
      using out 1(7,8) by blast
    moreover have "set (pm_invalid_timeout_senders pm) \<subseteq> set (pm_invalid_timeout_senders pm')" using 1(8) unfolding inv by blast
    moreover have "set (pm_invalid_timeout_senders pm') \<subseteq> set (pm_invalid_timeout_senders pm) \<union>
        fst ` {e \<in> set ?p. \<not> good_timeout E valid vm e}"
      using 1(9) assms(3) sub unfolding inv by blast
    moreover have "set (pm_pending_timeouts pm') \<subseteq> set ?p" using 1(5) sub by blast
    ultimately show ?case using 1 by (intro disjI1 conjI)
  next
    case (2 tc p e)
    have "set p \<subseteq> set ?p" using 2(7) sub by blast
    then show ?case using 2 by (intro disjI2 conjI exI[of _ tc] exI[of _ p] exI[of _ e])
  qed
qed

lemma tc_loop_correct:
  assumes "sct_laws E valid" "env_order_ok E" "vs_valid vals" "vs_small vals" "bt_wf vm"
    and "bt_wf (pm_pending_timeouts pm)" "set (bt_keys (pm_pending_timeouts pm)) \<subseteq> dom (bt_get vm)"
    and "rc_round (pm_high_certificate pm) < tm_round info" "tm_round info < u64_max"
    and "get_epoch em (tm_round info + 1) \<noteq> None" "timers_ok pm"
  shows "\<exists>pm' saf' cs. tc_loop E em vals vm info pm saf (bt_keys (pm_pending_timeouts pm)) cmds = Some (pm', saf', cmds @ cs) \<and>
           tc_loop_result E valid em vals vm info pm saf pm' saf' cs"
  using assms(6,7,8,11)
proof (induction "length (pm_pending_timeouts pm)" arbitrary: pm rule: less_induct)
  case less
  let ?p = "pm_pending_timeouts pm"
  have maj: "has_super_majority_votes vals (bt_keys ?p) = Some (Inr (super_majority vals (fst ` set ?p)))"
    using has_super_majority_votes_iff[OF assms(3,4) distinct_bt_keys[OF less.prems(1)]] by (simp add: bt_keys_def)
  consider (idle) "pm_phase pm \<noteq> PhaseOne \<or> \<not> super_majority vals (fst ` set ?p)"
    | (cert) tc where "pm_phase pm = PhaseOne" "super_majority vals (fst ` set ?p)"
        "tc_new E (tm_epoch info) (tm_round info) ?p vm = Some (Inr tc)"
    | (retry) bad where "pm_phase pm = PhaseOne" "super_majority vals (fst ` set ?p)"
        "tc_new E (tm_epoch info) (tm_round info) ?p vm = Some (Inl (InvalidSignaturesCreate bad))" "bad \<noteq> []"
        "fst ` set bad \<subseteq> fst ` {e \<in> set ?p. \<not> good_timeout E valid vm e}"
    using tc_new_total[OF assms(1,2,5) less.prems(1,2), of "tm_epoch info" "tm_round info"] by blast
  then show ?case
  proof cases
    case idle
    then have "tc_loop E em vals vm info pm saf (bt_keys ?p) cmds = Some (pm, saf, cmds @ [])"
      by (subst tc_loop.simps) (simp add: maj)
    moreover have "tc_loop_result E valid em vals vm info pm saf pm saf []"
      using idle less.prems(1) by (auto simp: tc_loop_result_def)
    ultimately show ?thesis by blast
  next
    case (cert tc)
    obtain e where e: "get_epoch em (tm_round info + 1) = Some e" using assms(10) by auto
    have r: "rc_round (RcTc tc) = tm_round info"
      using cert(3) by (auto elim: tc_new_elim)
    note adv = pm_process_certificate_advance[of pm "RcTc tc" em e saf, unfolded r,
        OF less.prems(3) assms(9) e less.prems(4)]
    let ?pm = "pm\<lparr>pm_high_certificate := RcTc tc, pm_current_epoch := e, pm_phase := PhaseZero,
                 pm_pending_timeouts := [], pm_invalid_timeout_senders := []\<rparr>"
    have "tc_loop E em vals vm info pm saf (bt_keys ?p) cmds =
        Some (?pm, safety_process_certificate saf (RcTc tc), cmds @ enter_commands pm e (RcTc tc))"
      using cert by (subst tc_loop.simps, subst tc_loop.simps) (simp add: maj adv)
    moreover have "tc_loop_result E valid em vals vm info pm saf ?pm (safety_process_certificate saf (RcTc tc))
        (enter_commands pm e (RcTc tc))"
      unfolding tc_loop_result_def using cert less.prems(1) e tc_new_signed[OF assms(1) _ assms(2) cert(3)]
      by (intro disjI2 conjI exI[of _ tc] exI[of _ ?p] exI[of _ e]) auto
    ultimately show ?thesis by blast
  next
    case (retry bad)
    let ?pm = "handle_invalid_timeout pm bad"
    have q: "pm_pending_timeouts ?pm = bt_retain (\<lambda>k. k \<notin> fst ` set bad) ?p"
      by (simp add: handle_invalid_timeout_def remove_all_retain)
    obtain y where "y \<in> set bad" using retry(4) by (cases bad) auto
    then obtain x where "fst x \<in> fst ` set bad" "x \<in> set ?p" using retry(5) by fastforce
    then have len: "length (pm_pending_timeouts ?pm) < length ?p"
      unfolding q bt_retain_def by (intro length_filter_less[of x]) auto
    have "bt_wf (pm_pending_timeouts ?pm)" "set (bt_keys (pm_pending_timeouts ?pm)) \<subseteq> dom (bt_get vm)"
      "rc_round (pm_high_certificate ?pm) < tm_round info" "timers_ok ?pm"
      using less.prems by (auto simp: q bt_keys_retain) (auto simp: handle_invalid_timeout_def timers_ok_def)
    from less.hyps[OF len this] obtain pm' saf' cs where
      IH: "tc_loop E em vals vm info ?pm saf (bt_keys (pm_pending_timeouts ?pm)) cmds = Some (pm', saf', cmds @ cs)"
        "tc_loop_result E valid em vals vm info ?pm saf pm' saf' cs" by blast
    have "tc_loop E em vals vm info pm saf (bt_keys ?p) cmds = Some (pm', saf', cmds @ cs)"
      using IH(1) retry(1,2,3) by (subst tc_loop.simps) (simp add: maj)
    moreover have "tc_loop_result E valid em vals vm info pm saf pm' saf' cs"
      by (rule tc_loop_result_retry[OF IH(2) less.prems(1) retry(5)])
    ultimately show ?thesis by blast
  qed
qed

section \<open>Local and remote timeouts\<close>

definition pm_wf :: "validator_mapping \<Rightarrow> ('s, 'c, 'x) pacemaker \<Rightarrow> bool" where
  "pm_wf vm pm \<longleftrightarrow>
     bt_wf (pm_pending_timeouts pm) \<and> set (bt_keys (pm_pending_timeouts pm)) \<subseteq> dom (bt_get vm) \<and>
     (\<forall>e \<in> set (pm_pending_timeouts pm). tm_round (to_tminfo (snd e)) = rc_round (pm_high_certificate pm) + 1) \<and>
     timers_ok pm"

text \<open>The node can time out its current round: it has not voted beyond it, and the rounds it refers to have a successor.\<close>

definition can_time_out :: "('s, 'c, 'x) pacemaker \<Rightarrow> ('s, 'c, 'x) safety \<Rightarrow> bool" where
  "can_time_out pm saf \<longleftrightarrow>
     highest_vote saf \<le> rc_round (pm_high_certificate pm) + 1 \<and>
     rc_round (pm_high_certificate pm) < u64_max \<and>
     get_round (rc_qc (pm_high_certificate pm)) < u64_max \<and>
     (\<forall>tip. maybe_high_tip saf = Some tip \<longrightarrow> get_round (bh_qc (tip_block_header tip)) < u64_max)"

definition local_high_extend :: "('s, 'c, 'x) pacemaker \<Rightarrow> ('s, 'c, 'x) safety \<Rightarrow> ('s, 'c, 'x) high_extend" where
  "local_high_extend pm saf =
     (case maybe_high_tip saf of None \<Rightarrow> HeQc (rc_qc (pm_high_certificate pm)) | Some tip \<Rightarrow> HeTip tip)"

definition local_tminfo :: "('s, 'c, 'x) pacemaker \<Rightarrow> ('s, 'c, 'x) safety \<Rightarrow> timeout_info" where
  "local_tminfo pm saf =
     \<lparr>tm_epoch = pm_current_epoch pm, tm_round = rc_round (pm_high_certificate pm) + 1,
      tm_high_qc_round = get_round (he_qc (local_high_extend pm saf)),
      tm_high_tip_round = (case maybe_high_tip saf of None \<Rightarrow> GENESIS_ROUND
                           | Some tip \<Rightarrow> block_round (tip_block_header tip))\<rparr>"

lemma local_timeout_round_exact:
  assumes "can_time_out pm saf" "timers_ok pm"
  shows "\<exists>saf' b. safety_timeout saf (rc_round (pm_high_certificate pm) + 1) = Some (saf', b) \<and>
    local_timeout_round pm saf = Some (saf',
      [PcScheduleReset,
       PcPrepareTimeout (local_tminfo pm saf) (local_high_extend pm saf) b
         (if tm_high_qc_round (local_tminfo pm saf) + 1 = rc_round (pm_high_certificate pm) + 1
          then None else Some (pm_high_certificate pm)),
       PcSchedule (rc_round (pm_high_certificate pm) + 1)
         (pm_delta pm * 3 + pm_vote_pace pm (rc_round (pm_high_certificate pm) + 1) + pm_local_processing pm)])"
proof -
  let ?R = "rc_round (pm_high_certificate pm)"
  have cur: "get_current_round pm = Some (Suc ?R)" using assms(1) by (auto simp: can_time_out_def)
  obtain saf' b where t: "safety_timeout saf (Suc ?R) = Some (saf', b)"
    using assms(1) by (simp add: can_time_out_def safety_timeout_def)
  have tip: "maybe_high_tip saf' = maybe_high_tip saf" using t by (simp add: safety_timeout_Some)
  have qc: "get_round (he_qc (local_high_extend pm saf)) < u64_max"
    using assms(1) by (auto simp: can_time_out_def local_high_extend_def split: option.splits)
  show ?thesis
    using qc
    by (cases "maybe_high_tip saf")
       (simp_all add: local_timeout_round_def cur t tip get_round_timer_exact[OF assms(2)]
          local_high_extend_def local_tminfo_def round_add_def checked_add_def)
qed

definition local_timeout_commands ::
  "('s, 'c, 'x) pacemaker \<Rightarrow> ('s, 'c, 'x) safety \<Rightarrow> bool \<Rightarrow> ('s, 'c, 'x) pacemaker_command list" where
  "local_timeout_commands pm saf b =
     [PcScheduleReset,
      PcPrepareTimeout (local_tminfo pm saf) (local_high_extend pm saf) b
        (if tm_high_qc_round (local_tminfo pm saf) + 1 = rc_round (pm_high_certificate pm) + 1
         then None else Some (pm_high_certificate pm)),
      PcSchedule (rc_round (pm_high_certificate pm) + 1) (round_timer pm (rc_round (pm_high_certificate pm) + 1))]"

text \<open>
  The outcome of \<open>process_remote_timeout\<close>.  A stale timeout or one of a barred sender changes nothing.
  Otherwise the timeout is stored under its sender; in phase zero, once the stored timeouts carry more
  than a third of the stake, the node times out its own round: it records its vote lock, goes to phase
  one and issues exactly the commands of a local timeout.  The commands of the certificate loop follow.
\<close>

definition remote_timeout_ok ::
  "('s, 'c, 'x) env \<Rightarrow> (signing_domain \<Rightarrow> bytes \<Rightarrow> cert_pubkey \<Rightarrow> 's \<Rightarrow> bool) \<Rightarrow> ('s, 'c, 'x) pacemaker \<Rightarrow> epoch_manager
     \<Rightarrow> validator_set \<Rightarrow> validator_mapping \<Rightarrow> ('s, 'c, 'x) safety \<Rightarrow> node_id \<Rightarrow> ('s, 'c, 'x) timeout
     \<Rightarrow> ('s, 'c, 'x) pacemaker \<Rightarrow> ('s, 'c, 'x) safety \<Rightarrow> ('s, 'c, 'x) pacemaker_command list \<Rightarrow> bool" where
  "remote_timeout_ok E valid pm em vals vm saf n t pm' saf' cmds \<longleftrightarrow>
     (if tm_round (to_tminfo t) < rc_round (pm_high_certificate pm) + 1 \<or> n \<in> set (pm_invalid_timeout_senders pm)
      then pm' = pm \<and> saf' = saf \<and> cmds = []
      else
        (let p = bt_insert n t (pm_pending_timeouts pm);
             pm1 = pm\<lparr>pm_pending_timeouts := p\<rparr>
         in if pm_phase pm = PhaseZero \<and> total_stake vals < 3 * stake_of vals (fst ` set p)
            then \<exists>saf1 b cs. safety_timeout saf (rc_round (pm_high_certificate pm) + 1) = Some (saf1, b) \<and>
                   cmds = local_timeout_commands pm saf b @ cs \<and>
                   tc_loop_result E valid em vals vm (to_tminfo t) (pm1\<lparr>pm_phase := PhaseOne\<rparr>) saf1 pm' saf' cs
            else tc_loop_result E valid em vals vm (to_tminfo t) pm1 saf pm' saf' cmds))"

lemma local_timeout_commands_exact:
  assumes "can_time_out pm saf" "timers_ok pm"
  shows "\<exists>saf' b. safety_timeout saf (rc_round (pm_high_certificate pm) + 1) = Some (saf', b) \<and>
    local_timeout_round (pm\<lparr>pm_pending_timeouts := p\<rparr>) saf = Some (saf', local_timeout_commands pm saf b)"
proof -
  let ?pi = "pm\<lparr>pm_pending_timeouts := p\<rparr>"
  have "can_time_out ?pi saf" "timers_ok ?pi" using assms by (simp_all add: can_time_out_def timers_ok_def)
  from local_timeout_round_exact[OF this] show ?thesis
    by (cases "maybe_high_tip saf")
       (auto simp: local_timeout_commands_def local_tminfo_def local_high_extend_def round_timer_def)
qed

lemma tc_loop_stored:
  assumes "sct_laws E valid" "env_order_ok E" "vs_valid vals" "vs_small vals" "bt_wf vm"
    and "bt_wf p" "set (bt_keys p) \<subseteq> dom (bt_get vm)" "tm_round info = rc_round (pm_high_certificate pm) + 1"
    and "tm_round info < u64_max" "get_epoch em (tm_round info + 1) \<noteq> None" "timers_ok pm"
    and "q = pm\<lparr>pm_pending_timeouts := p\<rparr> \<or> q = pm\<lparr>pm_pending_timeouts := p, pm_phase := PhaseOne\<rparr>"
  shows "\<exists>pm' saf' cs. tc_loop E em vals vm info q s (bt_keys p) cmds = Some (pm', saf', cmds @ cs) \<and>
           tc_loop_result E valid em vals vm info q s pm' saf' cs"
proof -
  have "pm_pending_timeouts q = p" "pm_high_certificate q = pm_high_certificate pm" "timers_ok q"
    using assms(11,12) by (auto simp: timers_ok_def)
  then show ?thesis using tc_loop_correct[OF assms(1-5), of q info em s cmds] assms(6-10) by auto
qed

lemma process_remote_timeout_correct:
  assumes "sct_laws E valid" "env_order_ok E" "vs_valid vals" "vs_small vals" "bt_wf vm" "pm_wf vm pm"
    and "n \<in> dom (bt_get vm)" "tm_round (to_tminfo t) \<le> rc_round (pm_high_certificate pm) + 1"
    and "can_time_out pm saf" "rc_round (pm_high_certificate pm) + 1 < u64_max"
    and "get_epoch em (rc_round (pm_high_certificate pm) + 2) \<noteq> None"
  shows "\<exists>pm' saf' cmds. process_remote_timeout E pm em vals vm saf n t = Some (pm', saf', cmds) \<and>
           remote_timeout_ok E valid pm em vals vm saf n t pm' saf' cmds"
proof -
  let ?r = "rc_round (pm_high_certificate pm) + 1"
  have cur: "get_current_round pm = Some ?r" using assms(10) by simp
  show ?thesis
  proof (cases "tm_round (to_tminfo t) < ?r \<or> n \<in> set (pm_invalid_timeout_senders pm)")
    case True
    then have "process_remote_timeout E pm em vals vm saf n t = Some (pm, saf, [])"
      using assms(8) by (auto simp: process_remote_timeout_def cur Let_def)
    then show ?thesis using True by (simp add: remote_timeout_ok_def)
  next
    case False
    then have r: "tm_round (to_tminfo t) = ?r" and ni: "n \<notin> set (pm_invalid_timeout_senders pm)"
      using assms(8) by auto
    let ?p = "bt_insert n t (pm_pending_timeouts pm)"
    let ?h = "pm_phase pm = PhaseZero \<and> total_stake vals < 3 * stake_of vals (fst ` set ?p)"
    let ?pi = "pm\<lparr>pm_pending_timeouts := ?p\<rparr>"
    have p: "bt_wf ?p" "set (bt_keys ?p) \<subseteq> dom (bt_get vm)" "timers_ok pm"
      using assms(6,7) by (auto simp: pm_wf_def bt_keys_def)
    have hv: "has_honest_vote vals (bt_keys ?p) = Some (Inr (total_stake vals < 3 * stake_of vals (fst ` set ?p)))"
      using has_honest_vote_iff[OF assms(3) distinct_bt_keys[OF p(1)]] by (simp add: bt_keys_def)
    obtain saf1 b where st: "safety_timeout saf ?r = Some (saf1, b)"
      and lt: "local_timeout_round ?pi saf = Some (saf1, local_timeout_commands pm saf b)"
      using local_timeout_commands_exact[OF assms(9) p(3)] by blast
    have "tm_round (to_tminfo t) < u64_max" "get_epoch em (tm_round (to_tminfo t) + 1) \<noteq> None"
      using assms(10,11) r by simp_all
    note loop = tc_loop_stored[OF assms(1-5) p(1,2) r this p(3)]
    show ?thesis
    proof (cases ?h)
      case True
      obtain pm' saf' cs where
        l: "tc_loop E em vals vm (to_tminfo t) (?pi\<lparr>pm_phase := PhaseOne\<rparr>) saf1 (bt_keys ?p) (local_timeout_commands pm saf b) =
              Some (pm', saf', local_timeout_commands pm saf b @ cs)"
        "tc_loop_result E valid em vals vm (to_tminfo t) (?pi\<lparr>pm_phase := PhaseOne\<rparr>) saf1 pm' saf' cs"
        using loop by blast
      have "process_remote_timeout E pm em vals vm saf n t = Some (pm', saf', local_timeout_commands pm saf b @ cs)"
        using ni True l(1) by (auto simp: process_remote_timeout_def cur r hv lt Let_def)
      moreover have "remote_timeout_ok E valid pm em vals vm saf n t pm' saf' (local_timeout_commands pm saf b @ cs)"
        using False True st l(2) by (auto simp: remote_timeout_ok_def Let_def)
      ultimately show ?thesis by blast
    next
      case nh: False
      obtain pm' saf' cs where
        l: "tc_loop E em vals vm (to_tminfo t) ?pi saf (bt_keys ?p) [] = Some (pm', saf', [] @ cs)"
        "tc_loop_result E valid em vals vm (to_tminfo t) ?pi saf pm' saf' cs"
        using loop by blast
      have "process_remote_timeout E pm em vals vm saf n t = Some (pm', saf', cs)"
        using ni nh l(1) by (cases "pm_phase pm") (auto simp: process_remote_timeout_def cur r hv Let_def)
      moreover have "remote_timeout_ok E valid pm em vals vm saf n t pm' saf' cs"
        unfolding remote_timeout_ok_def Let_def if_not_P[OF False] if_not_P[OF nh] by (rule l(2))
      ultimately show ?thesis by blast
    qed
  qed
qed

section \<open>Sequences of certificates\<close>

text \<open>
  The certificates the node learns of, one after another, and the commands the pacemaker issues for them.
  \<open>new_highs r cs\<close> are those of \<open>cs\<close> that are of a later round than \<open>r\<close> and every certificate before them.
\<close>

fun process_certificates ::
  "epoch_manager \<Rightarrow> ('s, 'c, 'x) round_certificate list \<Rightarrow> ('s, 'c, 'x) pacemaker \<Rightarrow> ('s, 'c, 'x) safety
     \<Rightarrow> (('s, 'c, 'x) pacemaker \<times> ('s, 'c, 'x) safety \<times> ('s, 'c, 'x) pacemaker_command list) option" where
  "process_certificates em [] pm saf = Some (pm, saf, [])"
| "process_certificates em (c # cs) pm saf = do {
     (pm, saf, cmds) \<leftarrow> pm_process_certificate pm em saf c;
     (pm, saf, cmds') \<leftarrow> process_certificates em cs pm saf;
     Some (pm, saf, cmds @ cmds')
   }"

fun new_highs :: "round \<Rightarrow> ('s, 'c, 'x) round_certificate list \<Rightarrow> ('s, 'c, 'x) round_certificate list" where
  "new_highs r [] = []"
| "new_highs r (c # cs) = (if rc_round c \<le> r then new_highs r cs else c # new_highs (rc_round c) cs)"

definition entered ::
  "epoch_manager \<Rightarrow> ('s, 'c, 'x) pacemaker \<Rightarrow> ('s, 'c, 'x) round_certificate list \<Rightarrow> ('s, 'c, 'x) pacemaker" where
  "entered em pm hs =
     (if hs = [] then pm
      else pm\<lparr>pm_high_certificate := last hs, pm_current_epoch := the (get_epoch em (rc_round (last hs) + 1)),
              pm_phase := PhaseZero, pm_pending_timeouts := [], pm_invalid_timeout_senders := []\<rparr>)"

lemma new_highs_climb: "sorted_wrt (<) (r # map rc_round (new_highs r cs))"
  by (induction r cs rule: new_highs.induct) (auto simp: not_le intro: less_trans)

lemma new_highs_max: "rc_round (last (c # new_highs (rc_round c) cs)) = Max (insert (rc_round c) (rc_round ` set cs))"
proof (induction cs arbitrary: c)
  case (Cons d cs)
  show ?case
  proof (cases "rc_round d \<le> rc_round c")
    case True
    then have "Max (insert (rc_round c) (rc_round ` set (d # cs))) = Max (insert (rc_round c) (rc_round ` set cs))"
      by (simp add: insert_commute[of "rc_round c"] Max_insert2[symmetric] max.absorb2 Max_ge_iff)
    then show ?thesis using True Cons.IH[of c] by simp
  next
    case False
    let ?M = "Max (insert (rc_round d) (rc_round ` set cs))"
    have "rc_round d \<le> ?M" by (rule Max_ge) auto
    then have "rc_round c \<le> ?M" using False by linarith
    then have "Max (insert (rc_round c) (rc_round ` set (d # cs))) = ?M" by (simp add: max_absorb2 del: Max_insert2)
    then show ?thesis using False Cons.IH[of d] by simp
  qed
qed simp

lemma process_certificates_exact:
  assumes "timers_ok pm" "\<forall>c\<in>set cs. rc_round c < u64_max \<and> get_epoch em (rc_round c + 1) \<noteq> None"
  shows "process_certificates em cs pm saf =
    (let hs = new_highs (rc_round (pm_high_certificate pm)) cs
     in Some (entered em pm hs, foldl safety_process_certificate saf hs,
              concat (map (\<lambda>c. enter_commands pm (the (get_epoch em (rc_round c + 1))) c) hs)))"
  using assms
proof (induction cs arbitrary: pm saf)
  case (Cons c cs)
  show ?case
  proof (cases "rc_round c \<le> rc_round (pm_high_certificate pm)")
    case True
    then show ?thesis using Cons.IH[OF Cons.prems(1), of saf] Cons.prems(2) by (simp add: pm_process_certificate_stale Let_def)
  next
    case False
    obtain e where e: "get_epoch em (rc_round c + 1) = Some e" using Cons.prems(2) by auto
    let ?pm = "pm\<lparr>pm_high_certificate := c, pm_current_epoch := e, pm_phase := PhaseZero,
                 pm_pending_timeouts := [], pm_invalid_timeout_senders := []\<rparr>"
    have t: "timers_ok ?pm" using Cons.prems(1) by (simp add: timers_ok_def)
    have "enter_commands ?pm = enter_commands pm" by (simp add: enter_commands_def round_timer_def fun_eq_iff)
    then show ?thesis
      using False e Cons.IH[OF t] Cons.prems pm_process_certificate_advance[OF _ _ e Cons.prems(1)]
      by (auto simp: Let_def entered_def)
  qed
qed (simp add: entered_def)

section \<open>Properties\<close>

text \<open>
  C16: the current round only moves forward, and every round is entered once.  Whatever certificates
  arrive and in whatever order, with epochs known for their rounds, processing them one after another
  returns; the pacemaker ends in the round after the highest of them all; the rounds entered are
  strictly increasing, one for each certificate that is newer than everything before it, and each is
  announced by one \<open>EnterRound\<close> command and one \<open>Schedule\<close> of the round timer, three times the network
  delay plus the vote pace of the entered round plus the local processing time.  The other certificates
  leave no trace: the final state is the old one with the last such certificate as
  high certificate, its epoch, and the timeout state cleared, and the safety state saw only those.
\<close>
theorem process_certificates_advance_round:
  assumes "timers_ok pm" "\<forall>c\<in>set cs. rc_round c < u64_max \<and> get_epoch em (rc_round c + 1) \<noteq> None"
    and "hs = new_highs (rc_round (pm_high_certificate pm)) cs"
  shows "\<exists>pm' saf' cmds. process_certificates em cs pm saf = Some (pm', saf', cmds) \<and>
    rc_round (pm_high_certificate pm') = Max (insert (rc_round (pm_high_certificate pm)) (rc_round ` set cs)) \<and>
    sorted_wrt (<) (rc_round (pm_high_certificate pm) # map rc_round hs) \<and>
    cmds = concat (map (\<lambda>c.
      [PcEnterRound (the (get_epoch em (rc_round c + 1))) (rc_round c + 1) c,
       PcSchedule (rc_round c + 1) (3 * pm_delta pm + pm_vote_pace pm (rc_round c + 1) + pm_local_processing pm)]) hs) \<and>
    saf' = foldl safety_process_certificate saf hs \<and>
    (if hs = [] then pm' = pm
     else pm' = pm\<lparr>pm_high_certificate := last hs, pm_current_epoch := the (get_epoch em (rc_round (last hs) + 1)),
                   pm_phase := PhaseZero, pm_pending_timeouts := [], pm_invalid_timeout_senders := []\<rparr>)"
proof -
  have "rc_round (pm_high_certificate (entered em pm hs)) = rc_round (last (pm_high_certificate pm # hs))"
    by (simp add: entered_def)
  then show ?thesis
    using process_certificates_exact[OF assms(1,2), of saf] new_highs_max[of "pm_high_certificate pm" cs]
      new_highs_climb[of "rc_round (pm_high_certificate pm)" cs]
    unfolding assms(3)
    by (simp add: Let_def entered_def enter_commands_def round_timer_def mult.commute)
qed

definition example_pm :: "(nop_signature, nop_signature multi_sig, unit) pacemaker" where
  "example_pm =
     \<lparr>pm_delta = 100, pm_vote_pace = (\<lambda>_. 50), pm_local_processing = 10, pm_current_epoch = 1,
      pm_high_certificate = RcQc (example_qc\<lparr>qc_info := \<lparr>vote_id = 5, vote_round = 3, vote_epoch = 1\<rparr>\<rparr>),
      pm_pending_timeouts = [(1, example_timeout 1), (2, example_timeout 2)],
      pm_invalid_timeout_senders = [], pm_phase = PhaseOne\<rparr>"

definition example_rc :: "round \<Rightarrow> (nop_signature, nop_signature multi_sig, unit) round_certificate" where
  "example_rc r = RcQc (example_qc\<lparr>qc_info := \<lparr>vote_id = r, vote_round = r, vote_epoch = 1\<rparr>\<rparr>)"

theorem process_certificates_advance_round_witness:
  "\<exists>pm' saf'. process_certificates example_em [example_rc 2, example_rc 5, example_rc 4, example_rc 17] example_pm safety_default =
       Some (pm', saf', [PcEnterRound 1 6 (example_rc 5), PcSchedule 6 360, PcEnterRound 2 18 (example_rc 17), PcSchedule 18 360]) \<and>
     rc_round (pm_high_certificate pm') = 17 \<and> pm_current_epoch pm' = 2 \<and> pm_pending_timeouts pm' = []"
proof -
  let ?cs = "[example_rc 2, example_rc 5, example_rc 4, example_rc 17]"
  have r: "rc_round (example_rc k) = k" for k by (simp add: example_rc_def get_round_def)
  have p: "rc_round (pm_high_certificate example_pm) = 3" by (simp add: example_pm_def get_round_def)
  have t: "timers_ok example_pm" by (simp add: timers_ok_def example_pm_def duration_max_def)
  have e: "get_epoch example_em 3 = Some 1" "get_epoch example_em 5 = Some 1" "get_epoch example_em 6 = Some 1"
    "get_epoch example_em 18 = Some 2" by (simp_all add: get_epoch_def example_em_def)
  have c: "\<forall>c\<in>set ?cs. rc_round c < u64_max \<and> get_epoch example_em (rc_round c + 1) \<noteq> None"
    using e by (simp add: r u64_max_def)
  have h: "[example_rc 5, example_rc 17] = new_highs (rc_round (pm_high_certificate example_pm)) ?cs"
    by (simp add: r p)
  show ?thesis
    using process_certificates_advance_round[OF t c h, of safety_default] e by (auto simp: r p) (auto simp: example_pm_def)
qed

text \<open>
  C14: handling a remote timeout returns, and does what the round needs.  For a signature collection that
  satisfies its contract and a node that can time out its current round, \<open>process_remote_timeout\<close> never
  panics and its loop ends.  A stale timeout or one of a barred sender changes nothing.  Otherwise the
  timeout is stored, and when more than a third of the stake has timed out a node still in phase zero joins:
  it locks its vote, goes to phase one and sends exactly the commands of a local timeout, its timeout message
  included.  Then either a timeout certificate is built over stored timeouts of a super majority, every
  correctly signed one among them, whose signatures verify with exactly their senders as signers if certificate keys
  are distinct (\<open>vm_inj\<close>), and the next round is entered with its timer; or no certificate is built, no command issued, every correctly signed
  timeout kept, every dropped one's sender barred and nobody else, and in phase one the senders that
  are left are no super majority.
\<close>
theorem process_remote_timeout_total_and_correct:
  assumes "sct_laws E valid" "env_order_ok E" "vs_valid vals" "vs_small vals" "bt_wf vm" "pm_wf vm pm"
    and "n \<in> dom (bt_get vm)" "tm_round (to_tminfo t) \<le> rc_round (pm_high_certificate pm) + 1"
    and "can_time_out pm saf" "rc_round (pm_high_certificate pm) + 1 < u64_max"
    and "get_epoch em (rc_round (pm_high_certificate pm) + 2) \<noteq> None"
  shows "\<exists>pm' saf' cmds. process_remote_timeout E pm em vals vm saf n t = Some (pm', saf', cmds) \<and>
           remote_timeout_ok E valid pm em vals vm saf n t pm' saf' cmds"
  using assms by (rule process_remote_timeout_correct)

theorem process_remote_timeout_total_and_correct_witness:
  "\<exists>pm' saf' cmds. process_remote_timeout example_env example_pm example_em example_vs example_vm
       safety_default 3 (example_timeout 3) = Some (pm', saf', cmds) \<and>
     remote_timeout_ok example_env (ms_valid (nop_ops example_hash)) example_pm example_em example_vs example_vm
       safety_default 3 (example_timeout 3) pm' saf' cmds"
  by (rule process_remote_timeout_total_and_correct[OF example_env_laws example_env_order_ok example_vs_ok])
     (simp_all add: pm_wf_def bt_wf_def bt_keys_def example_vm_def dom_def example_pm_def example_timeout_def
        timeout_new_def timers_ok_def duration_max_def can_time_out_def safety_default_def
        GENESIS_ROUND_def get_round_def example_qc_def u64_max_def get_epoch_def example_em_def)

end
