(* ===== verification/Messages.thy ===== *)
theory Messages
  imports Vote_State No_Endorsement_State Pacemaker
begin

text \<open>
  The messages of \<^verbatim>\<open>monad-consensus/src/messages\<close>: the protocol messages, the round each belongs to, the
  filter that drops outdated ones before any signature is checked, and the signed envelope of
  \<^verbatim>\<open>monad-consensus/src/validation/signing.rs\<close>.

  The record \<open>wire\<close> collects the RLP encodings of the larger messages, the syntactic check of a
  signature and the public key of a key pair; all of them are only called.
\<close>

record root_info =
  ri_round :: round
  ri_seq_num :: seq_num
  ri_epoch :: epoch
  ri_block_id :: block_id
  ri_timestamp_ns :: nat

record 'x consensus_block_body =
  execution_body :: 'x

record ('s, 'c, 'x) proposal_message =
  proposal_round :: round
  proposal_epoch :: epoch
  prop_tip :: "('s, 'c, 'x) consensus_tip"
  prop_block_body :: "'x consensus_block_body"
  prop_last_round_tc :: "('s, 'c, 'x) timeout_certificate option"

record ('s, 'c, 'x) advance_round_message =
  ar_last_round_certificate :: "('s, 'c, 'x) round_certificate"

record ('s, 'c, 'x) round_recovery_message =
  rr_round :: round
  rr_epoch :: epoch
  rr_tc :: "('s, 'c, 'x) timeout_certificate"

datatype ('s, 'c, 'x) protocol_message =
    MsgProposal "('s, 'c, 'x) proposal_message"
  | MsgVote "'s vote_message"
  | MsgTimeout "('s, 'c, 'x) timeout"
  | MsgRoundRecovery "('s, 'c, 'x) round_recovery_message"
  | MsgNoEndorsement "'s no_endorsement_message"
  | MsgAdvanceRound "('s, 'c, 'x) advance_round_message"

record ('s, 'c, 'x) consensus_message =
  cm_version :: nat
  cm_message :: "('s, 'c, 'x) protocol_message"

record ('s, 'm) unverified =
  unv_obj :: 'm
  unv_author_signature :: 's

record ('s, 'm) verified =
  ver_author :: node_id
  ver_message :: "('s, 'm) unverified"

record ('s, 'c, 'x) wire =
  rlp_body :: "'x consensus_block_body \<Rightarrow> bytes"
  rlp_qc :: "'c quorum_certificate \<Rightarrow> bytes"
  rlp_tc :: "('s, 'c, 'x) timeout_certificate \<Rightarrow> bytes"
  rlp_nec :: "'c no_endorsement_certificate \<Rightarrow> bytes"
  rlp_consensus_message :: "('s, 'c, 'x) consensus_message \<Rightarrow> bytes"
  sig_validate :: "'s \<Rightarrow> bool"
  st_pubkey :: "keypair \<Rightarrow> node_id"

definition body_get_id :: "('s, 'c, 'x) env \<Rightarrow> ('s, 'c, 'x) wire \<Rightarrow> 'x consensus_block_body \<Rightarrow> body_id" where
  "body_get_id E W b = hasher E (rlp_body W b)"

fun message_get_round :: "('s, 'c, 'x) protocol_message \<Rightarrow> round" where
  "message_get_round (MsgProposal p) = proposal_round p"
| "message_get_round (MsgVote v) = vote_round (vmsg_vote v)"
| "message_get_round (MsgTimeout t) = tm_round (to_tminfo t)"
| "message_get_round (MsgRoundRecovery r) = rr_round r"
| "message_get_round (MsgNoEndorsement n) = ne_round (nem_msg n)"
| "message_get_round (MsgAdvanceRound n) = rc_round (ar_last_round_certificate n)"

datatype prefilter_error =
    OutdatedProposal
  | OutdatedVote
  | OutdatedTimeout
  | OutdatedRoundRecovery
  | OutdatedNoEndorsement
  | OutdatedAdvanceRoundQc
  | OutdatedAdvanceRoundTc

fun prefilter :: "('s, 'c, 'x) protocol_message \<Rightarrow> root_info option \<Rightarrow> round \<Rightarrow> prefilter_error + unit" where
  "prefilter (MsgProposal p) root current_round =
     (case root of
        Some ri \<Rightarrow> if proposal_round p \<le> ri_round ri then Inl OutdatedProposal else Inr ()
      | None \<Rightarrow> Inr ())"
| "prefilter (MsgVote v) root current_round =
     (if vote_round (vmsg_vote v) < current_round then Inl OutdatedVote else Inr ())"
| "prefilter (MsgTimeout t) root current_round =
     (if tm_round (to_tminfo t) < current_round then Inl OutdatedTimeout else Inr ())"
| "prefilter (MsgRoundRecovery r) root current_round =
     (if rr_round r < current_round then Inl OutdatedRoundRecovery else Inr ())"
| "prefilter (MsgNoEndorsement n) root current_round =
     (if ne_round (nem_msg n) < current_round then Inl OutdatedNoEndorsement else Inr ())"
| "prefilter (MsgAdvanceRound m) root current_round =
     (if rc_round (ar_last_round_certificate m) < current_round then
        (case ar_last_round_certificate m of
           RcQc _ \<Rightarrow> Inl OutdatedAdvanceRoundQc
         | RcTc _ \<Rightarrow> Inl OutdatedAdvanceRoundTc)
      else Inr ())"

definition is_proposal :: "('s, ('s, 'c, 'x) consensus_message) unverified \<Rightarrow> bool" where
  "is_proposal u = (case cm_message (unv_obj u) of MsgProposal _ \<Rightarrow> True | _ \<Rightarrow> False)"

definition consensus_message_sign ::
  "('s, 'c, 'x) env \<Rightarrow> ('s, 'c, 'x) wire \<Rightarrow> ('s, 'c, 'x) consensus_message \<Rightarrow> keypair
     \<Rightarrow> ('s, ('s, 'c, 'x) consensus_message) verified" where
  "consensus_message_sign E W msg kp =
     \<lparr>ver_author = st_pubkey W kp,
      ver_message = \<lparr>unv_obj = msg,
                     unv_author_signature = st_sign E DomainConsensusMessage (rlp_consensus_message W msg) kp\<rparr>\<rparr>"

lemma prefilter_by_round:
  assumes "\<And>p. m \<noteq> MsgProposal p"
  shows "prefilter m root r = Inr () \<longleftrightarrow> r \<le> message_get_round m"
  using assms by (cases m) (auto split: round_certificate.splits)

end
