(* ===== verification/Validation.thy ===== *)
theory Validation
  imports Messages Epoch_Manager Leader_Election "HOL-Library.Countable"
begin

text \<open>
  Verification of incoming messages: \<^verbatim>\<open>monad-consensus/src/validation/signing.rs\<close> and
  \<^verbatim>\<open>certificate_cache.rs\<close>, with the errors of \<^verbatim>\<open>monad-consensus-types/src/validation.rs\<close>.

  Every check runs against a cache of certificates that were accepted before, and updates it
  even when a later check fails.  The type \<open>vm\<close> is that effect: a function from the cache to a
  result and the new cache, \<^term>\<open>None\<close> for a panic; \<open>v_then\<close> is the \<^verbatim>\<open>?\<close> operator there.  The LRU
  cache and the leader election are parameters.

  \<open>qc_ok\<close>, \<open>nec_ok\<close> and the inductive predicates \<open>tc_ok\<close>, \<open>he_ok\<close>, \<open>tip_ok\<close> say what a valid
  certificate is, without a cache.  The lemmas show that the checks accept only those.
\<close>

section \<open>Errors, the certificate cache and the effect of a check\<close>

datatype validation_error =
    InvalidAuthor
  | NotWellFormed
  | InvalidSignature
  | InvalidTcRound
  | DuplicateTcTipRound
  | EmptySignersTcTipRound
  | TooManyTcTipRound
  | InsufficientStake
  | ValidatorSetDataUnavailable
  | SignaturesDuplicateNode
  | InvalidVote
  | InvalidVersion
  | InvalidEpoch

record 'l lru_ops =
  lru_new :: "nat \<Rightarrow> 'l"
  lru_put :: "bytes \<Rightarrow> 'l \<Rightarrow> 'l"
  lru_contains :: "'l \<Rightarrow> bytes \<Rightarrow> bool"

record 'l certificate_cache =
  qc_lru :: 'l
  tc_lru :: 'l
  nec_lru :: 'l

definition QC_CACHE_CAPACITY :: nat where
  "QC_CACHE_CAPACITY = 1000"

definition TC_CACHE_CAPACITY :: nat where
  "TC_CACHE_CAPACITY = 1000"

definition NEC_CACHE_CAPACITY :: nat where
  "NEC_CACHE_CAPACITY = 1000"

definition certificate_cache_default :: "'l lru_ops \<Rightarrow> 'l certificate_cache" where
  "certificate_cache_default L =
     \<lparr>qc_lru = lru_new L QC_CACHE_CAPACITY, tc_lru = lru_new L TC_CACHE_CAPACITY,
      nec_lru = lru_new L NEC_CACHE_CAPACITY\<rparr>"

definition cache_validated_qc ::
  "('s, 'c, 'x) wire \<Rightarrow> 'l lru_ops \<Rightarrow> 'l certificate_cache \<Rightarrow> 'c quorum_certificate \<Rightarrow> 'l certificate_cache" where
  "cache_validated_qc W L C qc = C\<lparr>qc_lru := lru_put L (rlp_qc W qc) (qc_lru C)\<rparr>"

definition qc_is_cached_validated ::
  "('s, 'c, 'x) wire \<Rightarrow> 'l lru_ops \<Rightarrow> 'l certificate_cache \<Rightarrow> 'c quorum_certificate \<Rightarrow> bool" where
  "qc_is_cached_validated W L C qc = lru_contains L (qc_lru C) (rlp_qc W qc)"

definition cache_validated_tc ::
  "('s, 'c, 'x) wire \<Rightarrow> 'l lru_ops \<Rightarrow> 'l certificate_cache \<Rightarrow> ('s, 'c, 'x) timeout_certificate
     \<Rightarrow> 'l certificate_cache" where
  "cache_validated_tc W L C tc = C\<lparr>tc_lru := lru_put L (rlp_tc W tc) (tc_lru C)\<rparr>"

definition tc_is_cached_validated ::
  "('s, 'c, 'x) wire \<Rightarrow> 'l lru_ops \<Rightarrow> 'l certificate_cache \<Rightarrow> ('s, 'c, 'x) timeout_certificate \<Rightarrow> bool" where
  "tc_is_cached_validated W L C tc = lru_contains L (tc_lru C) (rlp_tc W tc)"

definition cache_validated_nec ::
  "('s, 'c, 'x) wire \<Rightarrow> 'l lru_ops \<Rightarrow> 'l certificate_cache \<Rightarrow> 'c no_endorsement_certificate
     \<Rightarrow> 'l certificate_cache" where
  "cache_validated_nec W L C nec = C\<lparr>nec_lru := lru_put L (rlp_nec W nec) (nec_lru C)\<rparr>"

definition nec_is_cached_validated ::
  "('s, 'c, 'x) wire \<Rightarrow> 'l lru_ops \<Rightarrow> 'l certificate_cache \<Rightarrow> 'c no_endorsement_certificate \<Rightarrow> bool" where
  "nec_is_cached_validated W L C nec = lru_contains L (nec_lru C) (rlp_nec W nec)"

type_synonym 'a checked = "(validation_error + 'a) option"
type_synonym ('l, 'a) vm = "'l certificate_cache \<Rightarrow> ((validation_error + 'a) \<times> 'l certificate_cache) option"

definition v_lift :: "'a checked \<Rightarrow> ('l, 'a) vm" where
  "v_lift m C = map_option (\<lambda>r. (r, C)) m"

definition v_then :: "('l, 'a) vm \<Rightarrow> ('a \<Rightarrow> ('l, 'b) vm) \<Rightarrow> ('l, 'b) vm" where
  "v_then m f C =
     (case m C of
        None \<Rightarrow> None
      | Some (Inl e, C') \<Rightarrow> Some (Inl e, C')
      | Some (Inr a, C') \<Rightarrow> f a C')"

definition v_modify :: "('l certificate_cache \<Rightarrow> 'l certificate_cache) \<Rightarrow> ('l, unit) vm" where
  "v_modify g C = Some (Inr (), g C)"

definition v_if :: "('l certificate_cache \<Rightarrow> bool) \<Rightarrow> ('l, 'a) vm \<Rightarrow> ('l, 'a) vm \<Rightarrow> ('l, 'a) vm" where
  "v_if P m n C = (if P C then m C else n C)"

section \<open>Certificates\<close>

type_synonym validator_info = "validator_set \<times> validator_mapping \<times> node_id"

definition epoch_to_validators ::
  "epoch_manager \<Rightarrow> validators_epoch_mapping \<Rightarrow> (round \<Rightarrow> (node_id, stake) btree_map \<Rightarrow> node_id option)
     \<Rightarrow> epoch \<Rightarrow> round \<Rightarrow> validator_info checked" where
  "epoch_to_validators em vem get_leader ep r =
     try_bind (ok_or InvalidEpoch (get_epoch em r)) (\<lambda>local_epoch.
     try_bind (ensure (ep = local_epoch) InvalidEpoch) (\<lambda>_.
     try_bind (ok_or ValidatorSetDataUnavailable (get_val_set vem ep)) (\<lambda>validator_set.
     try_bind (ok_or ValidatorSetDataUnavailable (get_cert_pubkeys vem ep)) (\<lambda>validator_cert_pubkeys.
     try_bind (no_err (get_leader r (validators validator_set))) (\<lambda>leader.
       ok (validator_set, validator_cert_pubkeys, leader))))))"

definition check_super_majority :: "validator_set \<Rightarrow> node_id list \<Rightarrow> unit checked" where
  "check_super_majority vs node_ids =
     (case has_super_majority_votes vs node_ids of
        None \<Rightarrow> None
      | Some (Inl (DuplicateValidator _)) \<Rightarrow> err SignaturesDuplicateNode
      | Some (Inr False) \<Rightarrow> err InsufficientStake
      | Some (Inr True) \<Rightarrow> ok ())"

definition check_signatures ::
  "('s, 'c, 'x) env \<Rightarrow> signing_domain \<Rightarrow> 'c \<Rightarrow> validator_mapping \<Rightarrow> bytes \<Rightarrow> node_id list checked" where
  "check_signatures E d sigs vm msg =
     (case sct_verify E d sigs vm msg of Inl _ \<Rightarrow> err InvalidSignature | Inr node_ids \<Rightarrow> ok node_ids)"

definition verify_qc ::
  "('s, 'c, 'x) env \<Rightarrow> ('s, 'c, 'x) wire \<Rightarrow> 'l lru_ops \<Rightarrow> (epoch \<Rightarrow> round \<Rightarrow> validator_info checked)
     \<Rightarrow> 'c quorum_certificate \<Rightarrow> ('l, unit) vm" where
  "verify_qc E W L etv qc =
     v_if (\<lambda>C. qc_is_cached_validated W L C qc) (v_lift (ok ()))
     (v_then (v_lift (etv (get_epoch_of_qc qc) (get_round qc))) (\<lambda>(vs, vmap, _).
      if get_round qc = GENESIS_ROUND then
        v_then (v_lift (no_err (genesis_qc E))) (\<lambda>genesis. v_lift (ensure (qc = genesis) InvalidSignature))
      else
        v_then (v_lift (check_signatures E DomainVote (qc_signatures qc) vmap (rlp_vote E (qc_info qc))))
          (\<lambda>node_ids.
        v_then (v_lift (check_super_majority vs node_ids)) (\<lambda>_.
          v_modify (\<lambda>C. cache_validated_qc W L C qc)))))"

definition verify_nec ::
  "('s, 'c, 'x) env \<Rightarrow> ('s, 'c, 'x) wire \<Rightarrow> 'l lru_ops \<Rightarrow> (epoch \<Rightarrow> round \<Rightarrow> validator_info checked)
     \<Rightarrow> 'c no_endorsement_certificate \<Rightarrow> ('l, unit) vm" where
  "verify_nec E W L etv nec =
     v_if (\<lambda>C. nec_is_cached_validated W L C nec) (v_lift (ok ()))
     (v_then (v_lift (etv (ne_epoch (nec_msg nec)) (ne_round (nec_msg nec)))) (\<lambda>(vs, vmap, _).
      v_then (v_lift (check_signatures E DomainNoEndorsement (nec_signatures nec) vmap
                        (rlp_no_endorsement E (nec_msg nec)))) (\<lambda>node_ids.
      v_then (v_lift (check_super_majority vs node_ids)) (\<lambda>_.
        v_modify (\<lambda>C. cache_validated_nec W L C nec)))))"

record tc_scan =
  scan_node_ids :: "node_id list"
  scan_highest_rank :: high_extend_rank
  scan_seen_tip_rounds :: "(round \<times> round) list"
  scan_seen_node_ids :: "node_id list"

definition tc_scan_start :: tc_scan where
  "tc_scan_start = \<lparr>scan_node_ids = [], scan_highest_rank = RankQc GENESIS_ROUND,
                    scan_seen_tip_rounds = [], scan_seen_node_ids = []\<rparr>"

fun add_signers :: "node_id list \<Rightarrow> node_id list \<Rightarrow> node_id list checked" where
  "add_signers [] seen = ok seen"
| "add_signers (signer # rest) seen =
     (if signer \<in> set seen then err SignaturesDuplicateNode else add_signers rest (signer # seen))"

fun tc_scan_loop ::
  "('s, 'c, 'x) env \<Rightarrow> ('s, 'c, 'x) timeout_certificate \<Rightarrow> validator_mapping
     \<Rightarrow> 'c high_tip_round_sigcol_tuple list \<Rightarrow> tc_scan \<Rightarrow> tc_scan checked" where
  "tc_scan_loop E tc vmap [] a = ok a"
| "tc_scan_loop E tc vmap (t # rest) a =
     try_bind (ensure (\<not> ht_high_qc_round t \<ge> tc_round tc) InvalidTcRound) (\<lambda>_.
     try_bind (ensure ((ht_high_qc_round t, ht_high_tip_round t) \<notin> set (scan_seen_tip_rounds a))
                 DuplicateTcTipRound) (\<lambda>_.
     try_bind (ensure (num_signatures E (ht_sigs t) \<noteq> 0) EmptySignersTcTipRound) (\<lambda>_.
     try_bind (check_signatures E DomainTimeout (ht_sigs t) vmap
                 (rlp_timeout_info E \<lparr>tm_epoch = tc_epoch tc, tm_round = tc_round tc,
                    tm_high_qc_round = ht_high_qc_round t, tm_high_tip_round = ht_high_tip_round t\<rparr>))
        (\<lambda>signers.
     try_bind (add_signers signers (scan_seen_node_ids a)) (\<lambda>seen_node_ids.
       tc_scan_loop E tc vmap rest
         \<lparr>scan_node_ids = scan_node_ids a @ signers,
          scan_highest_rank =
            (if ht_rank t > scan_highest_rank a then ht_rank t else scan_highest_rank a),
          scan_seen_tip_rounds = (ht_high_qc_round t, ht_high_tip_round t) # scan_seen_tip_rounds a,
          scan_seen_node_ids = seen_node_ids\<rparr>)))))"

definition tip_form_ok :: "('s, 'c, 'x) consensus_tip \<Rightarrow> bool" where
  "tip_form_ok tip =
     (let h = tip_block_header tip in
      if immediately_follows (block_round h) (get_round (bh_qc h)) then tip_fresh_certificate tip = None
      else (case tip_fresh_certificate tip of
              None \<Rightarrow> False
            | Some (Nec nec) \<Rightarrow>
                ne_round (nec_msg nec) = block_round h \<and>
                ne_tip_qc_round (nec_msg nec) = get_round (bh_qc h)
            | Some (NoTip no_tip) \<Rightarrow>
                immediately_follows (block_round h) (nt_round no_tip) \<and>
                get_round (nt_high_qc no_tip) = get_round (bh_qc h)))"

definition tc_of_no_tip :: "'c no_tip_certificate \<Rightarrow> ('s, 'c, 'x) timeout_certificate" where
  "tc_of_no_tip no_tip =
     \<lparr>tc_epoch = nt_epoch no_tip, tc_round = nt_round no_tip, tc_tip_rounds = nt_tip_rounds no_tip,
      tc_high_extend = HeQc (nt_high_qc no_tip)\<rparr>"

fun he_depth :: "('s, 'c, 'x) high_extend \<Rightarrow> nat" where
  "he_depth (HeQc _) = 0"
| "he_depth (HeTip _) = 3"

function (sequential) verify_tc ::
  "('s, 'c, 'x) env \<Rightarrow> ('s, 'c, 'x) wire \<Rightarrow> 'l lru_ops \<Rightarrow> (epoch \<Rightarrow> round \<Rightarrow> validator_info checked)
     \<Rightarrow> ('s, 'c, 'x) timeout_certificate \<Rightarrow> ('l, unit) vm"
and verify_high_extend ::
  "('s, 'c, 'x) env \<Rightarrow> ('s, 'c, 'x) wire \<Rightarrow> 'l lru_ops \<Rightarrow> (epoch \<Rightarrow> round \<Rightarrow> validator_info checked)
     \<Rightarrow> ('s, 'c, 'x) high_extend \<Rightarrow> ('l, unit) vm"
and verify_tip ::
  "('s, 'c, 'x) env \<Rightarrow> ('s, 'c, 'x) wire \<Rightarrow> 'l lru_ops \<Rightarrow> (epoch \<Rightarrow> round \<Rightarrow> validator_info checked)
     \<Rightarrow> ('s, 'c, 'x) consensus_tip \<Rightarrow> ('l, unit) vm"
where
  "verify_tc E W L etv tc =
     v_if (\<lambda>C. tc_is_cached_validated W L C tc) (v_lift (ok ()))
     (v_then (v_lift (etv (tc_epoch tc) (tc_round tc))) (\<lambda>(vs, vmap, _).
      v_then (v_lift (ensure (\<not> length (tc_tip_rounds tc) > length (validators vs)) TooManyTcTipRound)) (\<lambda>_.
      v_then (v_lift (tc_scan_loop E tc vmap (tc_tip_rounds tc) tc_scan_start)) (\<lambda>scan.
      v_then (v_lift (check_super_majority vs (scan_node_ids scan))) (\<lambda>_.
      v_then (verify_high_extend E W L etv (tc_high_extend tc)) (\<lambda>_.
      v_then (v_lift (ensure (he_rank (tc_high_extend tc) = scan_highest_rank scan) NotWellFormed)) (\<lambda>_.
        v_modify (\<lambda>C. cache_validated_tc W L C tc))))))))"
| "verify_high_extend E W L etv (HeQc qc) = verify_qc E W L etv qc"
| "verify_high_extend E W L etv (HeTip tip) = verify_tip E W L etv tip"
| "verify_tip E W L etv tip =
     (let h = tip_block_header tip in
      v_then (v_lift (etv (bh_epoch h) (block_round h))) (\<lambda>(_, _, leader).
      v_then (v_lift (ok_or InvalidSignature (signature_author E tip))) (\<lambda>tip_author.
      v_then (v_lift (ensure (\<not> (tip_author \<noteq> leader \<or> tip_author \<noteq> author h)) InvalidAuthor)) (\<lambda>_.
      v_then (v_lift (ensure (tip_form_ok tip) NotWellFormed)) (\<lambda>_.
      v_then (verify_qc E W L etv (bh_qc h)) (\<lambda>_.
        case tip_fresh_certificate tip of
          Some (Nec nec) \<Rightarrow> verify_nec E W L etv nec
        | Some (NoTip no_tip) \<Rightarrow> verify_tc E W L etv (tc_of_no_tip no_tip)
        | None \<Rightarrow> v_lift (ok ())))))))"
  by pat_completeness auto
termination
  by (relation "measure (case_sum (\<lambda>(_, _, _, _, tc). he_depth (tc_high_extend tc) + 1)
        (case_sum (\<lambda>(_, _, _, _, he). he_depth he) (\<lambda>_. 2)))")
     (simp_all add: tc_of_no_tip_def)

section \<open>Messages\<close>

definition check_epoch :: "epoch_manager \<Rightarrow> round \<Rightarrow> epoch \<Rightarrow> unit checked" where
  "check_epoch em r ep =
     (case get_epoch em r of
        Some local_epoch \<Rightarrow> if ep = local_epoch then ok () else err InvalidEpoch
      | None \<Rightarrow> err InvalidEpoch)"

definition well_formed_proposal ::
  "('s, 'c, 'x) env \<Rightarrow> ('s, 'c, 'x) wire \<Rightarrow> ('s, 'c, 'x) proposal_message \<Rightarrow> unit checked" where
  "well_formed_proposal E W p =
     (let h = tip_block_header (prop_tip p) in
      if block_body_id h \<noteq> body_get_id E W (prop_block_body p) then err NotWellFormed
      else if immediately_follows (proposal_round p) (get_round (bh_qc h)) then
        (if prop_last_round_tc p \<noteq> None then err NotWellFormed else ok ())
      else (case prop_last_round_tc p of
              None \<Rightarrow> err NotWellFormed
            | Some tc \<Rightarrow>
                if \<not> immediately_follows (proposal_round p) (tc_round tc) then err NotWellFormed
                else (case tc_high_extend tc of
                        HeQc tc_qc \<Rightarrow>
                          if get_round tc_qc \<noteq> get_round (bh_qc h) then err NotWellFormed else ok ()
                      | HeTip tc_tip \<Rightarrow>
                          if tc_tip = prop_tip p then ok ()
                          else if proposal_round p \<noteq> block_round h then err NotWellFormed
                          else if get_round (bh_qc (tip_block_header tc_tip)) \<noteq> get_round (bh_qc h)
                          then err NotWellFormed else ok ())))"

definition proposal_validate ::
  "('s, 'c, 'x) env \<Rightarrow> ('s, 'c, 'x) wire \<Rightarrow> 'l lru_ops \<Rightarrow> epoch_manager
     \<Rightarrow> (epoch \<Rightarrow> round \<Rightarrow> validator_info checked) \<Rightarrow> ('s, 'c, 'x) proposal_message \<Rightarrow> ('l, unit) vm" where
  "proposal_validate E W L em etv p =
     v_then (v_lift (well_formed_proposal E W p)) (\<lambda>_.
     v_then (v_lift (check_epoch em (proposal_round p) (proposal_epoch p))) (\<lambda>_.
     v_then (verify_tip E W L etv (prop_tip p)) (\<lambda>_.
       case prop_last_round_tc p of
         Some tc \<Rightarrow> verify_tc E W L etv tc
       | None \<Rightarrow> v_lift (ok ()))))"

definition vote_validate :: "('s, 'c, 'x) wire \<Rightarrow> epoch_manager \<Rightarrow> 's vote_message \<Rightarrow> unit checked" where
  "vote_validate W em v =
     (if \<not> sig_validate W (vmsg_sig v) then err InvalidSignature
      else check_epoch em (vote_round (vmsg_vote v)) (vote_epoch (vmsg_vote v)))"

definition well_formed_timeout :: "('s, 'c, 'x) timeout \<Rightarrow> unit checked" where
  "well_formed_timeout t =
     (if hev_rank (to_high_extend t) \<noteq> tm_rank (to_tminfo t) then err NotWellFormed
      else if immediately_follows (tm_round (to_tminfo t)) (get_round (hev_qc (to_high_extend t))) then
        (if to_last_round_certificate t \<noteq> None then err NotWellFormed else ok ())
      else (case to_last_round_certificate t of
              None \<Rightarrow> err NotWellFormed
            | Some round_certificate \<Rightarrow>
                if \<not> immediately_follows (tm_round (to_tminfo t)) (rc_round round_certificate)
                then err NotWellFormed else ok ()))"

definition verify_round_certificate ::
  "('s, 'c, 'x) env \<Rightarrow> ('s, 'c, 'x) wire \<Rightarrow> 'l lru_ops \<Rightarrow> (epoch \<Rightarrow> round \<Rightarrow> validator_info checked)
     \<Rightarrow> ('s, 'c, 'x) round_certificate \<Rightarrow> ('l, unit) vm" where
  "verify_round_certificate E W L etv rc =
     (case rc of RcTc tc \<Rightarrow> verify_tc E W L etv tc | RcQc qc \<Rightarrow> verify_qc E W L etv qc)"

definition timeout_validate ::
  "('s, 'c, 'x) env \<Rightarrow> ('s, 'c, 'x) wire \<Rightarrow> 'l lru_ops \<Rightarrow> epoch_manager
     \<Rightarrow> (epoch \<Rightarrow> round \<Rightarrow> validator_info checked) \<Rightarrow> ('s, 'c, 'x) timeout \<Rightarrow> ('l, unit) vm" where
  "timeout_validate E W L em etv t =
     v_then (v_lift (ensure (sig_validate W (to_signature t)) InvalidSignature)) (\<lambda>_.
     v_then (v_lift (well_formed_timeout t)) (\<lambda>_.
     v_then (v_lift (check_epoch em (tm_round (to_tminfo t)) (tm_epoch (to_tminfo t)))) (\<lambda>_.
     v_then (case to_last_round_certificate t of
               Some round_certificate \<Rightarrow> verify_round_certificate E W L etv round_certificate
             | None \<Rightarrow> v_lift (ok ())) (\<lambda>_.
       verify_high_extend E W L etv (he_of_hev (to_high_extend t))))))"

definition well_formed_round_recovery :: "('s, 'c, 'x) round_recovery_message \<Rightarrow> unit checked" where
  "well_formed_round_recovery m =
     (if \<not> immediately_follows (rr_round m) (tc_round (rr_tc m)) then err InvalidTcRound
      else (case tc_high_extend (rr_tc m) of HeQc _ \<Rightarrow> err NotWellFormed | HeTip _ \<Rightarrow> ok ()))"

definition round_recovery_validate ::
  "('s, 'c, 'x) env \<Rightarrow> ('s, 'c, 'x) wire \<Rightarrow> 'l lru_ops \<Rightarrow> epoch_manager
     \<Rightarrow> (epoch \<Rightarrow> round \<Rightarrow> validator_info checked) \<Rightarrow> ('s, 'c, 'x) round_recovery_message \<Rightarrow> ('l, unit) vm" where
  "round_recovery_validate E W L em etv m =
     v_then (v_lift (well_formed_round_recovery m)) (\<lambda>_.
     v_then (v_lift (check_epoch em (rr_round m) (rr_epoch m))) (\<lambda>_.
       verify_tc E W L etv (rr_tc m)))"

definition no_endorsement_validate ::
  "('s, 'c, 'x) wire \<Rightarrow> epoch_manager \<Rightarrow> 's no_endorsement_message \<Rightarrow> unit checked" where
  "no_endorsement_validate W em m =
     (if \<not> sig_validate W (nem_signature m) then err InvalidSignature
      else check_epoch em (ne_round (nem_msg m)) (ne_epoch (nem_msg m)))"

definition advance_round_validate ::
  "('s, 'c, 'x) env \<Rightarrow> ('s, 'c, 'x) wire \<Rightarrow> 'l lru_ops \<Rightarrow> (epoch \<Rightarrow> round \<Rightarrow> validator_info checked)
     \<Rightarrow> ('s, 'c, 'x) advance_round_message \<Rightarrow> ('l, unit) vm" where
  "advance_round_validate E W L etv m = verify_round_certificate E W L etv (ar_last_round_certificate m)"

definition message_validate ::
  "('s, 'c, 'x) env \<Rightarrow> ('s, 'c, 'x) wire \<Rightarrow> 'l lru_ops \<Rightarrow> epoch_manager \<Rightarrow> validators_epoch_mapping
     \<Rightarrow> (round \<Rightarrow> (node_id, stake) btree_map \<Rightarrow> node_id option) \<Rightarrow> nat
     \<Rightarrow> ('s, ('s, 'c, 'x) consensus_message) verified
     \<Rightarrow> ('l, ('s, ('s, 'c, 'x) consensus_message) verified) vm" where
  "message_validate E W L em vem get_leader client_version v =
     (let etv = epoch_to_validators em vem get_leader; msg = unv_obj (ver_message v) in
      v_then (v_lift (ensure (cm_version msg = client_version) InvalidVersion)) (\<lambda>_.
      v_then (case cm_message msg of
                MsgProposal m \<Rightarrow> proposal_validate E W L em etv m
              | MsgVote m \<Rightarrow> v_lift (vote_validate W em m)
              | MsgTimeout m \<Rightarrow> timeout_validate E W L em etv m
              | MsgRoundRecovery m \<Rightarrow> round_recovery_validate E W L em etv m
              | MsgNoEndorsement m \<Rightarrow> v_lift (no_endorsement_validate W em m)
              | MsgAdvanceRound m \<Rightarrow> advance_round_validate E W L etv m) (\<lambda>_.
        v_lift (ok v))))"

definition valid_pubkey :: "node_id \<Rightarrow> (node_id, stake) btree_map \<Rightarrow> node_id checked" where
  "valid_pubkey n vals =
     (case bt_get vals n of
        Some st \<Rightarrow> try_bind (no_err (assert_p (st > 0))) (\<lambda>_. ok n)
      | None \<Rightarrow> err InvalidAuthor)"

definition message_verify ::
  "('s, 'c, 'x) env \<Rightarrow> ('s, 'c, 'x) wire \<Rightarrow> epoch_manager \<Rightarrow> validators_epoch_mapping
     \<Rightarrow> ('s, ('s, 'c, 'x) consensus_message) unverified
     \<Rightarrow> ('s, ('s, 'c, 'x) consensus_message) verified checked" where
  "message_verify E W em vem u =
     try_bind (ok_or InvalidEpoch (get_epoch em (message_get_round (cm_message (unv_obj u))))) (\<lambda>ep.
     try_bind (ok_or ValidatorSetDataUnavailable (get_val_set vem ep)) (\<lambda>vs.
     try_bind (ok_or InvalidSignature
                 (st_recover_pubkey E DomainConsensusMessage (rlp_consensus_message W (unv_obj u))
                    (unv_author_signature u))) (\<lambda>pubkey.
     try_bind (valid_pubkey pubkey (validators vs)) (\<lambda>msg_author.
       ok \<lparr>ver_author = msg_author, ver_message = u\<rparr>))))"

section \<open>Valid certificates\<close>

type_synonym 's validity = "signing_domain \<Rightarrow> bytes \<Rightarrow> cert_pubkey \<Rightarrow> 's \<Rightarrow> bool"
type_synonym etv = "epoch \<Rightarrow> round \<Rightarrow> validator_info checked"

definition signed_all :: "'s validity \<Rightarrow> validator_mapping \<Rightarrow> signing_domain \<Rightarrow> bytes \<Rightarrow> node_id set \<Rightarrow> bool" where
  "signed_all valid vmap d msg A \<longleftrightarrow> (\<forall>n \<in> A. \<exists>pk s. bt_get vmap n = Some pk \<and> valid d msg pk s)"

definition quorum_signed ::
  "'s validity \<Rightarrow> validator_set \<Rightarrow> validator_mapping \<Rightarrow> signing_domain \<Rightarrow> bytes \<Rightarrow> bool" where
  "quorum_signed valid vs vmap d msg \<longleftrightarrow> (\<exists>A. super_majority vs A \<and> signed_all valid vmap d msg A)"

definition qc_ok :: "('s, 'c, 'x) env \<Rightarrow> 's validity \<Rightarrow> etv \<Rightarrow> 'c quorum_certificate \<Rightarrow> bool" where
  "qc_ok E valid etv qc \<longleftrightarrow>
     (\<exists>vs vmap l. etv (get_epoch_of_qc qc) (get_round qc) = Some (Inr (vs, vmap, l)) \<and>
        (if get_round qc = GENESIS_ROUND then genesis_qc E = Some qc
         else quorum_signed valid vs vmap DomainVote (rlp_vote E (qc_info qc))))"

definition nec_ok :: "('s, 'c, 'x) env \<Rightarrow> 's validity \<Rightarrow> etv \<Rightarrow> 'c no_endorsement_certificate \<Rightarrow> bool" where
  "nec_ok E valid etv nec \<longleftrightarrow>
     (\<exists>vs vmap l. etv (ne_epoch (nec_msg nec)) (ne_round (nec_msg nec)) = Some (Inr (vs, vmap, l)) \<and>
        quorum_signed valid vs vmap DomainNoEndorsement (rlp_no_endorsement E (nec_msg nec)))"

definition tminfo_of :: "('s, 'c, 'x) timeout_certificate \<Rightarrow> 'c high_tip_round_sigcol_tuple \<Rightarrow> timeout_info" where
  "tminfo_of tc t = \<lparr>tm_epoch = tc_epoch tc, tm_round = tc_round tc,
                     tm_high_qc_round = ht_high_qc_round t, tm_high_tip_round = ht_high_tip_round t\<rparr>"

text \<open>
  A timeout certificate is backed when disjoint sets of validators, together a super majority,
  signed the timeout of each of its entries, every entry refers to an earlier quorum
  certificate, and its high extend has the highest rank among the entries.
\<close>

definition tc_backed ::
  "('s, 'c, 'x) env \<Rightarrow> 's validity \<Rightarrow> validator_set \<Rightarrow> validator_mapping \<Rightarrow> ('s, 'c, 'x) timeout_certificate \<Rightarrow> bool" where
  "tc_backed E valid vs vmap tc \<longleftrightarrow>
     (\<exists>S. (\<forall>t \<in> set (tc_tip_rounds tc). ht_high_qc_round t < tc_round tc \<and>
             signed_all valid vmap DomainTimeout (rlp_timeout_info E (tminfo_of tc t)) (S t)) \<and>
          super_majority vs (\<Union> (S ` set (tc_tip_rounds tc))) \<and>
          (\<forall>t \<in> set (tc_tip_rounds tc). \<forall>u \<in> set (tc_tip_rounds tc). t \<noteq> u \<longrightarrow> S t \<inter> S u = {})) \<and>
     he_rank (tc_high_extend tc) = Max (insert (RankQc GENESIS_ROUND) (ht_rank ` set (tc_tip_rounds tc)))"

inductive tc_ok :: "('s, 'c, 'x) env \<Rightarrow> 's validity \<Rightarrow> etv \<Rightarrow> ('s, 'c, 'x) timeout_certificate \<Rightarrow> bool"
  and he_ok :: "('s, 'c, 'x) env \<Rightarrow> 's validity \<Rightarrow> etv \<Rightarrow> ('s, 'c, 'x) high_extend \<Rightarrow> bool"
  and tip_ok :: "('s, 'c, 'x) env \<Rightarrow> 's validity \<Rightarrow> etv \<Rightarrow> ('s, 'c, 'x) consensus_tip \<Rightarrow> bool"
  for E valid etv where
  tc_okI: "etv (tc_epoch tc) (tc_round tc) = Some (Inr (vs, vmap, l)) \<Longrightarrow> tc_backed E valid vs vmap tc \<Longrightarrow>
           he_ok E valid etv (tc_high_extend tc) \<Longrightarrow> tc_ok E valid etv tc"
| he_ok_Qc: "qc_ok E valid etv qc \<Longrightarrow> he_ok E valid etv (HeQc qc)"
| he_ok_Tip: "tip_ok E valid etv tip \<Longrightarrow> he_ok E valid etv (HeTip tip)"
| tip_okI: "etv (bh_epoch (tip_block_header tip)) (block_round (tip_block_header tip)) = Some (Inr (vs, vmap, l)) \<Longrightarrow>
            signature_author E tip = Some l \<Longrightarrow> author (tip_block_header tip) = l \<Longrightarrow> tip_form_ok tip \<Longrightarrow>
            qc_ok E valid etv (bh_qc (tip_block_header tip)) \<Longrightarrow>
            (\<And>nec. tip_fresh_certificate tip = Some (Nec nec) \<Longrightarrow> nec_ok E valid etv nec) \<Longrightarrow>
            (\<And>nt. tip_fresh_certificate tip = Some (NoTip nt) \<Longrightarrow> tc_ok E valid etv (tc_of_no_tip nt)) \<Longrightarrow>
            tip_ok E valid etv tip"

inductive_cases he_ok_QcE: "he_ok E valid etv (HeQc qc)"
inductive_cases he_ok_TipE: "he_ok E valid etv (HeTip tip)"
inductive_cases tc_okE: "tc_ok E valid etv tc"
inductive_cases tip_okE: "tip_ok E valid etv tip"

fun rc_ok :: "('s, 'c, 'x) env \<Rightarrow> 's validity \<Rightarrow> etv \<Rightarrow> ('s, 'c, 'x) round_certificate \<Rightarrow> bool" where
  "rc_ok E valid etv (RcQc qc) = qc_ok E valid etv qc"
| "rc_ok E valid etv (RcTc tc) = tc_ok E valid etv tc"

section \<open>The environment of a check\<close>

definition lru_ok :: "'l lru_ops \<Rightarrow> bool" where
  "lru_ok L \<longleftrightarrow>
     (\<forall>n k. \<not> lru_contains L (lru_new L n) k) \<and>
     (\<forall>k l k'. lru_contains L (lru_put L k l) k' \<longrightarrow> k' = k \<or> lru_contains L l k')"

definition wire_inj :: "('s, 'c, 'x) wire \<Rightarrow> bool" where
  "wire_inj W \<longleftrightarrow> inj (rlp_qc W) \<and> inj (rlp_tc W) \<and> inj (rlp_nec W)"

definition etv_ok :: "etv \<Rightarrow> bool" where
  "etv_ok etv \<longleftrightarrow>
     (\<forall>ep r. etv ep r \<noteq> None) \<and>
     (\<forall>ep r vs vmap l. etv ep r = Some (Inr (vs, vmap, l)) \<longrightarrow> vs_valid vs \<and> vs_small vs \<and> bt_wf vmap)"

definition checks_ok ::
  "('s, 'c, 'x) env \<Rightarrow> 's validity \<Rightarrow> ('s, 'c, 'x) wire \<Rightarrow> 'l lru_ops \<Rightarrow> etv \<Rightarrow> bool" where
  "checks_ok E valid W L etv \<longleftrightarrow>
     sct_laws E valid \<and> genesis_qc E \<noteq> None \<and> wire_inj W \<and> lru_ok L \<and> etv_ok etv"

definition cache_sound ::
  "('s, 'c, 'x) env \<Rightarrow> 's validity \<Rightarrow> ('s, 'c, 'x) wire \<Rightarrow> 'l lru_ops \<Rightarrow> etv \<Rightarrow> 'l certificate_cache \<Rightarrow> bool" where
  "cache_sound E valid W L etv C \<longleftrightarrow>
     (\<forall>qc. qc_is_cached_validated W L C qc \<longrightarrow> qc_ok E valid etv qc) \<and>
     (\<forall>tc. tc_is_cached_validated W L C tc \<longrightarrow> tc_ok E valid etv tc) \<and>
     (\<forall>nec. nec_is_cached_validated W L C nec \<longrightarrow> nec_ok E valid etv nec)"

lemma cache_sound_default: "lru_ok L \<Longrightarrow> cache_sound E valid W L etv (certificate_cache_default L)"
  by (simp add: lru_ok_def cache_sound_def certificate_cache_default_def qc_is_cached_validated_def
      tc_is_cached_validated_def nec_is_cached_validated_def)

lemma cache_sound_put:
  assumes "lru_ok L" "wire_inj W" "cache_sound E valid W L etv C"
  shows "qc_ok E valid etv qc \<Longrightarrow> cache_sound E valid W L etv (cache_validated_qc W L C qc)"
    and "tc_ok E valid etv tc \<Longrightarrow> cache_sound E valid W L etv (cache_validated_tc W L C tc)"
    and "nec_ok E valid etv nec \<Longrightarrow> cache_sound E valid W L etv (cache_validated_nec W L C nec)"
  using assms
  by (auto simp: lru_ok_def wire_inj_def cache_sound_def qc_is_cached_validated_def tc_is_cached_validated_def
      nec_is_cached_validated_def cache_validated_qc_def cache_validated_tc_def cache_validated_nec_def
      inj_eq dest!: spec)

section \<open>Total correctness of a check\<close>

text \<open>
  \<open>v_safe I m Q\<close>: from a cache satisfying \<open>I\<close> the check \<open>m\<close> returns, leaves a cache satisfying \<open>I\<close>
  whether it accepts or not, and an accepted value satisfies \<open>Q\<close>.
\<close>

definition v_safe :: "('l certificate_cache \<Rightarrow> bool) \<Rightarrow> ('l, 'a) vm \<Rightarrow> ('a \<Rightarrow> bool) \<Rightarrow> bool" where
  "v_safe I m Q \<longleftrightarrow>
     (\<forall>C. I C \<longrightarrow> (\<exists>r C'. m C = Some (r, C') \<and> I C' \<and> (\<forall>a. r = Inr a \<longrightarrow> Q a)))"

lemma v_safe_lift: "m \<noteq> None \<Longrightarrow> (\<And>a. m = Some (Inr a) \<Longrightarrow> Q a) \<Longrightarrow> v_safe I (v_lift m) Q"
  by (auto simp: v_safe_def v_lift_def)

lemma v_safe_then:
  assumes "v_safe I m P" "\<And>a. P a \<Longrightarrow> v_safe I (f a) Q"
  shows "v_safe I (v_then m f) Q"
  unfolding v_safe_def
proof (intro allI impI)
  fix C assume "I C"
  then obtain r C' where "m C = Some (r, C')" "I C'" "\<And>a. r = Inr a \<Longrightarrow> P a"
    using assms(1) by (auto simp: v_safe_def)
  then show "\<exists>r C'. v_then m f C = Some (r, C') \<and> I C' \<and> (\<forall>a. r = Inr a \<longrightarrow> Q a)"
    using assms(2) by (cases r) (auto simp: v_then_def v_safe_def)
qed

lemma v_safe_value:
  assumes "x \<noteq> None" "\<And>a. x = Some (Inr a) \<Longrightarrow> v_safe I (f a) Q"
  shows "v_safe I (v_then (v_lift x) f) Q"
  using assms by (intro v_safe_then[where P = "\<lambda>a. x = Some (Inr a)"] v_safe_lift) auto

lemma v_safe_guard: "(b \<Longrightarrow> v_safe I m Q) \<Longrightarrow> v_safe I (v_then (v_lift (ensure b e)) (\<lambda>_. m)) Q"
  by (rule v_safe_value) auto

lemma v_safe_modify: "(\<And>C. I C \<Longrightarrow> I (g C)) \<Longrightarrow> Q () \<Longrightarrow> v_safe I (v_modify g) Q"
  by (auto simp: v_safe_def v_modify_def)

lemma v_safe_cached:
  assumes "\<And>C. I C \<Longrightarrow> P C \<Longrightarrow> Q ()" "v_safe I n Q"
  shows "v_safe I (v_if P (v_lift (ok ())) n) Q"
  using assms by (auto simp: v_safe_def v_if_def v_lift_def ok_def)

lemma v_safe_weaken: "v_safe I m P \<Longrightarrow> (\<And>a. P a \<Longrightarrow> Q a) \<Longrightarrow> v_safe I m Q"
  unfolding v_safe_def by blast

section \<open>Soundness of the certificate checks\<close>

lemma check_super_majority_ok:
  assumes "vs_valid vs" "vs_small vs" "check_super_majority vs ids = Some (Inr u)"
  shows "super_majority vs (set ids)"
  using assms has_super_majority_votes_true[OF assms(1,2), of ids]
  by (auto simp: check_super_majority_def split: option.splits sum.splits validator_set_error.splits bool.splits)

lemma check_super_majority_total:
  assumes "vs_valid vs" "vs_small vs"
  shows "check_super_majority vs ids \<noteq> None"
proof (cases "distinct ids")
  case True
  then show ?thesis
    by (simp add: check_super_majority_def has_super_majority_votes_iff[OF assms True] ok_def split: bool.splits)
next
  case False
  then obtain n where "calculate_current_stake vs ids = err (DuplicateValidator n)"
    using calculate_current_stake_duplicate[of ids vs] by auto
  then show ?thesis
    by (simp add: check_super_majority_def has_super_majority_votes_def has_threshold_votes_def err_def)
qed

lemma check_super_majority_accepts:
  assumes "vs_valid vs" "vs_small vs" "distinct ids" "super_majority vs (set ids)"
  shows "check_super_majority vs ids = ok ()"
  using assms has_super_majority_votes_iff[OF assms(1-3)] by (simp add: check_super_majority_def ok_def)

lemma check_signatures_total: "check_signatures E d sigs vmap msg \<noteq> None"
  by (simp add: check_signatures_def split: sum.splits)

lemma check_signatures_ok:
  assumes "sct_laws E valid" "bt_wf vmap" "check_signatures E d sigs vmap msg = Some (Inr ids)"
  shows "distinct ids" "signed_all valid vmap d msg (set ids)"
proof -
  have "sct_verify E d sigs vmap msg = Inr ids"
    using assms(3) by (simp add: check_signatures_def split: sum.splits)
  then show "distinct ids" "signed_all valid vmap d msg (set ids)"
    using sct_laws.verify_sound[OF assms(1,2), of d sigs msg ids] by (auto simp: signed_all_def)
qed

lemma add_signers_total: "add_signers ns seen \<noteq> None"
  by (induction ns seen rule: add_signers.induct) auto

lemma add_signers_ok:
  "add_signers ns seen = Some (Inr seen') \<Longrightarrow>
     distinct ns \<and> set ns \<inter> set seen = {} \<and> set seen' = set ns \<union> set seen"
  by (induction ns seen rule: add_signers.induct) (auto split: if_splits)

lemma tc_scan_loop_total: "tc_scan_loop E tc vmap ts a \<noteq> None"
  by (induction ts arbitrary: a) (auto simp: result_simps check_signatures_total add_signers_total)

definition tip_key :: "'c high_tip_round_sigcol_tuple \<Rightarrow> round \<times> round" where
  "tip_key t = (ht_high_qc_round t, ht_high_tip_round t)"

definition scan_result ::
  "('s, 'c, 'x) env \<Rightarrow> 's validity \<Rightarrow> validator_mapping \<Rightarrow> ('s, 'c, 'x) timeout_certificate
     \<Rightarrow> 'c high_tip_round_sigcol_tuple list \<Rightarrow> tc_scan \<Rightarrow> tc_scan \<Rightarrow> ('c high_tip_round_sigcol_tuple \<Rightarrow> node_id set) \<Rightarrow> bool" where
  "scan_result E valid vmap tc ts a b S \<longleftrightarrow>
     (\<forall>t \<in> set ts. tip_key t \<notin> set (scan_seen_tip_rounds a) \<and> ht_high_qc_round t < tc_round tc \<and>
        S t \<inter> set (scan_node_ids a) = {} \<and>
        signed_all valid vmap DomainTimeout (rlp_timeout_info E (tminfo_of tc t)) (S t)) \<and>
     (\<forall>t \<in> set ts. \<forall>u \<in> set ts. t \<noteq> u \<longrightarrow> S t \<inter> S u = {}) \<and>
     set (scan_node_ids b) = set (scan_node_ids a) \<union> \<Union> (S ` set ts) \<and>
     scan_highest_rank b = Max (insert (scan_highest_rank a) (ht_rank ` set ts))"

lemma Max_insert_step:
  "finite A \<Longrightarrow> Max (insert (if t > h then t else h) A) = Max (insert h (insert t A))"
  for t :: high_extend_rank
  by (cases "A = {}") (auto simp: max_def)

lemma scan_result_Cons:
  assumes "scan_result E valid vmap tc ts a' b S" "tip_key t \<notin> set (scan_seen_tip_rounds a)"
    and "ht_high_qc_round t < tc_round tc" "set ids \<inter> set (scan_node_ids a) = {}"
    and "signed_all valid vmap DomainTimeout (rlp_timeout_info E (tminfo_of tc t)) (set ids)"
    and "scan_node_ids a' = scan_node_ids a @ ids" "scan_seen_tip_rounds a' = tip_key t # scan_seen_tip_rounds a"
    and "scan_highest_rank a' = (if ht_rank t > scan_highest_rank a then ht_rank t else scan_highest_rank a)"
  shows "scan_result E valid vmap tc (t # ts) a b (S(t := set ids))"
proof -
  have new: "t \<notin> set ts" using assms(1,7) by (auto simp: scan_result_def)
  then have S: "\<Union> ((S(t := set ids)) ` set (t # ts)) = set ids \<union> \<Union> (S ` set ts)" by auto
  have "scan_highest_rank b = Max (insert (scan_highest_rank a) (ht_rank ` set (t # ts)))"
    using assms(1,8) Max_insert_step[of "ht_rank ` set ts" "scan_highest_rank a" "ht_rank t"]
    by (simp add: scan_result_def insert_commute)
  moreover have "set (scan_node_ids b) = set (scan_node_ids a) \<union> \<Union> ((S(t := set ids)) ` set (t # ts))"
    unfolding S using assms(1,6) by (auto simp: scan_result_def)
  moreover have "\<forall>u \<in> set ts. S u \<inter> set ids = {}"
    using assms(1,6) by (auto simp: scan_result_def)
  then have "\<forall>u \<in> set (t # ts). \<forall>w \<in> set (t # ts). u \<noteq> w \<longrightarrow> (S(t := set ids)) u \<inter> (S(t := set ids)) w = {}"
    using assms(1) new by (auto simp: scan_result_def)
  moreover have "\<forall>u \<in> set (t # ts). tip_key u \<notin> set (scan_seen_tip_rounds a) \<and> ht_high_qc_round u < tc_round tc \<and>
        (S(t := set ids)) u \<inter> set (scan_node_ids a) = {} \<and>
        signed_all valid vmap DomainTimeout (rlp_timeout_info E (tminfo_of tc u)) ((S(t := set ids)) u)"
    using assms(1-7) new by (auto simp: scan_result_def)
  ultimately show ?thesis unfolding scan_result_def by blast
qed

lemma tc_scan_loop_ok:
  assumes "sct_laws E valid" "bt_wf vmap"
    and "tc_scan_loop E tc vmap ts a = Some (Inr b)" "set (scan_seen_node_ids a) = set (scan_node_ids a)"
  shows "\<exists>S. scan_result E valid vmap tc ts a b S"
  using assms(3,4)
proof (induction ts arbitrary: a)
  case Nil
  then show ?case by (auto simp: scan_result_def)
next
  case (Cons t ts)
  obtain ids seen where t: "ht_high_qc_round t < tc_round tc" "tip_key t \<notin> set (scan_seen_tip_rounds a)"
      "check_signatures E DomainTimeout (ht_sigs t) vmap (rlp_timeout_info E (tminfo_of tc t)) = Some (Inr ids)"
      "add_signers ids (scan_seen_node_ids a) = Some (Inr seen)"
    and rest: "tc_scan_loop E tc vmap ts
         \<lparr>scan_node_ids = scan_node_ids a @ ids,
          scan_highest_rank = (if ht_rank t > scan_highest_rank a then ht_rank t else scan_highest_rank a),
          scan_seen_tip_rounds = tip_key t # scan_seen_tip_rounds a,
          scan_seen_node_ids = seen\<rparr> = Some (Inr b)" (is "tc_scan_loop _ _ _ _ ?a = _")
    using Cons.prems(1) by (auto simp: result_simps tip_key_def tminfo_of_def)
  have ids: "set ids \<inter> set (scan_node_ids a) = {}" "set seen = set ids \<union> set (scan_node_ids a)"
    using add_signers_ok[OF t(4)] Cons.prems(2) by auto
  obtain S where "scan_result E valid vmap tc ts ?a b S"
    using Cons.IH[OF rest] ids(2) by auto
  from scan_result_Cons[OF this t(2,1) ids(1) check_signatures_ok(2)[OF assms(1,2) t(3)]]
  show ?case by auto
qed

lemma checks_okD:
  assumes "checks_ok E valid W L etv"
  shows "sct_laws E valid" "genesis_qc E \<noteq> None" "wire_inj W" "lru_ok L" "etv ep r \<noteq> None"
    and "etv ep r = Some (Inr (vs, vmap, l)) \<Longrightarrow> vs_valid vs"
    and "etv ep r = Some (Inr (vs, vmap, l)) \<Longrightarrow> vs_small vs"
    and "etv ep r = Some (Inr (vs, vmap, l)) \<Longrightarrow> bt_wf vmap"
  using assms unfolding checks_ok_def etv_ok_def by blast+

lemma v_safe_quorum:
  assumes "checks_ok E valid W L etv" "etv ep r = Some (Inr (vs, vmap, l))"
    and "quorum_signed valid vs vmap d msg \<Longrightarrow> v_safe I m Q"
  shows "v_safe I (v_then (v_lift (check_signatures E d sigs vmap msg)) (\<lambda>ids.
           v_then (v_lift (check_super_majority vs ids)) (\<lambda>_. m))) Q"
proof (intro v_safe_value check_signatures_total)
  note D = checks_okD[OF assms(1)]
  fix ids assume ids: "check_signatures E d sigs vmap msg = Some (Inr ids)"
  show "check_super_majority vs ids \<noteq> None"
    by (rule check_super_majority_total[OF D(6)[OF assms(2)] D(7)[OF assms(2)]])
  fix u assume "check_super_majority vs ids = Some (Inr u)"
  then show "v_safe I m Q"
    using check_super_majority_ok[OF D(6)[OF assms(2)] D(7)[OF assms(2)], of ids u]
      check_signatures_ok(2)[OF D(1) D(8)[OF assms(2)] ids]
    by (intro assms(3)) (auto simp: quorum_signed_def)
qed

lemma verify_qc_safe:
  assumes "checks_ok E valid W L etv"
  shows "v_safe (cache_sound E valid W L etv) (verify_qc E W L etv qc) (\<lambda>_. qc_ok E valid etv qc)"
  unfolding verify_qc_def
proof (intro v_safe_cached v_safe_value)
  note D = checks_okD[OF assms]
  let ?I = "cache_sound E valid W L etv" and ?e = "etv (get_epoch_of_qc qc) (get_round qc)"
  show "qc_ok E valid etv qc" if "?I C" "qc_is_cached_validated W L C qc" for C
    using that by (simp add: cache_sound_def)
  show "?e \<noteq> None" by (rule D(5))
  fix x assume x: "?e = Some (Inr x)"
  obtain vs vmap l where p: "x = (vs, vmap, l)" by (cases x)
  have genesis: "qc_ok E valid etv qc" if "genesis_qc E = Some qc" "get_round qc = GENESIS_ROUND"
    using that x by (auto simp: qc_ok_def p)
  have quorum: "qc_ok E valid etv qc"
    if "quorum_signed valid vs vmap DomainVote (rlp_vote E (qc_info qc))" "get_round qc \<noteq> GENESIS_ROUND"
    using that x by (auto simp: qc_ok_def p)
  show "v_safe ?I (case x of (vs, vmap, _) \<Rightarrow>
      if get_round qc = GENESIS_ROUND then
        v_then (v_lift (no_err (genesis_qc E))) (\<lambda>genesis. v_lift (ensure (qc = genesis) InvalidSignature))
      else
        v_then (v_lift (check_signatures E DomainVote (qc_signatures qc) vmap (rlp_vote E (qc_info qc))))
          (\<lambda>node_ids.
        v_then (v_lift (check_super_majority vs node_ids)) (\<lambda>_.
          v_modify (\<lambda>C. cache_validated_qc W L C qc)))) (\<lambda>_. qc_ok E valid etv qc)"
  proof (cases "get_round qc = GENESIS_ROUND")
    case True
    then show ?thesis
      using D(2)
      by (auto simp: p ensure_def ok_def err_def intro!: v_safe_value v_safe_lift genesis split: if_splits)
  next
    case False
    then show ?thesis
      unfolding p prod.case if_not_P[OF False]
      by (intro v_safe_quorum[OF assms x[unfolded p]] v_safe_modify cache_sound_put(1)[OF D(4) D(3)] quorum)
  qed
qed

lemma verify_nec_safe:
  assumes "checks_ok E valid W L etv"
  shows "v_safe (cache_sound E valid W L etv) (verify_nec E W L etv nec) (\<lambda>_. nec_ok E valid etv nec)"
  unfolding verify_nec_def
proof (intro v_safe_cached v_safe_value)
  note D = checks_okD[OF assms]
  let ?I = "cache_sound E valid W L etv" and ?e = "etv (ne_epoch (nec_msg nec)) (ne_round (nec_msg nec))"
  show "nec_ok E valid etv nec" if "?I C" "nec_is_cached_validated W L C nec" for C
    using that by (simp add: cache_sound_def)
  show "?e \<noteq> None" by (rule D(5))
  fix x assume x: "?e = Some (Inr x)"
  obtain vs vmap l where p: "x = (vs, vmap, l)" by (cases x)
  have q: "nec_ok E valid etv nec"
    if "quorum_signed valid vs vmap DomainNoEndorsement (rlp_no_endorsement E (nec_msg nec))"
    using that x by (auto simp: nec_ok_def p)
  show "v_safe ?I (case x of (vs, vmap, _) \<Rightarrow>
      v_then (v_lift (check_signatures E DomainNoEndorsement (nec_signatures nec) vmap
                        (rlp_no_endorsement E (nec_msg nec)))) (\<lambda>node_ids.
      v_then (v_lift (check_super_majority vs node_ids)) (\<lambda>_.
        v_modify (\<lambda>C. cache_validated_nec W L C nec)))) (\<lambda>_. nec_ok E valid etv nec)"
    unfolding p prod.case
    by (intro v_safe_quorum[OF assms x[unfolded p]] v_safe_modify cache_sound_put(3)[OF D(4) D(3)] q)
qed

lemma tc_backed_scan:
  assumes "scan_result E valid vmap tc (tc_tip_rounds tc) tc_scan_start scan S"
    and "super_majority vs (set (scan_node_ids scan))" "he_rank (tc_high_extend tc) = scan_highest_rank scan"
  shows "tc_backed E valid vs vmap tc"
  using assms unfolding scan_result_def tc_backed_def tc_scan_start_def
  by (intro conjI exI[of _ S]) auto

lemma verify_tc_safe:
  assumes "checks_ok E valid W L etv"
    and he: "v_safe (cache_sound E valid W L etv) (verify_high_extend E W L etv (tc_high_extend tc))
               (\<lambda>_. he_ok E valid etv (tc_high_extend tc))"
  shows "v_safe (cache_sound E valid W L etv) (verify_tc E W L etv tc) (\<lambda>_. tc_ok E valid etv tc)"
  unfolding verify_tc.simps
proof (intro v_safe_cached v_safe_value)
  note D = checks_okD[OF assms(1)]
  let ?I = "cache_sound E valid W L etv" and ?e = "etv (tc_epoch tc) (tc_round tc)"
  show "tc_ok E valid etv tc" if "?I C" "tc_is_cached_validated W L C tc" for C
    using that by (simp add: cache_sound_def)
  show "?e \<noteq> None" by (rule D(5))
  fix x assume x: "?e = Some (Inr x)"
  obtain vs vmap l where p: "x = (vs, vmap, l)" by (cases x)
  note e = x[unfolded p]
  have "v_safe ?I
      (v_then (v_lift (ensure (\<not> length (tc_tip_rounds tc) > length (validators vs)) TooManyTcTipRound)) (\<lambda>_.
       v_then (v_lift (tc_scan_loop E tc vmap (tc_tip_rounds tc) tc_scan_start)) (\<lambda>scan.
       v_then (v_lift (check_super_majority vs (scan_node_ids scan))) (\<lambda>_.
       v_then (verify_high_extend E W L etv (tc_high_extend tc)) (\<lambda>_.
       v_then (v_lift (ensure (he_rank (tc_high_extend tc) = scan_highest_rank scan) NotWellFormed)) (\<lambda>_.
         v_modify (\<lambda>C. cache_validated_tc W L C tc))))))) (\<lambda>_. tc_ok E valid etv tc)"
  proof (rule v_safe_guard, rule v_safe_value[OF tc_scan_loop_total],
         rule v_safe_value[OF check_super_majority_total[OF D(6)[OF e] D(7)[OF e]]],
         rule v_safe_then[OF he], rule v_safe_guard)
    fix scan u
    assume "tc_scan_loop E tc vmap (tc_tip_rounds tc) tc_scan_start = Some (Inr scan)"
      and maj: "check_super_majority vs (scan_node_ids scan) = Some (Inr u)"
      and h: "he_ok E valid etv (tc_high_extend tc)" "he_rank (tc_high_extend tc) = scan_highest_rank scan"
    then obtain S where "scan_result E valid vmap tc (tc_tip_rounds tc) tc_scan_start scan S"
      using tc_scan_loop_ok[OF D(1) D(8)[OF e], of tc "tc_tip_rounds tc" tc_scan_start scan]
      by (auto simp: tc_scan_start_def)
    from tc_okI[of etv tc, OF e tc_backed_scan[OF this check_super_majority_ok[OF D(6)[OF e] D(7)[OF e] maj] h(2)] h(1)]
    show "v_safe ?I (v_modify (\<lambda>C. cache_validated_tc W L C tc)) (\<lambda>_. tc_ok E valid etv tc)"
      using cache_sound_put(2)[OF D(4) D(3)] by (intro v_safe_modify)
  qed
  then show "v_safe ?I (case x of (vs, vmap, _) \<Rightarrow>
      v_then (v_lift (ensure (\<not> length (tc_tip_rounds tc) > length (validators vs)) TooManyTcTipRound)) (\<lambda>_.
      v_then (v_lift (tc_scan_loop E tc vmap (tc_tip_rounds tc) tc_scan_start)) (\<lambda>scan.
      v_then (v_lift (check_super_majority vs (scan_node_ids scan))) (\<lambda>_.
      v_then (verify_high_extend E W L etv (tc_high_extend tc)) (\<lambda>_.
      v_then (v_lift (ensure (he_rank (tc_high_extend tc) = scan_highest_rank scan) NotWellFormed)) (\<lambda>_.
        v_modify (\<lambda>C. cache_validated_tc W L C tc))))))) (\<lambda>_. tc_ok E valid etv tc)"
    by (simp add: p)
qed

lemma verify_tip_safe:
  assumes "checks_ok E valid W L etv"
  shows "v_safe (cache_sound E valid W L etv) (verify_tip E W L etv tip) (\<lambda>_. tip_ok E valid etv tip)"
proof -
  note D = checks_okD[OF assms]
  let ?I = "cache_sound E valid W L etv" and ?h = "tip_block_header tip"
  have no_tip: "v_safe ?I (verify_tc E W L etv (tc_of_no_tip nt)) (\<lambda>_. tc_ok E valid etv (tc_of_no_tip nt))" for nt
    using verify_qc_safe[OF assms, of "nt_high_qc nt"]
    by (intro verify_tc_safe[OF assms]) (auto simp: tc_of_no_tip_def elim!: v_safe_weaken intro: he_ok_Qc)
  have fresh: "v_safe ?I (case tip_fresh_certificate tip of
          Some (Nec nec) \<Rightarrow> verify_nec E W L etv nec
        | Some (NoTip no_tip) \<Rightarrow> verify_tc E W L etv (tc_of_no_tip no_tip)
        | None \<Rightarrow> v_lift (ok ())) (\<lambda>_. tip_ok E valid etv tip)"
    if "etv (bh_epoch ?h) (block_round ?h) = Some (Inr (vs, vmap, l))" "signature_author E tip = Some l"
      "author ?h = l" "tip_form_ok tip" "qc_ok E valid etv (bh_qc ?h)" for vs vmap l
  proof (cases "tip_fresh_certificate tip")
    case None
    then show ?thesis using tip_okI[of etv tip, OF that] by (auto intro!: v_safe_lift simp del: verify_tc.simps)
  next
    case (Some f)
    then show ?thesis
      using tip_okI[of etv tip, OF that]
      by (cases f) (auto intro!: v_safe_weaken[OF no_tip] v_safe_weaken[OF verify_nec_safe[OF assms]]
                      simp del: verify_tc.simps)
  qed
  show ?thesis
    unfolding verify_tip.simps Let_def
    by (rule v_safe_value[OF D(5)], clarsimp simp del: verify_tc.simps,
        intro v_safe_value v_safe_then[OF verify_qc_safe[OF assms]] fresh)
       (auto simp del: verify_tc.simps)
qed

declare verify_tc.simps [simp del] verify_tip.simps [simp del]

lemma verify_high_extend_safe:
  assumes "checks_ok E valid W L etv"
  shows "v_safe (cache_sound E valid W L etv) (verify_high_extend E W L etv he) (\<lambda>_. he_ok E valid etv he)"
  by (cases he)
     (auto intro: he_ok_Qc he_ok_Tip v_safe_weaken[OF verify_qc_safe[OF assms]] v_safe_weaken[OF verify_tip_safe[OF assms]])

lemma verify_round_certificate_safe:
  assumes "checks_ok E valid W L etv"
  shows "v_safe (cache_sound E valid W L etv) (verify_round_certificate E W L etv rc) (\<lambda>_. rc_ok E valid etv rc)"
  using verify_qc_safe[OF assms] verify_tc_safe[OF assms verify_high_extend_safe[OF assms]]
  by (cases rc) (simp_all add: verify_round_certificate_def)

section \<open>Soundness of message validation\<close>

fun message_ok ::
  "('s, 'c, 'x) env \<Rightarrow> 's validity \<Rightarrow> ('s, 'c, 'x) wire \<Rightarrow> epoch_manager \<Rightarrow> etv \<Rightarrow> ('s, 'c, 'x) protocol_message \<Rightarrow> bool" where
  "message_ok E valid W em etv (MsgProposal p) \<longleftrightarrow>
     (let h = tip_block_header (prop_tip p) in
      get_epoch em (proposal_round p) = Some (proposal_epoch p) \<and>
      block_body_id h = body_get_id E W (prop_block_body p) \<and> tip_ok E valid etv (prop_tip p) \<and>
      (\<exists>rc. rc_ok E valid etv rc \<and> proposal_round p = rc_round rc + 1 \<and>
            get_round (rc_qc rc) = get_round (bh_qc h)))"
| "message_ok E valid W em etv (MsgVote v) \<longleftrightarrow>
     sig_validate W (vmsg_sig v) \<and> get_epoch em (vote_round (vmsg_vote v)) = Some (vote_epoch (vmsg_vote v))"
| "message_ok E valid W em etv (MsgTimeout t) \<longleftrightarrow>
     get_epoch em (tm_round (to_tminfo t)) = Some (tm_epoch (to_tminfo t)) \<and>
     hev_rank (to_high_extend t) = tm_rank (to_tminfo t) \<and>
     he_ok E valid etv (he_of_hev (to_high_extend t)) \<and>
     (\<exists>rc. rc_ok E valid etv rc \<and> tm_round (to_tminfo t) = rc_round rc + 1)"
| "message_ok E valid W em etv (MsgRoundRecovery m) \<longleftrightarrow>
     get_epoch em (rr_round m) = Some (rr_epoch m) \<and> tc_ok E valid etv (rr_tc m) \<and>
     rr_round m = tc_round (rr_tc m) + 1 \<and> (\<exists>tip. tc_high_extend (rr_tc m) = HeTip tip)"
| "message_ok E valid W em etv (MsgNoEndorsement m) \<longleftrightarrow>
     sig_validate W (nem_signature m) \<and> get_epoch em (ne_round (nem_msg m)) = Some (ne_epoch (nem_msg m))"
| "message_ok E valid W em etv (MsgAdvanceRound m) \<longleftrightarrow> rc_ok E valid etv (ar_last_round_certificate m)"

lemma check_epoch_ok [simp]: "check_epoch em r ep = Some (Inr u) \<longleftrightarrow> get_epoch em r = Some ep"
  by (auto simp: check_epoch_def split: option.splits if_splits)

lemma check_epoch_total: "check_epoch em r ep \<noteq> None"
  by (simp add: check_epoch_def split: option.splits)

lemma well_formed_total:
  "well_formed_proposal E W p \<noteq> None" "well_formed_timeout t \<noteq> None" "well_formed_round_recovery m \<noteq> None"
  by (simp_all add: well_formed_proposal_def well_formed_timeout_def well_formed_round_recovery_def Let_def
      split: option.splits high_extend.splits)

lemma well_formed_proposal_ok:
  assumes "well_formed_proposal E W p = Some (Inr u)"
  shows "block_body_id (tip_block_header (prop_tip p)) = body_get_id E W (prop_block_body p)"
    and "prop_last_round_tc p = None \<Longrightarrow>
           proposal_round p = get_round (bh_qc (tip_block_header (prop_tip p))) + 1"
    and "prop_last_round_tc p = Some tc \<Longrightarrow>
           proposal_round p = tc_round tc + 1 \<and>
           get_round (he_qc (tc_high_extend tc)) = get_round (bh_qc (tip_block_header (prop_tip p)))"
  using assms
  by (auto simp: well_formed_proposal_def Let_def immediately_follows_iff
      split: if_splits option.splits high_extend.splits)

lemma proposal_validate_safe:
  assumes "checks_ok E valid W L etv"
  shows "v_safe (cache_sound E valid W L etv) (proposal_validate E W L em etv p)
           (\<lambda>_. message_ok E valid W em etv (MsgProposal p))"
  unfolding proposal_validate_def
proof (rule v_safe_value[OF well_formed_total(1)], rule v_safe_value[OF check_epoch_total],
       rule v_safe_then[OF verify_tip_safe[OF assms]])
  fix u v w
  assume wf: "well_formed_proposal E W p = Some (Inr u)"
    and "check_epoch em (proposal_round p) (proposal_epoch p) = Some (Inr v)"
    and tip: "tip_ok E valid etv (prop_tip p)"
  note W = well_formed_proposal_ok[OF wf]
  have m: "message_ok E valid W em etv (MsgProposal p)"
    if "rc_ok E valid etv rc" "proposal_round p = rc_round rc + 1"
      "get_round (rc_qc rc) = get_round (bh_qc (tip_block_header (prop_tip p)))" for rc
    using that tip W(1) \<open>check_epoch _ _ _ = _\<close> by (auto simp: Let_def)
  have qc: "qc_ok E valid etv (bh_qc (tip_block_header (prop_tip p)))" using tip by (rule tip_okE)
  show "v_safe (cache_sound E valid W L etv)
          (case prop_last_round_tc p of Some tc \<Rightarrow> verify_tc E W L etv tc | None \<Rightarrow> v_lift (ok ()))
          (\<lambda>_. message_ok E valid W em etv (MsgProposal p))"
  proof (cases "prop_last_round_tc p")
    case None
    then show ?thesis using m[of "RcQc (bh_qc (tip_block_header (prop_tip p)))"] qc W(2)
      by (auto intro!: v_safe_lift simp: get_round_def simp del: message_ok.simps)
  next
    case (Some tc)
    then show ?thesis
      using m[of "RcTc tc"] W(3)
      by (auto intro!: v_safe_weaken[OF verify_tc_safe[OF assms verify_high_extend_safe[OF assms]]]
          simp del: message_ok.simps)
  qed
qed

lemma he_ok_qc: "he_ok E valid etv he \<Longrightarrow> qc_ok E valid etv (he_qc he)"
  by (cases he) (auto elim!: he_ok_QcE he_ok_TipE tip_okE)

lemma timeout_validate_safe:
  assumes "checks_ok E valid W L etv"
  shows "v_safe (cache_sound E valid W L etv) (timeout_validate E W L em etv t)
           (\<lambda>_. message_ok E valid W em etv (MsgTimeout t))"
  unfolding timeout_validate_def
proof (rule v_safe_guard, rule v_safe_value[OF well_formed_total(2)], rule v_safe_value[OF check_epoch_total])
  fix u v
  assume wf: "well_formed_timeout t = Some (Inr u)"
    and ep: "check_epoch em (tm_round (to_tminfo t)) (tm_epoch (to_tminfo t)) = Some (Inr v)"
  have m: "message_ok E valid W em etv (MsgTimeout t)"
    if "\<And>rc. to_last_round_certificate t = Some rc \<Longrightarrow> rc_ok E valid etv rc"
      "he_ok E valid etv (he_of_hev (to_high_extend t))"
  proof (cases "to_last_round_certificate t")
    case None
    then have "\<exists>rc. rc_ok E valid etv rc \<and> tm_round (to_tminfo t) = rc_round rc + 1"
      using wf he_ok_qc[OF that(2)]
      by (intro exI[of _ "RcQc (hev_qc (to_high_extend t))"])
         (auto simp: well_formed_timeout_def immediately_follows_iff get_round_def split: if_splits)
    then show ?thesis using that(2) ep wf by (auto simp: well_formed_timeout_def split: if_splits)
  next
    case (Some rc)
    then show ?thesis
      using that ep wf by (auto simp: well_formed_timeout_def immediately_follows_iff split: if_splits)
  qed
  show "v_safe (cache_sound E valid W L etv)
      (v_then (case to_last_round_certificate t of
               Some round_certificate \<Rightarrow> verify_round_certificate E W L etv round_certificate
             | None \<Rightarrow> v_lift (ok ())) (\<lambda>_.
       verify_high_extend E W L etv (he_of_hev (to_high_extend t))))
      (\<lambda>_. message_ok E valid W em etv (MsgTimeout t))"
    by (rule v_safe_then[where P = "\<lambda>_. \<forall>rc. to_last_round_certificate t = Some rc \<longrightarrow> rc_ok E valid etv rc"])
       (auto intro: v_safe_lift v_safe_weaken[OF verify_round_certificate_safe[OF assms]]
          v_safe_weaken[OF verify_high_extend_safe[OF assms]] m simp del: message_ok.simps split: option.split)
qed

lemma message_validate_safe:
  assumes "checks_ok E valid W L (epoch_to_validators em vem get_leader)"
  shows "v_safe (cache_sound E valid W L (epoch_to_validators em vem get_leader))
           (message_validate E W L em vem get_leader client_version v)
           (\<lambda>v'. v' = v \<and> cm_version (unv_obj (ver_message v)) = client_version \<and>
             message_ok E valid W em (epoch_to_validators em vem get_leader) (cm_message (unv_obj (ver_message v))))"
proof -
  let ?etv = "epoch_to_validators em vem get_leader" and ?m = "cm_message (unv_obj (ver_message v))"
  let ?I = "cache_sound E valid W L ?etv"
  have "v_safe ?I (v_lift (vote_validate W em m)) (\<lambda>_. message_ok E valid W em ?etv (MsgVote m))" for m
    by (intro v_safe_lift) (auto simp: vote_validate_def check_epoch_total simp del: not_None_eq split: if_splits)
  moreover have "v_safe ?I (v_lift (no_endorsement_validate W em m)) (\<lambda>_. message_ok E valid W em ?etv (MsgNoEndorsement m))" for m
    by (intro v_safe_lift)
       (auto simp: no_endorsement_validate_def check_epoch_total simp del: not_None_eq split: if_splits)
  moreover have "v_safe ?I (round_recovery_validate E W L em ?etv m) (\<lambda>_. message_ok E valid W em ?etv (MsgRoundRecovery m))" for m
    unfolding round_recovery_validate_def
    by (rule v_safe_value[OF well_formed_total(3)], rule v_safe_value[OF check_epoch_total],
        rule v_safe_weaken[OF verify_tc_safe[OF assms verify_high_extend_safe[OF assms]]])
       (auto simp: well_formed_round_recovery_def immediately_follows_iff split: if_splits high_extend.splits)
  ultimately have "v_safe ?I (case ?m of
                MsgProposal m \<Rightarrow> proposal_validate E W L em ?etv m
              | MsgVote m \<Rightarrow> v_lift (vote_validate W em m)
              | MsgTimeout m \<Rightarrow> timeout_validate E W L em ?etv m
              | MsgRoundRecovery m \<Rightarrow> round_recovery_validate E W L em ?etv m
              | MsgNoEndorsement m \<Rightarrow> v_lift (no_endorsement_validate W em m)
              | MsgAdvanceRound m \<Rightarrow> advance_round_validate E W L ?etv m) (\<lambda>_. message_ok E valid W em ?etv ?m)"
    using proposal_validate_safe[OF assms] timeout_validate_safe[OF assms] verify_round_certificate_safe[OF assms]
    by (cases ?m) (simp_all add: advance_round_validate_def del: message_ok.simps(1-5))
  then show ?thesis
    unfolding message_validate_def Let_def
    by (intro v_safe_guard) (auto elim!: v_safe_then intro!: v_safe_lift simp del: message_ok.simps)
qed

lemma epoch_to_validators_ok:
  assumes "vem_wf vem" "\<And>ep vs vmap. map_of vem ep = Some (vs, vmap) \<Longrightarrow> vs_small vs \<and> bt_wf vmap"
    and "\<And>ep vs vmap r. map_of vem ep = Some (vs, vmap) \<Longrightarrow> get_leader r (validators vs) \<noteq> None"
  shows "etv_ok (epoch_to_validators em vem get_leader)"
proof -
  have "epoch_to_validators em vem get_leader ep r \<noteq> None" for ep r
    using assms(3) by (auto simp: epoch_to_validators_def result_simps get_val_set_def simp del: not_None_eq)
  moreover have "vs_valid vs \<and> vs_small vs \<and> bt_wf vmap"
    if "epoch_to_validators em vem get_leader ep r = Some (Inr (vs, vmap, l))" for ep r vs vmap l
  proof -
    have "map_of vem ep = Some (vs, vmap)"
      using that by (auto simp: epoch_to_validators_def result_simps get_val_set_def get_cert_pubkeys_def)
    then show ?thesis using assms(1,2) unfolding vem_wf_def by blast
  qed
  ultimately show ?thesis unfolding etv_ok_def by blast
qed

section \<open>Completeness\<close>

lemma verify_qc_accepts:
  assumes "checks_ok E valid W L etv" "etv (get_epoch_of_qc qc) (get_round qc) = Some (Inr (vs, vmap, l))"
    and "get_round qc \<noteq> GENESIS_ROUND" "vm_inj vmap" "super_majority vs (fst ` set p)"
    and "sct_new E DomainVote p vmap (rlp_vote E (qc_info qc)) = Inr (qc_signatures qc)"
  shows "\<exists>C'. verify_qc E W L etv qc C = Some (Inr (), C')"
proof -
  note D = checks_okD[OF assms(1)]
  obtain ids where ids: "sct_verify E DomainVote (qc_signatures qc) vmap (rlp_vote E (qc_info qc)) = Inr ids"
      "set ids = fst ` set p"
    using sct_laws.new_verify[OF D(1) assms(4,6)] by blast
  have "distinct ids"
    using sct_laws.verify_sound[OF D(1) D(8)[OF assms(2)] ids(1)] by blast
  then have "check_super_majority vs ids = ok ()"
    using assms(5) ids(2) by (intro check_super_majority_accepts D(6)[OF assms(2)] D(7)[OF assms(2)]) auto
  then show ?thesis
    using assms(2,3) ids(1)
    by (auto simp: verify_qc_def v_if_def v_then_def v_lift_def v_modify_def check_signatures_def ok_def)
qed

text \<open>A timeout the pacemaker prepares is well-formed for its receivers.\<close>

lemma local_timeout_well_formed:
  assumes "can_time_out pm saf" "timers_ok pm" "tip_inv saf"
    and "local_timeout_round pm saf = Some (saf', [c, PcPrepareTimeout info he b rc, d])"
  shows "well_formed_timeout (timeout_new E kp info he b rc) = ok ()"
proof -
  have lt: "rc_round (pm_high_certificate pm) < u64_max" "get_round (he_qc (local_high_extend pm saf)) < u64_max"
    using assms(1) by (auto simp: can_time_out_def local_high_extend_def split: option.splits)
  have args: "info = local_tminfo pm saf" "he = local_high_extend pm saf"
    "rc = (if tm_high_qc_round (local_tminfo pm saf) + 1 = rc_round (pm_high_certificate pm) + 1
           then None else Some (pm_high_certificate pm))"
    using local_timeout_round_exact[OF assms(1,2)] assms(4) by auto
  have rank: "hev_rank (to_high_extend (timeout_new E kp info he b rc)) = tm_rank (to_tminfo (timeout_new E kp info he b rc))"
    using assms(3)
    by (auto simp: timeout_new_def args local_high_extend_def local_tminfo_def tm_rank_def rank_of_rounds_def
        Let_def tip_inv_def GENESIS_ROUND_def split: option.splits)
  have "hev_qc (to_high_extend (timeout_new E kp info he b rc)) = he_qc he"
    "to_last_round_certificate (timeout_new E kp info he b rc) = rc" "to_tminfo (timeout_new E kp info he b rc) = info"
    by (auto simp: timeout_new_def Let_def split: high_extend.splits)
  then show ?thesis
    using rank lt by (auto simp: well_formed_timeout_def immediately_follows_iff args local_tminfo_def)
qed

section \<open>A concrete environment\<close>

text \<open>Injective encodings exist because the certificate types are countable.\<close>

instance nop_signature_ext :: (countable) countable
  by (rule countable_classI[of "\<lambda>r. to_nat (nop_pubkey r, nop_id r, nop_signature.more r)"]) simp

instance multi_sig_ext :: (countable, countable) countable
  by (rule countable_classI[of "\<lambda>r. to_nat (ms_sigs r, multi_sig.more r)"]) simp

instance vote_ext :: (countable) countable
  by (rule countable_classI[of "\<lambda>r. to_nat (vote_id r, vote_round r, vote_epoch r, vote.more r)"]) simp

instance quorum_certificate_ext :: (countable, countable) countable
  by (rule countable_classI[of "\<lambda>r. to_nat (qc_info r, qc_signatures r, quorum_certificate.more r)"]) simp

instance no_endorsement_ext :: (countable) countable
  by (rule countable_classI[of "\<lambda>r. to_nat (ne_epoch r, ne_round r, ne_tip_qc_round r, no_endorsement.more r)"]) simp

instance no_endorsement_certificate_ext :: (countable, countable) countable
  by (rule countable_classI[of "\<lambda>r. to_nat (nec_msg r, nec_signatures r, no_endorsement_certificate.more r)"]) simp

instance high_tip_round_sigcol_tuple_ext :: (countable, countable) countable
  by (rule countable_classI[of "\<lambda>r. to_nat (ht_high_qc_round r, ht_high_tip_round r, ht_sigs r,
        high_tip_round_sigcol_tuple.more r)"]) simp

instance no_tip_certificate_ext :: (countable, countable) countable
  by (rule countable_classI[of "\<lambda>r. to_nat (nt_epoch r, nt_round r, nt_tip_rounds r, nt_high_qc r,
        no_tip_certificate.more r)"]) simp

instance fresh_proposal_certificate :: (countable) countable
  by countable_datatype

instance consensus_block_header_ext :: (countable, countable, countable, countable) countable
  by (rule countable_classI[of "\<lambda>r. to_nat (block_round r, bh_epoch r, bh_qc r, author r, bh_seq_num r,
        timestamp_ns r, round_signature r, delayed_execution_results r, execution_inputs r, block_body_id r,
        base_fee r, base_fee_trend r, base_fee_moment r, consensus_block_header.more r)"]) simp

instance consensus_tip_ext :: (countable, countable, countable, countable) countable
  by (rule countable_classI[of "\<lambda>r. to_nat (tip_block_header r, tip_signature r, tip_fresh_certificate r,
        consensus_tip.more r)"]) simp

instance high_extend :: (countable, countable, countable) countable
  by countable_datatype

instance timeout_certificate_ext :: (countable, countable, countable, countable) countable
  by (rule countable_classI[of "\<lambda>r. to_nat (tc_epoch r, tc_round r, tc_tip_rounds r, tc_high_extend r,
        timeout_certificate.more r)"]) simp

definition example_wire :: "(nop_signature, nop_signature multi_sig, unit) wire" where
  "example_wire =
     \<lparr>rlp_body = (\<lambda>_. []), rlp_qc = (\<lambda>qc. [to_nat qc]), rlp_tc = (\<lambda>tc. [to_nat tc]),
      rlp_nec = (\<lambda>nec. [to_nat nec]), rlp_consensus_message = (\<lambda>_. []), sig_validate = (\<lambda>_. True),
      st_pubkey = (\<lambda>k. k)\<rparr>"

definition example_lru :: "(nat \<times> bytes list) lru_ops" where
  "example_lru =
     \<lparr>lru_new = (\<lambda>n. (n, [])), lru_put = (\<lambda>k (n, ks). (n, take n (k # removeAll k ks))),
      lru_contains = (\<lambda>(n, ks) k. k \<in> set ks)\<rparr>"

definition example_vem :: validators_epoch_mapping where
  "example_vem = [(1, (example_vs, example_vm))]"

abbreviation example_etv :: etv where
  "example_etv \<equiv> epoch_to_validators example_em example_vem simple_get_leader"

lemma example_checks_ok:
  "checks_ok example_env (ms_valid (nop_ops example_hash)) example_wire example_lru example_etv"
proof -
  have "lru_ok example_lru"
    by (auto simp: lru_ok_def example_lru_def dest!: in_set_takeD split: if_splits)
  moreover have "wire_inj example_wire" by (simp add: wire_inj_def example_wire_def inj_def)
  moreover have "genesis_qc example_env \<noteq> None"
    by (simp add: genesis_qc_def example_env_def ms_new_def)
  moreover have "etv_ok example_etv"
    using example_vs_ok
    by (intro epoch_to_validators_ok)
       (auto simp: vem_wf_def hm_wf_def example_vem_def example_vm_def bt_wf_def simple_get_leader_def
          example_vs_def split: if_splits)
  ultimately show ?thesis using example_env_laws by (simp add: checks_ok_def)
qed

lemma example_etv_epoch1: "r < 17 \<Longrightarrow> \<exists>l. example_etv 1 r = Some (Inr (example_vs, example_vm, l))"
  by (simp add: epoch_to_validators_def get_epoch_def example_em_def get_val_set_def get_cert_pubkeys_def
      example_vem_def simple_get_leader_def example_vs_def ok_or_def ok_def)

section \<open>Properties\<close>

text \<open>
  C6: message validation is total and sound.  From a sound certificate cache, validating any
  verified message returns without panicking and leaves a sound cache, also when it rejects.
  A message it accepts has the client's version and is justified: its epoch is the local epoch
  of its round, and every certificate it carries is signed by a super majority of the
  validators of the certificate's epoch; a proposal or timeout of round r comes with a
  certificate of round r - 1.
\<close>
theorem message_validate_total_and_sound:
  assumes "checks_ok E valid W L (epoch_to_validators em vem get_leader)"
    and "cache_sound E valid W L (epoch_to_validators em vem get_leader) C"
  shows "\<exists>r C'. message_validate E W L em vem get_leader client_version v C = Some (r, C') \<and>
    cache_sound E valid W L (epoch_to_validators em vem get_leader) C' \<and>
    (\<forall>v'. r = Inr v' \<longrightarrow> v' = v \<and> cm_version (unv_obj (ver_message v)) = client_version \<and>
       message_ok E valid W em (epoch_to_validators em vem get_leader) (cm_message (unv_obj (ver_message v))))"
  using message_validate_safe[OF assms(1), of client_version v] assms(2) unfolding v_safe_def by blast

definition example_signed_qc :: "nop_signature multi_sig quorum_certificate" where
  "example_signed_qc =
     \<lparr>qc_info = example_vote,
      qc_signatures = \<lparr>ms_sigs = map snd (example_sigs DomainVote (rlp_vote example_env example_vote) [1, 2, 3])\<rparr>\<rparr>"

definition example_advance :: "(nop_signature, (nop_signature, nop_signature multi_sig, unit) consensus_message) verified" where
  "example_advance = consensus_message_sign example_env example_wire
     \<lparr>cm_version = 1, cm_message = MsgAdvanceRound \<lparr>ar_last_round_certificate = RcQc example_signed_qc\<rparr>\<rparr> 1"

theorem message_validate_total_and_sound_witness:
  "\<exists>r C'. message_validate example_env example_wire example_lru example_em example_vem simple_get_leader 1
            example_advance (certificate_cache_default example_lru) = Some (r, C') \<and>
    (\<forall>v'. r = Inr v' \<longrightarrow> v' = example_advance \<and>
       qc_ok example_env (ms_valid (nop_ops example_hash)) example_etv example_signed_qc)"
  using message_validate_total_and_sound[OF example_checks_ok cache_sound_default, of 1 example_advance]
    example_checks_ok
  by (auto simp: checks_ok_def example_advance_def consensus_message_sign_def)

text \<open>
  C12: a quorum certificate that vote collection builds is accepted by every node that has the
  same validators for its epoch, whatever is in the node's cache.
\<close>
theorem collected_qc_is_accepted:
  assumes "checks_ok E valid W L etv" "etv (vote_epoch (vmsg_vote msg)) (vote_round (vmsg_vote msg)) = Some (Inr (vals, vm, l))"
    and "vote_state_wf VM st" "vm = VM (vote_epoch (vmsg_vote msg))" "vm_inj vm" "n \<in> dom (bt_get vm)"
    and "GENESIS_ROUND < vote_round (vmsg_vote msg)" "vote_round (vmsg_vote msg) < u64_max"
    and "process_vote E st n msg vals vm = Some (st', Some qc)"
  shows "\<exists>C'. verify_qc E W L etv qc C = Some (Inr (), C')"
proof -
  note D = checks_okD[OF assms(1)]
  have "process_vote_ok E valid st n msg vals vm st' (Some qc)"
    using process_vote_correct[OF D(1) D(6)[OF assms(2)] D(7)[OF assms(2)] assms(3,4) D(8)[OF assms(2)] assms(6,8)]
      assms(9) by auto
  then obtain p where "qc_info qc = vmsg_vote msg" "super_majority vals (fst ` set p)"
    "sct_new E DomainVote p vm (rlp_vote E (qc_info qc)) = Inr (qc_signatures qc)"
    by (auto simp: process_vote_ok_def collected_def Let_def split: if_splits)
  then show ?thesis
    using assms(2,5,7) by (intro verify_qc_accepts[OF assms(1)]) (auto simp: get_round_def get_epoch_of_qc_def)
qed

definition example_vote_state :: "nop_signature vote_state" where
  "example_vote_state =
     \<lparr>vs_pending_votes =
        [(3, \<lparr>rvs_pending_votes = [(example_vote, example_sigs DomainVote (rlp_vote example_env example_vote) [1, 2])],
              rvs_node_votes = [], rvs_invalid_voters = []\<rparr>)],
      vs_earliest_round = 1\<rparr>"

lemma example_vote_state_wf: "vote_state_wf (\<lambda>_. example_vm) example_vote_state"
  by (auto simp: vote_state_wf_def example_vote_state_def bt_wf_def bt_keys_def example_sigs_def example_vm_def
      hm_wf_def split: if_splits)

lemma example_process_vote:
  "\<exists>st'. process_vote example_env example_vote_state 3 (vote_message_new example_env example_vote 103)
           example_vs example_vm = Some (st', Some example_signed_qc)"
  by (simp add: process_vote_def note_vote_def example_vote_state_def example_signed_qc_def example_vote_def
      vote_message_new_def example_sigs_def collect_loop.simps has_super_majority_votes_def has_threshold_votes_def
      calculate_current_stake_def List.map_filter_def stake_sum_def stake_add_def super_majority_threshold_def
      wrapping_add_def wrapping_mul_def checked_add_def ok_def example_vs_def bt_keys_def u256_max_def u64_max_def
      round_add_def example_env_simps Let_def)

theorem collected_qc_is_accepted_witness:
  "\<exists>C'. verify_qc example_env example_wire example_lru example_etv example_signed_qc
          (certificate_cache_default example_lru) = Some (Inr (), C')"
proof -
  obtain st' where v: "process_vote example_env example_vote_state 3 (vote_message_new example_env example_vote 103)
      example_vs example_vm = Some (st', Some example_signed_qc)" using example_process_vote by blast
  obtain l where l: "example_etv 1 3 = Some (Inr (example_vs, example_vm, l))" using example_etv_epoch1[of 3] by auto
  show ?thesis
    by (rule collected_qc_is_accepted[OF example_checks_ok _ example_vote_state_wf _ _ _ _ _ v, where l = l])
       (use l in \<open>simp_all add: vote_message_new_def example_vote_def vm_inj_def bt_wf_def example_vm_def dom_def
          GENESIS_ROUND_def u64_max_def\<close>)
qed

text \<open>
  C24: a timeout message the pacemaker prepares passes the well-formedness check of its
  receivers: its rank is the rank of the tip or quorum certificate it carries, and it carries
  the certificate of the round before it unless that quorum certificate is one.
\<close>
theorem local_timeout_is_well_formed:
  assumes "can_time_out pm saf" "timers_ok pm" "tip_inv saf"
  shows "\<exists>saf' c info he b rc d.
    local_timeout_round pm saf = Some (saf', [c, PcPrepareTimeout info he b rc, d]) \<and>
    well_formed_timeout (timeout_new E kp info he b rc) = ok ()"
proof -
  obtain saf' c info he b rc d where
    r: "local_timeout_round pm saf = Some (saf', [c, PcPrepareTimeout info he b rc, d])"
    using local_timeout_round_exact[OF assms(1,2)] by blast
  from r local_timeout_well_formed[OF assms r, of E kp] show ?thesis by blast
qed

theorem local_timeout_is_well_formed_witness:
  "\<exists>saf' c info he b rc d.
    local_timeout_round example_pm safety_default = Some (saf', [c, PcPrepareTimeout info he b rc, d]) \<and>
    well_formed_timeout (timeout_new example_env 101 info he b rc) = ok ()"
  by (rule local_timeout_is_well_formed)
     (simp_all add: timers_ok_def example_pm_def duration_max_def can_time_out_def safety_default_def
        GENESIS_ROUND_def get_round_def example_qc_def u64_max_def tip_inv_def)

end
