(* ===== verification/Block_Tree.thy ===== *)
theory Block_Tree
  imports Messages
begin

text \<open>
  The block tree: \<^verbatim>\<open>monad-blocktree/src/tree.rs\<close> and \<^verbatim>\<open>blocktree.rs\<close>, and the full blocks of
  \<^verbatim>\<open>monad-consensus-types/src/block.rs\<close> that it stores.

  The tree is a hash map from block ids to entries with child lists, and a reference-counted
  index of block bodies.  \<open>iter\<close> is the iteration order of the hash map and \<open>chk\<close> is the
  coherency check of the block policy; both are parameters.  Loops that follow parent or child
  links could in principle not end, so they are partial functions: \<^term>\<open>None\<close> is a panic or
  no result.
\<close>

section \<open>Blocks\<close>

record ('s, 'c, 'x) consensus_full_block =
  fb_header :: "('s, 'c, 'x) consensus_block_header"
  fb_body :: "'x consensus_block_body"

datatype consensus_full_block_error = HeaderPayloadMismatch

definition full_block_new ::
  "('s, 'c, 'x) env \<Rightarrow> ('s, 'c, 'x) wire \<Rightarrow> ('s, 'c, 'x) consensus_block_header \<Rightarrow> 'x consensus_block_body
     \<Rightarrow> consensus_full_block_error + ('s, 'c, 'x) consensus_full_block" where
  "full_block_new E W header body =
     (if body_get_id E W body \<noteq> block_body_id header then Inl HeaderPayloadMismatch
      else Inr \<lparr>fb_header = header, fb_body = body\<rparr>)"

definition fb_id :: "('s, 'c, 'x) env \<Rightarrow> ('s, 'c, 'x) consensus_full_block \<Rightarrow> block_id" where
  "fb_id E b = get_id E (fb_header b)"

definition fb_parent_id :: "('s, 'c, 'x) consensus_full_block \<Rightarrow> block_id" where
  "fb_parent_id b = get_block_id (bh_qc (fb_header b))"

definition fb_body_id :: "('s, 'c, 'x) consensus_full_block \<Rightarrow> body_id" where
  "fb_body_id b = block_body_id (fb_header b)"

definition fb_round :: "('s, 'c, 'x) consensus_full_block \<Rightarrow> round" where
  "fb_round b = block_round (fb_header b)"

definition fb_parent_round :: "('s, 'c, 'x) consensus_full_block \<Rightarrow> round" where
  "fb_parent_round b = get_round (bh_qc (fb_header b))"

definition fb_seq_num :: "('s, 'c, 'x) consensus_full_block \<Rightarrow> seq_num" where
  "fb_seq_num b = bh_seq_num (fb_header b)"

definition fb_timestamp :: "('s, 'c, 'x) consensus_full_block \<Rightarrow> nat" where
  "fb_timestamp b = timestamp_ns (fb_header b)"

record block_range =
  br_last_block_id :: block_id
  br_num_blocks :: seq_num

section \<open>The tree\<close>

record ('s, 'c, 'x) block_tree_entry =
  validated_block :: "('s, 'c, 'x) consensus_full_block"
  entry_coherent :: bool
  children_blocks :: "block_id list"

record 'x block_body_index =
  bbi_body :: "'x consensus_block_body"
  active_blocks :: "block_id list"

type_synonym ('s, 'c, 'x) entries = "(block_id, ('s, 'c, 'x) block_tree_entry) hash_map"

record ('s, 'c, 'x) tree =
  t_tree :: "('s, 'c, 'x) entries"
  t_payloads :: "(body_id, 'x block_body_index) hash_map"

definition tree_default :: "('s, 'c, 'x) tree" where
  "tree_default = \<lparr>t_tree = [], t_payloads = []\<rparr>"

abbreviation t_get :: "('s, 'c, 'x) tree \<Rightarrow> block_id \<Rightarrow> ('s, 'c, 'x) block_tree_entry option" where
  "t_get t k \<equiv> map_of (t_tree t) k"

definition set_coherent :: "('s, 'c, 'x) tree \<Rightarrow> block_id \<Rightarrow> bool \<Rightarrow> ('s, 'c, 'x) tree option" where
  "set_coherent t block_id coherent = do {
     e \<leftarrow> t_get t block_id;
     Some (t\<lparr>t_tree := AList.update block_id (e\<lparr>entry_coherent := coherent\<rparr>) (t_tree t)\<rparr>)
   }"

definition tree_remove ::
  "('s, 'c, 'x) tree \<Rightarrow> block_id \<Rightarrow> (('s, 'c, 'x) tree \<times> ('s, 'c, 'x) block_tree_entry option) option" where
  "tree_remove t block_id =
     (case t_get t block_id of
        None \<Rightarrow> Some (t, None)
      | Some removed \<Rightarrow> do {
          let payload_id = fb_body_id (validated_block removed);
          payload_index \<leftarrow> map_of (t_payloads t) payload_id;
          _ \<leftarrow> assert_p (block_id \<in> set (active_blocks payload_index));
          let active = removeAll block_id (active_blocks payload_index);
          Some (t\<lparr>t_tree := AList.delete block_id (t_tree t),
                  t_payloads := (if active = [] then AList.delete payload_id (t_payloads t)
                                 else AList.update payload_id (payload_index\<lparr>active_blocks := active\<rparr>) (t_payloads t))\<rparr>,
                Some removed)
        })"

definition tree_insert ::
  "('s, 'c, 'x) env \<Rightarrow> (('s, 'c, 'x) entries \<Rightarrow> ('s, 'c, 'x) entries) \<Rightarrow> ('s, 'c, 'x) tree
     \<Rightarrow> ('s, 'c, 'x) consensus_full_block \<Rightarrow> ('s, 'c, 'x) tree option" where
  "tree_insert E iter t block = do {
     let new_block_id = fb_id E block;
     let parent_id = fb_parent_id block;
     let body_id = fb_body_id block;
     let children = map fst (filter (\<lambda>e. fb_parent_id (validated_block (snd e)) = new_block_id) (iter (t_tree t)));
     let new_entry = \<lparr>validated_block = block, entry_coherent = False, children_blocks = children\<rparr>;
     _ \<leftarrow> assert_p (t_get t new_block_id = None);
     let tree = AList.update new_block_id new_entry (t_tree t);
     let tree = (case map_of tree parent_id of
                   None \<Rightarrow> tree
                 | Some parent_entry \<Rightarrow>
                     AList.update parent_id
                       (parent_entry\<lparr>children_blocks := children_blocks parent_entry @ [new_block_id]\<rparr>) tree);
     let index = entry_or \<lparr>bbi_body = fb_body block, active_blocks = []\<rparr> (map_of (t_payloads t) body_id);
     _ \<leftarrow> assert_p (new_block_id \<notin> set (active_blocks index));
     Some \<lparr>t_tree = tree,
           t_payloads = AList.update body_id
             (index\<lparr>active_blocks := new_block_id # active_blocks index\<rparr>) (t_payloads t)\<rparr>
   }"

definition tree_get_payload :: "('s, 'c, 'x) tree \<Rightarrow> body_id \<Rightarrow> 'x consensus_block_body option" where
  "tree_get_payload t body_id = map_option bbi_body (map_of (t_payloads t) body_id)"

lemma delete_shrinks:
  assumes "map_of al k \<noteq> None"
  shows "length (AList.delete k al) < length al"
proof -
  obtain v where "(k, v) \<in> set al" using assms by (auto dest: map_of_SomeD)
  then show ?thesis unfolding AList.delete_eq by (intro length_filter_less[of "(k, v)"]) auto
qed

lemma tree_remove_shrinks:
  "tree_remove t k = Some (t', Some e) \<Longrightarrow> length (t_tree t') < length (t_tree t)"
  by (auto simp: tree_remove_def Let_def bind_eq_Some_conv delete_shrinks split: option.splits)

section \<open>The block tree\<close>

record ('s, 'c, 'x) block_tree =
  bt_root :: root_info
  bt_root_children :: "block_id list"
  bt_tree :: "('s, 'c, 'x) tree"

abbreviation root_id :: "('s, 'c, 'x) block_tree \<Rightarrow> block_id" where
  "root_id T \<equiv> ri_block_id (bt_root T)"

abbreviation bt_entry :: "('s, 'c, 'x) block_tree \<Rightarrow> block_id \<Rightarrow> ('s, 'c, 'x) block_tree_entry option" where
  "bt_entry T k \<equiv> t_get (bt_tree T) k"

definition block_tree_new :: "root_info \<Rightarrow> ('s, 'c, 'x) block_tree" where
  "block_tree_new root = \<lparr>bt_root = root, bt_root_children = [], bt_tree = tree_default\<rparr>"

definition is_coherent :: "('s, 'c, 'x) block_tree \<Rightarrow> block_id \<Rightarrow> bool" where
  "is_coherent T b =
     (if b = root_id T then True
      else (case bt_entry T b of Some e \<Rightarrow> entry_coherent e | None \<Rightarrow> False))"

function prune_loop ::
  "block_id \<Rightarrow> ('s, 'c, 'x) tree \<Rightarrow> ('s, 'c, 'x) block_tree_entry \<Rightarrow> ('s, 'c, 'x) consensus_full_block list
     \<Rightarrow> (('s, 'c, 'x) tree \<times> ('s, 'c, 'x) consensus_full_block list) option" where
  "prune_loop root t entry_to_commit commit =
     (if \<not> entry_coherent entry_to_commit then None
      else
        (let block = validated_block entry_to_commit; parent_id = fb_parent_id block; commit = commit @ [block]
         in if parent_id = root then Some (t, commit)
            else (case tree_remove t parent_id of
                    Some (t', Some e) \<Rightarrow> prune_loop root t' e commit
                  | _ \<Rightarrow> None)))"
  by pat_completeness auto
termination
  by (relation "measure (\<lambda>(_, t, _, _). length (t_tree t))") (auto simp: tree_remove_shrinks)

declare prune_loop.simps [simp del]

fun tree_remove_all :: "('s, 'c, 'x) tree \<Rightarrow> block_id list \<Rightarrow> ('s, 'c, 'x) tree option" where
  "tree_remove_all t [] = Some t"
| "tree_remove_all t (b # bs) = do {
     (t', _) \<leftarrow> tree_remove t b;
     tree_remove_all t' bs
   }"

definition root_info_of :: "('s, 'c, 'x) env \<Rightarrow> ('s, 'c, 'x) consensus_full_block \<Rightarrow> root_info" where
  "root_info_of E b =
     \<lparr>ri_round = fb_round b, ri_seq_num = fb_seq_num b, ri_epoch = bh_epoch (fb_header b),
      ri_block_id = fb_id E b, ri_timestamp_ns = fb_timestamp b\<rparr>"

definition prune ::
  "('s, 'c, 'x) env \<Rightarrow> (('s, 'c, 'x) entries \<Rightarrow> ('s, 'c, 'x) entries) \<Rightarrow> ('s, 'c, 'x) block_tree \<Rightarrow> block_id
     \<Rightarrow> (('s, 'c, 'x) block_tree \<times> ('s, 'c, 'x) consensus_full_block list) option" where
  "prune E iter T new_root = do {
     _ \<leftarrow> assert_p (is_coherent T new_root);
     if new_root = root_id T then Some (T, [])
     else do {
       (t, removed) \<leftarrow> tree_remove (bt_tree T) new_root;
       new_root_entry \<leftarrow> removed;
       (t, commit) \<leftarrow> prune_loop (root_id T) t new_root_entry [];
       let blocks_to_delete =
         map fst (filter (\<lambda>e. fb_parent_round (validated_block (snd e))
                               < fb_round (validated_block new_root_entry)) (iter (t_tree t)));
       t \<leftarrow> tree_remove_all t blocks_to_delete;
       Some (\<lparr>bt_root = root_info_of E (validated_block new_root_entry),
              bt_root_children = children_blocks new_root_entry, bt_tree = t\<rparr>,
             rev commit)
     }
   }"

definition is_valid_to_insert :: "('s, 'c, 'x) env \<Rightarrow> ('s, 'c, 'x) block_tree \<Rightarrow> ('s, 'c, 'x) consensus_block_header \<Rightarrow> bool" where
  "is_valid_to_insert E T h \<longleftrightarrow> bt_entry T (get_id E h) = None \<and> block_round h > ri_round (bt_root T)"

definition bt_add ::
  "('s, 'c, 'x) env \<Rightarrow> (('s, 'c, 'x) entries \<Rightarrow> ('s, 'c, 'x) entries) \<Rightarrow> ('s, 'c, 'x) block_tree
     \<Rightarrow> ('s, 'c, 'x) consensus_full_block \<Rightarrow> ('s, 'c, 'x) block_tree option" where
  "bt_add E iter T block =
     (if \<not> is_valid_to_insert E T (fb_header block) then Some T
      else do {
        t \<leftarrow> tree_insert E iter (bt_tree T) block;
        Some (T\<lparr>bt_tree := t,
                bt_root_children :=
                  (if fb_parent_id block = root_id T then bt_root_children T @ [fb_id E block]
                   else bt_root_children T)\<rparr>)
      })"

section \<open>Paths\<close>

partial_function (option) path_loop ::
  "('s, 'c, 'x) block_tree \<Rightarrow> block_id \<Rightarrow> ('s, 'c, 'x) consensus_full_block list
     \<Rightarrow> ('s, 'c, 'x) consensus_full_block list option option" where
  "path_loop T visit blocks =
     (case bt_entry T visit of
        None \<Rightarrow> Some None
      | Some e \<Rightarrow>
          if fb_parent_id (validated_block e) = root_id T then Some (Some (rev (blocks @ [validated_block e])))
          else path_loop T (fb_parent_id (validated_block e)) (blocks @ [validated_block e]))"

declare path_loop.simps [code]

definition get_blocks_on_path_from_root ::
  "('s, 'c, 'x) block_tree \<Rightarrow> block_id \<Rightarrow> ('s, 'c, 'x) consensus_full_block list option option" where
  "get_blocks_on_path_from_root T b = (if b = root_id T then Some (Some []) else path_loop T b [])"

definition get_highest_coherent_block_on_path_from_root ::
  "('s, 'c, 'x) env \<Rightarrow> ('s, 'c, 'x) block_tree \<Rightarrow> block_id \<Rightarrow> ('s, 'c, 'x) consensus_full_block option option" where
  "get_highest_coherent_block_on_path_from_root E T b = do {
     path \<leftarrow> get_blocks_on_path_from_root T b;
     Some (case path of
             None \<Rightarrow> None
           | Some bs \<Rightarrow> find (\<lambda>block. is_coherent T (fb_id E block)) (rev bs))
   }"

partial_function (option) parent_chain_loop ::
  "('s, 'c, 'x) block_tree \<Rightarrow> ('s, 'c, 'x) consensus_full_block list
     \<Rightarrow> ('s, 'c, 'x) consensus_full_block list option" where
  "parent_chain_loop T chain =
     (case bt_entry T (fb_parent_id (last chain)) of
        None \<Rightarrow> Some (rev chain)
      | Some p \<Rightarrow> parent_chain_loop T (chain @ [validated_block p]))"

declare parent_chain_loop.simps [code]

definition get_parent_block_chain ::
  "('s, 'c, 'x) block_tree \<Rightarrow> block_id \<Rightarrow> ('s, 'c, 'x) consensus_full_block list option" where
  "get_parent_block_chain T b =
     (case bt_entry T b of
        None \<Rightarrow> Some []
      | Some e \<Rightarrow> parent_chain_loop T [validated_block e])"

partial_function (option) fill_loop ::
  "('s, 'c, 'x) block_tree \<Rightarrow> block_id \<Rightarrow> seq_num \<Rightarrow> block_range option option" where
  "fill_loop T maybe_unknown_bid num_blocks =
     (case bt_entry T maybe_unknown_bid of
        None \<Rightarrow> Some (Some \<lparr>br_last_block_id = maybe_unknown_bid, br_num_blocks = num_blocks\<rparr>)
      | Some known \<Rightarrow>
          if fb_parent_id (validated_block known) = root_id T then Some None
          else
            Option.bind (seq_num_sub (fb_seq_num (validated_block known)) (ri_seq_num (bt_root T))) (\<lambda>d.
            Option.bind (seq_num_sub (max d 2) 1) (\<lambda>n.
              fill_loop T (fb_parent_id (validated_block known)) n)))"

declare fill_loop.simps [code]

definition maybe_fill_path_to_root ::
  "('s, 'c, 'x) block_tree \<Rightarrow> 'c quorum_certificate \<Rightarrow> block_range option option" where
  "maybe_fill_path_to_root T qc =
     (if ri_round (bt_root T) \<ge> get_round qc \<or> root_id T = get_block_id qc then Some None
      else fill_loop T (get_block_id qc) 1)"

section \<open>Lookups\<close>

definition get_seq_num_of_qc :: "('s, 'c, 'x) block_tree \<Rightarrow> 'c quorum_certificate \<Rightarrow> seq_num option" where
  "get_seq_num_of_qc T qc =
     (if root_id T = get_block_id qc then Some (ri_seq_num (bt_root T))
      else map_option (\<lambda>e. fb_seq_num (validated_block e)) (bt_entry T (get_block_id qc)))"

definition get_timestamp_of_qc :: "('s, 'c, 'x) block_tree \<Rightarrow> 'c quorum_certificate \<Rightarrow> nat option" where
  "get_timestamp_of_qc T qc =
     (if root_id T = get_block_id qc then Some (ri_timestamp_ns (bt_root T))
      else map_option (\<lambda>e. fb_timestamp (validated_block e)) (bt_entry T (get_block_id qc)))"

definition get_block_round_of_qc :: "('s, 'c, 'x) block_tree \<Rightarrow> 'c quorum_certificate \<Rightarrow> round option" where
  "get_block_round_of_qc T qc =
     (if root_id T = get_block_id qc then Some (ri_round (bt_root T))
      else map_option (\<lambda>e. fb_round (validated_block e)) (bt_entry T (get_block_id qc)))"

definition get_block :: "('s, 'c, 'x) block_tree \<Rightarrow> block_id \<Rightarrow> ('s, 'c, 'x) consensus_full_block option" where
  "get_block T block_id = map_option validated_block (bt_entry T block_id)"

definition bt_size :: "('s, 'c, 'x) block_tree \<Rightarrow> nat" where
  "bt_size T = length (t_tree (bt_tree T))"

section \<open>Coherency\<close>

type_synonym ('s, 'c, 'x, 'e) coherency_check =
  "('s, 'c, 'x) consensus_full_block \<Rightarrow> ('s, 'c, 'x) consensus_full_block list \<Rightarrow> root_info \<Rightarrow> 'e + unit"

partial_function (option) coherency_loop ::
  "('s, 'c, 'x, 'e) coherency_check \<Rightarrow> ('s, 'c, 'x) block_tree \<Rightarrow> block_id list
     \<Rightarrow> ('s, 'c, 'x) consensus_full_block list
     \<Rightarrow> (('s, 'c, 'x) block_tree \<times> ('s, 'c, 'x) consensus_full_block list) option" where
  "coherency_loop chk T queue retval =
     (case queue of
        [] \<Rightarrow> Some (T, retval)
      | next_block_id # rest \<Rightarrow>
          Option.bind (get_blocks_on_path_from_root T next_block_id) (\<lambda>path.
            case path of
              None \<Rightarrow> None
            | Some bs \<Rightarrow>
                if bs = [] then None
                else (case chk (last bs) (butlast bs) (bt_root T) of
                        Inl _ \<Rightarrow> coherency_loop chk T rest retval
                      | Inr _ \<Rightarrow>
                          Option.bind (set_coherent (bt_tree T) next_block_id True) (\<lambda>t.
                          Option.bind (t_get t next_block_id) (\<lambda>e.
                            coherency_loop chk (T\<lparr>bt_tree := t\<rparr>) (rest @ children_blocks e)
                              (retval @ [last bs]))))))"

declare coherency_loop.simps [code]

fun find_incoherent ::
  "('s, 'c, 'x) env \<Rightarrow> ('s, 'c, 'x) block_tree \<Rightarrow> ('s, 'c, 'x) consensus_full_block list
     \<Rightarrow> ('s, 'c, 'x) consensus_full_block option option" where
  "find_incoherent E T [] = Some None"
| "find_incoherent E T (b # bs) = do {
     e \<leftarrow> bt_entry T (fb_id E b);
     if \<not> entry_coherent e then Some (Some b) else find_incoherent E T bs
   }"

definition bt_try_update_coherency ::
  "('s, 'c, 'x) env \<Rightarrow> ('s, 'c, 'x, 'e) coherency_check \<Rightarrow> ('s, 'c, 'x) block_tree \<Rightarrow> block_id
     \<Rightarrow> (('s, 'c, 'x) block_tree \<times> ('s, 'c, 'x) consensus_full_block list) option" where
  "bt_try_update_coherency E chk T block_id = do {
     path \<leftarrow> get_blocks_on_path_from_root T block_id;
     case path of
       None \<Rightarrow> Some (T, [])
     | Some path_from_root \<Rightarrow> do {
         incoherent \<leftarrow> find_incoherent E T path_from_root;
         case incoherent of
           None \<Rightarrow> Some (T, [])
         | Some incoherent_parent_or_self \<Rightarrow> coherency_loop chk T [fb_id E incoherent_parent_or_self] []
       }
   }"

partial_function (option) committable_loop ::
  "('s, 'c, 'x) env \<Rightarrow> ('s, 'c, 'x) block_tree \<Rightarrow> block_id list \<Rightarrow> 'c quorum_certificate option
     \<Rightarrow> 'c quorum_certificate option option" where
  "committable_loop E T queue high =
     (case queue of
        [] \<Rightarrow> Some high
      | bid # rest \<Rightarrow>
          Option.bind (bt_entry T bid) (\<lambda>block.
            let queue' = rest @ children_blocks block; qc = bh_qc (fb_header (validated_block block)) in
            if (case high of Some h \<Rightarrow> get_round h \<ge> get_round qc | None \<Rightarrow> False) then committable_loop E T queue' high
            else (case bt_entry T (get_block_id qc) of
                    None \<Rightarrow> committable_loop E T queue' high
                  | Some qc_parent_block \<Rightarrow>
                      Option.bind (get_committable_id E qc (fb_header (validated_block qc_parent_block))) (\<lambda>cid.
                        case cid of
                          None \<Rightarrow> committable_loop E T queue' high
                        | Some committable_block_id \<Rightarrow>
                            if committable_block_id = root_id T then committable_loop E T queue' high
                            else if \<not> is_coherent T committable_block_id then committable_loop E T queue' high
                            else committable_loop E T queue' (Some qc)))))"

declare committable_loop.simps [code]

definition get_high_committable_qc ::
  "('s, 'c, 'x) env \<Rightarrow> ('s, 'c, 'x) block_tree \<Rightarrow> 'c quorum_certificate option option" where
  "get_high_committable_qc E T = committable_loop E T (bt_root_children T) None"

fun best_child :: "('s, 'c, 'x) block_tree \<Rightarrow> block_id list \<Rightarrow> block_id \<times> round \<Rightarrow> block_id list
    \<Rightarrow> (block_id \<times> round) \<times> block_id list" where
  "best_child T [] best queue = (best, queue)"
| "best_child T (child_id # rest) best queue =
     (if \<not> is_coherent T child_id then best_child T rest best queue
      else (case bt_entry T child_id of
              None \<Rightarrow> best_child T rest best queue
            | Some e \<Rightarrow>
                best_child T rest
                  (if fb_round (validated_block e) > snd best then (child_id, fb_round (validated_block e)) else best)
                  (queue @ [child_id])))"

partial_function (option) descendant_loop ::
  "('s, 'c, 'x) block_tree \<Rightarrow> block_id list \<Rightarrow> block_id \<times> round \<Rightarrow> block_id option" where
  "descendant_loop T queue best =
     (case queue of
        [] \<Rightarrow> Some (fst best)
      | current_id # rest \<Rightarrow>
          if current_id = root_id T then
            (case best_child T (bt_root_children T) best rest of (best', queue') \<Rightarrow> descendant_loop T queue' best')
          else (case bt_entry T current_id of
                  None \<Rightarrow> descendant_loop T rest best
                | Some e \<Rightarrow>
                    (case best_child T (children_blocks e) best rest of
                       (best', queue') \<Rightarrow> descendant_loop T queue' best')))"

declare descendant_loop.simps [code]

definition highest_round_coherent_descendant ::
  "('s, 'c, 'x) block_tree \<Rightarrow> block_id \<Rightarrow> block_id option" where
  "highest_round_coherent_descendant T b =
     (if b = root_id T then descendant_loop T [b] (b, ri_round (bt_root T))
      else (case bt_entry T b of
              None \<Rightarrow> Some b
            | Some e \<Rightarrow> descendant_loop T [b] (b, fb_round (validated_block e))))"

definition get_canonical_coherent_tip ::
  "('s, 'c, 'x) env \<Rightarrow> ('s, 'c, 'x) block_tree \<Rightarrow> 'c quorum_certificate \<Rightarrow> block_id option" where
  "get_canonical_coherent_tip E T high_cert_qc = do {
     path \<leftarrow> get_blocks_on_path_from_root T (get_block_id high_cert_qc);
     case path of
       None \<Rightarrow> highest_round_coherent_descendant T (root_id T)
     | Some bs \<Rightarrow>
         (case find (\<lambda>block. is_coherent T (fb_id E block)) (rev bs) of
            None \<Rightarrow> Some (root_id T)
          | Some coherent_tip \<Rightarrow>
              if fb_id E coherent_tip = get_block_id high_cert_qc
              then highest_round_coherent_descendant T (fb_id E coherent_tip)
              else Some (fb_id E coherent_tip))
   }"

end
