(* ===== verification/Block_Tree_Correct.thy ===== *)
theory Block_Tree_Correct
  imports Block_Tree
begin

text \<open>
  Correctness of the block tree.  \<open>tree_wf\<close> is the invariant of the entry map and the
  reference-counted bodies; \<open>bt_inv\<close> adds the links: child lists are exact, rounds grow along
  them, and a coherent block has only coherent ancestors.  Every operation keeps it, every loop
  ends, and \<open>prune\<close> commits the chain to the new root and keeps the blocks whose parent round is
  not below it, among them all descendants of the committed block.
\<close>

section \<open>The entry map and the body index\<close>

definition payload_refs :: "('s, 'c, 'x) tree \<Rightarrow> body_id \<Rightarrow> block_id list" where
  "payload_refs t bid = (case map_of (t_payloads t) bid of None \<Rightarrow> [] | Some idx \<Rightarrow> active_blocks idx)"

definition tree_wf :: "('s, 'c, 'x) env \<Rightarrow> ('s, 'c, 'x) tree \<Rightarrow> bool" where
  "tree_wf E t \<longleftrightarrow>
     hm_wf (t_tree t) \<and> hm_wf (t_payloads t) \<and>
     (\<forall>k e. t_get t k = Some e \<longrightarrow> fb_id E (validated_block e) = k) \<and>
     (\<forall>bid idx. map_of (t_payloads t) bid = Some idx \<longrightarrow> active_blocks idx \<noteq> []) \<and>
     (\<forall>bid k. k \<in> set (payload_refs t bid) \<longleftrightarrow>
        (\<exists>e. t_get t k = Some e \<and> fb_body_id (validated_block e) = bid))"

definition iter_ok :: "(('s, 'c, 'x) entries \<Rightarrow> ('s, 'c, 'x) entries) \<Rightarrow> bool" where
  "iter_ok iter \<longleftrightarrow> (\<forall>m. set (iter m) = set m \<and> (hm_wf m \<longrightarrow> hm_wf (iter m)))"

lemma tree_wf_default: "tree_wf E tree_default"
  by (simp add: tree_wf_def tree_default_def hm_wf_def payload_refs_def)

lemma tree_wfD:
  assumes "tree_wf E t"
  shows "hm_wf (t_tree t)" "hm_wf (t_payloads t)"
    and "t_get t k = Some e \<Longrightarrow> fb_id E (validated_block e) = k"
    and "map_of (t_payloads t) bid = Some idx \<Longrightarrow> active_blocks idx \<noteq> []"
    and "k \<in> set (payload_refs t bid) \<longleftrightarrow> (\<exists>e. t_get t k = Some e \<and> fb_body_id (validated_block e) = bid)"
  using assms unfolding tree_wf_def by blast+

lemma hm_wf_update [simp]: "hm_wf m \<Longrightarrow> hm_wf (AList.update k v m)"
  by (simp add: hm_wf_def distinct_update)

lemma hm_wf_delete [simp]: "hm_wf m \<Longrightarrow> hm_wf (AList.delete k m)"
  by (simp add: hm_wf_def distinct_delete)

lemma hm_in_set: "hm_wf m \<Longrightarrow> (k, v) \<in> set m \<longleftrightarrow> map_of m k = Some v"
  unfolding hm_wf_def by (meson map_of_SomeD map_of_is_SomeI)

lemma tree_remove_ok:
  assumes "tree_wf E t" "t_get t k = Some e"
  shows "\<exists>t'. tree_remove t k = Some (t', Some e) \<and> tree_wf E t' \<and> map_of (t_tree t') = (map_of (t_tree t))(k := None)"
proof -
  note D = tree_wfD[OF assms(1)]
  let ?p = "fb_body_id (validated_block e)"
  have "k \<in> set (payload_refs t ?p)" using D(5)[of k ?p] assms(2) by blast
  then obtain idx where idx: "map_of (t_payloads t) ?p = Some idx" "k \<in> set (active_blocks idx)"
    by (cases "map_of (t_payloads t) ?p") (auto simp: payload_refs_def)
  let ?a = "removeAll k (active_blocks idx)"
  let ?t = "t\<lparr>t_tree := AList.delete k (t_tree t),
              t_payloads := (if ?a = [] then AList.delete ?p (t_payloads t)
                             else AList.update ?p (idx\<lparr>active_blocks := ?a\<rparr>) (t_payloads t))\<rparr>"
  have r: "tree_remove t k = Some (?t, Some e)" using assms(2) idx by (simp add: tree_remove_def Let_def)
  have m: "map_of (t_tree ?t) = (map_of (t_tree t))(k := None)" by (simp add: delete_conv')
  have refs: "payload_refs ?t bid = (if bid = ?p then ?a else payload_refs t bid)" for bid
    by (auto simp: payload_refs_def delete_conv' update_conv' idx(1))
  have "j \<in> set (payload_refs ?t bid) \<longleftrightarrow> (\<exists>f. t_get ?t j = Some f \<and> fb_body_id (validated_block f) = bid)" for j bid
    unfolding refs m using D(5)[of j bid] idx assms(2)
    by (cases "bid = ?p") (auto simp: payload_refs_def)
  moreover have "active_blocks i \<noteq> []" if "map_of (t_payloads ?t) bid = Some i" for bid i
    using that D(4)[of bid i] by (auto simp: delete_conv' update_conv' split: if_splits)
  moreover have "fb_id E (validated_block f) = j" if "t_get ?t j = Some f" for j f
    using that D(3)[of j f] by (auto simp: delete_conv' split: if_splits)
  ultimately have "tree_wf E ?t" unfolding tree_wf_def using D(1,2) by simp
  with r m show ?thesis by blast
qed

lemma tree_remove_none: "t_get t k = None \<Longrightarrow> tree_remove t k = Some (t, None)"
  by (simp add: tree_remove_def)

lemma tree_remove_all_ok:
  assumes "tree_wf E t"
  shows "\<exists>t'. tree_remove_all t ks = Some t' \<and> tree_wf E t' \<and>
    map_of (t_tree t') = (\<lambda>k. if k \<in> set ks then None else t_get t k)"
  using assms
proof (induction ks arbitrary: t)
  case (Cons k ks)
  obtain t1 r where t1: "tree_remove t k = Some (t1, r)" "tree_wf E t1" "map_of (t_tree t1) = (map_of (t_tree t))(k := None)"
    using tree_remove_ok[OF Cons.prems, of k] tree_remove_none[of t k] Cons.prems
    by (cases "t_get t k") (auto simp: fun_eq_iff)
  then show ?case using Cons.IH[OF t1(2)] by (auto simp: fun_eq_iff)
qed simp

lemma tree_insert_ok:
  assumes "tree_wf E t" "iter_ok iter" "t_get t (fb_id E b) = None" "fb_parent_id b \<noteq> fb_id E b"
  shows "\<exists>t' cs. tree_insert E iter t b = Some t' \<and> tree_wf E t' \<and> distinct cs \<and>
    (\<forall>c. c \<in> set cs \<longleftrightarrow> (\<exists>f. t_get t c = Some f \<and> fb_parent_id (validated_block f) = fb_id E b)) \<and>
    map_of (t_tree t') = (\<lambda>k.
      if k = fb_id E b then Some \<lparr>validated_block = b, entry_coherent = False, children_blocks = cs\<rparr>
      else if k = fb_parent_id b
      then map_option (\<lambda>e. e\<lparr>children_blocks := children_blocks e @ [fb_id E b]\<rparr>) (t_get t k)
      else t_get t k)"
proof -
  note D = tree_wfD[OF assms(1)]
  let ?id = "fb_id E b" and ?par = "fb_parent_id b" and ?bid = "fb_body_id b"
  let ?cs = "map fst (filter (\<lambda>e. fb_parent_id (validated_block (snd e)) = ?id) (iter (t_tree t)))"
  let ?idx = "entry_or \<lparr>bbi_body = fb_body b, active_blocks = []\<rparr> (map_of (t_payloads t) ?bid)"
  have it: "set (iter (t_tree t)) = set (t_tree t)" "distinct (map fst (iter (t_tree t)))"
    using assms(2) D(1) by (auto simp: iter_ok_def hm_wf_def)
  have cs: "c \<in> set ?cs \<longleftrightarrow> (\<exists>f. t_get t c = Some f \<and> fb_parent_id (validated_block f) = ?id)" for c
    using hm_in_set[OF D(1)] it(1) by (force simp: image_iff)
  have dcs: "distinct ?cs" using it(2) by (simp add: distinct_map_filter)
  have act: "active_blocks ?idx = payload_refs t ?bid" by (auto simp: payload_refs_def split: option.splits)
  have "?id \<notin> set (payload_refs t ?bid)" using D(5)[of ?id ?bid] assms(3) by simp
  then obtain t' where t': "tree_insert E iter t b = Some t'"
    "map_of (t_tree t') = (\<lambda>k. if k = ?id then Some \<lparr>validated_block = b, entry_coherent = False, children_blocks = ?cs\<rparr>
      else if k = ?par then map_option (\<lambda>e. e\<lparr>children_blocks := children_blocks e @ [?id]\<rparr>) (t_get t k)
      else t_get t k)"
    "hm_wf (t_tree t')" "t_payloads t' = AList.update ?bid (?idx\<lparr>active_blocks := ?id # payload_refs t ?bid\<rparr>) (t_payloads t)"
    using assms(3,4) D(1)
    by (cases "t_get t ?par") (auto simp: tree_insert_def Let_def act update_conv' fun_eq_iff)
  have body: "(\<exists>e. t_get t' j = Some e \<and> fb_body_id (validated_block e) = bid) \<longleftrightarrow>
      (j = ?id \<and> bid = ?bid \<or> (\<exists>e. t_get t j = Some e \<and> fb_body_id (validated_block e) = bid))" for j bid
    unfolding t'(2) using assms(3,4) by (cases "j = ?par") auto
  have refs: "payload_refs t' bid = (if bid = ?bid then ?id # payload_refs t ?bid else payload_refs t bid)" for bid
    by (auto simp: payload_refs_def t'(4) update_conv')
  have "j \<in> set (payload_refs t' bid) \<longleftrightarrow> (\<exists>e. t_get t' j = Some e \<and> fb_body_id (validated_block e) = bid)" for j bid
    unfolding body refs using D(5)[of j bid] by auto
  moreover have "active_blocks i \<noteq> []" if "map_of (t_payloads t') x = Some i" for x i
    using that D(4)[of x i] unfolding t'(4) by (auto simp: update_conv' split: if_splits)
  moreover have "fb_id E (validated_block f) = j" if "t_get t' j = Some f" for j f
    using that D(3)[of j] unfolding t'(2) by (auto split: if_splits)
  ultimately have "tree_wf E t'" unfolding tree_wf_def using t'(3) D(2) by (simp add: t'(4))
  then show ?thesis using t'(1,2) cs dcs by blast
qed

lemma set_coherent_ok:
  assumes "tree_wf E t" "t_get t k = Some e"
  shows "\<exists>t'. set_coherent t k v = Some t' \<and> tree_wf E t' \<and>
    map_of (t_tree t') = (map_of (t_tree t))(k \<mapsto> e\<lparr>entry_coherent := v\<rparr>)"
proof -
  note D = tree_wfD[OF assms(1)]
  let ?t = "t\<lparr>t_tree := AList.update k (e\<lparr>entry_coherent := v\<rparr>) (t_tree t)\<rparr>"
  have m: "map_of (t_tree ?t) = (map_of (t_tree t))(k \<mapsto> e\<lparr>entry_coherent := v\<rparr>)" by (simp add: update_conv')
  have b: "(\<exists>f. t_get ?t j = Some f \<and> P (validated_block f)) \<longleftrightarrow> (\<exists>f. t_get t j = Some f \<and> P (validated_block f))" for j P
    unfolding m using assms(2) by (cases "j = k") auto
  have "tree_wf E ?t"
    unfolding tree_wf_def b using D(1,2,4,5) D(3)[of _ e] D(3) assms(2)
    by (auto simp: update_conv' payload_refs_def split: if_splits)
  then show ?thesis using assms(2) m by (simp add: set_coherent_def)
qed

section \<open>The links\<close>

definition child_of :: "('s, 'c, 'x) block_tree \<Rightarrow> block_id \<Rightarrow> block_id \<Rightarrow> bool" where
  "child_of T k c \<longleftrightarrow> (\<exists>f. bt_entry T c = Some f \<and> fb_parent_id (validated_block f) = k)"

definition entry_ok :: "('s, 'c, 'x) block_tree \<Rightarrow> block_id \<Rightarrow> ('s, 'c, 'x) block_tree_entry \<Rightarrow> bool" where
  "entry_ok T k e \<longleftrightarrow>
     (let b = validated_block e in
      fb_parent_round b < fb_round b \<and> ri_round (bt_root T) < fb_round b \<and>
      distinct (children_blocks e) \<and> (\<forall>c. c \<in> set (children_blocks e) \<longleftrightarrow> child_of T k c) \<and>
      (fb_parent_id b = root_id T \<longrightarrow> ri_round (bt_root T) \<le> fb_parent_round b) \<and>
      (\<forall>p. bt_entry T (fb_parent_id b) = Some p \<longrightarrow> fb_round (validated_block p) \<le> fb_parent_round b) \<and>
      (entry_coherent e \<longrightarrow> is_coherent T (fb_parent_id b)))"

definition bt_inv :: "('s, 'c, 'x) env \<Rightarrow> ('s, 'c, 'x) block_tree \<Rightarrow> bool" where
  "bt_inv E T \<longleftrightarrow>
     tree_wf E (bt_tree T) \<and> bt_entry T (root_id T) = None \<and> distinct (bt_root_children T) \<and>
     (\<forall>c. c \<in> set (bt_root_children T) \<longleftrightarrow> child_of T (root_id T) c) \<and>
     (\<forall>k e. bt_entry T k = Some e \<longrightarrow> entry_ok T k e)"

lemma bt_invD:
  assumes "bt_inv E T"
  shows "tree_wf E (bt_tree T)" "bt_entry T (root_id T) = None" "distinct (bt_root_children T)"
    and "c \<in> set (bt_root_children T) \<longleftrightarrow> child_of T (root_id T) c"
    and "bt_entry T k = Some e \<Longrightarrow> entry_ok T k e"
    and "bt_entry T k = Some e \<Longrightarrow> fb_id E (validated_block e) = k"
  using assms tree_wfD(3)[of E "bt_tree T" k e] unfolding bt_inv_def by blast+

lemma entry_okD:
  assumes "entry_ok T k e"
  shows "fb_parent_round (validated_block e) < fb_round (validated_block e)"
    and "ri_round (bt_root T) < fb_round (validated_block e)"
    and "distinct (children_blocks e)" "c \<in> set (children_blocks e) \<longleftrightarrow> child_of T k c"
    and "fb_parent_id (validated_block e) = root_id T \<Longrightarrow> ri_round (bt_root T) \<le> fb_parent_round (validated_block e)"
    and "bt_entry T (fb_parent_id (validated_block e)) = Some p \<Longrightarrow>
           fb_round (validated_block p) \<le> fb_parent_round (validated_block e)"
    and "entry_coherent e \<Longrightarrow> is_coherent T (fb_parent_id (validated_block e))"
  using assms unfolding entry_ok_def Let_def by blast+

lemma bt_inv_new: "bt_inv E (block_tree_new root)"
  using tree_wf_default[of E] by (simp add: bt_inv_def block_tree_new_def child_of_def tree_default_def)

lemma is_coherent_entry: "bt_inv E T \<Longrightarrow> bt_entry T k = Some e \<Longrightarrow> is_coherent T k = entry_coherent e"
  using bt_invD(2)[of E T] by (auto simp: is_coherent_def)

text \<open>\<open>path_to T k bs\<close>: the blocks \<open>bs\<close> lead from the root of the tree to \<open>k\<close>.\<close>

inductive path_to :: "('s, 'c, 'x) block_tree \<Rightarrow> block_id \<Rightarrow> ('s, 'c, 'x) consensus_full_block list \<Rightarrow> bool"
  for T where
  path_root: "bt_entry T k = Some e \<Longrightarrow> fb_parent_id (validated_block e) = root_id T \<Longrightarrow> path_to T k [validated_block e]"
| path_step: "bt_entry T k = Some e \<Longrightarrow> path_to T (fb_parent_id (validated_block e)) bs \<Longrightarrow>
    path_to T k (bs @ [validated_block e])"

inductive descends :: "('s, 'c, 'x) block_tree \<Rightarrow> block_id \<Rightarrow> block_id \<Rightarrow> bool" for T a where
  descends_child: "bt_entry T k = Some e \<Longrightarrow> fb_parent_id (validated_block e) = a \<Longrightarrow> descends T a k"
| descends_step: "bt_entry T k = Some e \<Longrightarrow> descends T a (fb_parent_id (validated_block e)) \<Longrightarrow> descends T a k"

lemma path_to_entry: "path_to T k bs \<Longrightarrow> \<exists>e. bt_entry T k = Some e \<and> bs \<noteq> [] \<and> last bs = validated_block e"
  by (induction rule: path_to.induct) auto

lemma descends_entry: "descends T a k \<Longrightarrow> \<exists>e. bt_entry T k = Some e"
  by (induction rule: descends.induct) auto

lemma path_to_not_root: "bt_inv E T \<Longrightarrow> path_to T k bs \<Longrightarrow> k \<noteq> root_id T"
  using path_to_entry[of T k bs] bt_invD(2)[of E T] by auto

text \<open>Rounds grow along a path, so a path has no repetition.\<close>

lemma path_to_rounds:
  assumes "bt_inv E T" "path_to T k bs" "b \<in> set (butlast bs)"
  shows "fb_round b < fb_round (last bs)"
  using assms(2,3)
proof (induction arbitrary: b rule: path_to.induct)
  case (path_step k e bs)
  obtain p where p: "bt_entry T (fb_parent_id (validated_block e)) = Some p" "bs \<noteq> []" "last bs = validated_block p"
    using path_to_entry[OF path_step.hyps(2)] by blast
  note ok = bt_invD(5)[OF assms(1) path_step.hyps(1)]
  have lt: "fb_round (last bs) < fb_round (validated_block e)"
    using entry_okD(1)[OF ok] entry_okD(6)[OF ok p(1)] p(3) by simp
  have "b \<in> set bs" using path_step.prems by simp
  then have "b \<in> set (butlast bs) \<or> b = last bs"
    using p(2) by (metis append_butlast_last_id rotate1.simps(2) set_ConsD set_rotate1)
  then show ?case using path_step.IH[of b] lt by auto
qed simp

lemma path_to_mem:
  assumes "bt_inv E T" "path_to T k bs" "b \<in> set bs"
  shows "\<exists>e. bt_entry T (fb_id E b) = Some e \<and> validated_block e = b"
  using assms(2,3) by (induction rule: path_to.induct) (auto simp: bt_invD(6)[OF assms(1)])

lemma path_to_unique:
  assumes "bt_inv E T" "path_to T k bs" "path_to T k cs"
  shows "bs = cs"
  using assms(2,3)
proof (induction arbitrary: cs rule: path_to.induct)
  case (path_root k e)
  from path_root.prems path_root.hyps show ?case
    using path_to_not_root[OF assms(1)] by (cases rule: path_to.cases) auto
next
  case (path_step k e bs)
  have "fb_parent_id (validated_block e) \<noteq> root_id T" by (rule path_to_not_root[OF assms(1) path_step.hyps(2)])
  with path_step.prems path_step.hyps(1) obtain ds where
    "cs = ds @ [validated_block e]" "path_to T (fb_parent_id (validated_block e)) ds"
    by (cases rule: path_to.cases) auto
  then show ?case using path_step.IH by simp
qed

section \<open>Following parents ends\<close>

lemma path_loop_correct:
  assumes "bt_inv E T"
  shows "\<exists>r. path_loop T k acc = Some r \<and>
    (case r of Some bs \<Rightarrow> \<exists>ds. bs = ds @ rev acc \<and> path_to T k ds | None \<Rightarrow> \<nexists>ds. path_to T k ds)"
proof (induction "case bt_entry T k of Some e \<Rightarrow> Suc (fb_round (validated_block e)) | None \<Rightarrow> 0"
       arbitrary: k acc rule: less_induct)
  case less
  show ?case
  proof (cases "bt_entry T k")
    case None
    then show ?thesis using path_to_entry[of T k] by (subst path_loop.simps) auto
  next
    case (Some e)
    let ?p = "fb_parent_id (validated_block e)"
    note ok = bt_invD(5)[OF assms Some]
    show ?thesis
    proof (cases "?p = root_id T")
      case True
      then show ?thesis using Some by (subst path_loop.simps) (auto intro: path_root)
    next
      case False
      have "(case bt_entry T ?p of Some e \<Rightarrow> Suc (fb_round (validated_block e)) | None \<Rightarrow> 0)
          < (case bt_entry T k of Some e \<Rightarrow> Suc (fb_round (validated_block e)) | None \<Rightarrow> 0)"
        using Some entry_okD(1)[OF ok] entry_okD(6)[OF ok] by (auto split: option.split)
      from less.hyps[OF this, of "acc @ [validated_block e]"] obtain r where
        r: "path_loop T ?p (acc @ [validated_block e]) = Some r"
          "case r of Some bs \<Rightarrow> \<exists>ds. bs = ds @ rev (acc @ [validated_block e]) \<and> path_to T ?p ds | None \<Rightarrow> \<nexists>ds. path_to T ?p ds"
        by blast
      have l: "path_loop T k acc = Some r" using Some False r(1) by (subst path_loop.simps) simp
      show ?thesis
      proof (cases r)
        case None
        then have "\<nexists>ds. path_to T k ds" using r(2) Some False by (auto elim: path_to.cases)
        then show ?thesis using l None by simp
      next
        case (Some bs)
        then obtain ds where "bs = ds @ rev (acc @ [validated_block e])" "path_to T ?p ds" using r(2) by auto
        then show ?thesis using l Some \<open>bt_entry T k = Some e\<close> path_step[of T k e ds] by auto
      qed
    qed
  qed
qed

lemma get_path_correct:
  assumes "bt_inv E T" "k \<noteq> root_id T"
  shows "\<exists>r. get_blocks_on_path_from_root T k = Some r \<and>
    (case r of Some bs \<Rightarrow> path_to T k bs | None \<Rightarrow> \<nexists>bs. path_to T k bs)"
proof -
  obtain r where "path_loop T k [] = Some r"
    "case r of Some bs \<Rightarrow> \<exists>ds. bs = ds @ rev [] \<and> path_to T k ds | None \<Rightarrow> \<nexists>ds. path_to T k ds"
    using path_loop_correct[OF assms(1), of k "[]"] by blast
  then show ?thesis
    using assms(2) by (auto simp: get_blocks_on_path_from_root_def split: option.splits)
qed

lemma get_path_Some:
  assumes "bt_inv E T" "path_to T k bs"
  shows "get_blocks_on_path_from_root T k = Some (Some bs)"
  using get_path_correct[OF assms(1) path_to_not_root[OF assms]] assms path_to_unique[OF assms(1)]
  by (auto split: option.splits)

lemma coherent_path:
  assumes "bt_inv E T" "bt_entry T k = Some e" "entry_coherent e"
  shows "\<exists>bs. path_to T k bs \<and> (\<forall>b \<in> set bs. is_coherent T (fb_id E b))"
  using assms(2,3)
proof (induction "fb_round (validated_block e)" arbitrary: k e rule: less_induct)
  case less
  let ?p = "fb_parent_id (validated_block e)"
  note ok = bt_invD(5)[OF assms(1) less.prems(1)]
  have self: "is_coherent T (fb_id E (validated_block e))"
    using less.prems bt_invD(6)[OF assms(1) less.prems(1)] by (simp add: is_coherent_def)
  show ?case
  proof (cases "?p = root_id T")
    case True
    then show ?thesis using self less.prems(1) by (intro exI[of _ "[validated_block e]"]) (auto intro: path_root)
  next
    case False
    then obtain p where p: "bt_entry T ?p = Some p" "entry_coherent p"
      using entry_okD(7)[OF ok less.prems(2)] by (auto simp: is_coherent_def split: option.splits)
    have "fb_round (validated_block p) < fb_round (validated_block e)"
      using entry_okD(1)[OF ok] entry_okD(6)[OF ok p(1)] by simp
    from less.hyps[OF this p] obtain bs where "path_to T ?p bs" "\<forall>b \<in> set bs. is_coherent T (fb_id E b)" by blast
    then show ?thesis
      using self less.prems(1) by (intro exI[of _ "bs @ [validated_block e]"]) (auto intro: path_step)
  qed
qed

section \<open>Adding a block\<close>

text \<open>
  What certificates guarantee about a block that is added: its round is above the round of its
  quorum certificate, and a quorum certificate for a block is of that block's round or later.
\<close>

definition block_fits :: "('s, 'c, 'x) env \<Rightarrow> ('s, 'c, 'x) block_tree \<Rightarrow> ('s, 'c, 'x) consensus_full_block \<Rightarrow> bool" where
  "block_fits E T b \<longleftrightarrow>
     fb_parent_round b < fb_round b \<and> fb_id E b \<noteq> root_id T \<and> fb_parent_id b \<noteq> fb_id E b \<and>
     (fb_parent_id b = root_id T \<longrightarrow> ri_round (bt_root T) \<le> fb_parent_round b) \<and>
     (\<forall>p. bt_entry T (fb_parent_id b) = Some p \<longrightarrow> fb_round (validated_block p) \<le> fb_parent_round b) \<and>
     (\<forall>c f. bt_entry T c = Some f \<longrightarrow> fb_parent_id (validated_block f) = fb_id E b \<longrightarrow>
        fb_round b \<le> fb_parent_round (validated_block f))"

definition add_ok ::
  "('s, 'c, 'x) env \<Rightarrow> ('s, 'c, 'x) block_tree \<Rightarrow> ('s, 'c, 'x) consensus_full_block \<Rightarrow> ('s, 'c, 'x) block_tree \<Rightarrow> bool" where
  "add_ok E T b T' \<longleftrightarrow>
     (if is_valid_to_insert E T (fb_header b) then
        bt_root T' = bt_root T \<and> get_block T' = (get_block T)(fb_id E b \<mapsto> b) \<and> is_coherent T' = is_coherent T
      else T' = T)"

lemma bt_add_correct:
  assumes "bt_inv E T" "iter_ok iter" "block_fits E T b"
  shows "\<exists>T'. bt_add E iter T b = Some T' \<and> bt_inv E T' \<and> add_ok E T b T'"
proof (cases "is_valid_to_insert E T (fb_header b)")
  case False
  then show ?thesis using assms(1) by (simp add: bt_add_def add_ok_def)
next
  case True
  let ?id = "fb_id E b" and ?par = "fb_parent_id b"
  note I = bt_invD[OF assms(1)] and fits = assms(3)[unfolded block_fits_def]
  have new: "bt_entry T ?id = None" "ri_round (bt_root T) < fb_round b"
    using True by (auto simp: is_valid_to_insert_def fb_id_def fb_round_def)
  obtain t cs where t: "tree_insert E iter (bt_tree T) b = Some t" "tree_wf E t" "distinct cs"
    "\<forall>c. c \<in> set cs \<longleftrightarrow> (\<exists>f. bt_entry T c = Some f \<and> fb_parent_id (validated_block f) = ?id)"
    and m: "map_of (t_tree t) = (\<lambda>k.
      if k = ?id then Some \<lparr>validated_block = b, entry_coherent = False, children_blocks = cs\<rparr>
      else if k = ?par then map_option (\<lambda>e. e\<lparr>children_blocks := children_blocks e @ [?id]\<rparr>) (bt_entry T k)
      else bt_entry T k)"
    using tree_insert_ok[OF I(1) assms(2) new(1)] fits by blast
  define T' where "T' = T\<lparr>bt_tree := t, bt_root_children :=
      (if ?par = root_id T then bt_root_children T @ [?id] else bt_root_children T)\<rparr>"
  have add: "bt_add E iter T b = Some T'" using True t(1) by (simp add: bt_add_def T'_def)
  have root: "bt_root T' = bt_root T" by (simp add: T'_def)
  have gb: "get_block T' = (get_block T)(?id \<mapsto> b)"
    by (auto simp: get_block_def T'_def m fun_eq_iff option.map_comp comp_def)
  have coh: "is_coherent T' = is_coherent T"
    using new(1) fits by (auto simp: is_coherent_def T'_def m fun_eq_iff split: option.splits)
  have child: "child_of T' k c \<longleftrightarrow> child_of T k c \<or> c = ?id \<and> k = ?par" for k c
    using new(1) by (cases "c = ?id"; cases "c = ?par") (auto simp: child_of_def T'_def m)
  have "entry_ok T' k e" if k: "bt_entry T' k = Some e" for k e
  proof (cases "k = ?id")
    case True
    then have e: "e = \<lparr>validated_block = b, entry_coherent = False, children_blocks = cs\<rparr>"
      using k by (simp add: T'_def m)
    have "child_of T ?id c \<longleftrightarrow> c \<in> set cs" for c using t(4) by (simp add: child_of_def)
    moreover have "fb_round (validated_block p) \<le> fb_parent_round b" if "bt_entry T' ?par = Some p" for p
      using that fits by (auto simp: T'_def m split: if_splits)
    ultimately show ?thesis
      using fits t(3) new(2) by (auto simp: entry_ok_def Let_def e True root child)
  next
    case False
    then obtain e0 where e0: "bt_entry T k = Some e0" "validated_block e = validated_block e0"
      "entry_coherent e = entry_coherent e0"
      "children_blocks e = children_blocks e0 @ (if k = ?par then [?id] else [])"
      using k by (cases "k = ?par") (auto simp: T'_def m)
    note ok = entry_okD[OF I(5)[OF e0(1)]]
    have "?id \<notin> set (children_blocks e0)" using ok(4)[of ?id] new(1) by (simp add: child_of_def)
    then have "distinct (children_blocks e)" "c \<in> set (children_blocks e) \<longleftrightarrow> child_of T' k c" for c
      using ok(3) ok(4)[of c] by (auto simp: e0(4) child)
    moreover have "fb_round (validated_block p) \<le> fb_parent_round (validated_block e0)"
      if p: "bt_entry T' (fb_parent_id (validated_block e0)) = Some p" for p
    proof (cases "fb_parent_id (validated_block e0) = ?id")
      case True
      then have "validated_block p = b" using p by (auto simp: T'_def m)
      then show ?thesis using True fits e0(1) by blast
    next
      case False
      then obtain p0 where "bt_entry T (fb_parent_id (validated_block e0)) = Some p0" "validated_block p = validated_block p0"
        using p by (auto simp: T'_def m split: if_splits)
      then show ?thesis using ok(6) by simp
    qed
    ultimately show ?thesis using ok(1,2,5,7) by (auto simp: entry_ok_def Let_def e0(2,3) root coh)
  qed
  moreover have "bt_entry T' (root_id T') = None"
    using fits I(2) by (simp add: T'_def m) metis
  moreover have "distinct (bt_root_children T')" "c \<in> set (bt_root_children T') \<longleftrightarrow> child_of T' (root_id T') c" for c
    using I(3) I(4)[of c] I(4)[of ?id] new(1) unfolding root child by (auto simp: T'_def child_of_def)
  ultimately have "bt_inv E T'" using t(2) unfolding bt_inv_def by (auto simp: T'_def)
  then show ?thesis using add True root gb coh by (auto simp: add_ok_def)
qed

section \<open>Pruning\<close>

lemma path_to_parts:
  assumes "path_to T k bs"
  obtains (root) e where "bt_entry T k = Some e" "fb_parent_id (validated_block e) = root_id T" "bs = [validated_block e]"
  | (step) e cs where "bt_entry T k = Some e" "path_to T (fb_parent_id (validated_block e)) cs" "bs = cs @ [validated_block e]"
  using assms by (cases rule: path_to.cases) auto

text \<open>The loop removes the strict ancestors of the block it starts from and collects the path.\<close>

lemma prune_loop_correct:
  assumes "bt_inv E T" "path_to T k bs" "bt_entry T k = Some e"
    and "\<forall>b \<in> set bs. is_coherent T (fb_id E b)" "tree_wf E t"
    and "\<forall>b \<in> set (butlast bs). t_get t (fb_id E b) = bt_entry T (fb_id E b)"
  shows "\<exists>t'. prune_loop (root_id T) t e acc = Some (t', acc @ rev bs) \<and> tree_wf E t' \<and>
    map_of (t_tree t') = (\<lambda>j. if j \<in> fb_id E ` set (butlast bs) then None else t_get t j)"
  using assms(2-6)
proof (induction arbitrary: e t acc rule: path_to.induct)
  case (path_root k f)
  then have "e = f" "entry_coherent e"
    using is_coherent_entry[OF assms(1) path_root.hyps(1)] bt_invD(6)[OF assms(1) path_root.hyps(1)] by auto
  then show ?case using path_root by (subst prune_loop.simps) (auto simp: Let_def)
next
  case (path_step k f bs)
  let ?p = "fb_parent_id (validated_block f)"
  obtain p where p: "bt_entry T ?p = Some p" "bs \<noteq> []" "last bs = validated_block p"
    using path_to_entry[OF path_step.hyps(2)] by blast
  have ids: "fb_id E (last bs) = ?p" using bt_invD(6)[OF assms(1) p(1)] p(3) by simp
  have ef: "e = f" "entry_coherent f"
    using path_step.prems(1,2) path_step.hyps(1) is_coherent_entry[OF assms(1) path_step.hyps(1)]
      bt_invD(6)[OF assms(1) path_step.hyps(1)] by auto
  have tp: "t_get t ?p = Some p" using path_step.prems(4) p ids by (metis butlast_snoc last_in_set)
  obtain t1 where t1: "tree_remove t ?p = Some (t1, Some p)" "tree_wf E t1"
    "map_of (t_tree t1) = (map_of (t_tree t))(?p := None)" using tree_remove_ok[OF path_step.prems(3) tp] by blast
  have mem: "b \<in> set bs \<Longrightarrow> b \<in> set (butlast bs) \<or> b = last bs" for b
    using p(2) by (metis append_butlast_last_id rotate1.simps(2) set_ConsD set_rotate1)
  have neq: "fb_id E b \<noteq> ?p" if "b \<in> set (butlast bs)" for b
    using path_to_rounds[OF assms(1) path_step.hyps(2) that] path_to_mem[OF assms(1) path_step.hyps(2) in_set_butlastD[OF that]]
      p by auto
  have "\<exists>t'. prune_loop (root_id T) t1 p (acc @ [validated_block f]) = Some (t', (acc @ [validated_block f]) @ rev bs) \<and>
      tree_wf E t' \<and> map_of (t_tree t') = (\<lambda>j. if j \<in> fb_id E ` set (butlast bs) then None else t_get t1 j)"
    using path_step.prems(2,4) neq in_set_butlastD[of _ bs]
    by (intro path_step.IH p(1) t1(2)) (auto simp: t1(3))
  then obtain t' where t': "prune_loop (root_id T) t1 p (acc @ [validated_block f]) = Some (t', acc @ rev (bs @ [validated_block f]))"
    "tree_wf E t'" "map_of (t_tree t') = (\<lambda>j. if j \<in> fb_id E ` set (butlast bs) then None else t_get t1 j)" by auto
  have "prune_loop (root_id T) t e acc = Some (t', acc @ rev (bs @ [validated_block f]))"
    using path_to_not_root[OF assms(1) path_step.hyps(2)] t'(1) t1(1) ef
    by (subst prune_loop.simps) (simp add: Let_def)
  moreover have "map_of (t_tree t') = (\<lambda>j. if j \<in> fb_id E ` set (butlast (bs @ [validated_block f])) then None else t_get t j)"
  proof -
    have "set bs = insert (last bs) (set (butlast bs))"
      using p(2) mem in_set_butlastD[of _ bs] last_in_set[OF p(2)] by blast
    then have "fb_id E ` set bs = insert ?p (fb_id E ` set (butlast bs))" using ids by simp
    then show ?thesis unfolding t'(3) t1(3) by (auto simp: fun_eq_iff)
  qed
  ultimately show ?case using t'(2) by blast
qed

text \<open>
  What \<open>prune\<close> does: it commits the path to the new root and keeps exactly the blocks whose parent round is
  not below the round of the new root.
\<close>

definition prune_ok ::
  "('s, 'c, 'x) env \<Rightarrow> ('s, 'c, 'x) block_tree \<Rightarrow> block_id \<Rightarrow> ('s, 'c, 'x) block_tree
     \<Rightarrow> ('s, 'c, 'x) consensus_full_block list \<Rightarrow> bool" where
  "prune_ok E T n T' commit \<longleftrightarrow>
     path_to T n commit \<and> bt_root T' = root_info_of E (last commit) \<and>
     (\<forall>e. bt_entry T n = Some e \<longrightarrow> bt_root_children T' = children_blocks e) \<and> tree_wf E (bt_tree T') \<and>
     (\<forall>k e. bt_entry T' k = Some e \<longleftrightarrow>
        bt_entry T k = Some e \<and> fb_round (last commit) \<le> fb_parent_round (validated_block e))"

text \<open>
  \<open>commit_safe\<close>: no block of the tree conflicts with the new root, that is a block whose quorum certificate is
  of the committed round or later descends from it.
\<close>

definition commit_safe :: "('s, 'c, 'x) block_tree \<Rightarrow> block_id \<Rightarrow> bool" where
  "commit_safe T n \<longleftrightarrow>
     (\<forall>r k e. bt_entry T n = Some r \<longrightarrow> bt_entry T k = Some e \<longrightarrow>
        fb_round (validated_block r) \<le> fb_parent_round (validated_block e) \<longrightarrow> descends T n k)"

lemma descends_rounds:
  assumes "bt_inv E T" "descends T n k" "bt_entry T n = Some r" "bt_entry T k = Some e"
  shows "fb_round (validated_block r) \<le> fb_parent_round (validated_block e)"
  using assms(2,4)
proof (induction arbitrary: e rule: descends.induct)
  case (descends_child k f)
  then show ?case using entry_okD(6)[OF bt_invD(5)[OF assms(1) descends_child(1)]] assms(3) by auto
next
  case (descends_step k f)
  obtain p where p: "bt_entry T (fb_parent_id (validated_block f)) = Some p"
    using descends_entry[OF descends_step.hyps(2)] by blast
  show ?case
    using descends_step.IH[OF p] descends_step.prems descends_step.hyps(1)
      entry_okD(1)[OF bt_invD(5)[OF assms(1) p]] entry_okD(6)[OF bt_invD(5)[OF assms(1) descends_step.hyps(1)] p]
    by auto
qed

lemma descends_parent:
  assumes "descends T n k" "bt_entry T k = Some e"
  shows "fb_parent_id (validated_block e) = n \<or> descends T n (fb_parent_id (validated_block e))"
  using assms by (cases rule: descends.cases) auto

lemma bt_inv_pruned:
  assumes "bt_inv E T" "bt_entry T n = Some r" "tree_wf E t"
    and m: "map_of (t_tree t) = (\<lambda>k. if descends T n k then bt_entry T k else None)"
  shows "bt_inv E \<lparr>bt_root = root_info_of E (validated_block r), bt_root_children = children_blocks r, bt_tree = t\<rparr>"
    (is "bt_inv E ?T")
proof -
  note I = bt_invD[OF assms(1)]
  note okr = entry_okD[OF I(5)[OF assms(2)]]
  have n: "fb_id E (validated_block r) = n" by (rule I(6)[OF assms(2)])
  have nd: "\<not> descends T n n" using descends_rounds[OF assms(1) _ assms(2) assms(2)] okr(1) by fastforce
  have root: "ri_block_id (bt_root ?T) = n" "ri_round (bt_root ?T) = fb_round (validated_block r)"
    using n by (simp_all add: root_info_of_def)
  have child: "child_of ?T k c \<longleftrightarrow> child_of T k c" if "k = n \<or> descends T n k" for k c
    using that by (auto simp: child_of_def m intro: descends_child descends_step)
  have "entry_ok ?T k e" if k: "bt_entry ?T k = Some e" for k e
  proof -
    have e: "descends T n k" "bt_entry T k = Some e" using k by (auto simp: m split: if_splits)
    note ok = entry_okD[OF I(5)[OF e(2)]] and low = descends_rounds[OF assms(1) e(1) assms(2) e(2)]
    have par: "fb_parent_id (validated_block e) = n \<or> descends T n (fb_parent_id (validated_block e))"
      by (rule descends_parent[OF e])
    have "is_coherent ?T (fb_parent_id (validated_block e))" if c: "entry_coherent e"
    proof (cases "fb_parent_id (validated_block e) = n")
      case False
      then obtain p where p: "bt_entry T (fb_parent_id (validated_block e)) = Some p"
        using par descends_entry by blast
      then have "entry_coherent p" using ok(7)[OF c] is_coherent_entry[OF assms(1) p] by simp
      then show ?thesis using False par p by (simp add: is_coherent_def m)
    qed (simp add: is_coherent_def n root_info_of_def)
    moreover have "fb_round (validated_block p) \<le> fb_parent_round (validated_block e)"
      if "bt_entry ?T (fb_parent_id (validated_block e)) = Some p" for p
      using that ok(6) by (auto simp: m split: if_splits)
    ultimately show ?thesis
      using ok(1,3) ok(4) low child[of k] e(1)
      by (auto simp: entry_ok_def Let_def root_info_of_def n)
  qed
  moreover have "c \<in> set (bt_root_children ?T) \<longleftrightarrow> child_of ?T (root_id ?T) c" for c
    using okr(4)[of c] child[of n c] root(1) by simp
  ultimately show ?thesis using assms(3) nd okr(3) n by (simp add: bt_inv_def m root_info_of_def)
qed

lemma path_to_low:
  assumes "bt_inv E T" "path_to T n bs" "b \<in> set bs"
  shows "fb_parent_round b < fb_round (last bs)"
proof -
  obtain e where e: "bt_entry T (fb_id E b) = Some e" "validated_block e = b" using path_to_mem[OF assms] by blast
  have "b \<in> set (butlast bs) \<or> b = last bs"
    using assms(3) by (metis append_butlast_last_id empty_iff list.set(1) rotate1.simps(2) set_ConsD set_rotate1)
  then have "fb_round b \<le> fb_round (last bs)" using path_to_rounds[OF assms(1,2), of b] by auto
  then show ?thesis using entry_okD(1)[OF bt_invD(5)[OF assms(1) e(1)]] e(2) by simp
qed

lemma prune_correct:
  assumes "bt_inv E T" "iter_ok iter" "is_coherent T n" "n \<noteq> root_id T"
  shows "\<exists>T' commit. prune E iter T n = Some (T', commit) \<and> prune_ok E T n T' commit"
proof -
  note I = bt_invD[OF assms(1)]
  obtain r where r: "bt_entry T n = Some r" "entry_coherent r"
    using assms(3,4) by (auto simp: is_coherent_def split: option.splits)
  obtain bs where bs: "path_to T n bs" "\<forall>b \<in> set bs. is_coherent T (fb_id E b)"
    using coherent_path[OF assms(1) r] by blast
  have last: "bs \<noteq> []" "last bs = validated_block r" using path_to_entry[OF bs(1)] r(1) by auto
  have n: "fb_id E (validated_block r) = n" by (rule I(6)[OF r(1)])
  obtain t1 where t1: "tree_remove (bt_tree T) n = Some (t1, Some r)" "tree_wf E t1"
    "map_of (t_tree t1) = (map_of (t_tree (bt_tree T)))(n := None)" using tree_remove_ok[OF I(1) r(1)] by blast
  have neq: "fb_id E b \<noteq> n" if "b \<in> set (butlast bs)" for b
    using path_to_rounds[OF assms(1) bs(1) that] path_to_mem[OF assms(1) bs(1) in_set_butlastD[OF that]] r(1) last by auto
  obtain t2 where t2: "prune_loop (root_id T) t1 r [] = Some (t2, rev bs)" "tree_wf E t2"
    "map_of (t_tree t2) = (\<lambda>j. if j \<in> fb_id E ` set (butlast bs) then None else t_get t1 j)"
    using prune_loop_correct[OF assms(1) bs(1) r(1) bs(2) t1(2), of "[]"] neq by (auto simp: t1(3))
  let ?del = "map fst (filter (\<lambda>e. fb_parent_round (validated_block (snd e)) < fb_round (validated_block r)) (iter (t_tree t2)))"
  obtain t3 where t3: "tree_remove_all t2 ?del = Some t3" "tree_wf E t3"
    "map_of (t_tree t3) = (\<lambda>k. if k \<in> set ?del then None else t_get t2 k)"
    using tree_remove_all_ok[OF t2(2), of ?del] by blast
  have "k \<in> set ?del \<longleftrightarrow> (\<exists>e. t_get t2 k = Some e \<and> fb_parent_round (validated_block e) < fb_round (validated_block r))" for k
    using assms(2) hm_in_set[OF tree_wfD(1)[OF t2(2)]] by (force simp: iter_ok_def image_iff)
  then have m3: "t_get t3 k = Some e \<longleftrightarrow> t_get t2 k = Some e \<and> fb_round (validated_block r) \<le> fb_parent_round (validated_block e)" for k e
    unfolding t3(3) by (auto simp: not_less)
  have low: "fb_parent_round (validated_block e) < fb_round (validated_block r)"
    if "k \<in> fb_id E ` set (butlast bs) \<or> k = n" "bt_entry T k = Some e" for k e
  proof -
    have "\<exists>b \<in> set bs. k = fb_id E b" using that(1) n last(2) last_in_set[OF last(1)] by (force dest: in_set_butlastD)
    then obtain b where b: "b \<in> set bs" "k = fb_id E b" by blast
    then show ?thesis using path_to_mem[OF assms(1) bs(1) b(1)] path_to_low[OF assms(1) bs(1) b(1)] that(2) last(2) by auto
  qed
  have m: "t_get t3 k = Some e \<longleftrightarrow> bt_entry T k = Some e \<and> fb_round (validated_block r) \<le> fb_parent_round (validated_block e)" for k e
    using low[of k e] by (auto simp: m3 t2(3) t1(3) not_less[symmetric])
  have "prune E iter T n = Some (\<lparr>bt_root = root_info_of E (validated_block r), bt_root_children = children_blocks r, bt_tree = t3\<rparr>, bs)"
    using assms(3,4) t1(1) t2(1) t3(1) by (simp add: prune_def Let_def)
  then show ?thesis using bs(1) last(2) m r(1) t3(2) by (auto simp: prune_ok_def)
qed

lemma prune_ok_descendants:
  assumes "bt_inv E T" "prune_ok E T n T' commit" "descends T n k"
  shows "bt_entry T' k = bt_entry T k"
proof -
  obtain r where r: "bt_entry T n = Some r" "last commit = validated_block r"
    using path_to_entry[of T n commit] assms(2) by (auto simp: prune_ok_def)
  obtain e where e: "bt_entry T k = Some e" using descends_entry[OF assms(3)] by blast
  have "fb_round (last commit) \<le> fb_parent_round (validated_block e)"
    using descends_rounds[OF assms(1,3) r(1) e] r(2) by simp
  then show ?thesis using assms(2) e by (simp add: prune_ok_def)
qed

lemma prune_ok_safe:
  assumes "bt_inv E T" "prune_ok E T n T' commit" "commit_safe T n"
  shows "bt_inv E T' \<and> (\<forall>k. bt_entry T' k = (if descends T n k then bt_entry T k else None))"
proof -
  obtain r where r: "bt_entry T n = Some r" "last commit = validated_block r"
    using path_to_entry[of T n commit] assms(2) by (auto simp: prune_ok_def)
  have m: "bt_entry T' k = (if descends T n k then bt_entry T k else None)" for k
  proof (cases "bt_entry T' k")
    case None
    then show ?thesis using prune_ok_descendants[OF assms(1,2), of k] by simp
  next
    case (Some e)
    then have "bt_entry T k = Some e" "descends T n k"
      using assms(2,3) r by (auto simp: prune_ok_def commit_safe_def)
    then show ?thesis using Some by simp
  qed
  have "T' = \<lparr>bt_root = root_info_of E (validated_block r), bt_root_children = children_blocks r, bt_tree = bt_tree T'\<rparr>"
    using assms(2) r by (cases T') (simp add: prune_ok_def)
  then show ?thesis using bt_inv_pruned[OF assms(1) r(1), of "bt_tree T'"] assms(2) m by (auto simp: prune_ok_def fun_eq_iff)
qed

section \<open>Coherency\<close>

definition same_blocks :: "('s, 'c, 'x) block_tree \<Rightarrow> ('s, 'c, 'x) block_tree \<Rightarrow> bool" where
  "same_blocks T T' \<longleftrightarrow>
     bt_root T' = bt_root T \<and> bt_root_children T' = bt_root_children T \<and>
     (\<forall>k. map_option (\<lambda>e. (validated_block e, children_blocks e)) (bt_entry T' k) =
          map_option (\<lambda>e. (validated_block e, children_blocks e)) (bt_entry T k))"

lemma same_blocks_entry:
  assumes "same_blocks T T'" "bt_entry T k = Some e"
  shows "\<exists>e'. bt_entry T' k = Some e' \<and> validated_block e' = validated_block e \<and> children_blocks e' = children_blocks e"
  using assms unfolding same_blocks_def by (cases "bt_entry T' k") (auto dest!: spec[of _ k])

lemma same_blocks_sym: "same_blocks T T' \<Longrightarrow> same_blocks T' T"
  by (simp add: same_blocks_def)

lemma same_blocks_trans: "same_blocks T T' \<Longrightarrow> same_blocks T' T'' \<Longrightarrow> same_blocks T T''"
  by (simp add: same_blocks_def)

lemma same_blocks_path1:
  assumes "same_blocks T T'" "path_to T k bs"
  shows "path_to T' k bs"
  using assms(2)
proof (induction rule: path_to.induct)
  case (path_root k e)
  then show ?case
    using same_blocks_entry[OF assms(1) path_root(1)] assms(1) path_to.path_root[of T' k]
    by (auto simp: same_blocks_def)
next
  case (path_step k e bs)
  then show ?case using same_blocks_entry[OF assms(1) path_step.hyps(1)] path_to.path_step[of T' k _ bs] by auto
qed

lemma same_blocks_path: "same_blocks T T' \<Longrightarrow> path_to T' k bs \<longleftrightarrow> path_to T k bs"
  using same_blocks_path1 same_blocks_sym by blast

definition n_incoherent :: "('s, 'c, 'x) block_tree \<Rightarrow> nat" where
  "n_incoherent T = card {k. \<exists>e. bt_entry T k = Some e \<and> \<not> entry_coherent e}"

definition frontier :: "('s, 'c, 'x) block_tree \<Rightarrow> block_id list \<Rightarrow> bool" where
  "frontier T q \<longleftrightarrow> distinct q \<and>
     (\<forall>k \<in> set q. \<exists>e. bt_entry T k = Some e \<and> \<not> entry_coherent e \<and> is_coherent T (fb_parent_id (validated_block e)))"

definition coherency_result ::
  "('s, 'c, 'x) env \<Rightarrow> ('s, 'c, 'x, 'e) coherency_check \<Rightarrow> ('s, 'c, 'x) block_tree \<Rightarrow> block_id list
     \<Rightarrow> ('s, 'c, 'x) block_tree \<Rightarrow> ('s, 'c, 'x) consensus_full_block list \<Rightarrow> bool" where
  "coherency_result E chk T q T' news \<longleftrightarrow>
     same_blocks T T' \<and>
     (\<forall>k. is_coherent T' k \<longleftrightarrow> is_coherent T k \<or> k \<in> fb_id E ` set news) \<and>
     (\<forall>b \<in> set news. \<not> is_coherent T (fb_id E b) \<and>
        (\<exists>ds. path_to T (fb_id E b) (ds @ [b]) \<and> chk b ds (bt_root T) = Inr ())) \<and>
     (\<forall>k ds b. path_to T k (ds @ [b]) \<longrightarrow> \<not> is_coherent T' k \<longrightarrow>
        k \<in> set q \<or> fb_parent_id b \<in> fb_id E ` set news \<longrightarrow> chk b ds (bt_root T) \<noteq> Inr ())"

lemma coherent_ancestors:
  assumes "bt_inv E T" "path_to T k bs" "is_coherent T k" "b \<in> set bs"
  shows "is_coherent T (fb_id E b)"
proof -
  obtain e where e: "bt_entry T k = Some e" using path_to_entry[OF assms(2)] by blast
  then have "entry_coherent e" using is_coherent_entry[OF assms(1) e] assms(3) by simp
  from coherent_path[OF assms(1) e this] show ?thesis using path_to_unique[OF assms(1,2)] assms(4) by blast
qed

lemma frontier_path:
  assumes "bt_inv E T" "bt_entry T k = Some e" "is_coherent T (fb_parent_id (validated_block e))"
  shows "\<exists>ds. path_to T k (ds @ [validated_block e])"
proof (cases "fb_parent_id (validated_block e) = root_id T")
  case True
  then show ?thesis using path_root[OF assms(2)] by (metis append_Nil)
next
  case False
  then obtain p where p: "bt_entry T (fb_parent_id (validated_block e)) = Some p" "entry_coherent p"
    using assms(3) by (auto simp: is_coherent_def split: option.splits)
  then show ?thesis using coherent_path[OF assms(1) p] path_step[OF assms(2)] by blast
qed

lemma set_coherent_step:
  assumes "bt_inv E T" "bt_entry T k = Some e" "\<not> entry_coherent e" "is_coherent T (fb_parent_id (validated_block e))"
  shows "\<exists>t. set_coherent (bt_tree T) k True = Some t \<and> t_get t k = Some (e\<lparr>entry_coherent := True\<rparr>) \<and>
    bt_inv E (T\<lparr>bt_tree := t\<rparr>) \<and> same_blocks T (T\<lparr>bt_tree := t\<rparr>) \<and> n_incoherent (T\<lparr>bt_tree := t\<rparr>) < n_incoherent T \<and>
    (\<forall>j. is_coherent (T\<lparr>bt_tree := t\<rparr>) j \<longleftrightarrow> is_coherent T j \<or> j = k)"
proof -
  note I = bt_invD[OF assms(1)]
  obtain t where t: "set_coherent (bt_tree T) k True = Some t" "tree_wf E t"
    "map_of (t_tree t) = (map_of (t_tree (bt_tree T)))(k \<mapsto> e\<lparr>entry_coherent := True\<rparr>)"
    using set_coherent_ok[OF I(1) assms(2)] by blast
  let ?T = "T\<lparr>bt_tree := t\<rparr>"
  have kr: "k \<noteq> root_id T" using I(2) assms(2) by auto
  have same: "same_blocks T ?T" using assms(2) by (auto simp: same_blocks_def t(3))
  have coh: "is_coherent ?T j \<longleftrightarrow> is_coherent T j \<or> j = k" for j
    using kr by (auto simp: is_coherent_def t(3))
  have child: "child_of ?T j c = child_of T j c" for j c
    using assms(2) by (auto simp: child_of_def t(3))
  have "entry_ok ?T j f" if j: "bt_entry ?T j = Some f" for j f
  proof -
    obtain f0 where f0: "bt_entry T j = Some f0" "validated_block f = validated_block f0" "children_blocks f = children_blocks f0"
      "entry_coherent f \<Longrightarrow> entry_coherent f0 \<or> j = k"
      using j assms(2) by (auto simp: t(3) split: if_splits)
    note ok = entry_okD[OF I(5)[OF f0(1)]]
    have "fb_round (validated_block p) \<le> fb_parent_round (validated_block f0)"
      if "bt_entry ?T (fb_parent_id (validated_block f0)) = Some p" for p
      using that ok(6) assms(2) by (auto simp: t(3) split: if_splits)
    moreover have "is_coherent T (fb_parent_id (validated_block f0))" if "entry_coherent f"
      using f0(4)[OF that] ok(7) assms(2,4) f0(1) by auto
    ultimately show ?thesis using ok(1-5) by (auto simp: entry_ok_def Let_def f0(2,3) coh child)
  qed
  then have inv: "bt_inv E ?T" using I(1-4) t(2) kr by (simp add: bt_inv_def child t(3))
  let ?A = "{j. \<exists>f. bt_entry T j = Some f \<and> \<not> entry_coherent f}"
  have A: "{j. \<exists>f. bt_entry ?T j = Some f \<and> \<not> entry_coherent f} = ?A - {k}" by (auto simp: t(3))
  have "finite ?A" by (rule finite_subset[OF _ finite_dom_map_of[of "t_tree (bt_tree T)"]]) auto
  then have "n_incoherent ?T < n_incoherent T"
    unfolding n_incoherent_def A by (rule card_Diff1_less) (use assms(2,3) in auto)
  then show ?thesis using t(1,3) inv same coh by (intro exI[of _ t]) simp
qed

lemma coherency_result_accept:
  assumes "bt_inv E T" "same_blocks T T1" "path_to T k (ds @ [b])" "chk b ds (bt_root T) = Inr ()"
    and "\<not> is_coherent T k" "\<And>j. is_coherent T1 j \<longleftrightarrow> is_coherent T j \<or> j = k"
    and "bt_entry T k = Some e" "coherency_result E chk T1 (rest @ children_blocks e) T' news"
  shows "coherency_result E chk T (k # rest) T' (b # news)"
proof -
  note R = assms(8)[unfolded coherency_result_def]
  have root: "bt_root T1 = bt_root T" using assms(2) by (simp add: same_blocks_def)
  have bk: "fb_id E b = k"
    using path_to_entry[OF assms(3)] bt_invD(6)[OF assms(1)] by auto
  have p: "path_to T1 j bs \<longleftrightarrow> path_to T j bs" for j bs by (rule same_blocks_path[OF assms(2)])
  have kids: "j \<in> set (children_blocks e)" if "path_to T j (cs @ [c])" "fb_parent_id c = k" for j cs c
    using that path_to_entry[OF that(1)] entry_okD(4)[OF bt_invD(5)[OF assms(1,7)], of j] by (auto simp: child_of_def)
  have "chk c cs (bt_root T) \<noteq> Inr ()"
    if "path_to T j (cs @ [c])" "\<not> is_coherent T' j" "j \<in> set (k # rest) \<or> fb_parent_id c \<in> fb_id E ` set (b # news)" for j cs c
  proof -
    have "j \<noteq> k" using that(2) R assms(6) by auto
    then have "j \<in> set (rest @ children_blocks e) \<or> fb_parent_id c \<in> fb_id E ` set news"
      using that(3) kids[OF that(1)] bk by auto
    then show ?thesis using R that(1,2) p root by metis
  qed
  moreover have "same_blocks T T'" using R assms(2) same_blocks_trans by blast
  moreover have "is_coherent T' j \<longleftrightarrow> is_coherent T j \<or> j \<in> fb_id E ` set (b # news)" for j
    using R assms(6) bk by auto
  moreover have "\<not> is_coherent T (fb_id E c) \<and> (\<exists>cs. path_to T (fb_id E c) (cs @ [c]) \<and> chk c cs (bt_root T) = Inr ())"
    if "c \<in> set (b # news)" for c
    using that R assms(3-6) bk p root by (auto simp: bk)
  ultimately show ?thesis unfolding coherency_result_def by blast
qed

lemma frontier_accept:
  assumes "bt_inv E T" "frontier T (k # rest)" "bt_entry T k = Some e" "same_blocks T T1" "bt_inv E T1"
    and "\<And>j. is_coherent T1 j \<longleftrightarrow> is_coherent T j \<or> j = k"
  shows "frontier T1 (rest @ children_blocks e)"
proof -
  note ok = entry_okD[OF bt_invD(5)[OF assms(1,3)]]
  have nk: "\<not> is_coherent T k"
    using assms(2,3) is_coherent_entry[OF assms(1,3)] by (auto simp: frontier_def)
  have kid: "\<exists>f. bt_entry T c = Some f \<and> \<not> is_coherent T c \<and> fb_parent_id (validated_block f) = k \<and> c \<noteq> k"
    if c: "c \<in> set (children_blocks e)" for c
  proof -
    obtain f where f: "bt_entry T c = Some f" "fb_parent_id (validated_block f) = k"
      using ok(4)[of c] c by (auto simp: child_of_def)
    note okf = entry_okD[OF bt_invD(5)[OF assms(1) f(1)]]
    have "\<not> is_coherent T c" using okf(7) nk f is_coherent_entry[OF assms(1) f(1)] by auto
    moreover have "c \<noteq> k" using okf(1) okf(6)[of f] f by auto
    ultimately show ?thesis using f by blast
  qed
  have old: "\<exists>f. bt_entry T c = Some f \<and> \<not> is_coherent T c \<and> is_coherent T (fb_parent_id (validated_block f)) \<and> c \<noteq> k"
    if c: "c \<in> set rest" for c
  proof -
    obtain f where f: "bt_entry T c = Some f" "\<not> entry_coherent f" "is_coherent T (fb_parent_id (validated_block f))"
      using assms(2) c by (auto simp: frontier_def)
    then show ?thesis using is_coherent_entry[OF assms(1) f(1)] assms(2) c by (auto simp: frontier_def)
  qed
  have "set rest \<inter> set (children_blocks e) = {}" using kid old nk by fastforce
  then have "distinct (rest @ children_blocks e)" using assms(2) ok(3) by (simp add: frontier_def)
  moreover have "\<exists>f. bt_entry T1 c = Some f \<and> \<not> entry_coherent f \<and> is_coherent T1 (fb_parent_id (validated_block f))"
    if c: "c \<in> set (rest @ children_blocks e)" for c
  proof -
    obtain f where f: "bt_entry T c = Some f" "\<not> is_coherent T c" "c \<noteq> k"
      "is_coherent T (fb_parent_id (validated_block f)) \<or> fb_parent_id (validated_block f) = k"
      using c kid[of c] old[of c] by auto
    obtain g where g: "bt_entry T1 c = Some g" "validated_block g = validated_block f"
      using same_blocks_entry[OF assms(4) f(1)] by blast
    then show ?thesis using is_coherent_entry[OF assms(5) g(1)] f(2-4) assms(6) by auto
  qed
  ultimately show ?thesis by (simp add: frontier_def)
qed

lemma coherency_loop_correct:
  assumes "bt_inv E T" "frontier T q"
  shows "\<exists>T' news. coherency_loop chk T q acc = Some (T', acc @ news) \<and> bt_inv E T' \<and> coherency_result E chk T q T' news"
  using assms
proof (induction "n_incoherent T" arbitrary: T q acc rule: less_induct)
  case less
  from less.prems(2) show ?case
  proof (induction q arbitrary: acc)
    case Nil
    then show ?case
      using less.prems(1) by (subst coherency_loop.simps) (auto simp: coherency_result_def same_blocks_def)
  next
    case (Cons k rest)
    obtain e where e: "bt_entry T k = Some e" "\<not> entry_coherent e" "is_coherent T (fb_parent_id (validated_block e))"
      using Cons.prems by (auto simp: frontier_def)
    have nk: "\<not> is_coherent T k" using is_coherent_entry[OF less.prems(1) e(1)] e(2) by simp
    obtain ds where ds: "path_to T k (ds @ [validated_block e])" using frontier_path[OF less.prems(1) e(1,3)] by blast
    note path = get_path_Some[OF less.prems(1) ds]
    show ?case
    proof (cases "chk (validated_block e) ds (bt_root T)")
      case (Inl x)
      have "frontier T rest" using Cons.prems by (simp add: frontier_def)
      from Cons.IH[OF this, of acc] obtain T' news where
        r: "coherency_loop chk T rest acc = Some (T', acc @ news)" "bt_inv E T'" "coherency_result E chk T rest T' news" by blast
      have "coherency_loop chk T (k # rest) acc = Some (T', acc @ news)"
        using r(1) path Inl by (subst coherency_loop.simps) simp
      moreover have "chk b cs (bt_root T) \<noteq> Inr ()" if "path_to T k (cs @ [b])" for cs b
        using path_to_unique[OF less.prems(1) ds that] Inl by auto
      then have "coherency_result E chk T (k # rest) T' news"
        using r(3) unfolding coherency_result_def by (metis set_ConsD)
      ultimately show ?thesis using r(2) by blast
    next
      case (Inr x)
      obtain t where t: "set_coherent (bt_tree T) k True = Some t" "t_get t k = Some (e\<lparr>entry_coherent := True\<rparr>)"
        "bt_inv E (T\<lparr>bt_tree := t\<rparr>)" "same_blocks T (T\<lparr>bt_tree := t\<rparr>)" "n_incoherent (T\<lparr>bt_tree := t\<rparr>) < n_incoherent T"
        "\<And>j. is_coherent (T\<lparr>bt_tree := t\<rparr>) j \<longleftrightarrow> is_coherent T j \<or> j = k"
        using set_coherent_step[OF less.prems(1) e] by blast
      let ?T = "T\<lparr>bt_tree := t\<rparr>" and ?q = "rest @ children_blocks e"
      have "frontier ?T ?q"
        using Cons.prems e nk t(6) less.prems(1) by (intro frontier_accept[OF less.prems(1) Cons.prems e(1) t(4,3,6)])
      from less.hyps[OF t(5,3) this, of "acc @ [validated_block e]"] obtain T' news where
        r: "coherency_loop chk ?T ?q (acc @ [validated_block e]) = Some (T', (acc @ [validated_block e]) @ news)"
           "bt_inv E T'" "coherency_result E chk ?T ?q T' news" by blast
      have "coherency_loop chk T (k # rest) acc = Some (T', acc @ validated_block e # news)"
        using r(1) path Inr t(1,2) by (subst coherency_loop.simps) simp
      moreover have "coherency_result E chk T (k # rest) T' (validated_block e # news)"
        by (rule coherency_result_accept[OF less.prems(1) t(4) ds _ nk t(6) e(1) r(3)]) (simp add: Inr)
      ultimately show ?thesis using r(2) by blast
    qed
  qed
qed

lemma find_incoherent_correct:
  assumes "bt_inv E T" "\<forall>b \<in> set bs. bt_entry T (fb_id E b) \<noteq> None"
  shows "find_incoherent E T bs = Some (find (\<lambda>b. \<not> is_coherent T (fb_id E b)) bs)"
  using assms(2)
proof (induction bs)
  case (Cons b bs)
  then obtain e where e: "bt_entry T (fb_id E b) = Some e" by auto
  then show ?case using Cons is_coherent_entry[OF assms(1) e] by auto
qed simp

lemma find_split: "find P xs = Some x \<Longrightarrow> \<exists>ys zs. xs = ys @ x # zs \<and> P x \<and> (\<forall>y \<in> set ys. \<not> P y)"
proof (induction xs)
  case (Cons a xs)
  show ?case
  proof (cases "P a")
    case True
    then have "a # xs = [] @ x # xs \<and> P x" using Cons.prems by simp
    then show ?thesis by (metis empty_iff list.set(1))
  next
    case False
    then obtain ys zs where "xs = ys @ x # zs" "P x" "\<forall>y \<in> set ys. \<not> P y" using Cons by auto
    then have "a # xs = (a # ys) @ x # zs \<and> P x \<and> (\<forall>y \<in> set (a # ys). \<not> P y)" using False by simp
    then show ?thesis by blast
  qed
qed simp

text \<open>The part of a path before a block ends at the parent of that block.\<close>

lemma path_to_prefix:
  assumes "bt_inv E T" "path_to T k (ys @ b # zs)"
  shows "path_to T (fb_id E b) (ys @ [b]) \<and>
    (ys = [] \<and> fb_parent_id b = root_id T \<or> ys \<noteq> [] \<and> fb_parent_id b = fb_id E (last ys))"
  using assms(2)
proof (induction k "ys @ b # zs" arbitrary: zs rule: path_to.induct)
  case (path_root k e)
  then have "ys = []" "b = validated_block e" by (auto simp: Cons_eq_append_conv append_eq_Cons_conv)
  then show ?case
    using path_to.path_root[OF path_root(1,2)] path_root(1,2) bt_invD(6)[OF assms(1) path_root(1)] by simp
next
  case (path_step k e bs)
  show ?case
  proof (cases zs rule: rev_cases)
    case Nil
    then have b: "bs = ys" "b = validated_block e" using path_step.hyps(4) by auto
    obtain p where p: "bt_entry T (fb_parent_id (validated_block e)) = Some p" "bs \<noteq> []" "last bs = validated_block p"
      using path_to_entry[OF path_step.hyps(2)] by blast
    show ?thesis
      using b p path_to.path_step[OF path_step.hyps(1,2)] bt_invD(6)[OF assms(1) path_step.hyps(1)]
        bt_invD(6)[OF assms(1) p(1)] by simp
  next
    case (snoc zs' z)
    then have "bs = ys @ b # zs'" using path_step.hyps(4) by simp
    then show ?thesis by (rule path_step.hyps(3))
  qed
qed

lemma start_frontier:
  assumes "bt_inv E T" "path_to T k bs" "find (\<lambda>b. \<not> is_coherent T (fb_id E b)) bs = Some s"
  shows "frontier T [fb_id E s]"
proof -
  obtain ys zs where bs: "bs = ys @ s # zs" "\<not> is_coherent T (fb_id E s)" "\<forall>y \<in> set ys. is_coherent T (fb_id E y)"
    using find_split[OF assms(3)] by auto
  obtain e where e: "bt_entry T (fb_id E s) = Some e" "validated_block e = s"
    using path_to_mem[OF assms(1,2)] bs(1) by auto
  have "is_coherent T (fb_parent_id s)"
    using path_to_prefix[OF assms(1) assms(2)[unfolded bs(1)]] bs(3) by (auto simp: is_coherent_def)
  then show ?thesis using e bs(2) is_coherent_entry[OF assms(1) e(1)] by (auto simp: frontier_def)
qed

lemma coherency_reaches:
  assumes "bt_inv E T" "coherency_result E chk T [fb_id E s] T' news" "path_to T k bs"
    and "\<And>ys b zs. bs = ys @ b # zs \<Longrightarrow> is_coherent T (fb_id E b) \<or> chk b ys (bt_root T) = Inr ()"
    and "(\<forall>b \<in> set bs. is_coherent T (fb_id E b)) \<or> s \<in> set bs \<and> \<not> is_coherent T (fb_id E s)"
  shows "is_coherent T' k"
  using assms(3-5)
proof (induction rule: path_to.induct)
  note R = assms(2)[unfolded coherency_result_def]
  case (path_root k e)
  have k: "fb_id E (validated_block e) = k" by (rule bt_invD(6)[OF assms(1) path_root.hyps(1)])
  show ?case
  proof (cases "is_coherent T k")
    case False
    then have "chk (validated_block e) [] (bt_root T) = Inr ()" "k \<in> set [fb_id E s]"
      using path_root.prems(1)[of "[]"] path_root.prems(2) k by auto
    then show ?thesis using R path_to.path_root[OF path_root.hyps] by (metis append_Nil)
  qed (use R in blast)
next
  note R = assms(2)[unfolded coherency_result_def]
  case (path_step k e bs)
  let ?b = "validated_block e"
  have k: "fb_id E ?b = k" by (rule bt_invD(6)[OF assms(1) path_step.hyps(1)])
  have step: "path_to T k (bs @ [?b])" by (rule path_to.path_step[OF path_step.hyps(1,2)])
  show ?case
  proof (cases "is_coherent T k")
    case False
    have chk: "chk ?b bs (bt_root T) = Inr ()" using path_step.prems(1)[of bs ?b "[]"] False k by auto
    have s: "s \<in> set bs \<or> k = fb_id E s" "\<not> is_coherent T (fb_id E s)" using path_step.prems(2) False k by auto
    show ?thesis
    proof (cases "k = fb_id E s")
      case True
      then show ?thesis using R step chk by (metis list.set_intros(1))
    next
      case neq: False
      have IH: "is_coherent T' (fb_parent_id ?b)"
        using path_step.prems(1) s neq by (intro path_step.IH) auto
      have "\<not> is_coherent T (fb_parent_id ?b)"
        using coherent_ancestors[OF assms(1) path_step.hyps(2) _, of s] s neq by auto
      then have "fb_parent_id ?b \<in> fb_id E ` set news" using R IH by blast
      then show ?thesis using R step chk by blast
    qed
  qed (use R in blast)
qed

definition update_ok ::
  "('s, 'c, 'x) env \<Rightarrow> ('s, 'c, 'x, 'e) coherency_check \<Rightarrow> ('s, 'c, 'x) block_tree \<Rightarrow> block_id
     \<Rightarrow> ('s, 'c, 'x) block_tree \<Rightarrow> ('s, 'c, 'x) consensus_full_block list \<Rightarrow> bool" where
  "update_ok E chk T k T' news \<longleftrightarrow>
     same_blocks T T' \<and>
     (\<forall>j. is_coherent T' j \<longleftrightarrow> is_coherent T j \<or> j \<in> fb_id E ` set news) \<and>
     (\<forall>b \<in> set news. \<not> is_coherent T (fb_id E b) \<and>
        (\<exists>ds. path_to T (fb_id E b) (ds @ [b]) \<and> chk b ds (bt_root T) = Inr ())) \<and>
     (\<forall>bs. path_to T k bs \<longrightarrow>
        (\<forall>ys b zs. bs = ys @ b # zs \<longrightarrow> is_coherent T (fb_id E b) \<or> chk b ys (bt_root T) = Inr ()) \<longrightarrow>
        is_coherent T' k)"

lemma update_coherency_correct:
  assumes "bt_inv E T"
  shows "\<exists>T' news. bt_try_update_coherency E chk T k = Some (T', news) \<and> bt_inv E T' \<and> update_ok E chk T k T' news"
proof (cases "\<exists>bs. path_to T k bs")
  case False
  have "bt_try_update_coherency E chk T k = Some (T, [])"
    using get_path_correct[OF assms, of k] False
    by (cases "k = root_id T")
       (auto simp: bt_try_update_coherency_def get_blocks_on_path_from_root_def split: option.splits)
  then show ?thesis using assms False by (auto simp: update_ok_def same_blocks_def)
next
  case True
  then obtain bs where bs: "path_to T k bs" by blast
  have found: "find_incoherent E T bs = Some (find (\<lambda>b. \<not> is_coherent T (fb_id E b)) bs)"
    using path_to_mem[OF assms bs] by (intro find_incoherent_correct[OF assms]) fastforce
  show ?thesis
  proof (cases "find (\<lambda>b. \<not> is_coherent T (fb_id E b)) bs")
    case None
    have "\<forall>b \<in> set bs. is_coherent T (fb_id E b)" using None by (simp add: find_None_iff)
    then have "is_coherent T k" using path_to_entry[OF bs] bt_invD(6)[OF assms] by (metis last_in_set)
    then show ?thesis
      using assms get_path_Some[OF assms bs] found None
      by (auto simp: bt_try_update_coherency_def update_ok_def same_blocks_def)
  next
    case (Some s)
    have s: "s \<in> set bs" "\<not> is_coherent T (fb_id E s)" using find_split[OF Some] by auto
    obtain T' news where r: "coherency_loop chk T [fb_id E s] [] = Some (T', news)" "bt_inv E T'"
      "coherency_result E chk T [fb_id E s] T' news"
      using coherency_loop_correct[OF assms start_frontier[OF assms bs Some], of chk "[]"] by auto
    have "bt_try_update_coherency E chk T k = Some (T', news)"
      using get_path_Some[OF assms bs] found Some r(1) by (simp add: bt_try_update_coherency_def)
    moreover have "is_coherent T' k"
      if "path_to T k cs" "\<forall>ys b zs. cs = ys @ b # zs \<longrightarrow> is_coherent T (fb_id E b) \<or> chk b ys (bt_root T) = Inr ()" for cs
      using coherency_reaches[OF assms r(3) bs] that(2) path_to_unique[OF assms bs that(1)] s by blast
    ultimately show ?thesis using r(2,3) unfolding update_ok_def coherency_result_def by blast
  qed
qed

section \<open>The highest committable certificate\<close>

definition rounds_fit :: "('s, 'c, 'x) block_tree \<Rightarrow> bool" where
  "rounds_fit T \<longleftrightarrow> (\<forall>k e. bt_entry T k = Some e \<longrightarrow> fb_round (validated_block e) \<le> u64_max)"

definition committable :: "('s, 'c, 'x) env \<Rightarrow> ('s, 'c, 'x) block_tree \<Rightarrow> 'c quorum_certificate \<Rightarrow> bool" where
  "committable E T qc \<longleftrightarrow>
     (\<exists>p c. bt_entry T (get_block_id qc) = Some p \<and>
        get_round qc = fb_parent_round (validated_block p) + 1 \<and>
        c = fb_parent_id (validated_block p) \<and> c \<noteq> root_id T \<and> is_coherent T c)"

abbreviation entry_qc :: "('s, 'c, 'x) block_tree_entry \<Rightarrow> 'c quorum_certificate" where
  "entry_qc e \<equiv> bh_qc (fb_header (validated_block e))"

definition next_high ::
  "('s, 'c, 'x) env \<Rightarrow> ('s, 'c, 'x) block_tree \<Rightarrow> 'c quorum_certificate option \<Rightarrow> 'c quorum_certificate
     \<Rightarrow> 'c quorum_certificate option" where
  "next_high E T high qc =
     (if (case high of Some h \<Rightarrow> get_round h \<ge> get_round qc | None \<Rightarrow> False) \<or> \<not> committable E T qc then high else Some qc)"

lemma committable_loop_step:
  assumes "bt_inv E T" "rounds_fit T" "bt_entry T k = Some e"
  shows "committable_loop E T (k # rest) high =
    committable_loop E T (rest @ children_blocks e) (next_high E T high (entry_qc e))"
proof (cases "bt_entry T (get_block_id (entry_qc e))")
  case None
  then show ?thesis using assms(3)
    by (subst committable_loop.simps) (simp add: next_high_def committable_def Let_def)
next
  case (Some p)
  let ?h = "fb_header (validated_block p)"
  have "get_block_id (entry_qc e) = get_id E ?h"
    using bt_invD(6)[OF assms(1) Some] by (simp add: fb_id_def)
  moreover have "get_round (bh_qc ?h) < u64_max"
    using entry_okD(1)[OF bt_invD(5)[OF assms(1) Some]] assms(2) Some
    by (fastforce simp: rounds_fit_def fb_parent_round_def get_round_def)
  ultimately have "get_committable_id E (entry_qc e) ?h =
      Some (if get_round (entry_qc e) = get_round (bh_qc ?h) + 1 then Some (get_parent_id ?h) else None)"
    by (simp add: get_committable_id_def get_round_def get_block_id_def round_add_def checked_add_def)
  then show ?thesis using assms(3) Some
    by (subst committable_loop.simps)
       (simp add: next_high_def committable_def Let_def fb_parent_round_def get_round_def fb_parent_id_def get_parent_id_def get_block_id_def)
qed

text \<open>
  The breadth first walk.  \<open>V\<close> holds the blocks already taken from the queue: the queue holds
  exactly the blocks not yet taken whose parent is the root or a block that was.
\<close>

definition bfs :: "('s, 'c, 'x) block_tree \<Rightarrow> block_id set \<Rightarrow> block_id list \<Rightarrow> bool" where
  "bfs T V q \<longleftrightarrow>
     distinct q \<and> set q \<inter> V = {} \<and> V \<union> set q \<subseteq> {k. \<exists>bs. path_to T k bs} \<and>
     (\<forall>c f. bt_entry T c = Some f \<longrightarrow> (fb_parent_id (validated_block f) \<in> insert (root_id T) V \<longleftrightarrow> c \<in> V \<union> set q))"

lemma bfs_start:
  assumes "bt_inv E T"
  shows "bfs T {} (bt_root_children T)"
proof -
  have "\<exists>bs. path_to T c bs" if "child_of T (root_id T) c" for c
    using that path_root[of T c] by (auto simp: child_of_def)
  then show ?thesis using bt_invD(3,4)[OF assms] by (auto simp: bfs_def child_of_def)
qed

lemma bfs_step:
  assumes "bt_inv E T" "bfs T V (k # rest)" "bt_entry T k = Some e"
  shows "bfs T (insert k V) (rest @ children_blocks e)"
proof -
  note B = assms(2)[unfolded bfs_def] and ok = entry_okD[OF bt_invD(5)[OF assms(1,3)]]
  have kr: "k \<noteq> root_id T" "k \<notin> V" using bt_invD(2)[OF assms(1)] assms(3) B by auto
  have kid: "\<exists>f. bt_entry T c = Some f \<and> fb_parent_id (validated_block f) = k \<and> c \<notin> V \<and> c \<notin> set (k # rest) \<and> (\<exists>bs. path_to T c bs)"
    if c: "c \<in> set (children_blocks e)" for c
  proof -
    obtain f where f: "bt_entry T c = Some f" "fb_parent_id (validated_block f) = k"
      using ok(4)[of c] c by (auto simp: child_of_def)
    obtain bs where "path_to T k bs" using B by auto
    then have "path_to T c (bs @ [validated_block f])" using path_step[OF f(1)] f(2) by simp
    moreover have "c \<notin> V \<union> set (k # rest)" using B f kr by blast
    ultimately show ?thesis using f by blast
  qed
  have "distinct (rest @ children_blocks e)" using B ok(3) kid by auto
  moreover have "set (rest @ children_blocks e) \<inter> insert k V = {}" using B kid by fastforce
  moreover have "insert k V \<union> set (rest @ children_blocks e) \<subseteq> {k. \<exists>bs. path_to T k bs}" using B kid by auto
  moreover have "fb_parent_id (validated_block f) \<in> insert (root_id T) (insert k V) \<longleftrightarrow> c \<in> insert k V \<union> set (rest @ children_blocks e)"
    if f: "bt_entry T c = Some f" for c f
  proof -
    have "fb_parent_id (validated_block f) = k \<longleftrightarrow> c \<in> set (children_blocks e)"
      using ok(4)[of c] f by (auto simp: child_of_def)
    moreover have "fb_parent_id (validated_block f) \<in> insert (root_id T) V \<longleftrightarrow> c \<in> V \<union> set (k # rest)" using B f by blast
    ultimately show ?thesis by auto
  qed
  ultimately show ?thesis unfolding bfs_def by blast
qed

lemma bfs_end:
  assumes "bfs T V []" "path_to T k bs"
  shows "k \<in> V"
  using assms(2) by (induction rule: path_to.induct) (use assms(1) in \<open>auto simp: bfs_def\<close>)

definition high_ok ::
  "('s, 'c, 'x) env \<Rightarrow> ('s, 'c, 'x) block_tree \<Rightarrow> block_id set \<Rightarrow> 'c quorum_certificate option \<Rightarrow> bool" where
  "high_ok E T V high \<longleftrightarrow>
     (\<forall>k \<in> V. \<forall>e. bt_entry T k = Some e \<longrightarrow> committable E T (entry_qc e) \<longrightarrow>
        (\<exists>h. high = Some h \<and> get_round (entry_qc e) \<le> get_round h)) \<and>
     (\<forall>h. high = Some h \<longrightarrow> committable E T h \<and> (\<exists>k \<in> V. \<exists>e. bt_entry T k = Some e \<and> entry_qc e = h))"

lemma high_okD:
  assumes "high_ok E T V high"
  shows "k \<in> V \<Longrightarrow> bt_entry T k = Some e \<Longrightarrow> committable E T (entry_qc e) \<Longrightarrow>
      \<exists>h. high = Some h \<and> get_round (entry_qc e) \<le> get_round h"
    and "high = Some h \<Longrightarrow> committable E T h \<and> (\<exists>k \<in> V. \<exists>e. bt_entry T k = Some e \<and> entry_qc e = h)"
  using assms unfolding high_ok_def by blast+

lemma high_ok_step:
  assumes "high_ok E T V high" "bt_entry T k = Some e"
  shows "high_ok E T (insert k V) (next_high E T high (entry_qc e))"
proof (cases "committable E T (entry_qc e) \<and> (\<forall>h. high = Some h \<longrightarrow> get_round h < get_round (entry_qc e))")
  case True
  then have n: "next_high E T high (entry_qc e) = Some (entry_qc e)" by (auto simp: next_high_def split: option.splits)
  have "get_round (entry_qc f) \<le> get_round (entry_qc e)"
    if "j \<in> insert k V" "bt_entry T j = Some f" "committable E T (entry_qc f)" for j f
    using that True high_okD(1)[OF assms(1) _ that(2,3)] assms(2) by force
  then show ?thesis unfolding n high_ok_def using True assms(2) by blast
next
  case False
  then have n: "next_high E T high (entry_qc e) = high" by (auto simp: next_high_def split: option.splits)
  have all: "\<exists>h. high = Some h \<and> get_round (entry_qc f) \<le> get_round h"
    if "j \<in> insert k V" "bt_entry T j = Some f" "committable E T (entry_qc f)" for j f
  proof (cases "j = k")
    case True
    then have "\<exists>h. high = Some h \<and> \<not> get_round h < get_round (entry_qc e)" "f = e"
      using False that(2,3) assms(2) by simp_all
    then show ?thesis by (metis not_le)
  next
    case False
    then have "j \<in> V" using that(1) by simp
    then show ?thesis by (rule high_okD(1)[OF assms(1) _ that(2,3)])
  qed
  have mem: "committable E T h \<and> (\<exists>j \<in> insert k V. \<exists>f. bt_entry T j = Some f \<and> entry_qc f = h)" if "high = Some h" for h
    using high_okD(2)[OF assms(1) that] by (meson insertI2)
  show ?thesis
    unfolding n high_ok_def
    by (intro conjI ballI allI impI; (rule all mem[THEN conjunct1] mem[THEN conjunct2]; assumption))
qed

lemma bfs_pop:
  assumes "bfs T V (k # rest)"
  shows "\<exists>e. bt_entry T k = Some e \<and> card (dom (bt_entry T) - insert k V) < card (dom (bt_entry T) - V)"
proof -
  obtain bs where "path_to T k bs" using assms unfolding bfs_def by auto
  then obtain e where e: "bt_entry T k = Some e" using path_to_entry by blast
  moreover have "k \<notin> V" using assms unfolding bfs_def by auto
  ultimately have "dom (bt_entry T) - insert k V \<subset> dom (bt_entry T) - V" by (auto simp: psubset_eq)
  then have "card (dom (bt_entry T) - insert k V) < card (dom (bt_entry T) - V)"
    by (rule psubset_card_mono[OF finite_Diff[OF finite_dom_map_of]])
  then show ?thesis using e by simp
qed

lemma committable_loop_correct:
  assumes "bt_inv E T" "rounds_fit T"
  shows "bfs T V q \<Longrightarrow> high_ok E T V high \<Longrightarrow>
    \<exists>r. committable_loop E T q high = Some r \<and> high_ok E T {k. \<exists>bs. path_to T k bs} r"
proof (induction "card (dom (bt_entry T) - V)" arbitrary: V q high rule: less_induct)
  case less
  show ?case
  proof (cases q)
    case Nil
    have "V \<subseteq> {k. \<exists>bs. path_to T k bs}" using less.prems(1) unfolding bfs_def by blast
    moreover have "{k. \<exists>bs. path_to T k bs} \<subseteq> V" using bfs_end less.prems(1) Nil by blast
    ultimately have "{k. \<exists>bs. path_to T k bs} = V" by (rule equalityI[rotated])
    moreover have "committable_loop E T q high = Some high" unfolding Nil by (subst committable_loop.simps) simp
    ultimately show ?thesis using less.prems(2) by simp
  next
    case (Cons k rest)
    obtain e where e: "bt_entry T k = Some e" "card (dom (bt_entry T) - insert k V) < card (dom (bt_entry T) - V)"
      using bfs_pop less.prems(1) Cons by blast
    note step = bfs_step[OF assms(1) less.prems(1)[unfolded Cons] e(1)]
    show ?thesis
      unfolding Cons committable_loop_step[OF assms e(1)]
      by (rule less.hyps[OF e(2) step high_ok_step[OF less.prems(2) e(1)]])
  qed
qed

lemma high_committable_qc_correct:
  assumes "bt_inv E T" "rounds_fit T"
  shows "\<exists>r. get_high_committable_qc E T = Some r \<and> high_ok E T {k. \<exists>bs. path_to T k bs} r"
  unfolding get_high_committable_qc_def
  by (rule committable_loop_correct[OF assms bfs_start[OF assms(1)]]) (simp add: high_ok_def)

end
