(* ===== verification/Block_Tree_Theorems.thy ===== *)
theory Block_Tree_Theorems
  imports Block_Tree_Correct
begin

text \<open>
  The properties of the block tree: what \<^verbatim>\<open>add\<close>, \<^verbatim>\<open>prune\<close>, \<^verbatim>\<open>try_update_coherency\<close> and
  \<^verbatim>\<open>get_high_committable_qc\<close> do to a well formed tree, and a concrete chain of three blocks on
  which they run.
\<close>

section \<open>A chain of three blocks\<close>

definition example_block :: "round \<Rightarrow> block_id \<Rightarrow> round \<Rightarrow> (nop_signature, nop_signature multi_sig, unit) consensus_full_block" where
  "example_block r parent_id parent_round =
     \<lparr>fb_header = (example_header r)\<lparr>bh_qc :=
        \<lparr>qc_info = \<lparr>vote_id = parent_id, vote_round = parent_round, vote_epoch = 1\<rparr>, qc_signatures = \<lparr>ms_sigs = []\<rparr>\<rparr>\<rparr>,
      fb_body = \<lparr>execution_body = ()\<rparr>\<rparr>"

definition example_root :: root_info where
  "example_root = \<lparr>ri_round = 2, ri_seq_num = 2, ri_epoch = 1, ri_block_id = 5, ri_timestamp_ns = 2\<rparr>"

abbreviation "b1 \<equiv> example_block 3 5 2"
abbreviation "b2 \<equiv> example_block 4 (fb_id example_env b1) 3"
abbreviation "b3 \<equiv> example_block 5 (fb_id example_env b2) 4"

lemma example_block_simps [simp]:
  "fb_parent_id (example_block r p q) = p" "fb_round (example_block r p q) = r"
  "fb_parent_round (example_block r p q) = q" "fb_body_id (example_block r p q) = 0"
  "fb_id example_env (example_block r p q) =
     foldl (\<lambda>a b. 7 * a + b) 1 [r, 1, p, q, 1, 1, 3, 3, 0]"
  "get_block_id (bh_qc (fb_header (example_block r p q))) = p" "get_round (bh_qc (fb_header (example_block r p q))) = q"
  by (simp_all add: example_block_def fb_parent_id_def fb_round_def fb_parent_round_def fb_body_id_def fb_id_def
      get_id_def get_block_id_def get_round_def example_header_def example_env_def example_rlp_header_def)

definition example_tree :: "(nop_signature, nop_signature multi_sig, unit) block_tree" where
  "example_tree =
     \<lparr>bt_root = example_root, bt_root_children = [fb_id example_env b1],
      bt_tree =
        \<lparr>t_tree =
           [(fb_id example_env b1, \<lparr>validated_block = b1, entry_coherent = True, children_blocks = [fb_id example_env b2]\<rparr>),
            (fb_id example_env b2, \<lparr>validated_block = b2, entry_coherent = False, children_blocks = [fb_id example_env b3]\<rparr>),
            (fb_id example_env b3, \<lparr>validated_block = b3, entry_coherent = False, children_blocks = []\<rparr>)],
         t_payloads =
           [(0, \<lparr>bbi_body = \<lparr>execution_body = ()\<rparr>, active_blocks =
              [fb_id example_env b1, fb_id example_env b2, fb_id example_env b3]\<rparr>)]\<rparr>\<rparr>"

lemma example_tree_inv: "bt_inv example_env example_tree"
  by (auto simp: bt_inv_def tree_wf_def hm_wf_def payload_refs_def entry_ok_def child_of_def is_coherent_def
      example_tree_def example_root_def split: if_splits)

lemma iter_ok_id: "iter_ok (\<lambda>m. m)"
  by (simp add: iter_ok_def)

lemma example_paths:
  "path_to example_tree (fb_id example_env b1) [b1]"
  "path_to example_tree (fb_id example_env b2) [b1, b2]"
  "path_to example_tree (fb_id example_env b3) [b1, b2, b3]"
proof -
  show 1: "path_to example_tree (fb_id example_env b1) [b1]"
    using path_root[of example_tree "fb_id example_env b1"] by (simp add: example_tree_def example_root_def)
  show 2: "path_to example_tree (fb_id example_env b2) [b1, b2]"
    using path_step[of example_tree "fb_id example_env b2" _ "[b1]"] 1 by (simp add: example_tree_def)
  show "path_to example_tree (fb_id example_env b3) [b1, b2, b3]"
    using path_step[of example_tree "fb_id example_env b3" _ "[b1, b2]"] 2 by (simp add: example_tree_def)
qed

lemma example_descends:
  "descends example_tree (fb_id example_env b1) (fb_id example_env b2)"
  "descends example_tree (fb_id example_env b1) (fb_id example_env b3)"
proof -
  show 2: "descends example_tree (fb_id example_env b1) (fb_id example_env b2)"
    using descends_child[of example_tree "fb_id example_env b2"] by (simp add: example_tree_def)
  show "descends example_tree (fb_id example_env b1) (fb_id example_env b3)"
    using descends_step[of example_tree "fb_id example_env b3"] 2 by (simp add: example_tree_def)
qed

lemma example_tree_coherent:
  "is_coherent example_tree (fb_id example_env b1)" "\<not> is_coherent example_tree (fb_id example_env b2)"
  "fb_id example_env b1 \<noteq> root_id example_tree" "fb_id example_env b2 \<noteq> root_id example_tree"
  "\<not> is_coherent example_tree (fb_id example_env b3)"
  by (simp_all add: is_coherent_def example_tree_def example_root_def)

section \<open>Properties\<close>

text \<open>
  C26: \<^verbatim>\<open>BlockTree::add\<close> keeps the tree well formed: it does not panic, a block that is valid to
  insert becomes retrievable under its id with all other blocks, the root and every coherency
  flag unchanged, and a block that is already stored or not above the root changes nothing.
  The hypotheses on the block are the rounds validation guarantees (its certificate is of a lower
  round than the block, and of no lower round than the parent block) and that its id differs
  from that of the root and of its parent.
\<close>

theorem block_tree_add_keeps_invariant:
  assumes "bt_inv E T" "iter_ok iter" "block_fits E T b"
  shows "\<exists>T'. bt_add E iter T b = Some T' \<and> bt_inv E T' \<and>
    (if is_valid_to_insert E T (fb_header b) then
       bt_root T' = bt_root T \<and> get_block T' = (get_block T)(fb_id E b \<mapsto> b) \<and> is_coherent T' = is_coherent T
     else T' = T)"
  using bt_add_correct[OF assms] by (simp add: add_ok_def)

theorem block_tree_add_keeps_invariant_witness:
  "\<exists>T'. bt_add example_env (\<lambda>m. m) example_tree (example_block 6 (fb_id example_env b2) 4) = Some T' \<and> bt_inv example_env T'"
proof -
  have "block_fits example_env example_tree (example_block 6 (fb_id example_env b2) 4)"
    by (auto simp: block_fits_def example_tree_def example_root_def split: if_splits)
  from block_tree_add_keeps_invariant[OF example_tree_inv iter_ok_id this] show ?thesis by blast
qed

text \<open>
  C7: \<^verbatim>\<open>BlockTree::prune\<close> at a coherent block other than the root returns; it commits exactly the chain from the
  old root to the new one, oldest first, and every block of that chain is coherent.  Afterwards the new root is
  that block and the entries still stored, unchanged, are exactly those whose parent round is not
  below the round of the new root; every descendant of the new root is among them, and no block of the committed chain is.
  If moreover no stored block conflicts with the new root (\<^term>\<open>commit_safe\<close>: a block whose parent round is the round of
  the new root or later descends from it), then exactly the descendants are stored and the tree is well formed again.
\<close>

theorem prune_commits_the_chain:
  assumes "bt_inv E T" "iter_ok iter" "is_coherent T n" "n \<noteq> root_id T"
  shows "\<exists>T' commit. prune E iter T n = Some (T', commit) \<and>
    path_to T n commit \<and> (\<forall>b \<in> set commit. is_coherent T (fb_id E b) \<and> bt_entry T' (fb_id E b) = None) \<and>
    bt_root T' = root_info_of E (last commit) \<and>
    (\<forall>k e. bt_entry T' k = Some e \<longleftrightarrow>
       bt_entry T k = Some e \<and> fb_round (last commit) \<le> fb_parent_round (validated_block e)) \<and>
    (\<forall>k. descends T n k \<longrightarrow> bt_entry T' k = bt_entry T k) \<and>
    (commit_safe T n \<longrightarrow> bt_inv E T' \<and> (\<forall>k. bt_entry T' k = (if descends T n k then bt_entry T k else None)))"
proof -
  obtain T' commit where p: "prune E iter T n = Some (T', commit)" "prune_ok E T n T' commit"
    using prune_correct[OF assms] by blast
  then have path: "path_to T n commit" by (simp add: prune_ok_def)
  have "bt_entry T' (fb_id E b) = None" if "b \<in> set commit" for b
    using path_to_mem[OF assms(1) path that] path_to_low[OF assms(1) path that] p(2)
    by (cases "bt_entry T' (fb_id E b)") (auto simp: prune_ok_def)
  moreover note coherent_ancestors[OF assms(1) path assms(3)]
    prune_ok_descendants[OF assms(1) p(2)] prune_ok_safe[OF assms(1) p(2)]
  ultimately show ?thesis using p unfolding prune_ok_def by (intro exI[of _ T'] exI[of _ commit]) blast
qed

theorem prune_commits_the_chain_witness:
  "\<exists>T'. prune example_env (\<lambda>m. m) example_tree (fb_id example_env b1) = Some (T', [b1]) \<and> bt_inv example_env T' \<and>
     bt_entry T' (fb_id example_env b1) = None"
proof -
  have "commit_safe example_tree (fb_id example_env b1)"
    unfolding commit_safe_def using example_descends by (auto simp: example_tree_def split: if_splits)
  with prune_commits_the_chain[OF example_tree_inv iter_ok_id example_tree_coherent(1,3)]
  obtain T' commit where "prune example_env (\<lambda>m. m) example_tree (fb_id example_env b1) = Some (T', commit)"
    "bt_inv example_env T'" "path_to example_tree (fb_id example_env b1) commit"
    "\<forall>b \<in> set commit. bt_entry T' (fb_id example_env b) = None" by blast
  moreover from this have "commit = [b1]" using path_to_unique[OF example_tree_inv _ example_paths(1)] by blast
  ultimately show ?thesis by auto
qed

text \<open>
  C17: \<^verbatim>\<open>BlockTree::try_update_coherency\<close> always returns.  It keeps the tree well formed and its
  blocks unchanged; the blocks it returns are exactly those that become coherent, each of them
  passed the check of the block policy on top of its ancestors, no coherent block is lost, and
  if every block on the path to the requested one is coherent or passes the check, the requested
  block is coherent afterwards.
\<close>

theorem try_update_coherency_terminates_and_is_exact:
  assumes "bt_inv E T"
  shows "\<exists>T' news. bt_try_update_coherency E chk T k = Some (T', news) \<and> bt_inv E T' \<and> same_blocks T T' \<and>
    (\<forall>j. is_coherent T' j \<longleftrightarrow> is_coherent T j \<or> j \<in> fb_id E ` set news) \<and>
    (\<forall>b \<in> set news. \<not> is_coherent T (fb_id E b) \<and>
       (\<exists>ds. path_to T (fb_id E b) (ds @ [b]) \<and> chk b ds (bt_root T) = Inr ())) \<and>
    (\<forall>bs. path_to T k bs \<longrightarrow>
       (\<forall>ys b zs. bs = ys @ b # zs \<longrightarrow> is_coherent T (fb_id E b) \<or> chk b ys (bt_root T) = Inr ()) \<longrightarrow>
       is_coherent T' k)"
  using update_coherency_correct[OF assms] unfolding update_ok_def by blast

theorem try_update_coherency_terminates_and_is_exact_witness:
  "\<exists>T' news. bt_try_update_coherency example_env (\<lambda>b ds r. if fb_round b < 5 then Inr () else Inl ()) example_tree
      (fb_id example_env b2) = Some (T', news) \<and>
     is_coherent T' (fb_id example_env b2) \<and> \<not> is_coherent T' (fb_id example_env b3)"
proof -
  let ?chk = "\<lambda>b ds (r :: root_info). if fb_round b < 5 then Inr () else Inl ()"
  from try_update_coherency_terminates_and_is_exact[OF example_tree_inv, of ?chk "fb_id example_env b2"]
  obtain T' news where r: "bt_try_update_coherency example_env ?chk example_tree (fb_id example_env b2) = Some (T', news)"
    "\<forall>j. is_coherent T' j \<longleftrightarrow> is_coherent example_tree j \<or> j \<in> fb_id example_env ` set news"
    "\<forall>b \<in> set news. \<not> is_coherent example_tree (fb_id example_env b) \<and>
       (\<exists>ds. path_to example_tree (fb_id example_env b) (ds @ [b]) \<and> ?chk b ds (bt_root example_tree) = Inr ())"
    "\<forall>bs. path_to example_tree (fb_id example_env b2) bs \<longrightarrow>
       (\<forall>ys b zs. bs = ys @ b # zs \<longrightarrow> is_coherent example_tree (fb_id example_env b) \<or> ?chk b ys (bt_root example_tree) = Inr ()) \<longrightarrow>
       is_coherent T' (fb_id example_env b2)"
    by (elim exE conjE)
  have "fb_round b < 5" if "[b1, b2] = ys @ b # zs" for ys b zs
  proof -
    have "b \<in> set [b1, b2]" unfolding that by simp
    then show ?thesis by auto
  qed
  then have "is_coherent T' (fb_id example_env b2)" using r(4) example_paths(2) by auto
  moreover have "fb_id example_env b3 \<notin> fb_id example_env ` set news"
  proof
    assume "fb_id example_env b3 \<in> fb_id example_env ` set news"
    then obtain b ds where b: "path_to example_tree (fb_id example_env b3) (ds @ [b])" "fb_round b < 5"
      using r(3) by (fastforce split: if_splits)
    then show False using path_to_unique[OF example_tree_inv example_paths(3) b(1)] by auto
  qed
  then have "\<not> is_coherent T' (fb_id example_env b3)" using r(2) example_tree_coherent(5) by blast
  ultimately show ?thesis using r(1) by blast
qed

text \<open>
  C27: \<^verbatim>\<open>BlockTree::get_high_committable_qc\<close> always returns, and returns the committable certificate
  of the highest round among the certificates of the blocks connected to the root: one whose
  block and its parent have consecutive rounds and whose parent is coherent and not the root.
  Without such a certificate it returns \<^verbatim>\<open>None\<close>.
\<close>

theorem get_high_committable_qc_is_highest:
  assumes "bt_inv E T" "rounds_fit T"
  shows "\<exists>r. get_high_committable_qc E T = Some r \<and>
    (\<forall>k bs e. path_to T k bs \<longrightarrow> bt_entry T k = Some e \<longrightarrow> committable E T (entry_qc e) \<longrightarrow>
       (\<exists>h. r = Some h \<and> get_round (entry_qc e) \<le> get_round h)) \<and>
    (\<forall>h. r = Some h \<longrightarrow> committable E T h \<and> (\<exists>k bs e. path_to T k bs \<and> bt_entry T k = Some e \<and> entry_qc e = h))"
  using high_committable_qc_correct[OF assms] unfolding high_ok_def by blast

theorem get_high_committable_qc_is_highest_witness:
  "\<exists>h. get_high_committable_qc example_env example_tree = Some (Some h) \<and> get_round h = 4"
proof -
  have fit: "rounds_fit example_tree" by (auto simp: rounds_fit_def example_tree_def u64_max_def split: if_splits)
  obtain r where r: "get_high_committable_qc example_env example_tree = Some r"
    "\<forall>k bs e. path_to example_tree k bs \<longrightarrow> bt_entry example_tree k = Some e \<longrightarrow> committable example_env example_tree (entry_qc e) \<longrightarrow>
       (\<exists>h. r = Some h \<and> get_round (entry_qc e) \<le> get_round h)"
    "\<forall>h. r = Some h \<longrightarrow> (\<exists>k e. bt_entry example_tree k = Some e \<and> entry_qc e = h)"
    using get_high_committable_qc_is_highest[OF example_tree_inv fit] by blast
  have e3: "bt_entry example_tree (fb_id example_env b3) = Some \<lparr>validated_block = b3, entry_coherent = False, children_blocks = []\<rparr>"
    by (simp add: example_tree_def)
  have c: "committable example_env example_tree (bh_qc (fb_header b3))"
    by (simp add: committable_def is_coherent_def example_tree_def example_root_def)
  obtain h where h: "r = Some h" "4 \<le> get_round h"
    using r(2)[rule_format, OF example_paths(3) e3] c by auto
  then obtain k e where "bt_entry example_tree k = Some e" "entry_qc e = h" using r(3) by blast
  then have "get_round h \<le> 4" by (auto simp: example_tree_def split: if_splits)
  then show ?thesis using r(1) h by auto
qed

end
