(* ===== verification/Base_Fee.thy ===== *)
theory Base_Fee
  imports Prelude "HOL-Library.Signed_Division"
begin

text \<open>
  The base fee of a block: \<^verbatim>\<open>monad-tfm/src/base_fee.rs\<close> and the checked integers of
  \<^verbatim>\<open>monad-tfm/src/arithmetic.rs\<close>.

  A \<^verbatim>\<open>CheckedU64\<close> is a natural number and a \<^verbatim>\<open>CheckedI64\<close> an integer; each operation returns
  \<^term>\<open>None\<close> where the code panics, so the type is the value with its bounds written out in
  the operations.  \<^verbatim>\<open>U256\<close> multiplication reduces modulo the width and an \<^verbatim>\<open>I256\<close> operation that
  leaves the range is a panic.  Division of signed numbers truncates towards zero (\<open>sdiv\<close>).  The
  Taylor loop of \<^verbatim>\<open>fake_exponential\<close> has no bound in the code, so it is a partial function; that
  it returns on all inputs the code accepts is proved.
\<close>

section \<open>Signed machine integers\<close>

definition i64_range :: "int \<Rightarrow> bool" where
  "i64_range x \<longleftrightarrow> - (2 ^ 63) \<le> x \<and> x < 2 ^ 63"

definition i256_range :: "int \<Rightarrow> bool" where
  "i256_range x \<longleftrightarrow> - (2 ^ 255) \<le> x \<and> x < 2 ^ 255"

definition i64_checked :: "int \<Rightarrow> int option" where
  "i64_checked x = (if i64_range x then Some x else None)"

definition i256_checked :: "int \<Rightarrow> int option" where
  "i256_checked x = (if i256_range x then Some x else None)"

definition cast_signed :: "u64 \<Rightarrow> int" where
  "cast_signed x = (if x < 2 ^ 63 then int x else int x - 2 ^ 64)"

definition cast_unsigned :: "int \<Rightarrow> u64" where
  "cast_unsigned x = nat (x mod 2 ^ 64)"

fun isqrt :: "nat \<Rightarrow> nat" where
  "isqrt n = (if n = 0 then 0 else let r = 2 * isqrt (n div 4) in if (r + 1) * (r + 1) \<le> n then r + 1 else r)"

declare isqrt.simps [simp del]

section \<open>CheckedU64 and CheckedI64\<close>

definition to_checked_i64 :: "u64 \<Rightarrow> int option" where
  "to_checked_i64 a = i64_checked (int a)"

definition cu_add :: "u64 \<Rightarrow> u64 \<Rightarrow> u64 option" where
  "cu_add a b = (if a + b \<le> u64_max then Some (a + b) else None)"

definition cu_sub :: "u64 \<Rightarrow> u64 \<Rightarrow> u64 option" where
  "cu_sub a b = (if b \<le> a then Some (a - b) else None)"

definition cu_mul :: "u64 \<Rightarrow> u64 \<Rightarrow> u64 option" where
  "cu_mul a b = (if a * b \<le> u64_max then Some (a * b) else None)"

definition cu_div :: "u64 \<Rightarrow> u64 \<Rightarrow> u64 option" where
  "cu_div a b = (if b = 0 then None else Some (a div b))"

definition saturating_to_checked_u64 :: "int \<Rightarrow> u64" where
  "saturating_to_checked_u64 a = nat (max a 0)"

definition ci_neg :: "int \<Rightarrow> int option" where
  "ci_neg a = i64_checked (- a)"

definition ci_add :: "int \<Rightarrow> int \<Rightarrow> int option" where
  "ci_add a b = i64_checked (a + b)"

definition ci_sub :: "int \<Rightarrow> int \<Rightarrow> int option" where
  "ci_sub a b = i64_checked (a - b)"

definition ci_mul :: "int \<Rightarrow> int \<Rightarrow> int option" where
  "ci_mul a b = i64_checked (a * b)"

definition ci_div :: "int \<Rightarrow> int \<Rightarrow> int option" where
  "ci_div a b = (if b = 0 then None else i64_checked (a sdiv b))"

section \<open>The base fee\<close>

definition GENESIS_BASE_FEE :: u64 where
  "GENESIS_BASE_FEE = 0"

definition GENESIS_BASE_FEE_TREND :: u64 where
  "GENESIS_BASE_FEE_TREND = cast_unsigned 0"

definition GENESIS_BASE_FEE_MOMENT :: u64 where
  "GENESIS_BASE_FEE_MOMENT = 0"

definition MIN_BASE_FEE :: u64 where
  "MIN_BASE_FEE = 100000000000"

definition MAX_BASE_FEE :: u64 where
  "MAX_BASE_FEE = 100000000000000000"

partial_function (option) exponential_loop :: "int \<Rightarrow> nat \<Rightarrow> nat \<Rightarrow> int \<Rightarrow> int \<Rightarrow> int option" where
  "exponential_loop numerator denominator i output numerator_accum =
     (if numerator_accum = 0 then Some output
      else
        Option.bind (i256_checked (output + numerator_accum)) (\<lambda>output.
        Option.bind (i256_checked (numerator_accum * numerator)) (\<lambda>prod.
        Option.bind (i256_checked (int (wrapping_mul u256_max denominator i))) (\<lambda>d.
        if d = 0 then None
        else
          Option.bind (i256_checked (prod sdiv d)) (\<lambda>numerator_accum.
            exponential_loop numerator denominator (wrapping_add u256_max i 1) output numerator_accum)))))"

declare exponential_loop.simps [code]

definition fake_exponential :: "u64 \<Rightarrow> int \<Rightarrow> u64 \<Rightarrow> u64 option" where
  "fake_exponential factor numerator denominator = do {
     _ \<leftarrow> assert_p (denominator \<noteq> 0);
     _ \<leftarrow> assert_p (nat \<bar>numerator\<bar> \<le> denominator);
     _ \<leftarrow> assert_p (factor \<le> MAX_BASE_FEE);
     numerator_accum \<leftarrow> i256_checked (int (wrapping_mul u256_max factor denominator));
     output \<leftarrow> exponential_loop numerator denominator 1 0 numerator_accum;
     d \<leftarrow> i256_checked (int denominator);
     q \<leftarrow> i256_checked (output sdiv d);
     _ \<leftarrow> assert_p (0 \<le> q \<and> q \<le> int u64_max);
     Some (nat q)
   }"

definition MAX_STEP_SIZE_DENOM :: u64 where
  "MAX_STEP_SIZE_DENOM = 28"

definition BETA :: u64 where
  "BETA = 96"

definition u128_checked :: "nat \<Rightarrow> nat option" where
  "u128_checked a = (if a < 2 ^ 128 then Some a else None)"

definition i128_checked :: "int \<Rightarrow> int option" where
  "i128_checked a = (if - (2 ^ 127) \<le> a \<and> a < 2 ^ 127 then Some a else None)"

definition next_moment :: "u64 \<Rightarrow> int \<Rightarrow> u64 option" where
  "next_moment parent_moment parent_delta = do {
     moment_decay \<leftarrow> u128_checked (BETA * parent_moment);
     sqr \<leftarrow> i128_checked (parent_delta * parent_delta);
     parent_delta_sqr \<leftarrow> (if 0 \<le> sqr then Some (nat sqr) else None);
     current_contrib \<leftarrow> u128_checked ((100 - BETA) * parent_delta_sqr);
     total \<leftarrow> u128_checked (moment_decay + current_contrib);
     let moment = total div 100;
     if moment \<le> u64_max then Some moment else None
   }"

definition next_trend :: "int \<Rightarrow> int \<Rightarrow> int option" where
  "next_trend parent_trend parent_delta = do {
     b \<leftarrow> to_checked_i64 BETA;
     decay \<leftarrow> ci_mul b parent_trend;
     b' \<leftarrow> to_checked_i64 BETA;
     c \<leftarrow> ci_sub 100 b';
     n \<leftarrow> ci_neg parent_delta;
     contrib \<leftarrow> ci_mul c n;
     s \<leftarrow> ci_add decay contrib;
     ci_div s 100
   }"

definition compute_base_fee_math ::
  "u64 \<Rightarrow> u64 \<Rightarrow> u64 \<Rightarrow> int \<Rightarrow> u64 \<Rightarrow> (u64 \<times> int \<times> u64) option" where
  "compute_base_fee_math block_gas_limit parent_gas_usage parent_base_fee parent_trend parent_moment = do {
     scaled \<leftarrow> cu_mul block_gas_limit 8;
     block_gas_target \<leftarrow> cu_div scaled 10;
     usage \<leftarrow> to_checked_i64 parent_gas_usage;
     target \<leftarrow> to_checked_i64 block_gas_target;
     parent_delta \<leftarrow> ci_sub usage target;
     numerator \<leftarrow> ci_mul target parent_delta;
     moment \<leftarrow> to_checked_i64 parent_moment;
     trend_sqr \<leftarrow> ci_mul parent_trend parent_trend;
     variance \<leftarrow> ci_sub moment trend_sqr;
     let sqrt_term = isqrt (saturating_to_checked_u64 variance);
     spread \<leftarrow> cu_add block_gas_target sqrt_term;
     stepped \<leftarrow> cu_mul MAX_STEP_SIZE_DENOM spread;
     headroom \<leftarrow> cu_sub block_gas_limit block_gas_target;
     denominator \<leftarrow> cu_mul stepped headroom;
     fee \<leftarrow> fake_exponential parent_base_fee numerator denominator;
     let base_fee = max MIN_BASE_FEE (min MAX_BASE_FEE fee);
     trend \<leftarrow> next_trend parent_trend parent_delta;
     moment \<leftarrow> next_moment parent_moment parent_delta;
     Some (base_fee, trend, moment)
   }"

definition compute_base_fee :: "u64 \<Rightarrow> u64 \<Rightarrow> u64 \<Rightarrow> u64 \<Rightarrow> u64 \<Rightarrow> (u64 \<times> u64 \<times> u64) option" where
  "compute_base_fee parent_block_gas_limit parent_gas_usage parent_base_fee parent_trend parent_moment = do {
     _ \<leftarrow> assert_p (parent_gas_usage \<le> parent_block_gas_limit);
     (base_fee, trend, moment) \<leftarrow>
       compute_base_fee_math parent_block_gas_limit parent_gas_usage parent_base_fee (cast_signed parent_trend) parent_moment;
     Some (base_fee, cast_unsigned trend, moment)
   }"

section \<open>Arithmetic\<close>

lemma sdiv_abs: "\<bar>a sdiv b\<bar> = \<bar>a\<bar> div \<bar>b\<bar>" for a b :: int
proof -
  have "0 \<le> \<bar>a\<bar> div \<bar>b\<bar>" by (cases "b = 0") (simp_all add: pos_imp_zdiv_nonneg_iff)
  then show ?thesis by (cases "a = 0"; cases "b = 0") (simp_all add: signed_divide_int_def abs_mult)
qed

lemma sdiv_pos: "0 < b \<Longrightarrow> 0 \<le> a \<Longrightarrow> a sdiv b = a div b" for a b :: int
  by (cases "a = 0") (simp_all add: signed_divide_int_def)

lemma sdiv_neg: "0 < b \<Longrightarrow> a \<le> 0 \<Longrightarrow> a sdiv b = - (- a div b)" for a b :: int
  by (cases "a = 0") (simp_all add: signed_divide_int_def)

lemma isqrt_bounds: "isqrt n * isqrt n \<le> n \<and> n < (isqrt n + 1) * (isqrt n + 1)"
proof (induction n rule: isqrt.induct)
  case (1 n)
  show ?case
  proof (cases "n = 0")
    case False
    define q where "q = isqrt (n div 4)"
    have IH: "q * q \<le> n div 4" "n div 4 < (q + 1) * (q + 1)" using 1 False by (auto simp: q_def)
    have "4 * (q * q) \<le> n" "n < 4 * ((q + 1) * (q + 1))" using IH by linarith+
    moreover have "isqrt n = (if (2 * q + 1) * (2 * q + 1) \<le> n then 2 * q + 1 else 2 * q)"
      using False by (subst isqrt.simps) (simp add: q_def Let_def)
    ultimately show ?thesis by (auto simp: algebra_simps)
  qed (simp add: isqrt.simps)
qed

lemma isqrt_le: "n \<le> m * m \<Longrightarrow> isqrt n \<le> m"
proof (rule ccontr)
  assume n: "n \<le> m * m" "\<not> isqrt n \<le> m"
  then have "m * m < isqrt n * isqrt n" by (intro mult_strict_mono) auto
  then show False using isqrt_bounds[of n] n(1) by linarith
qed

lemma cast_unsigned_signed: "i64_range x \<Longrightarrow> cast_signed (cast_unsigned x) = x"
proof -
  assume r: "i64_range x"
  show ?thesis
  proof (cases "0 \<le> x")
    case True
    then have "x mod 2 ^ 64 = x" using r by (intro mod_pos_pos_trivial) (auto simp: i64_range_def)
    then show ?thesis using True r by (simp add: cast_signed_def cast_unsigned_def i64_range_def nat_less_iff)
  next
    case False
    then have "x mod 2 ^ 64 = x + 2 ^ 64" using r
      by (subst mod_add_self2[symmetric], intro mod_pos_pos_trivial) (auto simp: i64_range_def)
    then show ?thesis using False r by (simp add: cast_signed_def cast_unsigned_def i64_range_def nat_less_iff)
  qed
qed

section \<open>The Taylor loop\<close>

lemma accum_step:
  fixes a n :: int and d i :: nat
  assumes "\<bar>n\<bar> \<le> int d" "0 < d" "0 < i"
  shows "\<bar>(a * n) sdiv (int d * int i)\<bar> \<le> \<bar>a\<bar> div int i"
    and "0 \<le> n \<Longrightarrow> 0 \<le> a \<Longrightarrow> 0 \<le> (a * n) sdiv (int d * int i)"
    and "n < 0 \<Longrightarrow> 0 \<le> a \<Longrightarrow> (a * n) sdiv (int d * int i) \<le> 0"
    and "n < 0 \<Longrightarrow> a \<le> 0 \<Longrightarrow> 0 \<le> (a * n) sdiv (int d * int i)"
proof -
  have pos: "0 < int d * int i" using assms(2,3) by simp
  have "\<bar>a\<bar> * \<bar>n\<bar> div (int d * int i) \<le> \<bar>a\<bar> * int d div (int d * int i)"
    using assms(1) pos by (intro zdiv_mono1 mult_left_mono) auto
  also have "\<dots> = \<bar>a\<bar> div int i" using assms(2) by (simp add: mult.commute[of "\<bar>a\<bar>"] zdiv_zmult2_eq)
  finally show "\<bar>(a * n) sdiv (int d * int i)\<bar> \<le> \<bar>a\<bar> div int i" using pos by (simp add: sdiv_abs abs_mult)
  show "0 \<le> n \<Longrightarrow> 0 \<le> a \<Longrightarrow> 0 \<le> (a * n) sdiv (int d * int i)"
    using pos by (simp add: sdiv_pos pos_imp_zdiv_nonneg_iff)
  show "n < 0 \<Longrightarrow> 0 \<le> a \<Longrightarrow> (a * n) sdiv (int d * int i) \<le> 0"
    using pos by (simp add: sdiv_neg mult_nonneg_nonpos pos_imp_zdiv_nonneg_iff)
  show "n < 0 \<Longrightarrow> a \<le> 0 \<Longrightarrow> 0 \<le> (a * n) sdiv (int d * int i)"
    using pos by (simp add: sdiv_pos mult_nonpos_nonpos pos_imp_zdiv_nonneg_iff)
qed

lemma i256_range_abs: "\<bar>x\<bar> \<le> 2 ^ 200 \<Longrightarrow> i256_range x"
proof -
  assume "\<bar>x\<bar> \<le> 2 ^ 200"
  then have "- (2 ^ 200) \<le> x" "x \<le> 2 ^ 200" by (simp_all only: abs_le_iff minus_le_iff)
  then show ?thesis unfolding i256_range_def by simp
qed

text \<open>One iteration, for the magnitudes that occur: no 256 bit operation overflows.\<close>

lemma exponential_loop_step:
  fixes a n out :: int
  assumes "\<bar>n\<bar> \<le> int d" "0 < d" "d \<le> u64_max" "0 < i" "i < 2 ^ 10" "a \<noteq> 0" "\<bar>a\<bar> < 2 ^ 125" "\<bar>out + a\<bar> < 2 ^ 130"
  shows "exponential_loop n d i out a = exponential_loop n d (i + 1) (out + a) ((a * n) sdiv (int d * int i))"
proof -
  let ?a = "(a * n) sdiv (int d * int i)"
  have d: "int d < 2 ^ 64" using assms(3) by (simp add: u64_max_def)
  have "d * i < 2 ^ 64 * 2 ^ 10" using assms(3,5) by (intro mult_strict_mono) (auto simp: u64_max_def)
  then have di: "d * i < 2 ^ 74" by simp
  then have w: "wrapping_mul u256_max d i = d * i" "wrapping_add u256_max i 1 = i + 1"
    using assms(5) by (simp_all add: wrapping_mul_def wrapping_add_def u256_max_def)
  have "int (d * i) < int (2 ^ 74)" using di by (simp only: of_nat_less_iff)
  moreover have "0 \<le> int d * int i" by simp
  ultimately have r: "i256_range (int d * int i)" unfolding i256_range_def by (auto intro: order_trans[of _ 0])
  have "\<bar>a * n\<bar> \<le> 2 ^ 125 * 2 ^ 64" unfolding abs_mult using assms(1,7) d by (intro mult_mono) auto
  then have p: "i256_range (a * n)" by (intro i256_range_abs) simp
  have "\<bar>?a\<bar> \<le> \<bar>a\<bar> div int i" by (rule accum_step(1)[OF assms(1,2,4)])
  also have "\<dots> \<le> \<bar>a\<bar>" using assms(4) zdiv_mono2[of "\<bar>a\<bar>" 1 "int i"] by simp
  finally have q: "i256_range ?a" using assms(7) by (intro i256_range_abs) simp
  have o: "i256_range (out + a)" using assms(8) by (intro i256_range_abs) simp
  show ?thesis
    by (subst exponential_loop.simps) (use assms(2,4,6) in \<open>simp add: i256_checked_def w r p q o del: One_nat_def\<close>)
qed

text \<open>
  The rest of the series from index \<open>i \<ge> 2\<close> on: it ends, its sum is at most twice its first term,
  and with a negative numerator the terms alternate so that the sum stays between zero and the
  first term.
\<close>

definition tail_ok :: "int \<Rightarrow> int \<Rightarrow> int \<Rightarrow> bool" where
  "tail_ok n a S \<longleftrightarrow>
     \<bar>S\<bar> \<le> 2 * \<bar>a\<bar> \<and> (0 \<le> n \<longrightarrow> 0 \<le> a \<longrightarrow> a \<le> S) \<and>
     (n < 0 \<longrightarrow> (0 \<le> a \<longrightarrow> 0 \<le> S \<and> S \<le> a) \<and> (a \<le> 0 \<longrightarrow> a \<le> S \<and> S \<le> 0))"

lemma exponential_loop_tail:
  fixes a n out :: int
  assumes "\<bar>n\<bar> \<le> int d" "0 < d" "d \<le> u64_max"
  shows "2 \<le> i \<Longrightarrow> i + k \<le> 300 \<Longrightarrow> k \<le> 125 \<Longrightarrow> \<bar>a\<bar> < 2 ^ k \<Longrightarrow> \<bar>out\<bar> + 2 * \<bar>a\<bar> < 2 ^ 130 \<Longrightarrow>
    \<exists>S. exponential_loop n d i out a = Some (out + S) \<and> tail_ok n a S"
proof (induction k arbitrary: i a out)
  case 0
  then show ?case by (subst exponential_loop.simps) (simp add: tail_ok_def)
next
  case (Suc k)
  show ?case
  proof (cases "a = 0")
    case True
    then show ?thesis by (subst exponential_loop.simps) (simp add: tail_ok_def)
  next
    case False
    let ?a = "(a * n) sdiv (int d * int i)"
    have i: "0 < i" using Suc.prems by simp
    note step = accum_step[OF assms(1,2) i, of a]
    have "\<bar>a\<bar> div int i \<le> \<bar>a\<bar> div 2" using Suc.prems(1) by (intro zdiv_mono2) auto
    then have half: "2 * \<bar>?a\<bar> \<le> \<bar>a\<bar>" using step(1) by linarith
    have "\<exists>S. exponential_loop n d (i + 1) (out + a) ?a = Some (out + a + S) \<and> tail_ok n ?a S"
      using Suc.prems half by (intro Suc.IH) auto
    then obtain S where S: "exponential_loop n d (i + 1) (out + a) ?a = Some (out + a + S)" "tail_ok n ?a S" by blast
    have "(2::int) ^ Suc k \<le> 2 ^ 125" using Suc.prems(3) by (intro power_increasing) auto
    then have "exponential_loop n d i out a = Some (out + (a + S))"
      using S(1) Suc.prems i False by (subst exponential_loop_step[OF assms i]) (auto simp: add.assoc)
    moreover have "tail_ok n a (a + S)"
      using S(2) step(2-4) half unfolding tail_ok_def by linarith
    ultimately show ?thesis by blast
  qed
qed

lemma exponential_loop_total:
  fixes n :: int
  assumes "\<bar>n\<bar> \<le> int d" "0 < d" "d \<le> u64_max" "0 \<le> a" "a < 2 ^ 125"
  shows "\<exists>out. exponential_loop n d 1 0 a = Some out \<and> 0 \<le> out \<and> out \<le> 3 * a \<and>
    out \<le> a + 2 * \<bar>a * n sdiv int d\<bar> \<and> (0 \<le> n \<longrightarrow> a \<le> out) \<and> (n \<le> 0 \<longrightarrow> out \<le> a)"
proof (cases "a = 0")
  case True
  then show ?thesis by (subst exponential_loop.simps) simp
next
  case False
  let ?a = "(a * n) sdiv (int d * int 1)"
  note step = accum_step[OF assms(1,2), of 1 a]
  have le: "\<bar>?a\<bar> \<le> a" using step(1) assms(4) by simp
  obtain S where S: "exponential_loop n d 2 a ?a = Some (a + S)" "tail_ok n ?a S"
    using exponential_loop_tail[OF assms(1-3), of 2 125 ?a a] le assms(4,5) by auto
  have "exponential_loop n d 1 0 a = Some (a + S)"
    by (subst exponential_loop_step[OF assms(1-3)]) (use S(1) assms False in \<open>simp_all del: One_nat_def\<close>)
  moreover have "n = 0 \<Longrightarrow> ?a = 0" by (simp add: signed_divide_int_def)
  ultimately show ?thesis using S(2) le step(2,3) assms(4) unfolding tail_ok_def by auto
qed

section \<open>No panic\<close>

lemma fake_exponential_ok:
  assumes "0 < d" "d \<le> u64_max" "\<bar>n\<bar> \<le> int d" "f \<le> MAX_BASE_FEE"
  shows "\<exists>q. fake_exponential f n d = Some q \<and> (0 \<le> n \<longrightarrow> f \<le> q) \<and> (n \<le> 0 \<longrightarrow> q \<le> f) \<and>
    (28 * \<bar>n\<bar> \<le> int d \<longrightarrow> 14 * q \<le> 15 * f)"
proof -
  let ?a = "int f * int d"
  have "f * d < 2 ^ 57 * 2 ^ 64"
    using assms(2,4) by (intro mult_strict_mono) (auto simp: MAX_BASE_FEE_def u64_max_def)
  then have fd: "f * d < 2 ^ 121" by simp
  then have "int (f * d) < int (2 ^ 121)" by (simp only: of_nat_less_iff)
  then have a: "?a < 2 ^ 121" by simp
  have w: "wrapping_mul u256_max f d = f * d" using fd by (simp add: wrapping_mul_def u256_max_def)
  have wr: "i256_checked ?a = Some ?a" using a by (simp add: i256_checked_def i256_range_abs)
  obtain out where out: "exponential_loop n d 1 0 ?a = Some out" "0 \<le> out" "out \<le> 3 * ?a"
    "out \<le> ?a + 2 * \<bar>?a * n sdiv int d\<bar>" "0 \<le> n \<longrightarrow> ?a \<le> out" "n \<le> 0 \<longrightarrow> out \<le> ?a"
    using exponential_loop_total[OF assms(3,1,2), of ?a] a by auto
  have "?a * n sdiv int d = int f * n"
    using assms(1) by (simp add: signed_divide_int_def sgn_mult abs_mult mult.commute mult.left_commute abs_mult_sgn)
  then have up: "out \<le> ?a + 2 * (int f * \<bar>n\<bar>)" using out(4) by (simp add: abs_mult)
  let ?q = "out div int d"
  have q: "out sdiv int d = ?q" "0 \<le> ?q" using assms(1) out(2) by (simp_all add: sdiv_pos pos_imp_zdiv_nonneg_iff)
  have "?q \<le> 3 * ?a div int d" using assms(1) out(3) by (intro zdiv_mono1) auto
  also have "\<dots> = 3 * int f" using assms(1) by (simp add: mult.assoc[symmetric])
  finally have q3: "?q \<le> 3 * int f" .
  then have q64: "?q \<le> int u64_max" "?q < 2 ^ 64" using assms(4) by (simp_all add: MAX_BASE_FEE_def u64_max_def)
  have dr: "i256_checked (int d) = Some (int d)" "i256_checked ?q = Some ?q"
    using assms(2) q64 q(2) by (simp_all add: i256_checked_def i256_range_abs u64_max_def)
  have "fake_exponential f n d = Some (nat ?q)"
    using assms out(1) q q64 by (simp add: fake_exponential_def w wr dr nat_le_iff del: One_nat_def)
  moreover have "f \<le> nat ?q" if "0 \<le> n"
    using zdiv_mono1[of ?a out "int d"] out(5) that assms(1) by (simp add: le_nat_iff q(2))
  moreover have "nat ?q \<le> f" if "n \<le> 0"
    using zdiv_mono1[of out ?a "int d"] out(6) that assms(1) by simp
  moreover have "14 * nat ?q \<le> 15 * f" if "28 * \<bar>n\<bar> \<le> int d"
  proof -
    have "int f * (28 * \<bar>n\<bar>) \<le> int f * int d" using that by (intro mult_left_mono) auto
    then have "14 * out \<le> 15 * ?a" using up by (simp add: algebra_simps)
    moreover have "?q * int d \<le> out" using assms(1) by (simp add: minus_mod_eq_div_mult[symmetric] pos_mod_sign)
    ultimately have "14 * ?q * int d \<le> 15 * int f * int d" by linarith
    then have "14 * ?q \<le> 15 * int f" using assms(1) mult_le_cancel_right_pos[of "int d"] by simp
    then show ?thesis using q(2) by linarith
  qed
  ultimately show ?thesis by blast
qed

definition MAX_GAS_LIMIT :: nat where
  "MAX_GAS_LIMIT = 1000000000"

definition trend_ok :: "int \<Rightarrow> bool" where
  "trend_ok t \<longleftrightarrow> - 200000000 \<le> t \<and> t \<le> 800000000"

text \<open>
  The documented ranges of the parent's fee, trend and moment, for gas limits of up to 1000M: the
  target is at most 800M, so the trend is between -200M and 800M and the moment at most the square of 800M.
\<close>

definition fee_state_ok :: "u64 \<Rightarrow> u64 \<Rightarrow> u64 \<Rightarrow> bool" where
  "fee_state_ok fee trend moment \<longleftrightarrow>
     MIN_BASE_FEE \<le> fee \<and> fee \<le> MAX_BASE_FEE \<and> trend_ok (cast_signed trend) \<and> moment \<le> 800000000 * 800000000"

lemma i64_checked_Some: "- 9000000000000000000 \<le> x \<Longrightarrow> x \<le> 9000000000000000000 \<Longrightarrow> i64_checked x = Some x"
  by (simp add: i64_checked_def i64_range_def)

lemma next_trend_ok:
  assumes "trend_ok t" "- 800000000 \<le> dl" "dl \<le> 200000000"
  shows "\<exists>t'. next_trend t dl = Some t' \<and> trend_ok t'"
proof -
  let ?s = "96 * t + 4 * (- dl)"
  have s: "- 20000000000 \<le> ?s" "?s \<le> 80000000000" using assms by (simp_all add: trend_ok_def)
  have "trend_ok (?s sdiv 100)"
  proof (cases "0 \<le> ?s")
    case True
    then have "?s sdiv 100 = ?s div 100" by (intro sdiv_pos) simp_all
    then show ?thesis using s unfolding trend_ok_def by linarith
  next
    case False
    then have "?s sdiv 100 = - (- ?s div 100)" by (intro sdiv_neg) simp_all
    then show ?thesis using s unfolding trend_ok_def by linarith
  qed
  moreover have "next_trend t dl = Some (?s sdiv 100)"
    using assms s calculation
    by (simp add: next_trend_def BETA_def to_checked_i64_def ci_mul_def ci_sub_def ci_neg_def ci_add_def ci_div_def
        i64_checked_Some trend_ok_def)
  ultimately show ?thesis by blast
qed

lemma abs_le_sqr: "\<bar>x\<bar> \<le> c \<Longrightarrow> x * x \<le> c * c" for x c :: int
  using mult_mono[of "\<bar>x\<bar>" c "\<bar>x\<bar>" c] by simp

lemma next_moment_ok:
  assumes "m \<le> 800000000 * 800000000" "- 800000000 \<le> dl" "dl \<le> 200000000"
  shows "\<exists>m'. next_moment m dl = Some m' \<and> m' \<le> 800000000 * 800000000"
proof -
  have "dl * dl \<le> 800000000 * 800000000" using assms(2,3) by (intro abs_le_sqr) simp
  moreover have "0 \<le> dl * dl" by simp
  ultimately have d: "nat (dl * dl) \<le> 800000000 * 800000000" "i128_checked (dl * dl) = Some (dl * dl)"
    by (auto simp: nat_le_iff i128_checked_def intro: order_trans[of _ 0])
  have "(96 * m + 4 * nat (dl * dl)) div 100 \<le> 800000000 * 800000000" using d(1) assms(1) by linarith
  then show ?thesis
    using assms(1) d by (simp add: next_moment_def BETA_def u128_checked_def u64_max_def Let_def)
qed

lemma cu_Some:
  "a + b \<le> u64_max \<Longrightarrow> cu_add a b = Some (a + b)" "a * b \<le> u64_max \<Longrightarrow> cu_mul a b = Some (a * b)"
  "b \<le> a \<Longrightarrow> cu_sub a b = Some (a - b)" "b \<noteq> 0 \<Longrightarrow> cu_div a b = Some (a div b)"
  by (simp_all add: cu_add_def cu_mul_def cu_sub_def cu_div_def)

text \<open>The denominator of the exponent: positive, in range, and large against the numerator.\<close>

lemma denominator_ok:
  fixes L T s :: nat and dl :: int
  assumes "T = L * 8 div 10" "2 \<le> L" "L \<le> MAX_GAS_LIMIT" "s \<le> 800000000" "- int T \<le> dl" "dl \<le> int (L - T)"
  defines "D \<equiv> 28 * (T + s) * (L - T)"
  shows "0 < D" "D \<le> u64_max" "\<bar>int T * dl\<bar> \<le> int D" "0 \<le> dl \<Longrightarrow> 28 * \<bar>int T * dl\<bar> \<le> int D"
proof -
  have T: "0 < T" "0 < L - T" "T \<le> 800000000" "L - T \<le> 200000000" "T \<le> 28 * (L - T)"
    using assms(1-3) by (auto simp: MAX_GAS_LIMIT_def)
  show "0 < D" using T by (simp add: D_def)
  have "D \<le> 28 * (800000000 + 800000000) * 200000000"
    unfolding D_def using T assms(4) by (intro mult_le_mono) auto
  then show "D \<le> u64_max" by (simp add: u64_max_def)
  have "28 * (T * (L - T)) \<le> D" unfolding D_def mult.assoc by (intro mult_le_mono) auto
  then have D: "28 * (int T * int (L - T)) \<le> int D" by (metis of_nat_le_iff of_nat_mult of_nat_numeral)
  have "\<bar>int T * dl\<bar> = int T * \<bar>dl\<bar>" by (simp add: abs_mult)
  moreover have "int T * \<bar>dl\<bar> \<le> int T * (28 * int (L - T))"
    using T assms(5,6) by (intro mult_left_mono) auto
  ultimately show "\<bar>int T * dl\<bar> \<le> int D" using D by simp
  show "28 * \<bar>int T * dl\<bar> \<le> int D" if "0 \<le> dl"
  proof -
    have "int T * \<bar>dl\<bar> \<le> int T * int (L - T)" using that assms(6) by (intro mult_left_mono) auto
    then show ?thesis using D by (simp add: abs_mult)
  qed
qed

lemma base_fee_math_ok:
  assumes "2 \<le> L" "L \<le> MAX_GAS_LIMIT" "u \<le> L" "f \<le> MAX_BASE_FEE" "trend_ok t" "m \<le> 800000000 * 800000000"
  shows "\<exists>fee t' m'. compute_base_fee_math L u f t m = Some (fee, t', m') \<and>
    MIN_BASE_FEE \<le> fee \<and> fee \<le> MAX_BASE_FEE \<and> trend_ok t' \<and> m' \<le> 800000000 * 800000000 \<and>
    (u \<le> L * 8 div 10 \<longrightarrow> fee \<le> max MIN_BASE_FEE f) \<and> (L * 8 div 10 \<le> u \<longrightarrow> f \<le> fee) \<and>
    14 * fee \<le> max (14 * MIN_BASE_FEE) (15 * f)"
proof -
  define T where "T = L * 8 div 10"
  define dl where "dl = int u - int T"
  define s where "s = isqrt (saturating_to_checked_u64 (int m - t * t))"
  have T: "T \<le> 800000000" "T \<le> L" "L - T \<le> 200000000" "L \<le> 1000000000"
    using assms(1,2) by (auto simp: T_def MAX_GAS_LIMIT_def)
  have dl: "- int T \<le> dl" "dl \<le> int (L - T)" using assms(3) T(2) by (auto simp: dl_def of_nat_diff)
  have tt: "t * t \<le> 800000000 * 800000000" "0 \<le> t * t"
    using assms(5) abs_le_sqr[of t 800000000] by (auto simp: trend_ok_def abs_le_iff)
  have var: "int m - t * t \<le> 800000000 * 800000000" "- 640000000000000000 \<le> int m - t * t" using tt assms(6) by linarith+
  have s: "s \<le> 800000000"
    unfolding s_def saturating_to_checked_u64_def using var(1) by (intro isqrt_le) (simp add: nat_le_iff)
  have "\<bar>int T * dl\<bar> \<le> 800000000 * 800000000"
    unfolding abs_mult using T(1,3) dl by (intro mult_mono) auto
  then have num: "i64_checked (int T * dl) = Some (int T * dl)" by (intro i64_checked_Some) (simp_all add: abs_le_iff)
  note D = denominator_ok[OF T_def assms(1,2) s dl]
  obtain q where q: "fake_exponential f (int T * dl) (28 * (T + s) * (L - T)) = Some q"
    "0 \<le> int T * dl \<longrightarrow> f \<le> q" "int T * dl \<le> 0 \<longrightarrow> q \<le> f"
    "28 * \<bar>int T * dl\<bar> \<le> int (28 * (T + s) * (L - T)) \<longrightarrow> 14 * q \<le> 15 * f"
    using fake_exponential_ok[OF D(1-3) assms(4)] by blast
  obtain t' m' where next': "next_trend t dl = Some t'" "trend_ok t'" "next_moment m dl = Some m'" "m' \<le> 800000000 * 800000000"
    using next_trend_ok[OF assms(5), of dl] next_moment_ok[OF assms(6), of dl] dl T by auto
  have "28 * (T + s) \<le> u64_max" using T(1) s by (simp add: u64_max_def)
  then have "compute_base_fee_math L u f t m = Some (max MIN_BASE_FEE (min MAX_BASE_FEE q), t', m')"
    using T s dl tt var assms(3,6) num q(1) next' D(2)
    by (simp add: compute_base_fee_math_def cu_Some u64_max_def to_checked_i64_def ci_sub_def ci_mul_def i64_checked_Some
        MAX_STEP_SIZE_DENOM_def flip: T_def dl_def s_def)
  moreover have "14 * q \<le> 15 * f" using q(3,4) D(4) by (cases "0 \<le> dl") (auto simp: mult_nonneg_nonpos)
  moreover have "u \<le> T \<longrightarrow> q \<le> f" "T \<le> u \<longrightarrow> f \<le> q" using q(2,3) by (auto simp: dl_def mult_nonneg_nonpos)
  ultimately show ?thesis using assms(4) next' by (auto simp: T_def MIN_BASE_FEE_def MAX_BASE_FEE_def)
qed

section \<open>Properties\<close>

lemma trend_ok_cast: "trend_ok t \<Longrightarrow> cast_signed (cast_unsigned t) = t"
  by (rule cast_unsigned_signed) (simp add: trend_ok_def i64_range_def)

text \<open>
  The computation also returns outside the documented range, for a gas limit from 2 on and a fee below the
  minimum; the first block with a base fee relies on it, since its parent has the genesis fee of 0.
\<close>

lemma compute_base_fee_returns:
  assumes "2 \<le> L" "L \<le> MAX_GAS_LIMIT" "u \<le> L" "f \<le> MAX_BASE_FEE" "trend_ok (cast_signed t)" "m \<le> 800000000 * 800000000"
  shows "\<exists>fee t' m'. compute_base_fee L u f t m = Some (fee, t', m') \<and> fee_state_ok fee t' m' \<and>
    (u \<le> L * 8 div 10 \<longrightarrow> fee \<le> max MIN_BASE_FEE f) \<and> (L * 8 div 10 \<le> u \<longrightarrow> f \<le> fee) \<and>
    14 * fee \<le> max (14 * MIN_BASE_FEE) (15 * f)"
proof -
  obtain fee t' m' where "compute_base_fee_math L u f (cast_signed t) m = Some (fee, t', m')"
    "MIN_BASE_FEE \<le> fee" "fee \<le> MAX_BASE_FEE" "trend_ok t'" "m' \<le> 800000000 * 800000000"
    "u \<le> L * 8 div 10 \<longrightarrow> fee \<le> max MIN_BASE_FEE f" "L * 8 div 10 \<le> u \<longrightarrow> f \<le> fee"
    "14 * fee \<le> max (14 * MIN_BASE_FEE) (15 * f)"
    using base_fee_math_ok[OF assms] by blast
  then show ?thesis using assms(3) by (simp add: compute_base_fee_def fee_state_ok_def trend_ok_cast)
qed

lemma compute_base_fee_genesis:
  assumes "2 \<le> L" "L \<le> MAX_GAS_LIMIT" "u \<le> L"
  shows "\<exists>t m. compute_base_fee L u GENESIS_BASE_FEE GENESIS_BASE_FEE_TREND GENESIS_BASE_FEE_MOMENT = Some (MIN_BASE_FEE, t, m) \<and>
    fee_state_ok MIN_BASE_FEE t m"
proof -
  have "trend_ok (cast_signed GENESIS_BASE_FEE_TREND)"
    by (simp add: GENESIS_BASE_FEE_TREND_def trend_ok_def cast_signed_def cast_unsigned_def)
  from compute_base_fee_returns[OF assms _ this, of GENESIS_BASE_FEE GENESIS_BASE_FEE_MOMENT]
  obtain fee t m where r: "compute_base_fee L u GENESIS_BASE_FEE GENESIS_BASE_FEE_TREND GENESIS_BASE_FEE_MOMENT = Some (fee, t, m)"
    "fee_state_ok fee t m" "14 * fee \<le> max (14 * MIN_BASE_FEE) (15 * GENESIS_BASE_FEE)"
    by (auto simp: GENESIS_BASE_FEE_def GENESIS_BASE_FEE_MOMENT_def)
  then have "fee = MIN_BASE_FEE" by (simp add: fee_state_ok_def GENESIS_BASE_FEE_def)
  then show ?thesis using r by blast
qed

lemma compute_base_fee_rejects:
  assumes "L < u \<or> MAX_BASE_FEE < f"
  shows "compute_base_fee L u f t m = None"
proof (cases "L < u")
  case False
  then have "fake_exponential f n d = None" for n d using assms by (simp add: fake_exponential_def)
  then have "compute_base_fee_math L u f (cast_signed t) m = None"
    by (auto simp: compute_base_fee_math_def Let_def bind_eq_None_conv split: option.splits)
  then show ?thesis by (simp add: compute_base_fee_def)
qed (simp add: compute_base_fee_def)

text \<open>
  C9: on its documented range \<^verbatim>\<open>compute_base_fee\<close> returns and stays in that range.  For a gas limit of 100M to
  1000M, a usage within it, a fee between the minimum and the maximum and a trend and a moment in their
  documented bounds, the Taylor loop ends and no assertion, checked operation or 256 bit operation fails.  The
  new fee, trend and moment are in range again.  The fee does not rise while the parent used at
  most the target of 80% of the limit and does not fall while it used at least the target, and rises by at most one
  fourteenth a block.  With a usage above the limit or a fee above the maximum the function panics.
\<close>

theorem compute_base_fee_stays_in_range:
  assumes "100000000 \<le> L" "L \<le> 1000000000" "fee_state_ok f t m"
  shows "(L < u \<longrightarrow> compute_base_fee L u f t m = None) \<and>
    (\<forall>g. MAX_BASE_FEE < g \<longrightarrow> compute_base_fee L u g t m = None) \<and>
    (u \<le> L \<longrightarrow> (\<exists>fee t' m'. compute_base_fee L u f t m = Some (fee, t', m') \<and> fee_state_ok fee t' m' \<and>
       (u \<le> L * 8 div 10 \<longrightarrow> fee \<le> f) \<and> (L * 8 div 10 \<le> u \<longrightarrow> f \<le> fee) \<and> 14 * fee \<le> 15 * f))"
proof (intro conjI impI allI)
  assume "u \<le> L"
  then show "\<exists>fee t' m'. compute_base_fee L u f t m = Some (fee, t', m') \<and> fee_state_ok fee t' m' \<and>
      (u \<le> L * 8 div 10 \<longrightarrow> fee \<le> f) \<and> (L * 8 div 10 \<le> u \<longrightarrow> f \<le> fee) \<and> 14 * fee \<le> 15 * f"
    using compute_base_fee_returns[of L u f t m] assms by (auto simp: MAX_GAS_LIMIT_def fee_state_ok_def max_def split: if_splits)
qed (simp_all add: compute_base_fee_rejects)

theorem compute_base_fee_stays_in_range_witness:
  "(\<exists>t m. compute_base_fee 200000000 0 MIN_BASE_FEE 0 0 = Some (MIN_BASE_FEE, t, m)) \<and>
   compute_base_fee 200000000 200000001 MIN_BASE_FEE 0 0 = None"
proof -
  have s: "fee_state_ok MIN_BASE_FEE 0 0"
    by (simp add: fee_state_ok_def MIN_BASE_FEE_def MAX_BASE_FEE_def trend_ok_def cast_signed_def)
  note P = compute_base_fee_stays_in_range[OF _ _ s, of 200000000]
  have "\<exists>fee t m. compute_base_fee 200000000 0 MIN_BASE_FEE 0 0 = Some (fee, t, m) \<and> fee_state_ok fee t m \<and> fee \<le> MIN_BASE_FEE"
    using P[of 0] by auto
  then obtain fee t m where r: "compute_base_fee 200000000 0 MIN_BASE_FEE 0 0 = Some (fee, t, m)" "fee = MIN_BASE_FEE"
    by (auto simp: fee_state_ok_def)
  then show ?thesis using P[of 200000001] by auto
qed

end
