(* ===== verification/Merkle.thy ===== *)
theory Merkle
  imports Prelude
begin

text \<open>
  Merkle trees over message chunks: \<^verbatim>\<open>monad-merkle/src/lib.rs\<close>.

  A hash is a list of byte values.  The hash function is the parameter \<open>H\<close> (\<^verbatim>\<open>HasherType\<close>), from
  the bytes fed to the hasher to a digest of 32 bytes.  Indices of the tree are natural numbers,
  with the 16 bit range of the stored ones written out.  A debug assertion is an assertion.
\<close>

type_synonym hash = "nat list"
type_synonym merkle_hash = "nat list"

definition u16_max :: nat where
  "u16_max = 65535"

definition hash_to_merkle :: "hash \<Rightarrow> merkle_hash" where
  "hash_to_merkle h = take 20 h"

definition parent_idx :: "nat \<Rightarrow> nat option" where
  "parent_idx idx = do { i \<leftarrow> checked_sub idx 1; Some (i div 2) }"

definition sibling_idx :: "nat \<Rightarrow> nat option" where
  "sibling_idx idx = do { p \<leftarrow> parent_idx idx; Some (2 * p + (1 + idx mod 2)) }"

section \<open>Proofs\<close>

record merkle_proof =
  mp_tree_leaf_idx :: nat
  mp_siblings :: "merkle_hash list"

definition MAX_DEPTH :: nat where
  "MAX_DEPTH = 15"

definition MAX_NUM_LEAVES :: nat where
  "MAX_NUM_LEAVES = 2 ^ (MAX_DEPTH - 1)"

definition new_from_leaf_idx :: "merkle_hash list \<Rightarrow> nat \<Rightarrow> merkle_proof option" where
  "new_from_leaf_idx siblings leaf_idx =
     (if length siblings \<ge> MAX_DEPTH then None
      else do {
        num_leaves \<leftarrow> (if 2 ^ length siblings \<le> u16_max then Some (2 ^ length siblings) else None);
        twice \<leftarrow> (if 2 * num_leaves \<le> u16_max then Some (2 * num_leaves) else None);
        tree_len \<leftarrow> checked_sub twice 1;
        let tree_leaf_start_idx = tree_len - num_leaves;
        if leaf_idx \<ge> num_leaves then None
        else Some \<lparr>mp_tree_leaf_idx = tree_leaf_start_idx + leaf_idx, mp_siblings = siblings\<rparr>
      })"

fun compute_root_loop :: "(nat list \<Rightarrow> hash) \<Rightarrow> merkle_hash list \<Rightarrow> nat option \<Rightarrow> merkle_hash \<Rightarrow> merkle_hash option" where
  "compute_root_loop H [] current_idx merkle_hash = Some merkle_hash"
| "compute_root_loop H (sibling # rest) None merkle_hash = None"
| "compute_root_loop H (sibling # rest) (Some idx) merkle_hash =
     compute_root_loop H rest (parent_idx idx)
       (hash_to_merkle (H (if idx mod 2 = 1 then merkle_hash @ sibling else sibling @ merkle_hash)))"

definition compute_root :: "(nat list \<Rightarrow> hash) \<Rightarrow> merkle_proof \<Rightarrow> hash \<Rightarrow> merkle_hash option" where
  "compute_root H p leaf = compute_root_loop H (rev (mp_siblings p)) (Some (mp_tree_leaf_idx p)) (hash_to_merkle leaf)"

section \<open>Trees\<close>

record merkle_tree =
  mt_tree_leaf_start_idx :: nat
  mt_tree :: "merkle_hash list"

fun fill_leaves :: "merkle_hash list \<Rightarrow> nat \<Rightarrow> hash list \<Rightarrow> merkle_hash list" where
  "fill_leaves tree idx [] = tree"
| "fill_leaves tree idx (raw_leaf # rest) = fill_leaves (tree[idx := hash_to_merkle raw_leaf]) (idx + 1) rest"

fun fill_inner :: "(nat list \<Rightarrow> hash) \<Rightarrow> nat \<Rightarrow> merkle_hash list \<Rightarrow> merkle_hash list" where
  "fill_inner H 0 tree = tree"
| "fill_inner H (Suc idx) tree =
     fill_inner H idx (tree[idx := hash_to_merkle (H (tree ! (2 * idx + 1) @ tree ! (2 * idx + 2)))])"

definition new_with_depth :: "(nat list \<Rightarrow> hash) \<Rightarrow> hash list \<Rightarrow> nat \<Rightarrow> merkle_tree option" where
  "new_with_depth H leaves depth = do {
     _ \<leftarrow> assert_p (depth > 0);
     _ \<leftarrow> assert_p (depth \<le> MAX_DEPTH);
     _ \<leftarrow> assert_p (length leaves \<le> 2 ^ (depth - 1));
     d \<leftarrow> checked_sub depth 1;
     let num_leaves = 2 ^ d;
     let tree_len = 2 * num_leaves - 1;
     _ \<leftarrow> assert_p (tree_len \<le> u16_max);
     let tree_leaf_start_idx = tree_len - num_leaves;
     let tree = fill_leaves (replicate tree_len (replicate 20 0)) tree_leaf_start_idx leaves;
     Some \<lparr>mt_tree_leaf_start_idx = tree_leaf_start_idx, mt_tree = fill_inner H tree_leaf_start_idx tree\<rparr>
   }"

fun next_power_of_two :: "nat \<Rightarrow> nat" where
  "next_power_of_two n = (if n \<le> 1 then 1 else 2 * next_power_of_two ((n + 1) div 2))"

fun ilog2 :: "nat \<Rightarrow> nat" where
  "ilog2 n = (if n \<le> 1 then 0 else ilog2 (n div 2) + 1)"

declare next_power_of_two.simps [simp del] ilog2.simps [simp del]

definition merkle_tree_new :: "(nat list \<Rightarrow> hash) \<Rightarrow> hash list \<Rightarrow> merkle_tree option" where
  "merkle_tree_new H leaves = do {
     _ \<leftarrow> assert_p (length leaves \<le> MAX_NUM_LEAVES);
     let depth = ilog2 (next_power_of_two (length leaves)) + 1;
     new_with_depth H leaves depth
   }"

definition merkle_root :: "merkle_tree \<Rightarrow> merkle_hash" where
  "merkle_root t = mt_tree t ! 0"

text \<open>A node with a sibling has a parent, so the inner \<^term>\<open>None\<close> of this loop is never reached.\<close>

function proof_loop :: "merkle_hash list \<Rightarrow> nat \<Rightarrow> merkle_hash list \<Rightarrow> merkle_hash list" where
  "proof_loop tree current_idx siblings =
     (case sibling_idx current_idx of
        None \<Rightarrow> siblings
      | Some s \<Rightarrow>
          (case parent_idx current_idx of
             None \<Rightarrow> siblings
           | Some p \<Rightarrow> proof_loop tree p (siblings @ [tree ! s])))"
  by pat_completeness auto

termination
  by (relation "measure (\<lambda>(tree, current_idx, siblings). current_idx)")
     (auto simp: parent_idx_def checked_sub_def bind_eq_Some_conv split: if_splits)

declare proof_loop.simps [simp del]

definition tree_proof :: "merkle_tree \<Rightarrow> nat \<Rightarrow> merkle_proof option" where
  "tree_proof t leaf_idx = do {
     _ \<leftarrow> assert_p (leaf_idx < length (mt_tree t) - mt_tree_leaf_start_idx t);
     let tree_leaf_idx = mt_tree_leaf_start_idx t + leaf_idx;
     _ \<leftarrow> assert_p (tree_leaf_idx \<le> u16_max);
     Some \<lparr>mp_tree_leaf_idx = tree_leaf_idx, mp_siblings = rev (proof_loop (mt_tree t) tree_leaf_idx [])\<rparr>
   }"

section \<open>The tree is hashed\<close>

definition hashed :: "(nat list \<Rightarrow> hash) \<Rightarrow> merkle_hash list \<Rightarrow> nat \<Rightarrow> nat \<Rightarrow> bool" where
  "hashed H t lo hi \<longleftrightarrow> (\<forall>i. lo \<le> i \<longrightarrow> i < hi \<longrightarrow> t ! i = hash_to_merkle (H (t ! (2 * i + 1) @ t ! (2 * i + 2))))"

lemma fill_leaves_length [simp]: "length (fill_leaves t k ls) = length t"
  by (induction t k ls rule: fill_leaves.induct) auto

lemma fill_leaves_other: "j < k \<or> k + length ls \<le> j \<Longrightarrow> fill_leaves t k ls ! j = t ! j"
  by (induction t k ls rule: fill_leaves.induct) auto

lemma fill_leaves_leaf:
  "k + length ls \<le> length t \<Longrightarrow> i < length ls \<Longrightarrow> fill_leaves t k ls ! (k + i) = hash_to_merkle (ls ! i)"
proof (induction t k ls arbitrary: i rule: fill_leaves.induct)
  case (2 t k l ls)
  then show ?case using fill_leaves_other[of k "k + 1" ls] by (cases i) auto
qed simp

lemma fill_inner_props:
  assumes "2 * n + 1 \<le> length t"
  shows "length (fill_inner H n t) = length t \<and> (\<forall>j \<ge> n. fill_inner H n t ! j = t ! j) \<and>
    (\<forall>m. hashed H t n m \<longrightarrow> 2 * m + 1 \<le> length t \<longrightarrow> hashed H (fill_inner H n t) 0 m)"
  using assms
proof (induction n arbitrary: t)
  case (Suc n)
  let ?t = "t[n := hash_to_merkle (H (t ! (2 * n + 1) @ t ! (2 * n + 2)))]"
  have len: "2 * n + 1 \<le> length ?t" using Suc.prems by simp
  note IH = Suc.IH[OF len]
  have "hashed H ?t n m" if "hashed H t (Suc n) m" "2 * m + 1 \<le> length t" for m
    unfolding hashed_def
  proof (intro allI impI)
    fix i assume i: "n \<le> i" "i < m"
    show "?t ! i = hash_to_merkle (H (?t ! (2 * i + 1) @ ?t ! (2 * i + 2)))"
    proof (cases "i = n")
      case True
      then show ?thesis using Suc.prems by simp
    next
      case False
      then show ?thesis using that i by (simp add: hashed_def)
    qed
  qed
  then show ?case using IH by auto
qed simp

section \<open>Walking up the tree\<close>

lemma parent_idx_simps [simp]: "parent_idx 0 = None" "0 < c \<Longrightarrow> parent_idx c = Some ((c - 1) div 2)"
  by (simp_all add: parent_idx_def checked_sub_def)

lemma proof_loop_0: "proof_loop t 0 acc = acc"
  by (subst proof_loop.simps) (simp add: sibling_idx_def)

lemma proof_loop_step:
  assumes "0 < c"
  shows "proof_loop t c acc = proof_loop t ((c - 1) div 2) (acc @ [t ! (2 * ((c - 1) div 2) + (1 + c mod 2))])"
  using assms by (subst proof_loop.simps) (simp add: sibling_idx_def)

lemma proof_loop_acc: "proof_loop t c acc = acc @ proof_loop t c []"
proof (induction c arbitrary: acc rule: less_induct)
  case (less c)
  show ?case
  proof (cases "c = 0")
    case False
    then have lt: "(c - 1) div 2 < c" by auto
    show ?thesis
      unfolding proof_loop_step[OF False[unfolded neq0_conv]]
      by (subst (1 2) less.IH[OF lt]) simp
  qed (simp add: proof_loop_0)
qed

lemma proof_loop_Cons:
  "0 < c \<Longrightarrow> proof_loop t c [] = t ! (2 * ((c - 1) div 2) + (1 + c mod 2)) # proof_loop t ((c - 1) div 2) []"
  by (subst proof_loop_step, assumption, subst proof_loop_acc) simp

lemma proof_loop_length: "2 ^ d \<le> c + 1 \<Longrightarrow> c + 1 < 2 ^ (d + 1) \<Longrightarrow> length (proof_loop t c []) = d"
proof (induction d arbitrary: c)
  case 0
  then show ?case by (simp add: proof_loop_0)
next
  case (Suc d)
  have "(1::nat) \<le> 2 ^ d" by simp
  then have c: "0 < c" using Suc.prems(1) unfolding power_Suc by linarith
  have "length (proof_loop t ((c - 1) div 2) []) = d" using Suc.prems c by (intro Suc.IH) auto
  then show ?case using c by (simp add: proof_loop_Cons)
qed

lemma proof_loop_root:
  assumes "hashed H t 0 m" "c \<le> 2 * m"
  shows "compute_root_loop H (proof_loop t c []) (Some c) (t ! c) = Some (t ! 0)"
  using assms(2)
proof (induction c rule: less_induct)
  case (less c)
  show ?case
  proof (cases "c = 0")
    case False
    define p where "p = (c - 1) div 2"
    have p: "p < c" "p < m" using False less.prems by (auto simp: p_def)
    have c: "c = 2 * p + 1 \<and> c mod 2 = 1 \<or> c = 2 * p + 2 \<and> c mod 2 = 0"
      using False unfolding p_def by (cases "even c") (auto elim!: evenE oddE)
    have "t ! p = hash_to_merkle (H (t ! (2 * p + 1) @ t ! (2 * p + 2)))" using assms(1) p(2) by (simp add: hashed_def)
    then have "compute_root_loop H (proof_loop t c []) (Some c) (t ! c) = compute_root_loop H (proof_loop t p []) (Some p) (t ! p)"
      using c False by (auto simp: proof_loop_Cons simp flip: p_def)
    then show ?thesis using less.IH[OF p(1)] p(2) by simp
  qed (simp add: proof_loop_0)
qed

section \<open>The depth of a tree\<close>

lemma next_power_of_two_ge: "n \<le> next_power_of_two n"
proof (induction n rule: next_power_of_two.induct)
  case (1 n)
  show ?case
  proof (cases "n \<le> 1")
    case False
    have "n \<le> 2 * ((n + 1) div 2)" by simp
    moreover have "next_power_of_two n = 2 * next_power_of_two ((n + 1) div 2)"
      using False by (subst next_power_of_two.simps) simp
    ultimately show ?thesis using 1[OF False] by linarith
  qed (simp add: next_power_of_two.simps)
qed

lemma ilog2_next_power_of_two: "2 ^ ilog2 (next_power_of_two n) = next_power_of_two n"
proof (induction n rule: next_power_of_two.induct)
  case (1 n)
  show ?case
  proof (cases "n \<le> 1")
    case False
    let ?k = "next_power_of_two ((n + 1) div 2)"
    have "1 \<le> ?k" using next_power_of_two_ge[of "(n + 1) div 2"] False by linarith
    then have "ilog2 (2 * ?k) = ilog2 ?k + 1" by (subst ilog2.simps) simp
    then show ?thesis using 1[OF False] False by (simp add: next_power_of_two.simps[of n])
  qed (simp add: next_power_of_two.simps ilog2.simps)
qed

lemma next_power_of_two_le: "n \<le> 2 ^ k \<Longrightarrow> next_power_of_two n \<le> 2 ^ k"
proof (induction n arbitrary: k rule: next_power_of_two.induct)
  case (1 n)
  show ?case
  proof (cases "n \<le> 1")
    case False
    then obtain k' where k: "k = Suc k'" using "1.prems" by (cases k) auto
    have "next_power_of_two ((n + 1) div 2) \<le> 2 ^ k'" using 1(2) k False by (intro 1(1)) auto
    then show ?thesis using False k by (simp add: next_power_of_two.simps[of n])
  qed (simp add: next_power_of_two.simps)
qed

section \<open>Round trip\<close>

lemma new_with_depth_ok:
  assumes "length ls \<le> 2 ^ d" "d < MAX_DEPTH"
  shows "\<exists>t. new_with_depth H ls (d + 1) = Some t \<and> mt_tree_leaf_start_idx t = 2 ^ d - 1 \<and> length (mt_tree t) = 2 * 2 ^ d - 1 \<and>
    hashed H (mt_tree t) 0 (2 ^ d - 1) \<and> (\<forall>i < length ls. mt_tree t ! (2 ^ d - 1 + i) = hash_to_merkle (ls ! i))"
proof -
  let ?n = "2 ^ d :: nat" and ?filled = "fill_leaves (replicate (2 * 2 ^ d - 1) (replicate 20 0)) (2 ^ d - 1) ls"
  have "?n \<le> 2 ^ 14" using assms(2) by (intro power_increasing) (auto simp: MAX_DEPTH_def)
  then have n: "1 \<le> ?n" "2 * ?n - 1 \<le> u16_max" "2 * ?n - 1 - ?n = ?n - 1" by (simp_all add: u16_max_def)
  let ?t = "\<lparr>mt_tree_leaf_start_idx = ?n - 1, mt_tree = fill_inner H (?n - 1) ?filled\<rparr>"
  have new: "new_with_depth H ls (d + 1) = Some ?t"
    using assms n by (simp add: new_with_depth_def checked_sub_def Let_def)
  have "2 * (?n - 1) + 1 = 2 * ?n - 1" using n(1) by linarith
  then have len: "2 * (?n - 1) + 1 \<le> length ?filled" by simp
  note inner = fill_inner_props[OF len, of H]
  have "hashed H ?filled (?n - 1) (?n - 1)" by (simp add: hashed_def)
  then have hashed: "hashed H (mt_tree ?t) 0 (?n - 1)" using inner len unfolding merkle_tree.simps by blast
  have "mt_tree ?t ! (?n - 1 + i) = hash_to_merkle (ls ! i)" if "i < length ls" for i
    using inner fill_leaves_leaf[of "?n - 1" ls "replicate (2 * 2 ^ d - 1) (replicate 20 0)" i] that assms(1) n(1) by simp
  then show ?thesis using new hashed inner by (intro exI[of _ ?t]) simp
qed

lemma tree_proof_ok:
  assumes "hashed H (mt_tree t) 0 (2 ^ d - 1)" "mt_tree_leaf_start_idx t = 2 ^ d - 1" "length (mt_tree t) = 2 * 2 ^ d - 1"
    and "d < MAX_DEPTH" "i < 2 ^ d" "mt_tree t ! (2 ^ d - 1 + i) = hash_to_merkle leaf"
  shows "\<exists>p. tree_proof t i = Some p \<and> compute_root H p leaf = Some (merkle_root t) \<and>
    length (mp_siblings p) = d \<and> new_from_leaf_idx (mp_siblings p) i = Some p"
proof -
  let ?c = "2 ^ d - 1 + i" and ?n = "2 ^ d :: nat"
  have "?n \<le> 2 ^ 14" using assms(4) by (intro power_increasing) (auto simp: MAX_DEPTH_def)
  then have n: "1 \<le> ?n" "?n \<le> 16384" "?c \<le> u16_max" using assms(5) by (simp_all add: u16_max_def)
  let ?p = "\<lparr>mp_tree_leaf_idx = ?c, mp_siblings = rev (proof_loop (mt_tree t) ?c [])\<rparr>"
  have p: "tree_proof t i = Some ?p" using assms(2,3,5) n by (simp add: tree_proof_def Let_def)
  have len: "length (proof_loop (mt_tree t) ?c []) = d" using assms(5) n(1) by (intro proof_loop_length) auto
  have "compute_root H ?p leaf = Some (merkle_root t)"
    using proof_loop_root[OF assms(1), of ?c] assms(5,6) n(1) by (simp add: compute_root_def merkle_root_def)
  moreover have "new_from_leaf_idx (mp_siblings ?p) i = Some ?p"
    using assms(4,5) n len by (simp add: new_from_leaf_idx_def checked_sub_def u16_max_def Let_def)
  ultimately show ?thesis using p len by (intro exI[of _ ?p]) simp
qed

section \<open>Properties\<close>

text \<open>
  C29: Merkle proofs round trip.  For up to 16384 leaves \<^verbatim>\<open>MerkleTree::new\<close> builds a tree, the proof
  of every leaf recomputes the root of the tree from that leaf, and the proof is recovered by
  \<^verbatim>\<open>MerkleProof::new_from_leaf_idx\<close> from the siblings and the index alone, as a receiver does.
\<close>

theorem merkle_proof_round_trip:
  assumes "length leaves \<le> MAX_NUM_LEAVES"
  shows "\<exists>t. merkle_tree_new H leaves = Some t \<and>
    (\<forall>i < length leaves. \<exists>p. tree_proof t i = Some p \<and> compute_root H p (leaves ! i) = Some (merkle_root t) \<and>
       new_from_leaf_idx (mp_siblings p) i = Some p)"
proof -
  let ?d = "ilog2 (next_power_of_two (length leaves))"
  have n: "2 ^ ?d = next_power_of_two (length leaves)" by (rule ilog2_next_power_of_two)
  have ge: "length leaves \<le> 2 ^ ?d" unfolding n by (rule next_power_of_two_ge)
  have "(2::nat) ^ ?d \<le> 2 ^ 14"
    unfolding n using assms by (intro next_power_of_two_le) (simp add: MAX_NUM_LEAVES_def MAX_DEPTH_def)
  then have "?d \<le> 14" by (rule power_le_imp_le_exp[rotated]) simp
  then have d: "?d < MAX_DEPTH" by (simp add: MAX_DEPTH_def)
  obtain t where t: "new_with_depth H leaves (?d + 1) = Some t" "mt_tree_leaf_start_idx t = 2 ^ ?d - 1"
    "length (mt_tree t) = 2 * 2 ^ ?d - 1" "hashed H (mt_tree t) 0 (2 ^ ?d - 1)"
    "\<forall>i < length leaves. mt_tree t ! (2 ^ ?d - 1 + i) = hash_to_merkle (leaves ! i)"
    using new_with_depth_ok[OF ge d, of H] by blast
  have "merkle_tree_new H leaves = Some t" using assms t(1) by (simp add: merkle_tree_new_def Let_def)
  moreover have "\<exists>p. tree_proof t i = Some p \<and> compute_root H p (leaves ! i) = Some (merkle_root t) \<and>
      new_from_leaf_idx (mp_siblings p) i = Some p" if "i < length leaves" for i
    using tree_proof_ok[OF t(4,2,3) d _ t(5)[rule_format, OF that]] that ge by force
  ultimately show ?thesis by blast
qed

theorem merkle_proof_round_trip_witness:
  "\<exists>t p. merkle_tree_new (\<lambda>b. b) [[1], [2], [3]] = Some t \<and> tree_proof t 2 = Some p \<and>
     compute_root (\<lambda>b. b) p [3] = Some (merkle_root t)"
proof -
  obtain t where t: "merkle_tree_new (\<lambda>b. b) [[1], [2], [3]] = Some t"
    "\<forall>i < length [[1], [2], [3::nat]]. \<exists>p. tree_proof t i = Some p \<and>
       compute_root (\<lambda>b. b) p ([[1], [2], [3]] ! i) = Some (merkle_root t) \<and> new_from_leaf_idx (mp_siblings p) i = Some p"
    using merkle_proof_round_trip[of "[[1], [2], [3]]" "\<lambda>b. b"] by (auto simp: MAX_NUM_LEAVES_def MAX_DEPTH_def)
  from t(2)[rule_format, of 2] t(1) show ?thesis by auto
qed

text \<open>The byte strings a verifier feeds to the hasher.\<close>

fun hash_inputs :: "(nat list \<Rightarrow> hash) \<Rightarrow> merkle_hash list \<Rightarrow> nat option \<Rightarrow> merkle_hash \<Rightarrow> nat list list" where
  "hash_inputs H [] idx h = []"
| "hash_inputs H (s # ss) None h = []"
| "hash_inputs H (s # ss) (Some idx) h =
     (let x = (if idx mod 2 = 1 then h @ s else s @ h) in x # hash_inputs H ss (parent_idx idx) (hash_to_merkle (H x)))"

definition proof_inputs :: "(nat list \<Rightarrow> hash) \<Rightarrow> merkle_proof \<Rightarrow> hash \<Rightarrow> nat list list" where
  "proof_inputs H p leaf = hash_inputs H (rev (mp_siblings p)) (Some (mp_tree_leaf_idx p)) (hash_to_merkle leaf)"

lemma compute_root_loop_inj:
  assumes "\<And>x. length (H x) = 32"
  shows "compute_root_loop H ss idx h = Some r \<Longrightarrow> compute_root_loop H ss' idx h' = Some r \<Longrightarrow> length ss = length ss' \<Longrightarrow>
    \<forall>s \<in> set ss \<union> set ss'. length s = 20 \<Longrightarrow> length h = 20 \<Longrightarrow> length h' = 20 \<Longrightarrow>
    inj_on (\<lambda>x. hash_to_merkle (H x)) (set (hash_inputs H ss idx h) \<union> set (hash_inputs H ss' idx h')) \<Longrightarrow> ss = ss' \<and> h = h'"
proof (induction ss arbitrary: idx h ss' h')
  case (Cons s ss)
  obtain s' rest where ss': "ss' = s' # rest" using Cons.prems by (cases ss') auto
  obtain i where i: "idx = Some i" using Cons.prems(1) by (cases idx) auto
  let ?x = "if i mod 2 = 1 then h @ s else s @ h" and ?y = "if i mod 2 = 1 then h' @ s' else s' @ h'"
  have len: "length (hash_to_merkle (H x)) = 20" for x using assms by (simp add: hash_to_merkle_def)
  note inj = Cons.prems(7)[unfolded i ss' hash_inputs.simps Let_def]
  have "ss = rest \<and> hash_to_merkle (H ?x) = hash_to_merkle (H ?y)"
  proof (rule Cons.IH)
    show "inj_on (\<lambda>x. hash_to_merkle (H x)) (set (hash_inputs H ss (parent_idx i) (hash_to_merkle (H ?x))) \<union>
        set (hash_inputs H rest (parent_idx i) (hash_to_merkle (H ?y))))"
      by (rule inj_on_subset[OF inj]) auto
  qed (use Cons.prems(1-6) i ss' len in auto)
  moreover have "?x = ?y" if "hash_to_merkle (H ?x) = hash_to_merkle (H ?y)"
    by (rule inj_onD[OF inj that]) auto
  ultimately show ?case using Cons.prems(4-6) ss' by (auto split: if_splits)
qed auto

text \<open>
  C30: Merkle proofs bind.  If two proofs for the same index with the same number of siblings lead
  two leaves to the same root, then the leaves (cut to 20 bytes) and all siblings are the same,
  unless the hash function collides on two of the strings hashed in these two verifications.
\<close>

theorem merkle_proof_binding:
  assumes "\<And>x. length (H x) = 32" "length leaf = 32" "length leaf' = 32"
    and "mp_tree_leaf_idx p = mp_tree_leaf_idx q" "length (mp_siblings p) = length (mp_siblings q)"
    and "\<forall>s \<in> set (mp_siblings p) \<union> set (mp_siblings q). length s = 20"
    and "compute_root H p leaf = Some r" "compute_root H q leaf' = Some r"
    and "inj_on (\<lambda>x. hash_to_merkle (H x)) (set (proof_inputs H p leaf) \<union> set (proof_inputs H q leaf'))"
  shows "hash_to_merkle leaf = hash_to_merkle leaf' \<and> mp_siblings p = mp_siblings q"
  using compute_root_loop_inj[of H "rev (mp_siblings p)" "Some (mp_tree_leaf_idx p)" "hash_to_merkle leaf" r
      "rev (mp_siblings q)" "hash_to_merkle leaf'"] assms
  by (simp add: compute_root_def proof_inputs_def) (simp add: hash_to_merkle_def)

theorem merkle_proof_binding_witness:
  "let H = (\<lambda>b. take 32 (drop 8 b @ replicate 32 0));
       p = \<lparr>mp_tree_leaf_idx = 1, mp_siblings = [replicate 20 7]\<rparr>;
       leaf = replicate 20 1 @ replicate 12 0; leaf' = replicate 20 1 @ replicate 12 5 in
   compute_root H p leaf \<noteq> None \<and> leaf \<noteq> leaf' \<and> hash_to_merkle leaf = hash_to_merkle leaf'"
proof -
  let ?H = "\<lambda>b::nat list. take 32 (drop 8 b @ replicate 32 (0::nat))"
  let ?p = "\<lparr>mp_tree_leaf_idx = 1, mp_siblings = [replicate 20 7]\<rparr>"
  let ?leaf = "replicate 20 1 @ replicate 12 0" and ?leaf' = "replicate 20 1 @ replicate 12 (5::nat)"
  obtain r where r: "compute_root ?H ?p ?leaf = Some r" "compute_root ?H ?p ?leaf' = Some r"
    by (simp add: compute_root_def hash_to_merkle_def)
  have "hash_to_merkle ?leaf = hash_to_merkle ?leaf' \<and> mp_siblings ?p = mp_siblings ?p"
    by (rule merkle_proof_binding[OF _ _ _ _ _ _ r]) (simp_all add: proof_inputs_def hash_to_merkle_def)
  moreover have "?leaf \<noteq> ?leaf'" by simp
  ultimately show ?thesis using r(1) by (simp add: Let_def)
qed

end
