(* ===== verification/Timestamp.thy ===== *)
theory Timestamp
  imports Prelude
begin

text \<open>
  Block timestamps: \<^verbatim>\<open>monad-consensus-state/src/timestamp.rs\<close> and the adjustment of
  \<^verbatim>\<open>monad-consensus-types/src/quorum_certificate.rs\<close>.  A \<^verbatim>\<open>u128\<close> is a natural number with its width
  written out in each operation.
\<close>

definition u128_max :: nat where
  "u128_max = 2 ^ 128 - 1"

datatype timestamp_adjustment_direction = Forward | Backward

record timestamp_adjustment =
  ta_delta :: nat
  ta_direction :: timestamp_adjustment_direction

record block_timestamp =
  local_time_ns :: nat
  max_delta_ns :: nat
  latency_estimate_ns :: nat

definition block_timestamp_new :: "nat \<Rightarrow> nat \<Rightarrow> block_timestamp option" where
  "block_timestamp_new max_delta latency_estimate = do {
     _ \<leftarrow> assert_p (latency_estimate > 0);
     Some \<lparr>local_time_ns = 0, max_delta_ns = max_delta, latency_estimate_ns = latency_estimate\<rparr>
   }"

definition update_time :: "block_timestamp \<Rightarrow> nat \<Rightarrow> block_timestamp" where
  "update_time b time = b\<lparr>local_time_ns := time\<rparr>"

definition get_current_time :: "block_timestamp \<Rightarrow> nat" where
  "get_current_time b = local_time_ns b"

definition get_valid_block_timestamp :: "block_timestamp \<Rightarrow> nat \<Rightarrow> nat option" where
  "get_valid_block_timestamp b prev_block_ts =
     (if local_time_ns b \<le> prev_block_ts then checked_add u128_max prev_block_ts 1 else Some (local_time_ns b))"

definition valid_bounds :: "block_timestamp \<Rightarrow> nat \<Rightarrow> nat \<Rightarrow> bool" where
  "valid_bounds b timestamp vote_delay_ns =
     (let max_delta = saturating_add u128_max (max_delta_ns b) vote_delay_ns;
          lower_bound = saturating_sub (local_time_ns b) max_delta;
          upper_bound = saturating_add u128_max (local_time_ns b) max_delta
      in lower_bound \<le> timestamp \<and> timestamp \<le> upper_bound)"

definition abs_diff :: "nat \<Rightarrow> nat \<Rightarrow> nat" where
  "abs_diff a b = (if a < b then b - a else a - b)"

definition valid_block_timestamp ::
  "block_timestamp \<Rightarrow> nat \<Rightarrow> nat \<Rightarrow> nat \<Rightarrow> bool \<Rightarrow> timestamp_adjustment option" where
  "valid_block_timestamp b prev_block_ts curr_block_ts vote_delay_ns is_reproposal =
     (if is_reproposal then
        (if curr_block_ts > prev_block_ts \<and> curr_block_ts < local_time_ns b
         then Some \<lparr>ta_delta = 0, ta_direction = Forward\<rparr> else None)
      else
        (case checked_sub curr_block_ts prev_block_ts of
           None \<Rightarrow> None
         | Some delta \<Rightarrow>
             if delta = 0 then None
             else if \<not> valid_bounds b curr_block_ts vote_delay_ns then None
             else
               let adjustment = saturating_sub (abs_diff (local_time_ns b) curr_block_ts) (latency_estimate_ns b) in
               Some \<lparr>ta_delta = adjustment,
                     ta_direction = (if curr_block_ts > local_time_ns b then Forward else Backward)\<rparr>))"

section \<open>Lemmas\<close>

lemma valid_bounds_iff:
  assumes "ts \<le> u128_max" "local_time_ns b \<le> u128_max"
  shows "valid_bounds b ts d \<longleftrightarrow> abs_diff (local_time_ns b) ts \<le> max_delta_ns b + d \<or> u128_max \<le> max_delta_ns b + d"
  using assms
  by (auto simp: valid_bounds_def saturating_add_def saturating_sub_def abs_diff_def Let_def min_def)

section \<open>Properties\<close>

text \<open>
  C38: a validator accepts the timestamp of an honest leader.  If the clocks of the leader and of
  the validator and the timestamp of the parent are such that the chosen timestamp is within the
  allowed distance of the validator's clock (the vote delay included), the timestamp the leader
  picks is later than the parent's and the validator accepts it; the adjustment it returns leads
  its clock towards the block's time and never past it.
\<close>

theorem leader_timestamp_is_accepted:
  assumes "get_valid_block_timestamp leader prev = Some ts" "ts \<le> u128_max" "local_time_ns b \<le> u128_max"
    and "abs_diff (local_time_ns b) ts \<le> max_delta_ns b + vote_delay"
  shows "prev < ts \<and>
    (\<exists>a. valid_block_timestamp b prev ts vote_delay False = Some a \<and>
       ta_delta a \<le> max_delta_ns b + vote_delay \<and>
       (case ta_direction a of
          Forward \<Rightarrow> local_time_ns b + ta_delta a \<le> ts
        | Backward \<Rightarrow> ta_delta a \<le> local_time_ns b \<and> ts \<le> local_time_ns b - ta_delta a))"
proof -
  have lt: "prev < ts" using assms(1) by (auto simp: get_valid_block_timestamp_def checked_add_def split: if_splits)
  have "valid_bounds b ts vote_delay" using assms(4) valid_bounds_iff[OF assms(2,3)] by blast
  then show ?thesis
    using lt assms(4)
    by (auto simp: valid_block_timestamp_def checked_sub_def saturating_sub_def abs_diff_def Let_def split: if_splits)
qed

theorem leader_timestamp_is_accepted_witness:
  "\<exists>a. valid_block_timestamp \<lparr>local_time_ns = 98, max_delta_ns = 10, latency_estimate_ns = 1\<rparr> 90 100 0 False = Some a \<and>
     98 + ta_delta a \<le> 100"
proof -
  let ?l = "\<lparr>local_time_ns = 100, max_delta_ns = 10, latency_estimate_ns = 1\<rparr>"
  let ?b = "\<lparr>local_time_ns = 98, max_delta_ns = 10, latency_estimate_ns = 1\<rparr>"
  have "get_valid_block_timestamp ?l 90 = Some 100" by (simp add: get_valid_block_timestamp_def)
  from leader_timestamp_is_accepted[OF this, of ?b 0] show ?thesis
    by (auto simp: u128_max_def abs_diff_def valid_block_timestamp_def checked_sub_def valid_bounds_def saturating_add_def
        saturating_sub_def Let_def)
qed

text \<open>
  C39: rejected timestamps.  A proposal with a timestamp not after its parent's is rejected, also
  as a reproposal; a fresh proposal is rejected when its timestamp is farther from the local
  clock than the maximum plus the vote delay, and a reproposal when it is not in the past.
\<close>

theorem bad_timestamp_is_rejected:
  assumes "ts \<le> u128_max" "local_time_ns b \<le> u128_max" "max_delta_ns b + vote_delay < u128_max"
  shows "valid_block_timestamp b prev ts vote_delay reproposal = None \<longleftrightarrow>
    ts \<le> prev \<or> (if reproposal then local_time_ns b \<le> ts else max_delta_ns b + vote_delay < abs_diff (local_time_ns b) ts)"
  using valid_bounds_iff[OF assms(1,2), of vote_delay] assms(3)
  by (auto simp: valid_block_timestamp_def checked_sub_def Let_def)

theorem bad_timestamp_is_rejected_witness:
  "valid_block_timestamp \<lparr>local_time_ns = 98, max_delta_ns = 10, latency_estimate_ns = 1\<rparr> 90 120 5 False = None"
  using bad_timestamp_is_rejected[of 120 "\<lparr>local_time_ns = 98, max_delta_ns = 10, latency_estimate_ns = 1\<rparr>" 5 90 False]
  by (simp add: u128_max_def abs_diff_def)

end
