(* ===== verification/Vote_Delay.thy ===== *)
theory Vote_Delay
  imports Monad_Types
begin

text \<open>
  The vote delay window (\<^verbatim>\<open>monad-consensus-state/src/vote_delay_metrics.rs\<close>): the samples of the last
  five minutes, oldest first, and the percentiles the metrics show.  \<^term>\<open>None\<close> is the panic of an
  index out of range.
\<close>

definition VOTE_DELAY_WINDOW_MS :: u64 where
  "VOTE_DELAY_WINDOW_MS = 5 * 60 * 1000"

definition ns_to_ms :: "nat \<Rightarrow> u64" where
  "ns_to_ms timestamp_ns = (if timestamp_ns div 1000000 \<le> u64_max then timestamp_ns div 1000000 else u64_max)"

record vote_delay_timer_start =
  vdt_round :: round
  vdt_started_at_ms :: u64

record timed_vote_delay_sample =
  recorded_at_ms :: u64
  ready_after_timer_start_ms :: u64

type_synonym vote_delay_window = "timed_vote_delay_sample list"

record vote_delay_stats =
  p50_ms :: u64
  p90_ms :: u64
  p99_ms :: u64

fun window_prune_loop :: "u64 \<Rightarrow> vote_delay_window \<Rightarrow> bool \<Rightarrow> vote_delay_window \<times> bool" where
  "window_prune_loop cutoff [] pruned = ([], pruned)"
| "window_prune_loop cutoff (x # xs) pruned =
     (if recorded_at_ms x < cutoff then window_prune_loop cutoff xs True else (x # xs, pruned))"

definition window_prune :: "vote_delay_window \<Rightarrow> u64 \<Rightarrow> vote_delay_window \<times> bool" where
  "window_prune w now_ms = window_prune_loop (saturating_sub now_ms VOTE_DELAY_WINDOW_MS) w False"

definition percentile :: "u64 list \<Rightarrow> nat \<Rightarrow> u64 option" where
  "percentile sorted_values p =
     (let rank = max ((min u64_max (length sorted_values * p) + 99) div 100) 1
      in if rank - 1 < length sorted_values then Some (sorted_values ! (rank - 1)) else None)"

definition update_metrics :: "vote_delay_window \<Rightarrow> vote_delay_stats option" where
  "update_metrics w =
     (if w = [] then Some \<lparr>p50_ms = 0, p90_ms = 0, p99_ms = 0\<rparr>
      else
        let values = sort (map ready_after_timer_start_ms w) in do {
          a \<leftarrow> percentile values 50;
          b \<leftarrow> percentile values 90;
          c \<leftarrow> percentile values 99;
          Some \<lparr>p50_ms = a, p90_ms = b, p99_ms = c\<rparr>
        })"

definition record_ready_after_timer_start ::
  "vote_delay_window \<Rightarrow> u64 \<Rightarrow> u64 \<Rightarrow> (vote_delay_window \<times> vote_delay_stats) option" where
  "record_ready_after_timer_start w now_ms ready_ms =
     (let w = fst (window_prune w now_ms) @ [\<lparr>recorded_at_ms = now_ms, ready_after_timer_start_ms = ready_ms\<rparr>]
      in do { stats \<leftarrow> update_metrics w; Some (w, stats) })"

definition window_refresh ::
  "vote_delay_window \<Rightarrow> u64 \<Rightarrow> vote_delay_stats \<Rightarrow> (vote_delay_window \<times> vote_delay_stats) option" where
  "window_refresh w now_ms stats =
     (case window_prune w now_ms of (w, pruned) \<Rightarrow>
        if pruned then do { stats \<leftarrow> update_metrics w; Some (w, stats) } else Some (w, stats))"

section \<open>Percentiles\<close>

lemma prune_loop_drops: "fst (window_prune_loop c w b) = dropWhile (\<lambda>x. recorded_at_ms x < c) w"
  by (induction c w b rule: window_prune_loop.induct) auto

lemma percentile_rank:
  assumes "xs \<noteq> []" "p \<le> 100" "length xs * 100 \<le> u64_max"
  shows "\<exists>k < length xs. percentile xs p = Some (xs ! k) \<and> length xs * p \<le> 100 * (k + 1) \<and> (0 < k \<longrightarrow> 100 * k < length xs * p)"
proof -
  define n r where "n = length xs * p" and "r = (n + 99) div 100"
  have le: "n \<le> 100 * length xs" using assms(2) by (simp add: n_def mult.commute)
  then have m: "min u64_max n = n" using assms(3) by (intro min_absorb2) linarith
  have r: "n \<le> 100 * r" "100 * r \<le> n + 99" unfolding r_def by linarith+
  have L: "0 < length xs" using assms(1) by simp
  have k: "max r 1 - 1 < length xs \<and> n \<le> 100 * (max r 1 - 1 + 1) \<and> (0 < max r 1 - 1 \<longrightarrow> 100 * (max r 1 - 1) < n)"
    using le r L by (cases r) auto
  have "percentile xs p = (if max r 1 - 1 < length xs then Some (xs ! (max r 1 - 1)) else None)"
    by (simp only: percentile_def Let_def n_def[symmetric] m r_def)
  with k show ?thesis unfolding n_def[symmetric] by (intro exI[of _ "max r 1 - 1"]) simp
qed

lemma update_metrics_total:
  assumes "length w * 100 \<le> u64_max"
  shows "\<exists>st. update_metrics w = Some st"
proof (cases "w = []")
  case False
  let ?v = "sort (map ready_after_timer_start_ms w)"
  have ne: "?v \<noteq> []" using False by (metis length_0_conv length_map length_sort)
  have "length ?v * 100 \<le> u64_max" using assms by simp
  then have "\<exists>x. percentile ?v p = Some x" if "p \<le> 100" for p using percentile_rank[OF ne that] by blast
  from this[of 50] this[of 90] this[of 99] show ?thesis using False by (auto simp: update_metrics_def Let_def)
qed (simp add: update_metrics_def)

end
