(* ===== verification/Consensus_State.thy ===== *)
theory Consensus_State
  imports Block_Tree Timestamp Vote_Delay
begin

text \<open>
  The consensus state machine: \<^verbatim>\<open>monad-consensus-state/src/lib.rs\<close> and \<^verbatim>\<open>command.rs\<close>.

  A handler takes the state of the node and returns the new state with the commands it emits, or
  \<^term>\<open>None\<close> when the code panics.  Handlers are written in the monad \<open>cm\<close> below, which threads the
  state and collects the commands.  The state is the struct \<^verbatim>\<open>ConsensusState\<close> together with the
  two parts of the node the wrapper borrows mutably, the epoch manager and the block policy.
  What the wrapper only reads is the record \<open>node_cfg\<close>: its functions stand for the block policy,
  the block validator, the leader election and the chain configuration, which the code reaches
  through traits.  It is an argument of each handler and may be another one at the next event.  A validated block
  is the full block.  Metrics and log lines are left out, and with them what only a log line evaluates: the
  leaders that the debug line of \<^verbatim>\<open>handle_timeout_expiry\<close> looks up, with the panics of that lookup.
\<close>

section \<open>Handlers\<close>

type_synonym ('st, 'm, 'a) cm = "'st \<Rightarrow> ('a \<times> 'st \<times> 'm list) option"

definition c_return :: "'a \<Rightarrow> ('st, 'm, 'a) cm" where
  "c_return a = (\<lambda>s. Some (a, s, []))"

definition c_then :: "('st, 'm, 'a) cm \<Rightarrow> ('a \<Rightarrow> ('st, 'm, 'b) cm) \<Rightarrow> ('st, 'm, 'b) cm" where
  "c_then m f = (\<lambda>s. case m s of
     None \<Rightarrow> None
   | Some (a, s', cs) \<Rightarrow> (case f a s' of None \<Rightarrow> None | Some (b, s'', ds) \<Rightarrow> Some (b, s'', cs @ ds)))"

definition c_seq :: "('st, 'm, 'a) cm \<Rightarrow> ('st, 'm, 'b) cm \<Rightarrow> ('st, 'm, 'b) cm" where
  "c_seq m n = c_then m (\<lambda>_. n)"

definition c_skip :: "('st, 'm, unit) cm" where
  "c_skip = c_return ()"

definition c_get :: "('st \<Rightarrow> 'a) \<Rightarrow> ('st, 'm, 'a) cm" where
  "c_get f = (\<lambda>s. Some (f s, s, []))"

definition c_try :: "('st \<Rightarrow> 'a option) \<Rightarrow> ('st, 'm, 'a) cm" where
  "c_try f = (\<lambda>s. case f s of None \<Rightarrow> None | Some a \<Rightarrow> Some (a, s, []))"

definition c_modify :: "('st \<Rightarrow> 'st) \<Rightarrow> ('st, 'm, unit) cm" where
  "c_modify f = (\<lambda>s. Some ((), f s, []))"

definition c_emit :: "'m list \<Rightarrow> ('st, 'm, unit) cm" where
  "c_emit cs = (\<lambda>s. Some ((), s, cs))"

definition c_update :: "('st \<Rightarrow> ('a \<times> 'st) option) \<Rightarrow> ('st, 'm, 'a) cm" where
  "c_update f = (\<lambda>s. case f s of None \<Rightarrow> None | Some (a, s') \<Rightarrow> Some (a, s', []))"

fun c_each :: "('a \<Rightarrow> ('st, 'm, unit) cm) \<Rightarrow> 'a list \<Rightarrow> ('st, 'm, unit) cm" where
  "c_each f [] = c_skip"
| "c_each f (x # xs) = c_seq (f x) (c_each f xs)"

section \<open>Commands\<close>

datatype router_target =
    Broadcast epoch
  | Raptorcast epoch
  | PointToPoint node_id
  | DirectPointToPoint node_id
  | TcpPointToPoint node_id

datatype ('s, 'c, 'x) optimistic_policy_commit =
    Proposed "('s, 'c, 'x) consensus_full_block" bool
  | Voted "('s, 'c, 'x) consensus_full_block"
  | Finalized "('s, 'c, 'x) consensus_full_block"

record ('s, 'c, 'x) create_proposal =
  cp_node_id :: node_id
  cp_epoch :: epoch
  cp_round :: round
  cp_seq_num :: seq_num
  cp_high_qc :: "'c quorum_certificate"
  cp_round_signature :: 's
  cp_last_round_tc :: "('s, 'c, 'x) timeout_certificate option"
  cp_fresh_proposal_certificate :: "'c fresh_proposal_certificate option"
  cp_tx_limit :: nat
  cp_proposal_gas_limit :: u64
  cp_proposal_byte_limit :: u64
  cp_beneficiary :: nat
  cp_timestamp_ns :: nat
  cp_extending_blocks :: "('s, 'c, 'x) consensus_full_block list"
  cp_delayed_execution_results :: "'x list"

type_synonym ('s, 'c, 'x) signed_message = "('s, ('s, 'c, 'x) consensus_message) verified"

datatype ('s, 'c, 'x) consensus_command =
    EnterRound epoch round
  | Publish router_target "('s, 'c, 'x) signed_message"
  | PublishToFullNodes epoch round "('s, 'c, 'x) signed_message"
  | Schedule round nat
  | ScheduleReset
  | CreateProposal "('s, 'c, 'x) create_proposal"
  | CommitBlocks "('s, 'c, 'x) optimistic_policy_commit"
  | RequestSync block_range
  | CancelSync block_range
  | RequestStateSync "('s, 'c, 'x) consensus_block_header" "'c quorum_certificate"
  | TimestampUpdate timestamp_adjustment
  | ScheduleVote nat round

section \<open>State\<close>

record block_sync_request_status =
  bsr_range :: block_range
  bsr_cancel_round :: round

datatype outgoing_vote_status = TimerFired | VoteReady vote

definition FUTURE_VOTE_BOUND :: round where
  "FUTURE_VOTE_BOUND = 10"

record ('s, 'c, 'x) consensus_state =
  pending_block_tree :: "('s, 'c, 'x) block_tree"
  cs_vote_state :: "'s vote_state"
  cs_no_endorsement_state :: "('s, 'c) no_endorsement_state"
  scheduled_vote :: "outgoing_vote_status option"
  cs_safety :: "('s, 'c, 'x) safety"
  cs_pacemaker :: "('s, 'c, 'x) pacemaker"
  block_sync_requests :: "(block_id, block_sync_request_status) btree_map"
  canonical_proposed_tip :: "block_id option"
  cs_vote_delay_timer_start :: "vote_delay_timer_start option"
  cs_vote_delay_metrics :: vote_delay_window

record ('s, 'c, 'x, 'p) wrapper_state = "('s, 'c, 'x) consensus_state" +
  ws_epoch_manager :: epoch_manager
  ws_block_policy :: 'p
  ws_vote_delay_stats :: vote_delay_stats

record chain_params =
  tx_limit :: nat
  proposal_gas_limit :: u64
  proposal_byte_limit :: u64
  max_reserve_balance :: nat
  vote_pace :: nat

record ('s, 'c, 'x, 'p, 'e) node_cfg =
  cfg_env :: "('s, 'c, 'x) env"
  cfg_wire :: "('s, 'c, 'x) wire"
  cfg_iter :: "('s, 'c, 'x) entries \<Rightarrow> ('s, 'c, 'x) entries"
  check_coherency :: "'p \<Rightarrow> ('s, 'c, 'x, 'e) coherency_check"
  update_committed_block :: "'p \<Rightarrow> ('s, 'c, 'x) consensus_full_block \<Rightarrow> 'p"
  get_expected_execution_results :: "'p \<Rightarrow> seq_num \<Rightarrow> ('s, 'c, 'x) consensus_full_block list \<Rightarrow> 'e + 'x list"
  block_validate :: "('s, 'c, 'x) consensus_block_header \<Rightarrow> 'x consensus_block_body \<Rightarrow> cert_pubkey
     \<Rightarrow> 'e + ('s, 'c, 'x) consensus_full_block"
  val_epoch_map :: validators_epoch_mapping
  election :: "round \<Rightarrow> (node_id, stake) btree_map \<Rightarrow> node_id option"
  cfg_version :: nat
  cfg_block_timestamp :: block_timestamp
  beneficiary :: nat
  nodeid :: node_id
  cfg_keypair :: keypair
  cfg_cert_keypair :: keypair
  cfg_delta :: nat
  cfg_chain_params :: "round \<Rightarrow> chain_params"
  live_to_statesync_threshold :: seq_num

type_synonym ('s, 'c, 'x, 'p, 'a) handler =
  "(('s, 'c, 'x, 'p) wrapper_state, ('s, 'c, 'x) consensus_command, 'a) cm"

definition consensus_state_new ::
  "('s, 'c, 'x, 'p, 'e) node_cfg \<Rightarrow> epoch_manager \<Rightarrow> 'p \<Rightarrow> root_info \<Rightarrow> ('s, 'c, 'x) round_certificate
     \<Rightarrow> ('s, 'c, 'x, 'p) wrapper_state option" where
  "consensus_state_new cfg em policy root high_certificate = do {
     pacemaker \<leftarrow> pacemaker_new (cfg_delta cfg) (\<lambda>r. vote_pace (cfg_chain_params cfg r)) (cfg_delta cfg) em high_certificate;
     current_round \<leftarrow> get_current_round pacemaker;
     safety \<leftarrow> safety_new high_certificate None;
     Some \<lparr>pending_block_tree = block_tree_new root,
           cs_vote_state = vote_state_new current_round,
           cs_no_endorsement_state = no_endorsement_state_new current_round,
           scheduled_vote = None, cs_safety = safety, cs_pacemaker = pacemaker, block_sync_requests = [],
           canonical_proposed_tip = None, cs_vote_delay_timer_start = None, cs_vote_delay_metrics = [],
           ws_epoch_manager = em, ws_block_policy = policy,
           ws_vote_delay_stats = \<lparr>p50_ms = 0, p90_ms = 0, p99_ms = 0\<rparr>\<rparr>
   }"

section \<open>Shared steps\<close>

definition current_round :: "('s, 'c, 'x, 'p, round) handler" where
  "current_round = c_try (\<lambda>s. get_current_round (cs_pacemaker s))"

definition high_certificate :: "('s, 'c, 'x, 'p) wrapper_state \<Rightarrow> ('s, 'c, 'x) round_certificate" where
  "high_certificate s = pm_high_certificate (cs_pacemaker s)"

definition epoch_of :: "round \<Rightarrow> ('s, 'c, 'x, 'p, epoch) handler" where
  "epoch_of r = c_try (\<lambda>s. get_epoch (ws_epoch_manager s) r)"

definition validators_of ::
  "('s, 'c, 'x, 'p, 'e) node_cfg \<Rightarrow> round \<Rightarrow> ('s, 'c, 'x, 'p, validator_set) handler" where
  "validators_of cfg r = c_then (epoch_of r) (\<lambda>ep. c_try (\<lambda>_. get_val_set (val_epoch_map cfg) ep))"

definition leader_in ::
  "('s, 'c, 'x, 'p, 'e) node_cfg \<Rightarrow> round \<Rightarrow> validator_set \<Rightarrow> ('s, 'c, 'x, 'p, node_id) handler" where
  "leader_in cfg r vals = c_try (\<lambda>_. election cfg r (validators vals))"

definition leader_of ::
  "('s, 'c, 'x, 'p, 'e) node_cfg \<Rightarrow> round \<Rightarrow> ('s, 'c, 'x, 'p, node_id) handler" where
  "leader_of cfg r = c_then (validators_of cfg r) (leader_in cfg r)"

definition lookup_leader ::
  "('s, 'c, 'x, 'p, 'e) node_cfg \<Rightarrow> round \<Rightarrow> ('s, 'c, 'x, 'p, node_id option) handler" where
  "lookup_leader cfg r = c_try (\<lambda>s.
     case Option.bind (get_epoch (ws_epoch_manager s) r) (get_val_set (val_epoch_map cfg)) of
       None \<Rightarrow> Some None
     | Some vals \<Rightarrow> map_option Some (election cfg r (validators vals)))"

definition signed ::
  "('s, 'c, 'x, 'p, 'e) node_cfg \<Rightarrow> ('s, 'c, 'x) protocol_message \<Rightarrow> ('s, 'c, 'x) signed_message" where
  "signed cfg m = consensus_message_sign (cfg_env cfg) (cfg_wire cfg)
     \<lparr>cm_version = cfg_version cfg, cm_message = m\<rparr> (cfg_keypair cfg)"

fun from_pacemaker_command ::
  "('s, 'c, 'x, 'p, 'e) node_cfg \<Rightarrow> ('s, 'c, 'x) pacemaker_command \<Rightarrow> ('s, 'c, 'x) consensus_command list" where
  "from_pacemaker_command cfg (PcEnterRound ep r high_cert) =
     [EnterRound ep r,
      PublishToFullNodes ep (rc_round high_cert)
        (signed cfg (MsgAdvanceRound \<lparr>ar_last_round_certificate = high_cert\<rparr>))]"
| "from_pacemaker_command cfg (PcPrepareTimeout info high_extend safe_to_vote last_round_certificate) =
     [Publish (Broadcast (tm_epoch info))
        (signed cfg (MsgTimeout
           (timeout_new (cfg_env cfg) (cfg_cert_keypair cfg) info high_extend safe_to_vote last_round_certificate)))]"
| "from_pacemaker_command cfg (PcSchedule r duration) = [Schedule r duration]"
| "from_pacemaker_command cfg PcScheduleReset = [ScheduleReset]"

definition run_pacemaker ::
  "('s, 'c, 'x, 'p, 'e) node_cfg
     \<Rightarrow> (('s, 'c, 'x, 'p) wrapper_state \<Rightarrow>
          (('s, 'c, 'x) pacemaker \<times> ('s, 'c, 'x) safety \<times> ('s, 'c, 'x) pacemaker_command list) option)
     \<Rightarrow> ('s, 'c, 'x, 'p, unit) handler" where
  "run_pacemaker cfg f = c_then (c_update (\<lambda>s. case f s of
       None \<Rightarrow> None
     | Some (pm, saf, cs) \<Rightarrow> Some (cs, s\<lparr>cs_pacemaker := pm, cs_safety := saf\<rparr>)))
     (\<lambda>cs. c_emit (concat (map (from_pacemaker_command cfg) cs)))"

definition update_safety ::
  "(('s, 'c, 'x) safety \<Rightarrow> ('s, 'c, 'x) safety option) \<Rightarrow> ('s, 'c, 'x, 'p, unit) handler" where
  "update_safety f = c_update (\<lambda>s. case f (cs_safety s) of None \<Rightarrow> None | Some saf \<Rightarrow> Some ((), s\<lparr>cs_safety := saf\<rparr>))"

section \<open>Block sync requests\<close>

definition request_blocks_if_missing_ancestor :: "('s, 'c, 'x, 'p, unit) handler" where
  "request_blocks_if_missing_ancestor =
     c_then (c_get (\<lambda>s. rc_qc (high_certificate s))) (\<lambda>high_qc.
     c_then (c_try (\<lambda>s. maybe_fill_path_to_root (pending_block_tree s) high_qc)) (\<lambda>maybe_range.
     case maybe_range of
       None \<Rightarrow> c_skip
     | Some rng \<Rightarrow>
         c_seq (c_try (\<lambda>_. assert_p (br_num_blocks rng \<noteq> 0)))
         (c_then (c_get (\<lambda>s. bt_get (block_sync_requests s) (br_last_block_id rng) \<noteq> None)) (\<lambda>known.
         if known then c_skip
         else
           c_seq (c_modify (\<lambda>s. s\<lparr>block_sync_requests :=
             bt_insert (br_last_block_id rng) \<lparr>bsr_range = rng, bsr_cancel_round = get_round high_qc\<rparr>
               (block_sync_requests s)\<rparr>))
           (c_emit [RequestSync rng])))))"

definition request_tip_if_missing :: "('s, 'c, 'x, 'p, 'e) node_cfg \<Rightarrow> ('s, 'c, 'x, 'p, unit) handler" where
  "request_tip_if_missing cfg =
     c_then (c_get high_certificate) (\<lambda>rc.
     case rc of
       RcQc _ \<Rightarrow> c_skip
     | RcTc tc \<Rightarrow>
         (case tc_high_extend tc of
            HeQc _ \<Rightarrow> c_skip
          | HeTip tip \<Rightarrow>
              let tip_id = get_id (cfg_env cfg) (tip_block_header tip) in
              c_then (c_get (\<lambda>s. get_block (pending_block_tree s) tip_id \<noteq> None \<or>
                                  bt_get (block_sync_requests s) tip_id \<noteq> None)) (\<lambda>known.
              if known then c_skip
              else
                let rng = \<lparr>br_last_block_id = tip_id, br_num_blocks = 1\<rparr> in
                c_seq (c_modify (\<lambda>s. s\<lparr>block_sync_requests :=
                  bt_insert tip_id \<lparr>bsr_range = rng, bsr_cancel_round = block_round (tip_block_header tip)\<rparr>
                    (block_sync_requests s)\<rparr>))
                (c_emit [RequestSync rng]))))"

section \<open>Committing\<close>

definition commit_block ::
  "('s, 'c, 'x, 'p, 'e) node_cfg \<Rightarrow> ('s, 'c, 'x) consensus_full_block \<Rightarrow> ('s, 'c, 'x, 'p, unit) handler" where
  "commit_block cfg block =
     c_seq (c_modify (\<lambda>s. s\<lparr>ws_block_policy := update_committed_block cfg (ws_block_policy s) block\<rparr>))
     (c_seq (c_update (\<lambda>s. case schedule_epoch_start (ws_epoch_manager s) (fb_seq_num block) (fb_round block) of
          None \<Rightarrow> None | Some em \<Rightarrow> Some ((), s\<lparr>ws_epoch_manager := em\<rparr>)))
     (c_emit [CommitBlocks (Finalized block)]))"

definition try_commit ::
  "('s, 'c, 'x, 'p, 'e) node_cfg \<Rightarrow> 'c quorum_certificate \<Rightarrow> ('s, 'c, 'x, 'p, unit) handler" where
  "try_commit cfg qc =
     c_then (c_get (\<lambda>s. get_block (pending_block_tree s) (get_block_id qc))) (\<lambda>qc_parent.
     case qc_parent of
       None \<Rightarrow> c_skip
     | Some qc_parent \<Rightarrow>
         c_then (c_try (\<lambda>_. get_committable_id (cfg_env cfg) qc (fb_header qc_parent))) (\<lambda>committable.
         case committable of
           None \<Rightarrow> c_skip
         | Some committable_block_id \<Rightarrow>
             c_then (c_get (\<lambda>s. is_coherent (pending_block_tree s) committable_block_id)) (\<lambda>coherent.
             if \<not> coherent then c_skip
             else
               c_then (c_update (\<lambda>s.
                 case prune (cfg_env cfg) (cfg_iter cfg) (pending_block_tree s) committable_block_id of
                   None \<Rightarrow> None
                 | Some (tree, blocks) \<Rightarrow> Some (blocks, s\<lparr>pending_block_tree := tree\<rparr>)))
               (c_each (commit_block cfg)))))"

definition update_proposed_head :: "('s, 'c, 'x, 'p, 'e) node_cfg \<Rightarrow> ('s, 'c, 'x, 'p, unit) handler" where
  "update_proposed_head cfg =
     c_then (c_try (\<lambda>s. get_canonical_coherent_tip (cfg_env cfg) (pending_block_tree s) (rc_qc (high_certificate s)))) (\<lambda>tip_id.
     c_then (c_get (\<lambda>s. (canonical_proposed_tip s, get_block (pending_block_tree s) tip_id))) (\<lambda>(known, block).
     if known = Some tip_id then c_skip
     else
       (case block of
          None \<Rightarrow> c_skip
        | Some block \<Rightarrow>
            c_seq (c_modify (\<lambda>s. s\<lparr>canonical_proposed_tip := Some tip_id\<rparr>))
            (c_emit [CommitBlocks (Proposed block True)]))))"

definition try_update_coherency ::
  "('s, 'c, 'x, 'p, 'e) node_cfg \<Rightarrow> block_id \<Rightarrow> ('s, 'c, 'x, 'p, unit) handler" where
  "try_update_coherency cfg updated_block_id =
     c_then (c_update (\<lambda>s.
       case bt_try_update_coherency (cfg_env cfg) (check_coherency cfg (ws_block_policy s)) (pending_block_tree s)
              updated_block_id of
         None \<Rightarrow> None
       | Some (tree, blocks) \<Rightarrow> Some (blocks, s\<lparr>pending_block_tree := tree\<rparr>))) (\<lambda>newly_coherent.
     c_seq (c_emit (map (\<lambda>block. CommitBlocks (Proposed block False)) newly_coherent))
     (c_seq (update_proposed_head cfg)
     (c_then (c_try (\<lambda>s. get_high_committable_qc (cfg_env cfg) (pending_block_tree s))) (\<lambda>high_commit_qc.
     case high_commit_qc of
       None \<Rightarrow> c_skip
     | Some qc \<Rightarrow> try_commit cfg qc))))"

definition maybe_statesync :: "('s, 'c, 'x, 'p, 'e) node_cfg \<Rightarrow> ('s, 'c, 'x, 'p, unit) handler" where
  "maybe_statesync cfg =
     c_then (c_get (\<lambda>s. get_seq_num_of_qc (pending_block_tree s) (rc_qc (high_certificate s)))) (\<lambda>high_qc_seq_num.
     case high_qc_seq_num of
       None \<Rightarrow> c_skip
     | Some n \<Rightarrow>
         c_then (c_try (\<lambda>s. seq_num_add (ri_seq_num (bt_root (pending_block_tree s))) (live_to_statesync_threshold cfg))) (\<lambda>limit.
         c_try (\<lambda>_. assert_p (limit > n))))"

section \<open>Voting\<close>

definition send_vote_and_reset_timer ::
  "('s, 'c, 'x, 'p, 'e) node_cfg \<Rightarrow> vote \<Rightarrow> ('s, 'c, 'x, 'p, unit) handler" where
  "send_vote_and_reset_timer cfg v =
     (let r = vote_round v;
          message = signed cfg (MsgVote (vote_message_new (cfg_env cfg) v (cfg_cert_keypair cfg)))
      in c_then (c_try (\<lambda>_. round_add r 1)) (\<lambda>next_round.
         c_then (leader_of cfg next_round) (\<lambda>next_leader.
         c_seq (c_emit [Publish (PointToPoint next_leader) message])
         (c_then (leader_of cfg r) (\<lambda>current_leader.
         c_seq (if current_leader \<noteq> next_leader then c_emit [Publish (PointToPoint current_leader) message] else c_skip)
         (c_seq (c_emit [ScheduleVote (vote_pace (cfg_chain_params cfg next_round)) next_round])
         (c_modify (\<lambda>s. s\<lparr>cs_vote_delay_timer_start :=
              Some \<lparr>vdt_round = next_round,
                    vdt_started_at_ms = ns_to_ms (get_current_time (cfg_block_timestamp cfg))\<rparr>,
            scheduled_vote := None\<rparr>))))))))"

definition last_round_tc_tip ::
  "('s, 'c, 'x) env \<Rightarrow> ('s, 'c, 'x) timeout_certificate option \<Rightarrow> block_id option" where
  "last_round_tc_tip E last_round_tc =
     (case last_round_tc of
        None \<Rightarrow> None
      | Some tc \<Rightarrow> (case tc_high_extend tc of HeQc _ \<Rightarrow> None | HeTip tc_tip \<Rightarrow> Some (get_id E (tip_block_header tc_tip))))"

definition schedule_or_send ::
  "('s, 'c, 'x, 'p, 'e) node_cfg \<Rightarrow> vote \<Rightarrow> round \<Rightarrow> round \<Rightarrow> ('s, 'c, 'x, 'p, unit) handler" where
  "schedule_or_send cfg v parent_block_round r =
     c_then (c_get scheduled_vote) (\<lambda>scheduled.
     let later =
       c_then (c_try (\<lambda>_. round_add parent_block_round 1)) (\<lambda>next.
       if next \<noteq> r then send_vote_and_reset_timer cfg v
       else c_modify (\<lambda>s. s\<lparr>scheduled_vote := Some (VoteReady v)\<rparr>))
     in case scheduled of
          Some TimerFired \<Rightarrow> send_vote_and_reset_timer cfg v
        | Some (VoteReady w) \<Rightarrow> if vote_round w \<ge> vote_round v then c_try (\<lambda>_. None) else later
        | None \<Rightarrow> later)"

definition maybe_record_vote_delay_metrics ::
  "('s, 'c, 'x, 'p, 'e) node_cfg \<Rightarrow> round \<Rightarrow> round \<Rightarrow> ('s, 'c, 'x, 'p, unit) handler" where
  "maybe_record_vote_delay_metrics cfg r parent_block_round =
     c_then (c_get cs_vote_delay_timer_start) (\<lambda>timer_start.
     case timer_start of
       None \<Rightarrow> c_skip
     | Some t \<Rightarrow>
         if vdt_round t \<noteq> r then c_skip
         else
           c_then (c_try (\<lambda>_. round_add parent_block_round 1)) (\<lambda>next.
           if next \<noteq> r then c_skip
           else
             let now_ms = ns_to_ms (get_current_time (cfg_block_timestamp cfg)) in
             c_update (\<lambda>s.
               case record_ready_after_timer_start (cs_vote_delay_metrics s) now_ms
                      (saturating_sub now_ms (vdt_started_at_ms t)) of
                 None \<Rightarrow> None
               | Some (w, stats) \<Rightarrow> Some ((), s\<lparr>cs_vote_delay_metrics := w, ws_vote_delay_stats := stats\<rparr>))))"

definition refresh_vote_delay_metrics :: "nat \<Rightarrow> ('s, 'c, 'x, 'p, unit) handler" where
  "refresh_vote_delay_metrics now_ns = c_update (\<lambda>s.
     case window_refresh (cs_vote_delay_metrics s) (ns_to_ms now_ns) (ws_vote_delay_stats s) of
       None \<Rightarrow> None
     | Some (w, stats) \<Rightarrow> Some ((), s\<lparr>cs_vote_delay_metrics := w, ws_vote_delay_stats := stats\<rparr>))"

definition cast_vote ::
  "('s, 'c, 'x, 'p, 'e) node_cfg \<Rightarrow> round \<Rightarrow> block_id option \<Rightarrow> ('s, 'c, 'x) consensus_tip \<Rightarrow> round
     \<Rightarrow> ('s, 'c, 'x, 'p, unit) handler" where
  "cast_vote cfg r tc_tip tip parent_block_round =
     c_seq (update_safety (\<lambda>saf. safety_vote saf r tc_tip tip))
     (c_then (c_get (\<lambda>s. pm_current_epoch (cs_pacemaker s))) (\<lambda>ep.
     c_seq (maybe_record_vote_delay_metrics cfg r parent_block_round)
     (schedule_or_send cfg
        \<lparr>vote_id = get_id (cfg_env cfg) (tip_block_header tip), vote_round = r, vote_epoch = ep\<rparr> parent_block_round r)))"

definition try_vote ::
  "('s, 'c, 'x, 'p, 'e) node_cfg \<Rightarrow> ('s, 'c, 'x) timeout_certificate option \<Rightarrow> ('s, 'c, 'x) consensus_tip
     \<Rightarrow> ('s, 'c, 'x, 'p, unit) handler" where
  "try_vote cfg last_round_tc tip =
     c_then current_round (\<lambda>r.
     let header = tip_block_header tip; tc_tip = last_round_tc_tip (cfg_env cfg) last_round_tc in
     c_then (c_get (\<lambda>s. (get_timestamp_of_qc (pending_block_tree s) (bh_qc header),
                         get_block_round_of_qc (pending_block_tree s) (bh_qc header)))) (\<lambda>parent.
     case parent of
       (Some parent_timestamp, Some parent_block_round) \<Rightarrow>
         if valid_block_timestamp (cfg_block_timestamp cfg) parent_timestamp (timestamp_ns header)
              (vote_pace (cfg_chain_params cfg r)) (r \<noteq> block_round header) = None
         then c_skip
         else
           c_then (c_get (\<lambda>s. is_coherent (pending_block_tree s) (get_id (cfg_env cfg) header) \<and>
                              is_safe_to_vote (cs_safety s) r tc_tip)) (\<lambda>votable.
           if \<not> votable then c_skip else cast_vote cfg r tc_tip tip parent_block_round)
     | _ \<Rightarrow> c_skip))"

definition handle_vote_timer ::
  "('s, 'c, 'x, 'p, 'e) node_cfg \<Rightarrow> round \<Rightarrow> ('s, 'c, 'x, 'p, unit) handler" where
  "handle_vote_timer cfg vote_timer_round =
     c_then (c_get scheduled_vote) (\<lambda>scheduled.
     case scheduled of
       Some (VoteReady v) \<Rightarrow> send_vote_and_reset_timer cfg v
     | _ \<Rightarrow> c_modify (\<lambda>s. s\<lparr>scheduled_vote := Some TimerFired\<rparr>))"

section \<open>Proposing\<close>

definition proposal_parts ::
  "('s, 'c, 'x, 'p) wrapper_state \<Rightarrow> round
     \<Rightarrow> ('s, 'c, 'x) high_extend \<times> 'c fresh_proposal_certificate option \<times> ('s, 'c, 'x) timeout_certificate option" where
  "proposal_parts s r =
     (case high_certificate s of
        RcTc tc \<Rightarrow>
          (case get_nec (cs_no_endorsement_state s) r of
             Some nec \<Rightarrow> (HeQc (he_qc (tc_high_extend tc)), Some (Nec nec), Some tc)
           | None \<Rightarrow>
               (case tc_high_extend tc of
                  HeTip tip \<Rightarrow> (HeTip tip, None, Some tc)
                | HeQc qc \<Rightarrow>
                    (HeQc qc,
                     Some (NoTip \<lparr>nt_epoch = tc_epoch tc, nt_round = tc_round tc, nt_tip_rounds = tc_tip_rounds tc,
                                     nt_high_qc = qc\<rparr>),
                     Some tc)))
      | RcQc qc \<Rightarrow> (HeQc qc, None, None))"

definition recover_round ::
  "('s, 'c, 'x, 'p, 'e) node_cfg \<Rightarrow> round \<Rightarrow> ('s, 'c, 'x) timeout_certificate option \<Rightarrow> ('s, 'c, 'x, 'p, unit) handler" where
  "recover_round cfg r last_round_tc =
     c_then (c_get (\<lambda>s. is_safe_to_recovery_request (cs_safety s) r)) (\<lambda>safe.
     if \<not> safe then c_skip
     else
       c_seq (update_safety (\<lambda>saf. recovery_request saf r))
       (c_then (c_try (\<lambda>_. last_round_tc)) (\<lambda>tc.
       c_then current_round (\<lambda>now.
       c_then (c_get (\<lambda>s. pm_current_epoch (cs_pacemaker s))) (\<lambda>ep.
       c_emit [Publish (Broadcast ep) (signed cfg (MsgRoundRecovery \<lparr>rr_round = now, rr_epoch = ep, rr_tc = tc\<rparr>))])))))"

definition publish_reproposal ::
  "('s, 'c, 'x, 'p, 'e) node_cfg \<Rightarrow> round \<Rightarrow> ('s, 'c, 'x) consensus_tip \<Rightarrow> ('s, 'c, 'x) timeout_certificate option
     \<Rightarrow> ('s, 'c, 'x, 'p, unit) handler" where
  "publish_reproposal cfg r tip last_round_tc =
     c_seq (update_safety (\<lambda>saf. safety_propose saf r))
     (c_then (c_try (\<lambda>s. get_block (pending_block_tree s) (get_id (cfg_env cfg) (tip_block_header tip)))) (\<lambda>block.
     c_then current_round (\<lambda>now.
     c_then (c_get (\<lambda>s. pm_current_epoch (cs_pacemaker s))) (\<lambda>ep.
     c_emit [Publish (Raptorcast ep) (signed cfg (MsgProposal
       \<lparr>proposal_round = now, proposal_epoch = ep, prop_tip = tip, prop_block_body = fb_body block,
        prop_last_round_tc = last_round_tc\<rparr>))]))))"

definition repropose_tip ::
  "('s, 'c, 'x, 'p, 'e) node_cfg \<Rightarrow> round \<Rightarrow> ('s, 'c, 'x) consensus_tip \<Rightarrow> ('s, 'c, 'x) timeout_certificate option
     \<Rightarrow> ('s, 'c, 'x, 'p, unit) handler" where
  "repropose_tip cfg r tip last_round_tc =
     (let tip_id = get_id (cfg_env cfg) (tip_block_header tip) in
      c_seq (try_update_coherency cfg tip_id)
      (c_then (c_get (\<lambda>s. is_coherent (pending_block_tree s) tip_id)) (\<lambda>coherent.
      if \<not> coherent \<or> \<not> timestamp_ns (tip_block_header tip) < get_current_time (cfg_block_timestamp cfg)
      then recover_round cfg r last_round_tc
      else publish_reproposal cfg r tip last_round_tc)))"

definition extending_position ::
  "('s, 'c, 'x, 'p, 'e) node_cfg \<Rightarrow> ('s, 'c, 'x) consensus_full_block list \<Rightarrow> root_info \<Rightarrow> (seq_num \<times> nat) option" where
  "extending_position cfg blocks root =
     (let (parent_seq_num, parent_ts) =
        (if blocks = [] then (ri_seq_num root, ri_timestamp_ns root)
         else (fb_seq_num (last blocks), fb_timestamp (last blocks)))
      in do {
        n \<leftarrow> seq_num_add parent_seq_num 1;
        ts \<leftarrow> get_valid_block_timestamp (cfg_block_timestamp cfg) parent_ts;
        Some (n, ts)
      })"

definition emit_create_proposal ::
  "('s, 'c, 'x) create_proposal \<Rightarrow> ('s, 'c, 'x, 'p, unit) handler" where
  "emit_create_proposal cp =
     c_seq (update_safety (\<lambda>saf. safety_propose saf (cp_round cp))) (c_emit [CreateProposal cp])"

definition propose_fresh ::
  "('s, 'c, 'x, 'p, 'e) node_cfg \<Rightarrow> epoch \<Rightarrow> round \<Rightarrow> 'c quorum_certificate \<Rightarrow> 'c fresh_proposal_certificate option
     \<Rightarrow> ('s, 'c, 'x) timeout_certificate option \<Rightarrow> ('s, 'c, 'x, 'p, unit) handler" where
  "propose_fresh cfg ep r qc fresh_certificate last_round_tc =
     c_seq (try_update_coherency cfg (get_block_id qc))
     (c_then (c_get (\<lambda>s. is_coherent (pending_block_tree s) (get_block_id qc))) (\<lambda>coherent.
     if \<not> coherent then c_skip
     else
       c_then (c_try (\<lambda>s. get_blocks_on_path_from_root (pending_block_tree s) (get_block_id qc))) (\<lambda>path.
       c_then (c_try (\<lambda>_. path)) (\<lambda>blocks.
       c_then (c_try (\<lambda>s. extending_position cfg blocks (bt_root (pending_block_tree s)))) (\<lambda>(n, ts).
       c_then (c_get (\<lambda>s. get_expected_execution_results cfg (ws_block_policy s) n blocks)) (\<lambda>results.
       case results of
         Inl _ \<Rightarrow> c_skip
       | Inr delayed_results \<Rightarrow>
           emit_create_proposal
             \<lparr>cp_node_id = nodeid cfg, cp_epoch = ep, cp_round = r, cp_seq_num = n, cp_high_qc = qc,
              cp_round_signature = round_signature_new (cfg_env cfg) r (cfg_cert_keypair cfg),
              cp_last_round_tc = last_round_tc, cp_fresh_proposal_certificate = fresh_certificate,
              cp_tx_limit = tx_limit (cfg_chain_params cfg r),
              cp_proposal_gas_limit = proposal_gas_limit (cfg_chain_params cfg r),
              cp_proposal_byte_limit = proposal_byte_limit (cfg_chain_params cfg r),
              cp_beneficiary = beneficiary cfg, cp_timestamp_ns = ts, cp_extending_blocks = blocks,
              cp_delayed_execution_results = delayed_results\<rparr>))))))"

definition try_propose :: "('s, 'c, 'x, 'p, 'e) node_cfg \<Rightarrow> ('s, 'c, 'x, 'p, unit) handler" where
  "try_propose cfg =
     c_then current_round (\<lambda>r.
     c_then (epoch_of r) (\<lambda>ep.
     c_then (c_try (\<lambda>_. get_val_set (val_epoch_map cfg) ep)) (\<lambda>vals.
     c_then (leader_in cfg r vals) (\<lambda>leader.
     if nodeid cfg \<noteq> leader then c_skip
     else
       c_seq (request_tip_if_missing cfg)
       (c_then (c_get (\<lambda>s. is_safe_to_propose (cs_safety s) r)) (\<lambda>safe.
       if \<not> safe then c_skip
       else
         c_then (c_get (\<lambda>s. proposal_parts s r)) (\<lambda>(high_extend, fresh_certificate, last_round_tc).
         case high_extend of
           HeTip tip \<Rightarrow> repropose_tip cfg r tip last_round_tc
         | HeQc qc \<Rightarrow> propose_fresh cfg ep r qc fresh_certificate last_round_tc)))))))"

section \<open>Certificates\<close>

definition cancel_obsolete_requests :: "('s, 'c, 'x, 'p, unit) handler" where
  "cancel_obsolete_requests =
     c_then (c_get (\<lambda>s. filter (\<lambda>e. bsr_cancel_round (snd e) \<le> ri_round (bt_root (pending_block_tree s)))
                         (block_sync_requests s))) (\<lambda>to_cancel.
     c_each (\<lambda>e. c_seq (c_modify (\<lambda>s. s\<lparr>block_sync_requests := bt_remove (fst e) (block_sync_requests s)\<rparr>))
                  (c_emit [CancelSync (bsr_range (snd e))])) to_cancel)"

definition emit_voted ::
  "('s, 'c, 'x, 'p, 'e) node_cfg \<Rightarrow> 'c quorum_certificate \<Rightarrow> ('s, 'c, 'x, 'p, unit) handler" where
  "emit_voted cfg qc =
     c_then (c_try (\<lambda>s. get_highest_coherent_block_on_path_from_root (cfg_env cfg) (pending_block_tree s) (get_block_id qc))) (\<lambda>voted.
     case voted of None \<Rightarrow> c_skip | Some block \<Rightarrow> c_emit [CommitBlocks (Voted block)])"

definition process_qc ::
  "('s, 'c, 'x, 'p, 'e) node_cfg \<Rightarrow> 'c quorum_certificate \<Rightarrow> ('s, 'c, 'x, 'p, unit) handler" where
  "process_qc cfg qc =
     c_then current_round (\<lambda>r.
     if vote_round (qc_info qc) < r then c_skip
     else
       c_seq (emit_voted cfg qc)
       (c_seq (try_commit cfg qc)
       (c_seq cancel_obsolete_requests
       (c_seq (maybe_statesync cfg)
       (c_seq (run_pacemaker cfg (\<lambda>s. pm_process_certificate (cs_pacemaker s) (ws_epoch_manager s) (cs_safety s) (RcQc qc)))
       (c_seq (update_proposed_head cfg)
       (c_seq request_blocks_if_missing_ancestor
       (c_then current_round (\<lambda>r'.
       c_seq (c_modify (\<lambda>s. s\<lparr>cs_vote_state := vote_state_start_new_round (cs_vote_state s) r',
                               cs_no_endorsement_state := ne_start_new_round (cs_no_endorsement_state s) r'\<rparr>))
       (c_seq (lookup_leader cfg r') (try_propose cfg)))))))))))"

definition process_tc ::
  "('s, 'c, 'x, 'p, 'e) node_cfg \<Rightarrow> ('s, 'c, 'x) timeout_certificate \<Rightarrow> ('s, 'c, 'x, 'p, unit) handler" where
  "process_tc cfg tc =
     c_then current_round (\<lambda>r.
     if tc_round tc < r then c_skip
     else
       c_seq (run_pacemaker cfg (\<lambda>s. pm_process_certificate (cs_pacemaker s) (ws_epoch_manager s) (cs_safety s) (RcTc tc)))
       (c_then current_round (\<lambda>r'.
       c_seq (lookup_leader cfg r') (try_propose cfg))))"

section \<open>Event handlers\<close>

definition handle_timeout_expiry ::
  "('s, 'c, 'x, 'p, 'e) node_cfg \<Rightarrow> round \<Rightarrow> ('s, 'c, 'x, 'p, unit) handler" where
  "handle_timeout_expiry cfg timeout_round =
     c_then current_round (\<lambda>r.
     if timeout_round < r then c_skip
     else run_pacemaker cfg (\<lambda>s. process_local_timeout (cs_pacemaker s) (cs_safety s)))"

definition try_add_and_commit_blocktree ::
  "('s, 'c, 'x, 'p, 'e) node_cfg \<Rightarrow> ('s, 'c, 'x) consensus_full_block
     \<Rightarrow> (round \<times> ('s, 'c, 'x) timeout_certificate option \<times> ('s, 'c, 'x) consensus_tip) option
     \<Rightarrow> ('s, 'c, 'x, 'p, unit) handler" where
  "try_add_and_commit_blocktree cfg block vote_on =
     c_seq (c_update (\<lambda>s. case bt_add (cfg_env cfg) (cfg_iter cfg) (pending_block_tree s) block of
        None \<Rightarrow> None | Some tree \<Rightarrow> Some ((), s\<lparr>pending_block_tree := tree\<rparr>)))
     (c_seq (try_update_coherency cfg (fb_id (cfg_env cfg) block))
     (c_seq (case vote_on of
               None \<Rightarrow> c_skip
             | Some (prop_round, last_round_tc, tip) \<Rightarrow>
                 c_then current_round (\<lambda>r.
                 if prop_round \<noteq> r then c_skip
                 else
                   c_seq (c_try (\<lambda>_. assert_p (get_id (cfg_env cfg) (tip_block_header tip) = fb_id (cfg_env cfg) block)))
                   (try_vote cfg last_round_tc tip)))
     (c_seq (try_propose cfg)
     (c_seq (maybe_statesync cfg) request_blocks_if_missing_ancestor))))"

definition validate_block ::
  "('s, 'c, 'x, 'p, 'e) node_cfg \<Rightarrow> ('s, 'c, 'x) consensus_block_header \<Rightarrow> 'x consensus_block_body
     \<Rightarrow> ('s, 'c, 'x, 'p, ('s, 'c, 'x) consensus_full_block option) handler" where
  "validate_block cfg header body =
     c_then (c_get (\<lambda>s. get_block (pending_block_tree s) (get_id (cfg_env cfg) header))) (\<lambda>known.
     case known of
       Some validated \<Rightarrow>
         c_return (if fb_body_id validated \<noteq> body_get_id (cfg_env cfg) (cfg_wire cfg) body then None else Some validated)
     | None \<Rightarrow>
         c_then (leader_of cfg (block_round header)) (\<lambda>leader.
         if author header \<noteq> leader then c_return None
         else
           c_then (c_try (\<lambda>_. Option.bind (get_cert_pubkeys (val_epoch_map cfg) (bh_epoch header))
                                (\<lambda>m. bt_get m (author header)))) (\<lambda>author_pubkey.
           c_return (case block_validate cfg header body author_pubkey of Inl _ \<Rightarrow> None | Inr block \<Rightarrow> Some block))))"

definition handle_proposal_message ::
  "('s, 'c, 'x, 'p, 'e) node_cfg \<Rightarrow> node_id \<Rightarrow> ('s, 'c, 'x) proposal_message \<Rightarrow> ('s, 'c, 'x, 'p, unit) handler" where
  "handle_proposal_message cfg sender p =
     c_then (c_get (\<lambda>s. ri_round (bt_root (pending_block_tree s)))) (\<lambda>root_round.
     if proposal_round p \<le> root_round then c_skip
     else
       c_then (validators_of cfg (proposal_round p)) (\<lambda>vals.
       c_seq (process_qc cfg (bh_qc (tip_block_header (prop_tip p))))
       (c_seq (case prop_last_round_tc p of None \<Rightarrow> c_skip | Some tc \<Rightarrow> process_tc cfg tc)
       (c_then current_round (\<lambda>r.
       c_then (leader_in cfg (proposal_round p) vals) (\<lambda>expected_leader.
       if proposal_round p > r \<or> sender \<noteq> expected_leader then c_skip
       else
         c_then (c_get (\<lambda>s. is_safe_to_handle_proposal (cs_safety s) (proposal_round p))) (\<lambda>safe.
         if \<not> safe then c_skip
         else
           c_seq (update_safety (\<lambda>saf. handle_proposal saf (proposal_round p)))
           (c_then (validate_block cfg (tip_block_header (prop_tip p)) (prop_block_body p)) (\<lambda>validated.
           case validated of
             None \<Rightarrow> c_skip
           | Some block \<Rightarrow>
               try_add_and_commit_blocktree cfg block (Some (proposal_round p, prop_last_round_tc p, prop_tip p)))))))))))"

definition handle_vote_message ::
  "('s, 'c, 'x, 'p, 'e) node_cfg \<Rightarrow> node_id \<Rightarrow> 's vote_message \<Rightarrow> ('s, 'c, 'x, 'p, unit) handler" where
  "handle_vote_message cfg sender vote_msg =
     (let r = vote_round (vmsg_vote vote_msg) in
      c_then current_round (\<lambda>now.
      if r < now then c_skip
      else
        c_then (c_try (\<lambda>_. round_add now FUTURE_VOTE_BOUND)) (\<lambda>limit.
        if r > limit then c_skip
        else
          c_then (epoch_of r) (\<lambda>ep.
          c_then (c_try (\<lambda>_. get_val_set (val_epoch_map cfg) ep)) (\<lambda>vals.
          c_then (c_try (\<lambda>_. get_cert_pubkeys (val_epoch_map cfg) ep)) (\<lambda>vmap.
          c_then (c_update (\<lambda>s. case process_vote (cfg_env cfg) (cs_vote_state s) sender vote_msg vals vmap of
              None \<Rightarrow> None | Some (st, q) \<Rightarrow> Some (q, s\<lparr>cs_vote_state := st\<rparr>))) (\<lambda>maybe_qc.
          case maybe_qc of
            None \<Rightarrow> c_skip
          | Some qc \<Rightarrow>
              c_seq (process_qc cfg qc)
              (c_seq (try_propose cfg)
              (c_then (leader_in cfg r vals) (\<lambda>leader.
              if nodeid cfg \<noteq> leader then c_skip
              else
                c_then (c_get (\<lambda>s. pm_current_epoch (cs_pacemaker s))) (\<lambda>ep'.
                c_emit [Publish (Broadcast ep')
                  (signed cfg (MsgAdvanceRound \<lparr>ar_last_round_certificate = RcQc qc\<rparr>))])))))))))))"

definition broadcast_advance_round_message ::
  "('s, 'c, 'x, 'p, 'e) node_cfg \<Rightarrow> ('s, 'c, 'x) round_certificate \<Rightarrow> ('s, 'c, 'x, 'p, unit) handler" where
  "broadcast_advance_round_message cfg last_round_certificate =
     c_then (c_get (\<lambda>s. get_epoch (ws_epoch_manager s) (rc_round last_round_certificate))) (\<lambda>ep.
     case ep of
       None \<Rightarrow> c_skip
     | Some ep \<Rightarrow>
         c_emit [Publish (Broadcast ep)
           (signed cfg (MsgAdvanceRound \<lparr>ar_last_round_certificate = last_round_certificate\<rparr>))])"

definition handle_timeout_certificate ::
  "('s, 'c, 'x, 'p, 'e) node_cfg \<Rightarrow> ('s, 'c, 'x) round_certificate option \<Rightarrow> ('s, 'c, 'x, 'p, unit) handler" where
  "handle_timeout_certificate cfg last_round_certificate =
     c_then current_round (\<lambda>r.
     case last_round_certificate of
       Some (RcTc tc) \<Rightarrow>
         if tc_round tc = r then c_seq (handle_timeout_expiry cfg (tc_round tc)) (process_tc cfg tc)
         else if tc_round tc > r then c_seq (broadcast_advance_round_message cfg (RcTc tc)) (process_tc cfg tc)
         else c_skip
     | Some (RcQc qc) \<Rightarrow> process_qc cfg qc
     | None \<Rightarrow> c_skip)"

definition handle_timeout_message ::
  "('s, 'c, 'x, 'p, 'e) node_cfg \<Rightarrow> node_id \<Rightarrow> ('s, 'c, 'x) timeout \<Rightarrow> ('s, 'c, 'x, 'p, unit) handler" where
  "handle_timeout_message cfg sender t =
     (let info = to_tminfo t in
      c_then current_round (\<lambda>now.
      if tm_round info < now then c_skip
      else
        c_then (epoch_of (tm_round info)) (\<lambda>ep.
        c_then (c_try (\<lambda>_. get_val_set (val_epoch_map cfg) ep)) (\<lambda>vals.
        c_then (c_try (\<lambda>_. get_cert_pubkeys (val_epoch_map cfg) ep)) (\<lambda>vmap.
        c_seq (process_qc cfg (hev_qc (to_high_extend t)))
        (c_seq (case to_high_extend t of
                  HevTip tip (Some vote_signature) \<Rightarrow>
                    handle_vote_message cfg sender
                      \<lparr>vmsg_vote = \<lparr>vote_id = get_id (cfg_env cfg) (tip_block_header tip), vote_round = tm_round info,
                                    vote_epoch = tm_epoch info\<rparr>,
                       vmsg_sig = vote_signature\<rparr>
                | _ \<Rightarrow> c_skip)
        (c_seq (handle_timeout_certificate cfg (to_last_round_certificate t))
        (c_seq (run_pacemaker cfg (\<lambda>s.
            process_remote_timeout (cfg_env cfg) (cs_pacemaker s) (ws_epoch_manager s) vals vmap (cs_safety s) sender t))
        (try_propose cfg)))))))))"

definition publish_no_endorsement ::
  "('s, 'c, 'x, 'p, 'e) node_cfg \<Rightarrow> node_id \<Rightarrow> epoch \<Rightarrow> round \<Rightarrow> ('s, 'c, 'x) consensus_tip \<Rightarrow> ('s, 'c, 'x, 'p, unit) handler" where
  "publish_no_endorsement cfg sender ep r tip =
     c_seq (update_safety (\<lambda>saf. no_endorse saf r (get_id (cfg_env cfg) (tip_block_header tip))))
     (c_emit [Publish (PointToPoint sender) (signed cfg (MsgNoEndorsement
        (no_endorsement_message_new (cfg_env cfg)
           \<lparr>ne_epoch = ep, ne_round = r, ne_tip_qc_round = get_round (bh_qc (tip_block_header tip))\<rparr>
           (cfg_cert_keypair cfg))))])"

definition handle_round_recovery_message ::
  "('s, 'c, 'x, 'p, 'e) node_cfg \<Rightarrow> node_id \<Rightarrow> ('s, 'c, 'x) round_recovery_message \<Rightarrow> ('s, 'c, 'x, 'p, unit) handler" where
  "handle_round_recovery_message cfg sender m =
     c_then (epoch_of (rr_round m)) (\<lambda>ep.
     c_then (c_try (\<lambda>_. get_val_set (val_epoch_map cfg) ep)) (\<lambda>vals.
     c_seq (process_tc cfg (rr_tc m))
     (c_then current_round (\<lambda>now.
     c_then (leader_in cfg now vals) (\<lambda>expected_leader.
     if rr_round m \<noteq> now \<or> sender \<noteq> expected_leader then c_skip
     else
       (case tc_high_extend (rr_tc m) of
          HeQc _ \<Rightarrow> c_skip
        | HeTip tip \<Rightarrow>
            c_then (c_get (\<lambda>s. is_coherent (pending_block_tree s) (get_id (cfg_env cfg) (tip_block_header tip)))) (\<lambda>coherent.
            if coherent \<and> timestamp_ns (tip_block_header tip) < get_current_time (cfg_block_timestamp cfg) then c_skip
            else
              c_then (c_get (\<lambda>s. is_safe_to_no_endorse (cs_safety s) (rr_round m))) (\<lambda>safe.
              if \<not> safe then c_skip else publish_no_endorsement cfg sender ep (rr_round m) tip))))))))"

definition handle_no_endorsement_message ::
  "('s, 'c, 'x, 'p, 'e) node_cfg \<Rightarrow> node_id \<Rightarrow> 's no_endorsement_message \<Rightarrow> ('s, 'c, 'x, 'p, unit) handler" where
  "handle_no_endorsement_message cfg sender m =
     (let r = ne_round (nem_msg m) in
      c_then current_round (\<lambda>now.
      if r < now then c_skip
      else
        c_then (c_try (\<lambda>_. round_add now FUTURE_VOTE_BOUND)) (\<lambda>limit.
        if r > limit then c_skip
        else
          c_then (epoch_of r) (\<lambda>ep.
          c_then (c_try (\<lambda>_. get_val_set (val_epoch_map cfg) ep)) (\<lambda>vals.
          c_then (c_try (\<lambda>_. get_cert_pubkeys (val_epoch_map cfg) ep)) (\<lambda>vmap.
          c_then (c_update (\<lambda>s. case process_no_endorsement (cfg_env cfg) (cs_no_endorsement_state s) sender m vals vmap of
              None \<Rightarrow> None | Some (st, q) \<Rightarrow> Some (q, s\<lparr>cs_no_endorsement_state := st\<rparr>))) (\<lambda>maybe_nec.
          if maybe_nec = None then c_skip else try_propose cfg)))))))"

definition handle_advance_round_message ::
  "('s, 'c, 'x, 'p, 'e) node_cfg \<Rightarrow> node_id \<Rightarrow> ('s, 'c, 'x) advance_round_message \<Rightarrow> ('s, 'c, 'x, 'p, unit) handler" where
  "handle_advance_round_message cfg sender m =
     (case ar_last_round_certificate m of
        RcTc tc \<Rightarrow> process_tc cfg tc
      | RcQc qc \<Rightarrow>
          c_then current_round (\<lambda>now.
          if vote_round (qc_info qc) < now then c_skip
          else
            c_seq (process_qc cfg qc)
            (c_then current_round (\<lambda>r.
            c_then (leader_of cfg r) (\<lambda>leader.
            c_emit [Publish (PointToPoint leader)
              (signed cfg (MsgAdvanceRound \<lparr>ar_last_round_certificate = RcQc qc\<rparr>))])))))"

fun add_synced_blocks ::
  "('s, 'c, 'x, 'p, 'e) node_cfg \<Rightarrow> ('s, 'c, 'x) consensus_full_block list \<Rightarrow> ('s, 'c, 'x, 'p, unit) handler" where
  "add_synced_blocks cfg [] = c_skip"
| "add_synced_blocks cfg (full_block # rest) =
     c_then (c_get (\<lambda>s. is_valid_to_insert (cfg_env cfg) (pending_block_tree s) (fb_header full_block))) (\<lambda>valid.
     if \<not> valid then add_synced_blocks cfg rest
     else
       c_then (validate_block cfg (fb_header full_block) (fb_body full_block)) (\<lambda>validated.
       case validated of
         None \<Rightarrow> c_skip
       | Some block \<Rightarrow> c_seq (try_add_and_commit_blocktree cfg block None) (add_synced_blocks cfg rest)))"

definition handle_block_sync ::
  "('s, 'c, 'x, 'p, 'e) node_cfg \<Rightarrow> block_range \<Rightarrow> ('s, 'c, 'x) consensus_full_block list \<Rightarrow> ('s, 'c, 'x, 'p, unit) handler" where
  "handle_block_sync cfg rng full_blocks =
     c_then (c_get (\<lambda>s. bt_get (block_sync_requests s) (br_last_block_id rng))) (\<lambda>request.
     if request = None then c_skip
     else
       c_seq (add_synced_blocks cfg full_blocks)
       (c_modify (\<lambda>s. s\<lparr>block_sync_requests := bt_remove (br_last_block_id rng) (block_sync_requests s)\<rparr>)))"

section \<open>Checkpoints\<close>

record locked_epoch =
  le_epoch :: epoch
  le_round :: round

record ('s, 'c, 'x) checkpoint =
  ck_root :: block_id
  ck_high_certificate :: "('s, 'c, 'x) round_certificate"
  ck_validator_sets :: "locked_epoch list"

definition get_locked :: "('s, 'c, 'x, 'p, 'e) node_cfg \<Rightarrow> ('s, 'c, 'x, 'p) wrapper_state \<Rightarrow> epoch \<Rightarrow> locked_epoch option" where
  "get_locked cfg s ep = do {
     _ \<leftarrow> get_val_set (val_epoch_map cfg) ep;
     r \<leftarrow> bt_get (epoch_starts (ws_epoch_manager s)) ep;
     Some \<lparr>le_epoch = ep, le_round = r\<rparr>
   }"

definition make_checkpoint ::
  "('s, 'c, 'x, 'p, 'e) node_cfg \<Rightarrow> ('s, 'c, 'x, 'p) wrapper_state \<Rightarrow> ('s, 'c, 'x) checkpoint option" where
  "make_checkpoint cfg s = do {
     let base_epoch = ri_epoch (bt_root (pending_block_tree s));
     base \<leftarrow> get_locked cfg s base_epoch;
     next_epoch \<leftarrow> epoch_add base_epoch 1;
     Some \<lparr>ck_root = root_id (pending_block_tree s), ck_high_certificate = high_certificate s,
           ck_validator_sets = base # (case get_locked cfg s next_epoch of None \<Rightarrow> [] | Some l \<Rightarrow> [l])\<rparr>
   }"

section \<open>Upcoming leaders\<close>

definition NUM_LEADERS_FORWARD_TXS :: nat where
  "NUM_LEADERS_FORWARD_TXS = 3"

definition NUM_LEADERS_SELF_UPCOMING :: nat where
  "NUM_LEADERS_SELF_UPCOMING = 3"

definition compute_upcoming_leader_round_pairs ::
  "('s, 'c, 'x, 'p, 'e) node_cfg \<Rightarrow> ('s, 'c, 'x, 'p) wrapper_state \<Rightarrow> bool \<Rightarrow> nat \<Rightarrow> (node_id \<times> round) list option" where
  "compute_upcoming_leader_round_pairs cfg s include_current num_rounds = do {
     r \<leftarrow> get_current_round (cs_pacemaker s);
     first \<leftarrow> round_add r (if include_current then 0 else 1);
     those (map (\<lambda>r. do {
       ep \<leftarrow> get_epoch (ws_epoch_manager s) r;
       vals \<leftarrow> get_val_set (val_epoch_map cfg) ep;
       leader \<leftarrow> election cfg r (validators vals);
       Some (leader, r)
     }) [first..<first + num_rounds])
   }"

definition iter_upcoming_self_leader_rounds ::
  "('s, 'c, 'x, 'p, 'e) node_cfg \<Rightarrow> ('s, 'c, 'x, 'p) wrapper_state \<Rightarrow> round list option" where
  "iter_upcoming_self_leader_rounds cfg s =
     map_option (\<lambda>ps. map snd (filter (\<lambda>p. fst p = nodeid cfg) ps))
       (compute_upcoming_leader_round_pairs cfg s True NUM_LEADERS_SELF_UPCOMING)"

definition iter_future_other_leaders ::
  "('s, 'c, 'x, 'p, 'e) node_cfg \<Rightarrow> ('s, 'c, 'x, 'p) wrapper_state \<Rightarrow> node_id list option" where
  "iter_future_other_leaders cfg s =
     map_option (\<lambda>ps. rev (remdups (rev (filter (\<lambda>n. n \<noteq> nodeid cfg) (map fst ps)))))
       (compute_upcoming_leader_round_pairs cfg s False NUM_LEADERS_FORWARD_TXS)"

end
