(* ===== verification/Handler_Logic.thy ===== *)
theory Handler_Logic
  imports Consensus_State
begin

text \<open>
  Reasoning about handlers.  \<open>c_spec R P m Q\<close> says that a run of \<open>m\<close> from a state with \<open>P\<close> that does not
  panic relates the state before, the state after and the emitted commands by \<open>R\<close> and returns
  a value with \<open>Q\<close>.  The locale \<open>effect\<close> has the two laws that make \<open>R\<close> compose, and with them one
  rule for each way the code composes steps; every property of the handlers is an instance.
\<close>

definition c_spec :: "('st \<Rightarrow> 'st \<Rightarrow> 'm list \<Rightarrow> bool) \<Rightarrow> ('st \<Rightarrow> bool) \<Rightarrow> ('st, 'm, 'a) cm \<Rightarrow> ('a \<Rightarrow> 'st \<Rightarrow> bool) \<Rightarrow> bool" where
  "c_spec R P m Q \<longleftrightarrow> (\<forall>s a s' cs. P s \<longrightarrow> m s = Some (a, s', cs) \<longrightarrow> R s s' cs \<and> Q a s')"

abbreviation c_rel :: "('st \<Rightarrow> 'st \<Rightarrow> 'm list \<Rightarrow> bool) \<Rightarrow> ('st, 'm, 'a) cm \<Rightarrow> bool" where
  "c_rel R m \<equiv> c_spec R (\<lambda>_. True) m (\<lambda>_ _. True)"

lemma c_specD: "c_spec R P m Q \<Longrightarrow> P s \<Longrightarrow> m s = Some (a, s', cs) \<Longrightarrow> R s s' cs \<and> Q a s'"
  unfolding c_spec_def by blast

lemma c_rel_pre: "c_rel R m \<Longrightarrow> c_spec R P m (\<lambda>_ _. True)"
  unfolding c_spec_def by blast

lemma c_then_Some:
  "c_then m f s = Some (b, s'', es) \<longleftrightarrow>
     (\<exists>a s' cs ds. m s = Some (a, s', cs) \<and> f a s' = Some (b, s'', ds) \<and> es = cs @ ds)"
  by (auto simp: c_then_def split: option.splits)

lemma c_seq_Some:
  "c_seq m n s = Some (b, s'', es) \<longleftrightarrow>
     (\<exists>a s' cs ds. m s = Some (a, s', cs) \<and> n s' = Some (b, s'', ds) \<and> es = cs @ ds)"
  by (simp add: c_seq_def c_then_Some)

lemma c_step_Some [simp]:
  "c_return a s = Some (b, s', cs) \<longleftrightarrow> b = a \<and> s' = s \<and> cs = []"
  "c_skip s = Some (u, s', cs) \<longleftrightarrow> s' = s \<and> cs = []"
  "c_get f s = Some (b, s', cs) \<longleftrightarrow> b = f s \<and> s' = s \<and> cs = []"
  "c_try g s = Some (b, s', cs) \<longleftrightarrow> g s = Some b \<and> s' = s \<and> cs = []"
  "c_modify h s = Some (u, s', cs) \<longleftrightarrow> s' = h s \<and> cs = []"
  "c_emit ds s = Some (u, s', cs) \<longleftrightarrow> s' = s \<and> cs = ds"
  "c_update k s = Some (b, s', cs) \<longleftrightarrow> k s = Some (b, s') \<and> cs = []"
  by (auto simp: c_return_def c_skip_def c_get_def c_try_def c_modify_def c_emit_def c_update_def split: option.splits)

locale effect =
  fixes R :: "'st \<Rightarrow> 'st \<Rightarrow> 'm list \<Rightarrow> bool"
  assumes refl: "R s s []"
    and trans: "R s s' cs \<Longrightarrow> R s' s'' ds \<Longrightarrow> R s s'' (cs @ ds)"
begin

lemma spec_then:
  assumes "c_spec R P m Q" "\<And>a. c_spec R (Q a) (f a) Q'"
  shows "c_spec R P (c_then m f) Q'"
  using assms unfolding c_spec_def c_then_Some by (metis trans)

lemma spec_seq: "c_spec R P m (\<lambda>_. Q) \<Longrightarrow> c_spec R Q n Q' \<Longrightarrow> c_spec R P (c_seq m n) Q'"
  unfolding c_seq_def by (rule spec_then)

lemma rel_then: "c_rel R m \<Longrightarrow> (\<And>a. c_rel R (f a)) \<Longrightarrow> c_rel R (c_then m f)"
  by (rule spec_then)

lemma rel_seq: "c_rel R m \<Longrightarrow> c_rel R n \<Longrightarrow> c_rel R (c_seq m n)"
  by (rule spec_seq)

lemma rel_return: "c_rel R (c_return a)"
  by (simp add: c_spec_def refl)

lemma rel_skip: "c_rel R c_skip"
  by (simp add: c_spec_def refl)

lemma rel_get: "c_rel R (c_get f)"
  by (simp add: c_spec_def refl)

lemma rel_try: "c_rel R (c_try f)"
  by (simp add: c_spec_def refl)

lemma rel_if: "c_rel R m \<Longrightarrow> c_rel R n \<Longrightarrow> c_rel R (if b then m else n)"
  by simp

lemma rel_option: "c_rel R m \<Longrightarrow> (\<And>x. c_rel R (f x)) \<Longrightarrow> c_rel R (case ov of None \<Rightarrow> m | Some x \<Rightarrow> f x)"
  by (cases ov) auto

lemma rel_prod: "(\<And>x y. c_rel R (f x y)) \<Longrightarrow> c_rel R (case p of (x, y) \<Rightarrow> f x y)"
  by (cases p) auto

lemma rel_let: "(\<And>x. c_rel R (f x)) \<Longrightarrow> c_rel R (let x = e in f x)"
  by simp

lemma rel_each: "(\<And>x. c_rel R (f x)) \<Longrightarrow> c_rel R (c_each f xs)"
  by (induction xs) (auto intro: rel_skip rel_seq)

lemma rel_weaken: "c_spec R P m Q \<Longrightarrow> (\<And>s. P s) \<Longrightarrow> c_rel R m"
  unfolding c_spec_def by blast

end

section \<open>The pacemaker, from its steps\<close>

text \<open>
  The contract of a property of the pacemaker's operations: it holds of a step that keeps the high
  certificate and emits nothing, of \<^verbatim>\<open>process_certificate\<close> and of the local timeout, and it composes.
  Then it holds of the handling of local and remote timeouts, whatever number of times the
  certificate is attempted.
\<close>

lemma bind_SomeE:
  assumes "Option.bind m f = Some y" obtains x where "m = Some x" "f x = Some y"
  using assms by (auto simp: bind_eq_Some_conv)

locale pm_effect =
  fixes P :: "('s, 'c, 'x) pacemaker \<Rightarrow> ('s, 'c, 'x) safety \<Rightarrow> ('s, 'c, 'x) pacemaker \<Rightarrow> ('s, 'c, 'x) safety
    \<Rightarrow> ('s, 'c, 'x) pacemaker_command list \<Rightarrow> bool"
  assumes pm_refl: "P pm saf pm saf []"
    and pm_trans: "P pm saf pm1 saf1 cs \<Longrightarrow> P pm1 saf1 pm2 saf2 ds \<Longrightarrow> P pm saf pm2 saf2 (cs @ ds)"
    and pm_same: "pm_high_certificate pm' = pm_high_certificate pm \<Longrightarrow> P pm saf pm' saf []"
    and pm_certificate: "pm_process_certificate pm em saf rc = Some (pm', saf', cs) \<Longrightarrow> P pm saf pm' saf' cs"
    and pm_timeout: "local_timeout_round pm saf = Some (saf', cs) \<Longrightarrow> pm_high_certificate pm' = pm_high_certificate pm \<Longrightarrow>
      P pm saf pm' saf' cs"
begin

lemma process_local_timeout_effect:
  assumes "process_local_timeout pm saf = Some (pm', saf', cs)"
  shows "P pm saf pm' saf' cs"
proof -
  have "local_timeout_round (pm\<lparr>pm_phase := PhaseOne\<rparr>) saf = Some (saf', cs)" "pm_high_certificate pm' = pm_high_certificate pm"
    using assms by (auto simp: process_local_timeout_def bind_eq_Some_conv Let_def)
  then show ?thesis
    using pm_trans[OF pm_same[of "pm\<lparr>pm_phase := PhaseOne\<rparr>" pm saf] pm_timeout[of "pm\<lparr>pm_phase := PhaseOne\<rparr>" saf saf' cs pm']]
    by simp
qed

lemma tc_loop_effect:
  "tc_loop E em vals vm info pm saf ts cmds = Some y \<Longrightarrow>
     \<exists>cs. snd (snd y) = cmds @ cs \<and> P pm saf (fst y) (fst (snd y)) cs"
proof (erule tc_loop.raw_induct[where P = "\<lambda>E em vals vm info pm saf ts cmds y.
    \<exists>cs. snd (snd y) = cmds @ cs \<and> P pm saf (fst y) (fst (snd y)) cs", rotated], goal_cases)
  case (1 loop E em vals vm info pm saf ts cmds y)
  let ?spec = "\<lambda>pm saf cmds. \<exists>cs. snd (snd y) = cmds @ cs \<and> P pm saf (fst y) (fst (snd y)) cs"
  have step: "?spec pm saf cmds" if "P pm saf pm1 saf1 cs" "?spec pm1 saf1 (cmds @ cs)" for pm1 saf1 cs
    using that(2) pm_trans[OF that(1)] by auto
  have retry: "?spec pm saf cmds" if "?spec (handle_invalid_timeout pm bad) saf cmds" for bad
    using that step[OF pm_same[of "handle_invalid_timeout pm bad" pm saf]] by (simp add: handle_invalid_timeout_def)
  have advance: "?spec pm saf cmds"
    if "pm_process_certificate pm em saf rc = Some (pm1, saf1, cs)" "loop E em vals vm info pm1 saf1 ts (cmds @ cs) = Some y" for rc pm1 saf1 cs
    by (rule step[OF pm_certificate[OF that(1)] 1(1)[OF that(2)]])
  have stop: "?spec pm saf cmds" if "y = (pm, saf, cmds)" using that pm_refl by auto
  show ?case
    using 1(2) stop advance retry[OF 1(1)]
    by (auto simp: bind_eq_Some_conv split: if_splits option.splits sum.splits sct_error.splits)
qed

lemma process_remote_timeout_effect:
  assumes "process_remote_timeout E pm em vals vm saf n t = Some (pm', saf', cs)"
  shows "P pm saf pm' saf' cs"
proof (cases "tm_round (to_tminfo t) < rc_round (pm_high_certificate pm) + 1 \<or> n \<in> set (pm_invalid_timeout_senders pm)")
  case True
  then have "pm' = pm \<and> saf' = saf \<and> cs = []"
    using assms by (auto simp: process_remote_timeout_def Let_def bind_eq_Some_conv split: if_splits)
  then show ?thesis by (simp add: pm_refl)
next
  case False
  let ?pm = "pm\<lparr>pm_pending_timeouts := bt_insert n t (pm_pending_timeouts pm)\<rparr>"
  have start: "P pm saf ?pm saf []" by (simp add: pm_same)
  have round: "\<not> tm_round (to_tminfo t) < rc_round (pm_high_certificate pm) + 1" "n \<notin> set (pm_invalid_timeout_senders pm)"
    using False by auto
  obtain b pm1 saf1 cmds where
    first: "(if b then Option.bind (local_timeout_round ?pm saf) (\<lambda>(saf, cmds). Some (?pm\<lparr>pm_phase := PhaseOne\<rparr>, saf, cmds))
      else Some (?pm, saf, [])) = Some (pm1, saf1, cmds)"
    and loop: "tc_loop E em vals vm (to_tminfo t) pm1 saf1 (bt_keys (pm_pending_timeouts ?pm)) cmds = Some (pm', saf', cs)"
    using assms unfolding process_remote_timeout_def Let_def
    by (elim bind_SomeE) (simp only: get_current_round_Some round if_False, elim conjE bind_SomeE, fastforce elim: bind_SomeE)
  have "P ?pm saf pm1 saf1 cmds"
    using first pm_timeout[of ?pm saf saf1 cmds pm1] pm_refl[of ?pm saf]
    by (auto simp: bind_eq_Some_conv split: if_splits)
  moreover obtain ds where "cs = cmds @ ds" "P pm1 saf1 pm' saf' ds"
    using tc_loop_effect[OF loop] by auto
  ultimately show ?thesis using pm_trans[OF pm_trans[OF start]] by simp
qed

end

section \<open>Steps that keep the round\<close>

definition keeps_pacemaker ::
  "('s, 'c, 'x, 'p) wrapper_state \<Rightarrow> ('s, 'c, 'x, 'p) wrapper_state \<Rightarrow> ('s, 'c, 'x) consensus_command list \<Rightarrow> bool" where
  "keeps_pacemaker s s' cs \<longleftrightarrow> cs_pacemaker s' = cs_pacemaker s"

interpretation pmk: effect keeps_pacemaker
  by unfold_locales (simp_all add: keeps_pacemaker_def)

lemma keeps_pacemaker_step:
  "(\<And>s. cs_pacemaker (f s) = cs_pacemaker s) \<Longrightarrow> c_rel keeps_pacemaker (c_modify f)"
  "(\<And>s a s'. g s = Some (a, s') \<Longrightarrow> cs_pacemaker s' = cs_pacemaker s) \<Longrightarrow> c_rel keeps_pacemaker (c_update g)"
  "c_rel keeps_pacemaker (c_emit cs)"
  by (auto simp: c_spec_def keeps_pacemaker_def)

lemmas pmk_rules =
  pmk.rel_then pmk.rel_seq pmk.rel_return pmk.rel_skip pmk.rel_get pmk.rel_try pmk.rel_if
  pmk.rel_option pmk.rel_prod pmk.rel_let pmk.rel_each keeps_pacemaker_step

lemma try_commit_keeps_pacemaker: "c_rel keeps_pacemaker (try_commit cfg qc)"
  unfolding try_commit_def commit_block_def
  by (intro pmk_rules) (auto split: option.splits)

lemma update_proposed_head_keeps_pacemaker: "c_rel keeps_pacemaker (update_proposed_head cfg)"
  unfolding update_proposed_head_def by (intro pmk_rules) auto

lemma try_update_coherency_keeps_pacemaker: "c_rel keeps_pacemaker (try_update_coherency cfg b)"
  unfolding try_update_coherency_def
  by (intro pmk_rules try_commit_keeps_pacemaker update_proposed_head_keeps_pacemaker) (auto split: option.splits)

lemma request_tip_if_missing_keeps_pacemaker: "c_rel keeps_pacemaker (request_tip_if_missing cfg)"
  unfolding request_tip_if_missing_def
  by (intro pmk_rules) (auto intro!: pmk_rules split: round_certificate.splits high_extend.splits)

definition at_round :: "round \<Rightarrow> ('s, 'c, 'x, 'p) wrapper_state \<Rightarrow> bool" where
  "at_round r s \<longleftrightarrow> get_current_round (cs_pacemaker s) = Some r"

section \<open>Steps that do not concern a property\<close>

fun quiet_message :: "('s, 'c, 'x) protocol_message \<Rightarrow> bool" where
  "quiet_message (MsgAdvanceRound m) = True"
| "quiet_message (MsgRoundRecovery m) = True"
| "quiet_message m = False"

definition message_of :: "('s, 'c, 'x) signed_message \<Rightarrow> ('s, 'c, 'x) protocol_message" where
  "message_of m = cm_message (unv_obj (ver_message m))"

lemma message_of_signed [simp]: "message_of (signed cfg m) = m"
  by (simp add: message_of_def signed_def consensus_message_sign_def)

fun quiet :: "('s, 'c, 'x) consensus_command \<Rightarrow> bool" where
  "quiet (Publish t m) = quiet_message (message_of m)"
| "quiet (PublishToFullNodes ep r m) = quiet_message (message_of m)"
| "quiet (CommitBlocks (Finalized b)) = False"
| "quiet (CreateProposal cp) = False"
| "quiet (EnterRound ep r) = False"
| "quiet c = True"

definition core_eq :: "('s, 'c, 'x, 'p) wrapper_state \<Rightarrow> ('s, 'c, 'x, 'p) wrapper_state \<Rightarrow> bool" where
  "core_eq s s' \<longleftrightarrow>
     pending_block_tree s' = pending_block_tree s \<and> scheduled_vote s' = scheduled_vote s \<and>
     cs_safety s' = cs_safety s \<and> cs_pacemaker s' = cs_pacemaker s"

section \<open>Every handler, from its steps\<close>

text \<open>
  The contract of a property of the handlers: it holds of the steps that change the tree, the
  safety module, the pacemaker or the scheduled vote and of the commands they emit.  Then it holds
  of every handler.
\<close>

locale node_effect = effect R
  for R :: "('s, 'c, 'x, 'p) wrapper_state \<Rightarrow> ('s, 'c, 'x, 'p) wrapper_state \<Rightarrow> ('s, 'c, 'x) consensus_command list \<Rightarrow> bool" +
  fixes cfg :: "('s, 'c, 'x, 'p, 'e) node_cfg"
  assumes p_other: "core_eq s s' \<Longrightarrow> R s s' []"
    and p_quiet: "\<forall>c \<in> set cs. quiet c \<Longrightarrow> R s s cs"
    and p_add: "bt_add (cfg_env cfg) (cfg_iter cfg) (pending_block_tree s) b = Some T \<Longrightarrow> R s (s\<lparr>pending_block_tree := T\<rparr>) []"
    and p_coherency: "bt_try_update_coherency (cfg_env cfg) (check_coherency cfg pol) (pending_block_tree s) k = Some (T, bs) \<Longrightarrow>
      R s (s\<lparr>pending_block_tree := T\<rparr>) []"
    and p_commit: "c_rel R (try_commit cfg qc)"
    and p_recovery: "recovery_request (cs_safety s) r = Some saf \<Longrightarrow> R s (s\<lparr>cs_safety := saf\<rparr>) []"
    and p_handle: "handle_proposal (cs_safety s) r = Some saf \<Longrightarrow> R s (s\<lparr>cs_safety := saf\<rparr>) []"
    and p_vote: "c_spec R (at_round r) (cast_vote cfg r tc_tip tip q) (\<lambda>_ _. True)"
    and p_vote_timer: "c_rel R (handle_vote_timer cfg r)"
    and p_no_endorse: "c_spec R (at_round r) (publish_no_endorsement cfg n ep r tip) (\<lambda>_ _. True)"
    and p_create: "c_spec R (at_round (cp_round cp)) (emit_create_proposal cp) (\<lambda>_ _. True)"
    and p_repropose: "c_spec R (at_round r) (publish_reproposal cfg r tip tco) (\<lambda>_ _. True)"
    and p_certificate: "c_rel R (run_pacemaker cfg (\<lambda>s.
      pm_process_certificate (cs_pacemaker s) (ws_epoch_manager s) (cs_safety s) rc))"
    and p_local_timeout: "c_rel R (run_pacemaker cfg (\<lambda>s. process_local_timeout (cs_pacemaker s) (cs_safety s)))"
    and p_remote_timeout: "c_rel R (run_pacemaker cfg (\<lambda>s.
      process_remote_timeout (cfg_env cfg) (cs_pacemaker s) (ws_epoch_manager s) vals vmap (cs_safety s) n t))"
begin

lemma rel_emit: "\<forall>c \<in> set cs. quiet c \<Longrightarrow> c_rel R (c_emit cs)"
  by (simp add: c_spec_def p_quiet)

lemma rel_modify: "(\<And>s. core_eq s (f s)) \<Longrightarrow> c_rel R (c_modify f)"
  by (simp add: c_spec_def p_other)

lemma rel_update: "(\<And>s a s'. g s = Some (a, s') \<Longrightarrow> core_eq s s') \<Longrightarrow> c_rel R (c_update g)"
  by (auto simp: c_spec_def p_other)

lemmas rel_basic =
  rel_then rel_seq rel_return rel_skip rel_get rel_try rel_if rel_option rel_prod rel_let rel_each rel_emit rel_modify
  rel_update

lemma rel_readers:
  "c_rel R current_round" "c_rel R (epoch_of r)" "c_rel R (validators_of cfg r)" "c_rel R (leader_in cfg r vals)"
  "c_rel R (leader_of cfg r)" "c_rel R (lookup_leader cfg r)" "c_rel R (maybe_statesync cfg)"
  "c_rel R (validate_block cfg h b)"
  unfolding current_round_def epoch_of_def validators_of_def leader_in_def leader_of_def lookup_leader_def maybe_statesync_def
    validate_block_def
  by (intro rel_basic)+

lemma rel_requests:
  "c_rel R request_blocks_if_missing_ancestor" "c_rel R (request_tip_if_missing cfg)" "c_rel R cancel_obsolete_requests"
  "c_rel R (update_proposed_head cfg)" "c_rel R (emit_voted cfg qc)" "c_rel R (broadcast_advance_round_message cfg rc)"
  unfolding request_blocks_if_missing_ancestor_def request_tip_if_missing_def cancel_obsolete_requests_def
    update_proposed_head_def emit_voted_def broadcast_advance_round_message_def
  by (intro rel_basic; auto simp: core_eq_def intro!: rel_basic split: round_certificate.splits high_extend.splits)+

lemma rel_coherency: "c_rel R (try_update_coherency cfg b)"
proof -
  have "c_rel R (c_update (\<lambda>s.
      case bt_try_update_coherency (cfg_env cfg) (check_coherency cfg (ws_block_policy s)) (pending_block_tree s) b of
        None \<Rightarrow> None | Some (T, bs) \<Rightarrow> Some (bs, s\<lparr>pending_block_tree := T\<rparr>)))"
    by (auto simp: c_spec_def p_coherency split: option.splits)
  from this show ?thesis
    unfolding try_update_coherency_def by (rule rel_then) (intro rel_basic rel_requests p_commit; auto)
qed

lemma at_weaken: "c_rel R m \<Longrightarrow> c_spec R (at_round r) m (\<lambda>_ _. True)"
  unfolding c_spec_def by blast

lemma at_keep: "c_rel R m \<Longrightarrow> c_rel keeps_pacemaker m \<Longrightarrow> c_spec R (at_round r) m (\<lambda>_. at_round r)"
  unfolding c_spec_def keeps_pacemaker_def at_round_def by fastforce

lemma at_seq:
  "c_rel R m \<Longrightarrow> c_rel keeps_pacemaker m \<Longrightarrow> c_spec R (at_round r) n (\<lambda>_ _. True) \<Longrightarrow>
     c_spec R (at_round r) (c_seq m n) (\<lambda>_ _. True)"
  by (rule spec_seq[OF at_keep])

lemma at_get: "(\<And>a. c_spec R (at_round r) (f a) (\<lambda>_ _. True)) \<Longrightarrow> c_spec R (at_round r) (c_then (c_get g) f) (\<lambda>_ _. True)"
  by (rule spec_then[OF at_keep]) (auto intro: rel_get pmk.rel_get)

lemma at_try: "(\<And>a. c_spec R (at_round r) (f a) (\<lambda>_ _. True)) \<Longrightarrow> c_spec R (at_round r) (c_then (c_try g) f) (\<lambda>_ _. True)"
  by (rule spec_then[OF at_keep]) (auto intro: rel_try pmk.rel_try)

lemma at_skip: "c_spec R (at_round r) c_skip (\<lambda>_ _. True)"
  by (rule at_weaken[OF rel_skip])

lemma from_current_round: "(\<And>r. c_spec R (at_round r) (f r) (\<lambda>_ _. True)) \<Longrightarrow> c_rel R (c_then current_round f)"
  by (rule spec_then[of _ _ at_round]) (auto simp: c_spec_def current_round_def at_round_def refl)

lemma rel_recover: "c_rel R (recover_round cfg r tco)"
proof -
  have "c_rel R (update_safety (\<lambda>saf. recovery_request saf r))"
    by (auto simp: c_spec_def update_safety_def p_recovery split: option.splits)
  then show ?thesis unfolding recover_round_def by (intro rel_basic rel_readers) auto
qed

lemma at_repropose: "c_spec R (at_round r) (repropose_tip cfg r tip tco) (\<lambda>_ _. True)"
  unfolding repropose_tip_def Let_def
  by (intro at_seq at_get rel_coherency try_update_coherency_keeps_pacemaker)
     (auto intro: p_repropose at_weaken[OF rel_recover])

lemma at_create: "cp_round cp = r \<Longrightarrow> c_spec R (at_round r) (emit_create_proposal cp) (\<lambda>_ _. True)"
  using p_create by blast

lemma at_propose_fresh: "c_spec R (at_round r) (propose_fresh cfg ep r qc fc tco) (\<lambda>_ _. True)"
  unfolding propose_fresh_def
  by (intro at_seq at_get rel_coherency try_update_coherency_keeps_pacemaker)
     (auto intro!: at_skip at_get at_try at_create split: sum.splits)

end

datatype ('s, 'c, 'x) node_event =
    TimeoutExpiry round
  | ProposalMsg node_id "('s, 'c, 'x) proposal_message"
  | VoteMsg node_id "'s vote_message"
  | TimeoutMsg node_id "('s, 'c, 'x) timeout"
  | RoundRecoveryMsg node_id "('s, 'c, 'x) round_recovery_message"
  | NoEndorsementMsg node_id "'s no_endorsement_message"
  | AdvanceRoundMsg node_id "('s, 'c, 'x) advance_round_message"
  | BlockSync block_range "('s, 'c, 'x) consensus_full_block list"
  | VoteTimer round

fun handle_event :: "('s, 'c, 'x, 'p, 'e) node_cfg \<Rightarrow> ('s, 'c, 'x) node_event \<Rightarrow> ('s, 'c, 'x, 'p, unit) handler" where
  "handle_event cfg (TimeoutExpiry r) = handle_timeout_expiry cfg r"
| "handle_event cfg (ProposalMsg n p) = handle_proposal_message cfg n p"
| "handle_event cfg (VoteMsg n v) = handle_vote_message cfg n v"
| "handle_event cfg (TimeoutMsg n t) = handle_timeout_message cfg n t"
| "handle_event cfg (RoundRecoveryMsg n m) = handle_round_recovery_message cfg n m"
| "handle_event cfg (NoEndorsementMsg n m) = handle_no_endorsement_message cfg n m"
| "handle_event cfg (AdvanceRoundMsg n m) = handle_advance_round_message cfg n m"
| "handle_event cfg (BlockSync rng bs) = handle_block_sync cfg rng bs"
| "handle_event cfg (VoteTimer r) = handle_vote_timer cfg r"

context node_effect
begin

lemma rel_try_propose: "c_rel R (try_propose cfg)"
proof -
  have readers: "c_rel keeps_pacemaker (epoch_of r)" "c_rel keeps_pacemaker (leader_in cfg r vals)" for r vals
    unfolding epoch_of_def leader_in_def by (rule pmk.rel_try)+
  show ?thesis
    unfolding try_propose_def
    by (intro from_current_round spec_then[OF at_keep[OF rel_readers(2) readers(1)]] at_try
          spec_then[OF at_keep[OF rel_readers(4) readers(2)]])
       (auto intro!: at_skip at_seq at_get at_repropose at_propose_fresh rel_requests
          request_tip_if_missing_keeps_pacemaker split: high_extend.splits)
qed

lemma rel_process_qc: "c_rel R (process_qc cfg qc)"
  unfolding process_qc_def
  by (intro rel_basic rel_readers rel_requests p_commit p_certificate rel_try_propose) (auto simp: core_eq_def)

lemma rel_process_tc: "c_rel R (process_tc cfg tc)"
  unfolding process_tc_def by (intro rel_basic rel_readers p_certificate rel_try_propose)

lemma rel_timeout_expiry: "c_rel R (handle_timeout_expiry cfg r)"
  unfolding handle_timeout_expiry_def by (intro rel_basic rel_readers p_local_timeout)

lemma rel_try_vote: "c_rel R (try_vote cfg tco tip)"
  unfolding try_vote_def
  by (intro from_current_round) (auto simp: Let_def intro!: at_get at_skip p_vote split: option.splits prod.splits)

lemma rel_add_block: "c_rel R (try_add_and_commit_blocktree cfg b vo)"
proof -
  have "c_rel R (c_update (\<lambda>s. case bt_add (cfg_env cfg) (cfg_iter cfg) (pending_block_tree s) b of
      None \<Rightarrow> None | Some T \<Rightarrow> Some ((), s\<lparr>pending_block_tree := T\<rparr>)))"
    by (auto simp: c_spec_def p_add split: option.splits)
  then show ?thesis
    unfolding try_add_and_commit_blocktree_def
    by (rule rel_seq)
       (intro rel_seq rel_option rel_prod rel_then rel_if rel_skip rel_try rel_readers rel_coherency rel_try_vote rel_try_propose
          rel_requests)
qed

lemma rel_proposal: "c_rel R (handle_proposal_message cfg n p)"
proof -
  have "c_rel R (update_safety (\<lambda>saf. handle_proposal saf r))" for r
    by (auto simp: c_spec_def update_safety_def p_handle split: option.splits)
  then show ?thesis
    unfolding handle_proposal_message_def
    by (intro rel_then rel_seq rel_get rel_skip rel_if rel_option rel_readers rel_process_qc rel_process_tc rel_add_block)
qed

lemma rel_vote_message: "c_rel R (handle_vote_message cfg n v)"
  unfolding handle_vote_message_def
  by (intro rel_basic rel_readers rel_process_qc rel_try_propose) (auto simp: core_eq_def split: option.splits)

lemma rel_timeout_certificate: "c_rel R (handle_timeout_certificate cfg rco)"
  unfolding handle_timeout_certificate_def
  by (intro rel_then rel_readers)
     (auto intro!: rel_seq rel_skip rel_timeout_expiry rel_process_tc rel_process_qc rel_requests
        split: option.splits round_certificate.splits)

lemma rel_timeout_message: "c_rel R (handle_timeout_message cfg n t)"
  unfolding handle_timeout_message_def
  by (intro rel_let rel_then rel_if rel_skip rel_seq rel_try rel_readers rel_process_qc rel_timeout_certificate rel_try_propose
        p_remote_timeout)
     (auto intro: rel_vote_message rel_skip split: high_extend_vote.splits option.splits)

lemma rel_round_recovery: "c_rel R (handle_round_recovery_message cfg n m)"
proof -
  have reader: "c_rel keeps_pacemaker (leader_in cfg r vals)" for r vals unfolding leader_in_def by (rule pmk.rel_try)
  show ?thesis
    unfolding handle_round_recovery_message_def
    by (intro rel_then rel_seq rel_try rel_readers rel_process_tc from_current_round
          spec_then[OF at_keep[OF rel_readers(4) reader]])
       (auto intro!: at_skip at_get p_no_endorse split: high_extend.splits)
qed

lemma rel_no_endorsement: "c_rel R (handle_no_endorsement_message cfg n m)"
  unfolding handle_no_endorsement_message_def
  by (intro rel_basic rel_readers rel_try_propose) (auto simp: core_eq_def split: option.splits)

lemma rel_advance_round: "c_rel R (handle_advance_round_message cfg n m)"
  unfolding handle_advance_round_message_def
  by (auto intro!: rel_process_tc rel_then rel_seq rel_if rel_skip rel_readers rel_process_qc rel_emit
        split: round_certificate.splits)

lemma rel_block_sync: "c_rel R (handle_block_sync cfg rng bs)"
proof -
  have "c_rel R (add_synced_blocks cfg bs)"
    by (induction bs) (auto intro!: rel_skip rel_then rel_get rel_readers rel_seq rel_add_block split: option.splits)
  then show ?thesis
    unfolding handle_block_sync_def by (intro rel_then rel_get rel_if rel_skip rel_seq rel_modify) (auto simp: core_eq_def)
qed

lemma rel_handle_event: "c_rel R (handle_event cfg ev)"
  by (cases ev)
     (auto intro: rel_timeout_expiry rel_proposal rel_vote_message rel_timeout_message rel_round_recovery rel_no_endorsement
        rel_advance_round rel_block_sync p_vote_timer)

end

section \<open>Runs of a node\<close>

text \<open>
  A node starts in \<open>consensus_state_new\<close> and handles events, one after the other: any message from
  any sender in any order, timers and synced blocks.  \<open>node_run cfg root s cmds\<close> says that it started
  with the configuration \<open>cfg\<close> from the root \<open>root\<close>, is in state \<open>s\<close> and has emitted \<open>cmds\<close> so far; a panic
  ends the run.  What the node reads may be different at every event: the clock, the validator
  sets, the answers of the execution backend, the block policy and validator and the parameters of the chain
  are those of the configuration \<open>cfg'\<close> of that event.  Only the environment stays, the encodings, the hash
  and the signature scheme.
\<close>

inductive node_run ::
  "('s, 'c, 'x, 'p, 'e) node_cfg \<Rightarrow> root_info \<Rightarrow> ('s, 'c, 'x, 'p) wrapper_state \<Rightarrow> ('s, 'c, 'x) consensus_command list \<Rightarrow> bool"
  for cfg :: "('s, 'c, 'x, 'p, 'e) node_cfg" and root where
  run_start: "consensus_state_new cfg em policy root rc = Some s \<Longrightarrow> node_run cfg root s []"
| run_event: "node_run cfg root s cmds \<Longrightarrow> cfg_env cfg' = cfg_env cfg \<Longrightarrow>
    handle_event (cfg' :: ('s, 'c, 'x, 'p, 'e) node_cfg) ev s = Some ((), s', cs) \<Longrightarrow> node_run cfg root s' (cmds @ cs)"

context node_effect
begin

lemma effect_start: "R s s []"
  by (rule refl)

lemma effect_event:
  assumes "R s0 s cmds" "handle_event cfg ev s = Some ((), s', cs)"
  shows "R s0 s' (cmds @ cs)"
  using assms(1) c_specD[OF rel_handle_event TrueI assms(2)] trans by blast

end

text \<open>An effect that every handler has, whatever the configuration, is an effect of every run.\<close>

lemma node_run_effect:
  fixes cfg :: "('s, 'c, 'x, 'p, 'e) node_cfg"
  assumes "node_run cfg root s cmds" "\<And>c :: ('s, 'c, 'x, 'p, 'e) node_cfg. cfg_env c = cfg_env cfg \<Longrightarrow> node_effect R c"
  shows "\<exists>em policy rc s0. consensus_state_new cfg em policy root rc = Some s0 \<and> R s0 s cmds"
  using assms(1)
proof (induction rule: node_run.induct)
  case (run_start em policy rc s)
  then show ?case using node_effect.effect_start[OF assms(2)[OF HOL.refl]] by blast
next
  case (run_event s cmds cfg' ev s' cs)
  then show ?case using node_effect.effect_event[OF assms(2)[OF run_event.hyps(2)]] by blast
qed

end
