(* ===== verification/Consensus_Safety.thy ===== *)
theory Consensus_Safety
  imports Handler_Logic
begin

text \<open>
  The consensus state machine refines the safety module.  Whatever messages a node receives, in
  whatever order, its safety module only makes the steps of \<open>safety_run\<close>, and every vote, timeout vote
  and no-endorsement the node sends is an event of that history.  Hence a node whose messages are
  produced by these handlers never votes for two blocks in one round.
\<close>

section \<open>Commands backed by a history\<close>

definition vote_backed :: "('s, 'c, 'x) env \<Rightarrow> ('s, 'c, 'x) safety_event list \<Rightarrow> vote \<Rightarrow> bool" where
  "vote_backed E es v \<longleftrightarrow>
     (\<exists>tip. (vote_round v, tip) \<in> votes_in es \<and> vote_id v = get_id E (tip_block_header tip))"

fun message_backed :: "('s, 'c, 'x) env \<Rightarrow> ('s, 'c, 'x) safety_event list \<Rightarrow> ('s, 'c, 'x) protocol_message \<Rightarrow> bool" where
  "message_backed E es (MsgVote m) = vote_backed E es (vmsg_vote m)"
| "message_backed E es (MsgTimeout t) =
     (case to_high_extend t of
        HevTip tip (Some _) \<Rightarrow> (tm_round (to_tminfo t), tip) \<in> votes_in es
      | _ \<Rightarrow> True)"
| "message_backed E es (MsgNoEndorsement n) = (\<exists>T. SentNoEndorse (ne_round (nem_msg n)) T \<in> set es)"
| "message_backed E es m = True"

fun command_backed :: "('s, 'c, 'x) env \<Rightarrow> ('s, 'c, 'x) safety_event list \<Rightarrow> ('s, 'c, 'x) consensus_command \<Rightarrow> bool" where
  "command_backed E es (Publish t m) = message_backed E es (message_of m)"
| "command_backed E es (PublishToFullNodes ep r m) = message_backed E es (message_of m)"
| "command_backed E es c = True"

definition cur :: "('s, 'c, 'x, 'p) wrapper_state \<Rightarrow> round" where
  "cur s = rc_round (high_certificate s) + 1"

definition node_inv ::
  "('s, 'c, 'x) env \<Rightarrow> ('s, 'c, 'x, 'p) wrapper_state \<Rightarrow> ('s, 'c, 'x) safety_event list \<Rightarrow> bool" where
  "node_inv E s es \<longleftrightarrow>
     safety_run (cs_safety s) es \<and> monotone_history es \<and> (\<forall>ev \<in> set es. event_round ev \<le> cur s) \<and>
     (\<forall>v. scheduled_vote s = Some (VoteReady v) \<longrightarrow> vote_backed E es v)"

definition history_has :: "('s, 'c, 'x) env \<Rightarrow> vote option \<Rightarrow> ('s, 'c, 'x) safety_event list \<Rightarrow> bool" where
  "history_has E vo es \<longleftrightarrow> (\<forall>v. vo = Some v \<longrightarrow> vote_backed E es v)"

definition saf_eff ::
  "('s, 'c, 'x) env \<Rightarrow> vote option \<Rightarrow> ('s, 'c, 'x, 'p) wrapper_state \<Rightarrow> ('s, 'c, 'x, 'p) wrapper_state
     \<Rightarrow> ('s, 'c, 'x) consensus_command list \<Rightarrow> bool" where
  "saf_eff E vo s s' cs \<longleftrightarrow>
     (\<forall>es. node_inv E s es \<longrightarrow> history_has E vo es \<longrightarrow>
        (\<exists>new. node_inv E s' (new @ es) \<and> (\<forall>c \<in> set cs. command_backed E (new @ es) c)))"

lemma vote_backed_extend: "vote_backed E es v \<Longrightarrow> vote_backed E (new @ es) v"
  by (auto simp: vote_backed_def)

lemma message_backed_extend: "message_backed E es m \<Longrightarrow> message_backed E (new @ es) m"
  by (cases m) (auto simp: vote_backed_extend split: high_extend_vote.splits option.splits)

lemma command_backed_extend: "command_backed E es c \<Longrightarrow> command_backed E (new @ es) c"
  by (cases c) (auto simp: message_backed_extend)

lemma history_has_extend: "history_has E vo es \<Longrightarrow> history_has E vo (new @ es)"
  by (auto simp: history_has_def vote_backed_extend)

lemma quiet_backed: "quiet c \<Longrightarrow> command_backed E es c"
proof -
  have q: "quiet_message m \<Longrightarrow> message_backed E es m" for m by (cases m) auto
  show "quiet c \<Longrightarrow> command_backed E es c" by (cases c) (auto simp: q)
qed

interpretation saf: effect "saf_eff E vo" for E vo
proof
  show "saf_eff E vo s s []" for s by (auto simp: saf_eff_def intro!: exI[of _ "[]"])
next
  fix s s' s'' cs ds assume a: "saf_eff E vo s s' cs" "saf_eff E vo s' s'' ds"
  show "saf_eff E vo s s'' (cs @ ds)"
    unfolding saf_eff_def
  proof (intro allI impI)
    fix es assume es: "node_inv E s es" "history_has E vo es"
    obtain n1 where n1: "node_inv E s' (n1 @ es)" "\<forall>c \<in> set cs. command_backed E (n1 @ es) c"
      using a(1) es unfolding saf_eff_def by blast
    obtain n2 where n2: "node_inv E s'' (n2 @ n1 @ es)" "\<forall>c \<in> set ds. command_backed E (n2 @ n1 @ es) c"
      using a(2) n1(1) history_has_extend[OF es(2), of n1] unfolding saf_eff_def by blast
    show "\<exists>new. node_inv E s'' (new @ es) \<and> (\<forall>c \<in> set (cs @ ds). command_backed E (new @ es) c)"
      using n1(2) n2 by (intro exI[of _ "n2 @ n1"]) (auto intro: command_backed_extend)
  qed
qed

section \<open>The steps\<close>

lemma saf_eff_same:
  assumes "cs_safety s' = cs_safety s" "scheduled_vote s' = scheduled_vote s \<or> scheduled_vote s' \<in> {None, Some TimerFired}"
    and "cs_pacemaker s' = cs_pacemaker s" "\<forall>c \<in> set cs. \<forall>es. command_backed E es c"
  shows "saf_eff E vo s s' cs"
  using assms unfolding saf_eff_def node_inv_def cur_def high_certificate_def by (auto intro!: exI[of _ "[]"])

lemma saf_eff_event:
  assumes "cs_safety s' = saf" "cs_pacemaker s' = cs_pacemaker s" "scheduled_vote s' = scheduled_vote s" "at_round r s"
    and "\<And>es. safety_run (cs_safety s) es \<Longrightarrow> safety_run saf (ev # es)" "event_round ev = r"
    and "\<And>es. \<forall>c \<in> set cs. command_backed E (ev # es) c"
  shows "saf_eff E vo s s' cs"
  unfolding saf_eff_def
proof (intro allI impI)
  fix es assume i: "node_inv E s es"
  have r: "cur s = r" "cur s' = r" using assms(2,4) by (auto simp: at_round_def cur_def high_certificate_def)
  have "monotone_history (ev # es)" using i assms(6) r by (auto simp: node_inv_def monotone_history_Cons)
  then have "node_inv E s' ([ev] @ es)"
    using i assms(1,3,5,6) r vote_backed_extend[of E es _ "[ev]"] by (auto simp: node_inv_def)
  then show "\<exists>new. node_inv E s' (new @ es) \<and> (\<forall>c \<in> set cs. command_backed E (new @ es) c)"
    using assms(7)[of es] by (intro exI[of _ "[ev]"]) simp
qed

lemma saf_eff_silent:
  assumes "\<And>es. safety_run (cs_safety s) es \<Longrightarrow> safety_run saf es" "\<forall>c \<in> set cs. \<forall>es. command_backed E es c"
    and "cs_safety s' = saf" "scheduled_vote s' = scheduled_vote s" "cur s \<le> cur s'"
  shows "saf_eff E vo s s' cs"
  using assms unfolding saf_eff_def node_inv_def by (fastforce intro!: exI[of _ "[]"])

section \<open>The pacemaker\<close>

fun pm_command_backed :: "('s, 'c, 'x) safety_event list \<Rightarrow> ('s, 'c, 'x) pacemaker_command \<Rightarrow> bool" where
  "pm_command_backed es (PcPrepareTimeout info he safe rc) =
     (\<forall>tip. he = HeTip tip \<longrightarrow> safe \<longrightarrow> (tm_round info, tip) \<in> votes_in es)"
| "pm_command_backed es c = True"

definition history_at :: "('s, 'c, 'x) pacemaker \<Rightarrow> ('s, 'c, 'x) safety \<Rightarrow> ('s, 'c, 'x) safety_event list \<Rightarrow> bool" where
  "history_at pm saf es \<longleftrightarrow> safety_run saf es \<and> monotone_history es \<and>
     (\<forall>ev \<in> set es. event_round ev \<le> rc_round (pm_high_certificate pm) + 1)"

definition pm_steps ::
  "('s, 'c, 'x) pacemaker \<Rightarrow> ('s, 'c, 'x) safety \<Rightarrow> ('s, 'c, 'x) pacemaker \<Rightarrow> ('s, 'c, 'x) safety
     \<Rightarrow> ('s, 'c, 'x) pacemaker_command list \<Rightarrow> bool" where
  "pm_steps pm saf pm' saf' cs \<longleftrightarrow>
     (\<forall>es. history_at pm saf es \<longrightarrow>
        (\<exists>new. history_at pm' saf' (new @ es) \<and> (\<forall>c \<in> set cs. pm_command_backed (new @ es) c)))"

lemma pm_command_backed_extend: "pm_command_backed es c \<Longrightarrow> pm_command_backed (new @ es) c"
  by (cases c) auto

lemma pm_steps_refl: "pm_steps pm saf pm saf []"
  by (auto simp: pm_steps_def intro!: exI[of _ "[]"])

lemma pm_steps_trans:
  assumes "pm_steps pm saf pm1 saf1 cs" "pm_steps pm1 saf1 pm2 saf2 ds"
  shows "pm_steps pm saf pm2 saf2 (cs @ ds)"
  unfolding pm_steps_def
proof (intro allI impI)
  fix es assume es: "history_at pm saf es"
  obtain n1 where n1: "history_at pm1 saf1 (n1 @ es)" "\<forall>c \<in> set cs. pm_command_backed (n1 @ es) c"
    using assms(1) es unfolding pm_steps_def by blast
  obtain n2 where n2: "history_at pm2 saf2 (n2 @ n1 @ es)" "\<forall>c \<in> set ds. pm_command_backed (n2 @ n1 @ es) c"
    using assms(2) n1(1) unfolding pm_steps_def by blast
  show "\<exists>new. history_at pm2 saf2 (new @ es) \<and> (\<forall>c \<in> set (cs @ ds). pm_command_backed (new @ es) c)"
    using n1(2) n2 by (intro exI[of _ "n2 @ n1"]) (auto intro: pm_command_backed_extend)
qed

lemma pm_steps_same:
  "pm_high_certificate pm' = pm_high_certificate pm \<Longrightarrow> pm_steps pm saf pm' saf []"
  by (auto simp: pm_steps_def history_at_def intro!: exI[of _ "[]"])

lemma pm_process_certificate_steps:
  assumes "pm_process_certificate pm em saf rc = Some (pm', saf', cs)"
  shows "pm_steps pm saf pm' saf' cs"
proof (cases "rc_round rc \<le> rc_round (pm_high_certificate pm)")
  case True
  then show ?thesis using assms pm_steps_refl by (auto simp: pm_process_certificate_def)
next
  case False
  then obtain r ep d where eqs: "saf' = safety_process_certificate saf rc" "pm_high_certificate pm' = rc"
    "cs = [PcEnterRound ep r rc, PcSchedule r d]"
    using assms by (auto simp: pm_process_certificate_def bind_eq_Some_conv Let_def)
  show ?thesis
    unfolding pm_steps_def history_at_def eqs
    using False run_certificate[of saf] by (fastforce intro!: exI[of _ "[]"])
qed

lemma local_timeout_steps:
  assumes "local_timeout_round pm saf = Some (saf', cs)" "pm_high_certificate pm' = pm_high_certificate pm"
  shows "pm_steps pm saf pm' saf' cs"
proof -
  let ?r = "rc_round (pm_high_certificate pm) + 1"
  obtain b info he rc d where s: "safety_timeout saf ?r = Some (saf', b)" "cs = [PcScheduleReset, PcPrepareTimeout info he b rc, PcSchedule ?r d]"
    and info: "tm_round info = ?r" "\<And>tip. he = HeTip tip \<Longrightarrow> maybe_high_tip saf' = Some tip"
    using assms(1) by (auto simp: local_timeout_round_def bind_eq_Some_conv Let_def split: option.splits high_extend.splits prod.splits)
  have ev: "event_round ev = ?r" if "ev \<in> set (timeout_events ?r saf' b)" for ev
    using that by (auto simp: timeout_events_mem)
  have "monotone_history (timeout_events ?r saf' b @ es)" if "history_at pm saf es" for es
    using that by (auto simp: history_at_def timeout_events_def monotone_history_Cons split: option.splits)
  moreover have "safety_run saf' (timeout_events ?r saf' b @ es)" if "history_at pm saf es" for es
    using that run_timeout[OF _ s(1)] by (simp add: history_at_def)
  ultimately have "history_at pm' saf' (timeout_events ?r saf' b @ es)" if "history_at pm saf es" for es
    using that ev assms(2) by (auto simp: history_at_def)
  moreover have "\<forall>c \<in> set cs. pm_command_backed (timeout_events ?r saf' b @ es) c" for es
    using info by (auto simp: s(2))
  ultimately show ?thesis unfolding pm_steps_def by blast
qed

interpretation pmh: pm_effect pm_steps
proof (unfold_locales, goal_cases)
  case (1 pm saf)
  then show ?case by (rule pm_steps_refl)
next
  case (2 pm saf pm1 saf1 cs pm2 saf2 ds)
  then show ?case by (rule pm_steps_trans)
next
  case (3 pm' pm saf)
  then show ?case by (rule pm_steps_same)
next
  case (4 pm em saf rc pm' saf' cs)
  then show ?case by (rule pm_process_certificate_steps)
next
  case (5 pm saf saf' cs pm')
  then show ?case by (rule local_timeout_steps)
qed

lemma timeout_new_backed:
  assumes "pm_command_backed es (PcPrepareTimeout info he safe rc)"
  shows "message_backed E es (MsgTimeout (timeout_new E' kp info he safe rc))"
  using assms by (cases he) (auto simp: timeout_new_def Let_def split: if_splits)

lemma from_pacemaker_backed:
  assumes "pm_command_backed es pc" "c \<in> set (from_pacemaker_command cfg pc)"
  shows "command_backed E es c"
  using assms timeout_new_backed by (cases pc) (auto simp del: message_backed.simps(2))

lemma run_pacemaker_saf:
  assumes f: "\<And>s pm saf cs. f s = Some (pm, saf, cs) \<Longrightarrow> pm_steps (cs_pacemaker s) (cs_safety s) pm saf cs"
  shows "c_rel (saf_eff E vo) (run_pacemaker cfg f)"
proof -
  have step: "saf_eff E vo s (s\<lparr>cs_pacemaker := pm, cs_safety := saf\<rparr>) (concat (map (from_pacemaker_command cfg) cs))"
    if a: "f s = Some (pm, saf, cs)" for s pm saf cs
    unfolding saf_eff_def
  proof (intro allI impI)
    fix es assume i: "node_inv E s es"
    then have "history_at (cs_pacemaker s) (cs_safety s) es"
      by (simp add: node_inv_def history_at_def cur_def high_certificate_def)
    then obtain new where new: "history_at pm saf (new @ es)" "\<forall>c \<in> set cs. pm_command_backed (new @ es) c"
      using f[OF a] unfolding pm_steps_def by blast
    have "node_inv E (s\<lparr>cs_pacemaker := pm, cs_safety := saf\<rparr>) (new @ es)"
      using new(1) i by (simp add: node_inv_def history_at_def cur_def high_certificate_def vote_backed_extend)
    moreover have "\<forall>c \<in> set (concat (map (from_pacemaker_command cfg) cs)). command_backed E (new @ es) c"
      using new(2) from_pacemaker_backed by fastforce
    ultimately show "\<exists>new. node_inv E (s\<lparr>cs_pacemaker := pm, cs_safety := saf\<rparr>) (new @ es) \<and>
      (\<forall>c \<in> set (concat (map (from_pacemaker_command cfg) cs)). command_backed E (new @ es) c)" by blast
  qed
  then show ?thesis
    by (auto simp: c_spec_def run_pacemaker_def c_then_Some split: option.splits)
qed

section \<open>Voting\<close>

lemma saf_eff_vote:
  assumes "safety_vote (cs_safety s) r tct tip = Some saf" "at_round r s"
    and v: "vote_round v = r" "vote_id v = get_id E (tip_block_header tip)"
    and rest: "saf_eff E (Some v) (s\<lparr>cs_safety := saf\<rparr>) s' cs"
  shows "saf_eff E None s s' cs"
  unfolding saf_eff_def
proof (intro allI impI)
  fix es assume i: "node_inv E s es"
  let ?es = "SentVote r tct tip # es"
  have r: "cur s = r" using assms(2) by (auto simp: at_round_def cur_def high_certificate_def)
  have "cur (s\<lparr>cs_safety := saf\<rparr>) = r" using r by (simp add: cur_def high_certificate_def)
  moreover have "monotone_history ?es" using i r by (auto simp: node_inv_def monotone_history_Cons)
  ultimately have "node_inv E (s\<lparr>cs_safety := saf\<rparr>) ?es"
    using i r run_vote[OF _ assms(1)] vote_backed_extend[of E es _ "[SentVote r tct tip]"] by (auto simp: node_inv_def)
  moreover have "history_has E (Some v) ?es" using v by (auto simp: history_has_def vote_backed_def votes_in_def)
  ultimately obtain new where "node_inv E s' (new @ ?es)" "\<forall>c \<in> set cs. command_backed E (new @ ?es) c"
    using rest unfolding saf_eff_def by blast
  then show "\<exists>new. node_inv E s' (new @ es) \<and> (\<forall>c \<in> set cs. command_backed E (new @ es) c)"
    by (intro exI[of _ "new @ [SentVote r tct tip]"]) simp
qed

lemma saf_eff_ready:
  assumes "scheduled_vote s = Some (VoteReady v)" "saf_eff E (Some v) s s' cs"
  shows "saf_eff E None s s' cs"
  using assms unfolding saf_eff_def history_has_def node_inv_def by auto

lemma saf_emit_vote:
  "message_of m = MsgVote vm \<Longrightarrow> vmsg_vote vm = v \<Longrightarrow> c_rel (saf_eff E (Some v)) (c_emit [Publish t m])"
  by (auto simp: c_spec_def saf_eff_def history_has_def intro!: exI[of _ "[]"])

lemma saf_quiet: "\<forall>c \<in> set cs. quiet c \<Longrightarrow> c_rel (saf_eff E vo) (c_emit cs)"
  by (auto simp: c_spec_def intro!: saf_eff_same quiet_backed)

lemma saf_modify:
  fixes f :: "('s, 'c, 'x, 'p) wrapper_state \<Rightarrow> ('s, 'c, 'x, 'p) wrapper_state"
  assumes "\<And>s. cs_safety (f s) = cs_safety s \<and> cs_pacemaker (f s) = cs_pacemaker s \<and>
    (scheduled_vote (f s) = scheduled_vote s \<or> scheduled_vote (f s) \<in> {None, Some TimerFired})"
  shows "c_rel (saf_eff E vo) (c_modify f)"
  unfolding c_spec_def c_step_Some
proof (intro allI impI)
  fix s s' :: "('s, 'c, 'x, 'p) wrapper_state" and a :: unit and cs :: "('s, 'c, 'x) consensus_command list"
  assume "s' = f s \<and> cs = []"
  then show "saf_eff E vo s s' cs \<and> True" using assms[of s] saf_eff_same[of s' s cs] by simp
qed

lemma saf_update:
  assumes "\<And>s a s'. f s = Some (a, s') \<Longrightarrow> cs_safety s' = cs_safety s \<and> cs_pacemaker s' = cs_pacemaker s \<and>
    scheduled_vote s' = scheduled_vote s"
  shows "c_rel (saf_eff E vo) (c_update f)"
  using assms by (auto simp: c_spec_def intro!: saf_eff_same)

lemma saf_hold_vote: "c_rel (saf_eff E (Some v)) (c_modify (\<lambda>s. s\<lparr>scheduled_vote := Some (VoteReady v)\<rparr>))"
  by (auto simp: c_spec_def saf_eff_def history_has_def node_inv_def cur_def high_certificate_def intro!: exI[of _ "[]"])

lemmas saf_rules =
  saf.rel_then saf.rel_seq saf.rel_return saf.rel_skip saf.rel_get saf.rel_try saf.rel_if saf.rel_option saf.rel_prod
  saf.rel_let saf.rel_each saf_quiet saf_modify

lemma vmsg_vote_new [simp]: "vmsg_vote (vote_message_new E v kp) = v"
  by (simp add: vote_message_new_def Let_def)

lemma send_vote_saf: "c_rel (saf_eff E (Some v)) (send_vote_and_reset_timer cfg v)"
proof -
  have leader: "c_rel (saf_eff E (Some v)) (leader_of cfg r)" for r
    unfolding leader_of_def validators_of_def leader_in_def epoch_of_def by (intro saf.rel_then saf.rel_try)
  have emit: "c_rel (saf_eff E (Some v)) (c_emit [Publish t (signed cfg (MsgVote (vote_message_new (cfg_env cfg) v (cfg_cert_keypair cfg))))])" for t
    by (rule saf_emit_vote[OF message_of_signed]) simp
  show ?thesis
    unfolding send_vote_and_reset_timer_def Let_def
    by (intro saf.rel_then saf.rel_seq saf.rel_try saf.rel_if saf.rel_skip leader emit saf_quiet saf_modify) simp_all
qed

lemma schedule_or_send_saf: "c_rel (saf_eff E (Some v)) (schedule_or_send cfg v p r)"
  unfolding schedule_or_send_def Let_def
  by (auto intro!: saf_rules send_vote_saf saf_hold_vote split: option.splits outgoing_vote_status.splits)

lemma cast_vote_saf: "c_spec (saf_eff (cfg_env cfg) None) (at_round r) (cast_vote cfg r tct tip p) (\<lambda>_ _. True)"
proof -
  let ?v = "\<lambda>ep. \<lparr>vote_id = get_id (cfg_env cfg) (tip_block_header tip), vote_round = r, vote_epoch = ep\<rparr>"
  have rest: "c_rel (saf_eff (cfg_env cfg) (Some (?v ep))) (c_seq (maybe_record_vote_delay_metrics cfg r p) (schedule_or_send cfg (?v ep) p r))" for ep
    unfolding maybe_record_vote_delay_metrics_def
    by (intro saf_rules saf_update schedule_or_send_saf) (auto split: option.splits)
  have "saf_eff (cfg_env cfg) None s s' cs" if at: "at_round r s" and run: "cast_vote cfg r tct tip p s = Some (u, s', cs)" for s u s' cs
  proof -
    obtain saf where saf: "safety_vote (cs_safety s) r tct tip = Some saf"
      "c_seq (maybe_record_vote_delay_metrics cfg r p) (schedule_or_send cfg (?v (pm_current_epoch (cs_pacemaker s))) p r)
         (s\<lparr>cs_safety := saf\<rparr>) = Some ((), s', cs)"
      using run by (auto simp: cast_vote_def update_safety_def c_then_Some c_seq_Some[of "c_update _"] split: option.splits)
    show ?thesis
      by (rule saf_eff_vote[OF saf(1) at _ _ c_specD[OF rest TrueI saf(2), THEN conjunct1]]) simp_all
  qed
  then show ?thesis by (auto simp: c_spec_def)
qed

lemma cur_simps [simp]:
  "cur (s\<lparr>cs_safety := saf\<rparr>) = cur s" "cur (s\<lparr>pending_block_tree := T\<rparr>) = cur s"
  by (simp_all add: cur_def high_certificate_def)

lemma vote_timer_saf: "c_rel (saf_eff E None) (handle_vote_timer cfg r)"
proof -
  have fired: "c_rel (saf_eff E None) (c_modify (\<lambda>s. s\<lparr>scheduled_vote := Some TimerFired\<rparr>))" by (rule saf_modify) simp
  have "saf_eff E None s s' cs" if run: "handle_vote_timer cfg r s = Some (u, s', cs)" for s u s' cs
  proof (cases "\<exists>v. scheduled_vote s = Some (VoteReady v)")
    case True
    then obtain v where v: "scheduled_vote s = Some (VoteReady v)" by blast
    have "send_vote_and_reset_timer cfg v s = Some (u, s', cs)"
      using run v by (simp add: handle_vote_timer_def c_then_Some)
    from saf_eff_ready[OF v c_specD[OF send_vote_saf TrueI this, THEN conjunct1]] show ?thesis .
  next
    case False
    then have "c_modify (\<lambda>s. s\<lparr>scheduled_vote := Some TimerFired\<rparr>) s = Some (u, s', cs)"
      using run by (auto simp: handle_vote_timer_def c_then_Some split: option.splits outgoing_vote_status.splits)
    then show ?thesis using c_specD[OF fired TrueI] by blast
  qed
  then show ?thesis by (auto simp: c_spec_def)
qed

lemma commit_saf: "c_rel (saf_eff E vo) (try_commit cfg qc)"
proof -
  have prune: "c_rel (saf_eff E vo) (c_update (\<lambda>s. case prune (cfg_env cfg) (cfg_iter cfg) (pending_block_tree s) k of
      None \<Rightarrow> None | Some (tree, blocks) \<Rightarrow> Some (blocks, s\<lparr>pending_block_tree := tree\<rparr>)))" for k
    by (auto simp: c_spec_def intro!: saf_eff_same split: option.splits)
  have epoch: "c_rel (saf_eff E vo) (c_update (\<lambda>s. case schedule_epoch_start (ws_epoch_manager s) n r of
      None \<Rightarrow> None | Some em \<Rightarrow> Some ((), s\<lparr>ws_epoch_manager := em\<rparr>)))" for n r
    by (auto simp: c_spec_def intro!: saf_eff_same split: option.splits)
  have emit: "c_rel (saf_eff E vo) (c_emit [CommitBlocks (Finalized b)])" for b
    by (auto simp: c_spec_def intro!: saf_eff_same)
  show ?thesis
    unfolding try_commit_def commit_block_def
    by (intro saf.rel_then saf.rel_seq saf.rel_get saf.rel_try saf.rel_option saf.rel_if saf.rel_skip saf.rel_each
          prune epoch emit saf_modify) simp
qed

lemma no_endorse_saf: "c_spec (saf_eff (cfg_env cfg) None) (at_round r) (publish_no_endorsement cfg n ep r tip) (\<lambda>_ _. True)"
proof -
  have m: "nem_msg (no_endorsement_message_new E ne kp) = ne" for E ne kp
    by (simp add: no_endorsement_message_new_def Let_def)
  show ?thesis
    unfolding c_spec_def publish_no_endorsement_def update_safety_def
    by (auto simp: c_seq_Some m split: option.splits
        intro!: saf_eff_event[where r = r and ev = "SentNoEndorse r (get_id (cfg_env cfg) (tip_block_header tip))"] run_no_endorse)
qed

lemma propose_saf:
  assumes "safety_propose (cs_safety s) r = Some saf" "\<forall>c \<in> set cs. \<forall>es. command_backed E es c"
  shows "saf_eff E vo s (s\<lparr>cs_safety := saf\<rparr>) cs"
  by (rule saf_eff_silent) (use assms run_propose[OF _ assms(1)] in simp_all)

lemma create_saf: "c_rel (saf_eff E vo) (emit_create_proposal cp)"
  unfolding c_spec_def emit_create_proposal_def update_safety_def
  by (auto simp: c_seq_Some split: option.splits intro!: propose_saf)

lemma repropose_saf: "c_rel (saf_eff E vo) (publish_reproposal cfg r tip tco)"
  unfolding c_spec_def publish_reproposal_def update_safety_def
  by (auto simp: c_seq_Some c_then_Some current_round_def split: option.splits intro!: propose_saf)

interpretation handlers_refine: node_effect "saf_eff (cfg_env cfg) None" cfg for cfg
proof (unfold_locales, goal_cases)
  case (1 s s')
  then show ?case by (auto simp: core_eq_def intro!: saf_eff_same)
next
  case (2 cs s)
  then show ?case by (auto intro!: saf_eff_same quiet_backed)
next
  case (3 s b T)
  then show ?case by (auto intro!: saf_eff_same)
next
  case (4 pol s k T bs)
  then show ?case by (auto intro!: saf_eff_same)
next
  case (5 qc)
  then show ?case by (rule commit_saf)
next
  case (6 s r saf)
  show ?case by (rule saf_eff_silent) (use run_recovery[OF _ 6] in simp_all)
next
  case (7 s r saf)
  show ?case by (rule saf_eff_silent) (use run_handle[OF _ 7] in simp_all)
next
  case (8 r tc_tip tip q)
  then show ?case by (rule cast_vote_saf)
next
  case (9 r)
  then show ?case by (rule vote_timer_saf)
next
  case (10 r n ep tip)
  then show ?case by (rule no_endorse_saf)
next
  case (11 cp)
  then show ?case by (rule c_rel_pre[OF create_saf])
next
  case (12 r tip tco)
  then show ?case by (rule c_rel_pre[OF repropose_saf])
next
  case (13 rc)
  then show ?case by (rule run_pacemaker_saf) (rule pm_process_certificate_steps)
next
  case 14
  then show ?case by (rule run_pacemaker_saf) (rule pmh.process_local_timeout_effect)
next
  case (15 vals vmap n t)
  then show ?case by (rule run_pacemaker_saf) (rule pmh.process_remote_timeout_effect)
qed

lemma node_inv_start: "consensus_state_new cfg em policy root rc = Some s \<Longrightarrow> node_inv E s []"
  by (auto simp: consensus_state_new_def bind_eq_Some_conv node_inv_def monotone_history_def intro: run_new)

end
