(* ===== verification/Consensus_Progress.thy ===== *)
theory Consensus_Progress
  imports Handler_Logic
begin

text \<open>
  What the handlers keep over time, whatever messages arrive: the round of a node never
  decreases and every \<^verbatim>\<open>EnterRound\<close> announces a higher one; a node proposes at most once in a round; and
  the blocks a node finalises form one chain, each the child of the one before.
\<close>

section \<open>Rounds and proposals\<close>

fun entered :: "('s, 'c, 'x) consensus_command \<Rightarrow> round option" where
  "entered (EnterRound ep r) = Some r"
| "entered c = None"

fun proposed :: "('s, 'c, 'x) consensus_command \<Rightarrow> round option" where
  "proposed (CreateProposal cp) = Some (cp_round cp)"
| "proposed (Publish t m) = (case message_of m of MsgProposal p \<Rightarrow> Some (proposal_round p) | _ \<Rightarrow> None)"
| "proposed c = None"

text \<open>\<open>climbs lo hi xs\<close>: the rounds \<open>xs\<close> are strictly increasing, above \<open>lo\<close> and at most \<open>hi\<close>.\<close>

definition climbs :: "nat \<Rightarrow> nat \<Rightarrow> nat list \<Rightarrow> bool" where
  "climbs lo hi xs \<longleftrightarrow> lo \<le> hi \<and> sorted_wrt (<) xs \<and> (\<forall>x \<in> set xs. lo < x \<and> x \<le> hi)"

lemma climbs_Nil [simp]: "climbs lo hi [] \<longleftrightarrow> lo \<le> hi"
  by (simp add: climbs_def)

lemma climbs_single [simp]: "climbs lo hi [x] \<longleftrightarrow> lo < x \<and> x \<le> hi"
  by (auto simp: climbs_def)

lemma climbs_append: "climbs lo mid xs \<Longrightarrow> climbs mid hi ys \<Longrightarrow> climbs lo hi (xs @ ys)"
  unfolding climbs_def sorted_wrt_append by (auto intro: le_less_trans less_le_trans order_trans)

definition progress_eff ::
  "('s, 'c, 'x, 'p) wrapper_state \<Rightarrow> ('s, 'c, 'x, 'p) wrapper_state \<Rightarrow> ('s, 'c, 'x) consensus_command list \<Rightarrow> bool" where
  "progress_eff s s' cs \<longleftrightarrow>
     climbs (rc_round (high_certificate s) + 1) (rc_round (high_certificate s') + 1) (List.map_filter entered cs) \<and>
     climbs (highest_propose (cs_safety s)) (highest_propose (cs_safety s')) (List.map_filter proposed cs)"

lemma map_filter_append: "List.map_filter f (xs @ ys) = List.map_filter f xs @ List.map_filter f ys"
  by (simp add: List.map_filter_def)

interpretation prg: effect progress_eff
  by unfold_locales (auto simp: progress_eff_def map_filter_append intro: climbs_append simp: List.map_filter_def)

definition pm_progress ::
  "('s, 'c, 'x) pacemaker \<Rightarrow> ('s, 'c, 'x) safety \<Rightarrow> ('s, 'c, 'x) pacemaker \<Rightarrow> ('s, 'c, 'x) safety
     \<Rightarrow> ('s, 'c, 'x) pacemaker_command list \<Rightarrow> bool" where
  "pm_progress pm saf pm' saf' cs \<longleftrightarrow>
     highest_propose saf' = highest_propose saf \<and>
     climbs (rc_round (pm_high_certificate pm) + 1) (rc_round (pm_high_certificate pm') + 1)
       (List.map_filter (\<lambda>c. case c of PcEnterRound ep r rc \<Rightarrow> Some r | _ \<Rightarrow> None) cs)"

lemma certificate_progress:
  assumes "pm_process_certificate pm em saf rc = Some (pm', saf', cs)"
  shows "pm_progress pm saf pm' saf' cs"
proof (cases "rc_round rc \<le> rc_round (pm_high_certificate pm)")
  case True
  then show ?thesis using assms by (auto simp: pm_process_certificate_def pm_progress_def List.map_filter_def)
next
  case False
  then obtain ep d where "saf' = safety_process_certificate saf rc" "pm_high_certificate pm' = rc"
    "cs = [PcEnterRound ep (rc_round rc + 1) rc, PcSchedule (rc_round rc + 1) d]"
    using assms by (auto simp: pm_process_certificate_def bind_eq_Some_conv Let_def)
  then show ?thesis using False by (simp add: pm_progress_def List.map_filter_def)
qed

lemma timeout_progress:
  assumes "local_timeout_round pm saf = Some (saf', cs)" "pm_high_certificate pm' = pm_high_certificate pm"
  shows "pm_progress pm saf pm' saf' cs"
  using assms
  by (auto simp: local_timeout_round_def bind_eq_Some_conv Let_def pm_progress_def List.map_filter_def safety_timeout_Some
      split: option.splits high_extend.splits)

interpretation pmp: pm_effect pm_progress
proof (unfold_locales, goal_cases)
  case (4 pm em saf rc pm' saf' cs)
  then show ?case by (rule certificate_progress)
next
  case (5 pm saf saf' cs pm')
  then show ?case by (rule timeout_progress)
qed (auto simp: pm_progress_def map_filter_append intro: climbs_append simp: List.map_filter_def)

lemma from_pacemaker_rounds:
  "List.map_filter entered (concat (map (from_pacemaker_command cfg) cs)) =
     List.map_filter (\<lambda>c. case c of PcEnterRound ep r rc \<Rightarrow> Some r | _ \<Rightarrow> None) cs"
  "List.map_filter proposed (concat (map (from_pacemaker_command cfg) cs)) = []"
proof -
  show "List.map_filter entered (concat (map (from_pacemaker_command cfg) cs)) =
     List.map_filter (\<lambda>c. case c of PcEnterRound ep r rc \<Rightarrow> Some r | _ \<Rightarrow> None) cs"
  proof (induction cs)
    case (Cons c cs)
    then show ?case by (cases c) (simp_all add: List.map_filter_def)
  qed simp
  show "List.map_filter proposed (concat (map (from_pacemaker_command cfg) cs)) = []"
  proof (induction cs)
    case (Cons c cs)
    then show ?case by (cases c) (simp_all add: List.map_filter_def)
  qed (simp add: List.map_filter_def)
qed

lemma run_pacemaker_progress:
  assumes "\<And>s pm saf cs. f s = Some (pm, saf, cs) \<Longrightarrow> pm_progress (cs_pacemaker s) (cs_safety s) pm saf cs"
  shows "c_rel progress_eff (run_pacemaker cfg f)"
  using assms
  by (fastforce simp: c_spec_def run_pacemaker_def c_then_Some progress_eff_def pm_progress_def from_pacemaker_rounds high_certificate_def
      split: option.splits)

lemma progress_same:
  assumes "cs_pacemaker s' = cs_pacemaker s" "highest_propose (cs_safety s') = highest_propose (cs_safety s)"
    "\<forall>c \<in> set cs. entered c = None \<and> proposed c = None"
  shows "progress_eff s s' cs"
proof -
  have "List.map_filter entered cs = []" "List.map_filter proposed cs = []"
    using assms(3) by (induction cs) (auto simp: List.map_filter_def)
  then show ?thesis using assms by (simp add: progress_eff_def high_certificate_def)
qed

lemma quiet_progress: "quiet c \<Longrightarrow> entered c = None \<and> proposed c = None"
proof -
  have "quiet_message m \<Longrightarrow> (case m of MsgProposal p \<Rightarrow> Some (proposal_round p) | _ \<Rightarrow> None) = None" for m
    by (cases m) auto
  then show "quiet c \<Longrightarrow> entered c = None \<and> proposed c = None" by (cases c) auto
qed

lemma prg_modify:
  "(\<And>s. cs_pacemaker (f s) = cs_pacemaker s \<and> highest_propose (cs_safety (f s)) = highest_propose (cs_safety s)) \<Longrightarrow>
     c_rel progress_eff (c_modify f)"
  by (simp add: c_spec_def progress_same)

lemma prg_update:
  "(\<And>s a s'. f s = Some (a, s') \<Longrightarrow> cs_pacemaker s' = cs_pacemaker s \<and> highest_propose (cs_safety s') = highest_propose (cs_safety s)) \<Longrightarrow>
     c_rel progress_eff (c_update f)"
  by (auto simp: c_spec_def intro!: progress_same)

lemma prg_emit: "\<forall>c \<in> set cs. entered c = None \<and> proposed c = None \<Longrightarrow> c_rel progress_eff (c_emit cs)"
  by (simp add: c_spec_def progress_same)

lemmas prg_rules =
  prg.rel_then prg.rel_seq prg.rel_return prg.rel_skip prg.rel_get prg.rel_try prg.rel_if prg.rel_option prg.rel_prod
  prg.rel_let prg.rel_each prg_modify prg_update prg_emit

lemma commit_progress: "c_rel progress_eff (try_commit cfg qc)"
  unfolding try_commit_def commit_block_def by (intro prg_rules) (auto split: option.splits)

lemma send_vote_progress: "c_rel progress_eff (send_vote_and_reset_timer cfg v)"
proof -
  have leader: "c_rel progress_eff (leader_of cfg r)" for r
    unfolding leader_of_def validators_of_def leader_in_def epoch_of_def by (intro prg.rel_then prg.rel_try)
  show ?thesis
    unfolding send_vote_and_reset_timer_def Let_def
    by (intro prg.rel_then prg.rel_seq prg.rel_try prg.rel_if prg.rel_skip leader prg_emit prg_modify) simp_all
qed

lemma cast_vote_progress: "c_rel progress_eff (cast_vote cfg r tct tip p)"
proof -
  have vote: "c_rel progress_eff (update_safety (\<lambda>saf. safety_vote saf r tct tip))"
    unfolding update_safety_def by (intro prg_update) (auto simp: safety_vote_Some split: option.splits)
  show ?thesis
    unfolding cast_vote_def schedule_or_send_def maybe_record_vote_delay_metrics_def Let_def
    by (auto intro!: prg_rules vote send_vote_progress split: option.splits outgoing_vote_status.splits)
qed

lemma vote_timer_progress: "c_rel progress_eff (handle_vote_timer cfg r)"
  unfolding handle_vote_timer_def
  by (auto intro!: prg_rules send_vote_progress split: option.splits outgoing_vote_status.splits)

lemma no_endorse_progress: "c_rel progress_eff (publish_no_endorsement cfg n ep r tip)"
  unfolding publish_no_endorsement_def update_safety_def
  by (intro prg_rules) (auto simp: no_endorse_Some split: option.splits)

lemma create_progress: "c_rel progress_eff (emit_create_proposal cp)"
  unfolding c_spec_def emit_create_proposal_def update_safety_def
  by (auto simp: c_seq_Some progress_eff_def high_certificate_def List.map_filter_def split: option.splits
      dest!: safety_other_ops(1))

lemma repropose_progress: "c_spec progress_eff (at_round r) (publish_reproposal cfg r tip tco) (\<lambda>_ _. True)"
  unfolding c_spec_def publish_reproposal_def update_safety_def current_round_def at_round_def
  by (auto simp: c_seq_Some c_then_Some progress_eff_def high_certificate_def List.map_filter_def split: option.splits
      dest!: safety_other_ops(1))

interpretation rounds_climb: node_effect progress_eff cfg for cfg
proof (unfold_locales, goal_cases)
  case (2 cs s)
  then show ?case using quiet_progress by (auto intro!: progress_same)
next
  case (5 qc)
  then show ?case by (rule commit_progress)
next
  case (8 r tc_tip tip q)
  then show ?case by (rule c_rel_pre[OF cast_vote_progress])
next
  case (9 r)
  then show ?case by (rule vote_timer_progress)
next
  case (10 r n ep tip)
  then show ?case by (rule c_rel_pre[OF no_endorse_progress])
next
  case (11 cp)
  then show ?case by (rule c_rel_pre[OF create_progress])
next
  case (12 r tip tco)
  then show ?case by (rule repropose_progress)
next
  case (13 rc)
  then show ?case by (rule run_pacemaker_progress) (rule certificate_progress)
next
  case 14
  then show ?case by (rule run_pacemaker_progress) (rule pmp.process_local_timeout_effect)
next
  case (15 vals vmap n t)
  then show ?case by (rule run_pacemaker_progress) (rule pmp.process_remote_timeout_effect)
qed (auto simp: core_eq_def safety_other_ops intro!: progress_same dest!: safety_other_ops(2,3))

section \<open>The finalised chain\<close>

fun finalised :: "('s, 'c, 'x) consensus_command \<Rightarrow> ('s, 'c, 'x) consensus_full_block option" where
  "finalised (CommitBlocks (Finalized b)) = Some b"
| "finalised c = None"

text \<open>\<open>linked E a bs z\<close>: following parent ids, \<open>bs\<close> leads from the block with id \<open>a\<close> to the one with id \<open>z\<close>.\<close>

fun linked :: "('s, 'c, 'x) env \<Rightarrow> block_id \<Rightarrow> ('s, 'c, 'x) consensus_full_block list \<Rightarrow> block_id \<Rightarrow> bool" where
  "linked E a [] z \<longleftrightarrow> a = z"
| "linked E a (b # bs) z \<longleftrightarrow> fb_parent_id b = a \<and> linked E (fb_id E b) bs z"

lemma linked_append: "linked E a (bs @ cs) z \<longleftrightarrow> (\<exists>m. linked E a bs m \<and> linked E m cs z)"
  by (induction bs arbitrary: a) auto

definition keyed :: "('s, 'c, 'x) env \<Rightarrow> ('s, 'c, 'x) tree \<Rightarrow> bool" where
  "keyed E t \<longleftrightarrow> (\<forall>k e. t_get t k = Some e \<longrightarrow> fb_id E (validated_block e) = k)"

lemma keyedD: "keyed E t \<Longrightarrow> t_get t k = Some e \<Longrightarrow> fb_id E (validated_block e) = k"
  by (simp add: keyed_def)

lemma keyed_remove:
  assumes "keyed E t" "tree_remove t k = Some (t', r)"
  shows "keyed E t' \<and> r = t_get t k"
  using assms by (auto simp: keyed_def tree_remove_def Let_def bind_eq_Some_conv delete_conv' split: option.splits if_splits)

lemma keyed_remove_all: "keyed E t \<Longrightarrow> tree_remove_all t ks = Some t' \<Longrightarrow> keyed E t'"
  by (induction t ks rule: tree_remove_all.induct) (auto simp: bind_eq_Some_conv dest: keyed_remove)

lemma keyed_set_coherent: "keyed E t \<Longrightarrow> set_coherent t k v = Some t' \<Longrightarrow> keyed E t'"
  by (auto simp: keyed_def set_coherent_def bind_eq_Some_conv update_conv' split: if_splits)

lemma keyed_insert:
  assumes "keyed E t" "tree_insert E iter t b = Some t'"
  shows "keyed E t'"
  using assms
  by (auto simp: keyed_def tree_insert_def Let_def bind_eq_Some_conv update_conv' split: option.splits if_splits)

lemma prune_loop_links:
  assumes "prune_loop root t e commit = Some (t', commit')" "keyed E t"
  shows "keyed E t' \<and> (\<exists>bs. commit' = commit @ bs \<and> linked E root (rev bs) (fb_id E (validated_block e)))"
  using assms
proof (induction root t e commit arbitrary: t' commit' rule: prune_loop.induct)
  case (1 root t e commit)
  let ?b = "validated_block e"
  show ?case
  proof (cases "fb_parent_id ?b = root")
    case True
    then show ?thesis using "1.prems" by (auto simp: prune_loop.simps[of root t e] Let_def split: if_splits)
  next
    case False
    obtain t1 e1 where r: "tree_remove t (fb_parent_id ?b) = Some (t1, Some e1)" "entry_coherent e"
      "prune_loop root t1 e1 (commit @ [?b]) = Some (t', commit')"
      using "1.prems"(1) False by (auto simp: prune_loop.simps[of root t e] Let_def split: if_splits option.splits)
    have k: "keyed E t1" "fb_id E (validated_block e1) = fb_parent_id ?b"
      using keyed_remove[OF "1.prems"(2) r(1)] keyedD[OF "1.prems"(2), of "fb_parent_id ?b" e1] by auto
    obtain bs where bs: "keyed E t'" "commit' = (commit @ [?b]) @ bs" "linked E root (rev bs) (fb_parent_id ?b)"
      using "1.IH"[OF _ refl refl refl False r(1) refl refl r(3) k(1)] r(2) k(2) by auto
    then show ?thesis by (intro conjI exI[of _ "?b # bs"]) (auto simp: linked_append)
  qed
qed

lemma prune_links:
  assumes "prune E iter T n = Some (T', commit)" "keyed E (bt_tree T)"
  shows "keyed E (bt_tree T') \<and> linked E (root_id T) commit (root_id T')"
proof (cases "n = root_id T")
  case True
  then show ?thesis using assms by (auto simp: prune_def bind_eq_Some_conv)
next
  case False
  obtain t e t1 cs ks t2 where r: "tree_remove (bt_tree T) n = Some (t, Some e)" "prune_loop (root_id T) t e [] = Some (t1, cs)"
    "tree_remove_all t1 ks = Some t2" "bt_tree T' = t2" "root_id T' = fb_id E (validated_block e)" "commit = rev cs"
    using assms(1) False by (auto simp: prune_def bind_eq_Some_conv Let_def root_info_of_def)
  have "keyed E t" using keyed_remove[OF assms(2) r(1)] by simp
  from prune_loop_links[OF r(2) this] show ?thesis using keyed_remove_all[OF _ r(3)] r(4-6) by auto
qed

lemma coherency_loop_keyed:
  "coherency_loop chk T q acc = Some y \<Longrightarrow> keyed E (bt_tree T) \<longrightarrow> keyed E (bt_tree (fst y)) \<and> bt_root (fst y) = bt_root T"
proof (erule coherency_loop.raw_induct[where P = "\<lambda>chk T q acc y.
    keyed E (bt_tree T) \<longrightarrow> keyed E (bt_tree (fst y)) \<and> bt_root (fst y) = bt_root T", rotated], goal_cases)
  case (1 loop chk T q acc y)
  note step = 1(1)
  show ?case
  proof (cases q)
    case Nil
    then show ?thesis using 1(2) by auto
  next
    case (Cons k rest)
    then obtain bs where bs: "(case chk (last bs) (butlast bs) (bt_root T) of
        Inl _ \<Rightarrow> loop chk T rest acc
      | Inr _ \<Rightarrow> Option.bind (set_coherent (bt_tree T) k True) (\<lambda>t. Option.bind (t_get t k) (\<lambda>e.
          loop chk (T\<lparr>bt_tree := t\<rparr>) (rest @ children_blocks e) (acc @ [last bs])))) = Some y"
      using 1(2) by (auto elim!: bind_SomeE split: option.splits if_splits)
    then consider "loop chk T rest acc = Some y"
      | t q' acc' where "set_coherent (bt_tree T) k True = Some t" "loop chk (T\<lparr>bt_tree := t\<rparr>) q' acc' = Some y"
      by (auto elim!: bind_SomeE split: sum.splits)
    then show ?thesis
    proof cases
      case 1
      then show ?thesis by (rule step)
    next
      case 2
      then show ?thesis using step[OF 2(2)] keyed_set_coherent[OF _ 2(1), of E] by simp
    qed
  qed
qed

lemma update_coherency_keyed:
  assumes "bt_try_update_coherency E' chk T k = Some (T', bs)" "keyed E (bt_tree T)"
  shows "keyed E (bt_tree T') \<and> bt_root T' = bt_root T"
  using assms coherency_loop_keyed[of chk T _ "[]" "(T', bs)" E]
  by (auto simp: bt_try_update_coherency_def elim!: bind_SomeE split: option.splits)

lemma add_keyed: "bt_add E iter T b = Some T' \<Longrightarrow> keyed E (bt_tree T) \<Longrightarrow> keyed E (bt_tree T') \<and> bt_root T' = bt_root T"
  by (auto simp: bt_add_def bind_eq_Some_conv keyed_insert split: if_splits)

definition chain_eff ::
  "('s, 'c, 'x) env \<Rightarrow> ('s, 'c, 'x, 'p) wrapper_state \<Rightarrow> ('s, 'c, 'x, 'p) wrapper_state \<Rightarrow> ('s, 'c, 'x) consensus_command list \<Rightarrow> bool" where
  "chain_eff E s s' cs \<longleftrightarrow> (keyed E (bt_tree (pending_block_tree s)) \<longrightarrow>
     keyed E (bt_tree (pending_block_tree s')) \<and>
     linked E (root_id (pending_block_tree s)) (List.map_filter finalised cs) (root_id (pending_block_tree s')))"

interpretation chn: effect "chain_eff E" for E
  by unfold_locales (auto simp: chain_eff_def map_filter_append linked_append simp: List.map_filter_def)

lemma chain_same:
  assumes "pending_block_tree s' = pending_block_tree s" "\<forall>c \<in> set cs. finalised c = None"
  shows "chain_eff E s s' cs"
proof -
  have "List.map_filter finalised cs = []" using assms(2) by (induction cs) (auto simp: List.map_filter_def)
  then show ?thesis using assms(1) by (simp add: chain_eff_def)
qed

lemma quiet_chain: "quiet c \<Longrightarrow> finalised c = None"
  by (cases c rule: quiet.cases) auto

lemma chn_modify: "(\<And>s. pending_block_tree (f s) = pending_block_tree s) \<Longrightarrow> c_rel (chain_eff E) (c_modify f)"
  by (simp add: c_spec_def chain_same)

lemma chn_update:
  "(\<And>s a s'. f s = Some (a, s') \<Longrightarrow> pending_block_tree s' = pending_block_tree s) \<Longrightarrow> c_rel (chain_eff E) (c_update f)"
  by (auto simp: c_spec_def intro!: chain_same)

lemma chn_emit: "\<forall>c \<in> set cs. finalised c = None \<Longrightarrow> c_rel (chain_eff E) (c_emit cs)"
  by (simp add: c_spec_def chain_same)

lemmas chn_rules =
  chn.rel_then chn.rel_seq chn.rel_return chn.rel_skip chn.rel_get chn.rel_try chn.rel_if chn.rel_option chn.rel_prod
  chn.rel_let chn.rel_each chn_modify chn_update chn_emit

lemma commit_block_emitted:
  "commit_block cfg b s = Some (u, s', cs) \<Longrightarrow>
     pending_block_tree s' = pending_block_tree s \<and> List.map_filter finalised cs = [b]"
  by (auto simp: commit_block_def c_seq_Some List.map_filter_def split: option.splits)

lemma commit_blocks_emitted:
  "c_each (commit_block cfg) bs s = Some (u, s', cs) \<Longrightarrow>
     pending_block_tree s' = pending_block_tree s \<and> List.map_filter finalised cs = bs"
proof (induction bs arbitrary: s cs)
  case Nil
  then show ?case by (simp add: List.map_filter_def)
next
  case (Cons b bs)
  then obtain s1 c1 c2 where "commit_block cfg b s = Some ((), s1, c1)" "c_each (commit_block cfg) bs s1 = Some (u, s', c2)" "cs = c1 @ c2"
    by (auto simp: c_seq_Some)
  then show ?case using commit_block_emitted Cons.IH by (fastforce simp: map_filter_append)
qed

lemma commit_chain: "c_rel (chain_eff (cfg_env cfg)) (try_commit cfg qc)"
proof -
  let ?E = "cfg_env cfg"
  have prune: "c_rel (chain_eff ?E) (c_then (c_update (\<lambda>s. case prune ?E (cfg_iter cfg) (pending_block_tree s) k of
      None \<Rightarrow> None | Some (tree, blocks) \<Rightarrow> Some (blocks, s\<lparr>pending_block_tree := tree\<rparr>))) (c_each (commit_block cfg)))" for k
    unfolding c_spec_def
    by (auto simp: c_then_Some chain_eff_def split: option.splits dest!: commit_blocks_emitted prune_links)
  show ?thesis
    unfolding try_commit_def
    by (intro chn.rel_then[OF chn.rel_get] chn.rel_then[OF chn.rel_try] chn.rel_option chn.rel_if chn.rel_skip prune)
qed

lemma run_pacemaker_chain: "c_rel (chain_eff E) (run_pacemaker cfg f)"
proof -
  have "finalised c = None" if "c \<in> set (from_pacemaker_command cfg pc)" for c pc
    using that by (cases pc) auto
  then show ?thesis
    unfolding run_pacemaker_def by (intro chn_rules) (auto split: option.splits)
qed

lemma send_vote_chain: "c_rel (chain_eff E) (send_vote_and_reset_timer cfg v)"
proof -
  have leader: "c_rel (chain_eff E) (leader_of cfg r)" for r
    unfolding leader_of_def validators_of_def leader_in_def epoch_of_def by (intro chn.rel_then chn.rel_try)
  show ?thesis
    unfolding send_vote_and_reset_timer_def Let_def
    by (intro chn.rel_then chn.rel_seq chn.rel_try chn.rel_if chn.rel_skip leader chn_emit chn_modify) simp_all
qed

lemma safety_chain: "c_rel (chain_eff E) (update_safety f)"
  unfolding update_safety_def by (intro chn_update) (auto split: option.splits)

lemma cast_vote_chain: "c_rel (chain_eff E) (cast_vote cfg r tct tip p)"
  unfolding cast_vote_def schedule_or_send_def maybe_record_vote_delay_metrics_def Let_def
  by (auto intro!: chn_rules safety_chain send_vote_chain split: option.splits outgoing_vote_status.splits)

lemma vote_timer_chain: "c_rel (chain_eff E) (handle_vote_timer cfg r)"
  unfolding handle_vote_timer_def
  by (auto intro!: chn_rules send_vote_chain split: option.splits outgoing_vote_status.splits)

lemma proposals_chain:
  "c_rel (chain_eff E) (publish_no_endorsement cfg n ep r tip)" "c_rel (chain_eff E) (emit_create_proposal cp)"
  "c_rel (chain_eff E) (publish_reproposal cfg r tip tco)"
  unfolding publish_no_endorsement_def emit_create_proposal_def publish_reproposal_def current_round_def
  by (intro chn_rules safety_chain; simp)+

interpretation chain_grows: node_effect "chain_eff (cfg_env cfg)" cfg for cfg
proof (unfold_locales, goal_cases)
  case (2 cs s)
  then show ?case using quiet_chain by (auto intro!: chain_same)
next
  case (3 s b T)
  then show ?case by (auto simp: chain_eff_def List.map_filter_def dest: add_keyed)
next
  case (4 pol s k T bs)
  then show ?case by (auto simp: chain_eff_def List.map_filter_def dest: update_coherency_keyed)
next
  case (5 qc)
  then show ?case by (rule commit_chain)
next
  case (8 r tc_tip tip q)
  then show ?case by (rule c_rel_pre[OF cast_vote_chain])
next
  case (9 r)
  then show ?case by (rule vote_timer_chain)
next
  case (10 r n ep tip)
  then show ?case by (rule c_rel_pre[OF proposals_chain(1)])
next
  case (11 cp)
  then show ?case by (rule c_rel_pre[OF proposals_chain(2)])
next
  case (12 r tip tco)
  then show ?case by (rule c_rel_pre[OF proposals_chain(3)])
qed (auto simp: core_eq_def intro!: chain_same run_pacemaker_chain)

end
