(* ===== verification/Node_Theorems.thy ===== *)
theory Node_Theorems
  imports Consensus_Safety Consensus_Progress Block_Tree_Theorems Validation
begin

text \<open>
  The properties of a node over all its runs, whose configuration may change from event to event, and a concrete run on which they apply: a validator
  that receives three consecutive proposals, votes and finalises the first block.
\<close>

section \<open>A run\<close>

definition node_env :: "(nop_signature, nop_signature multi_sig, unit) env" where
  "node_env = example_env\<lparr>hasher := (\<lambda>bs. case bs of [] \<Rightarrow> 10 | b # _ \<Rightarrow> 10 + b)\<rparr>"

definition node_wire :: "(nop_signature, nop_signature multi_sig, unit) wire" where
  "node_wire =
     \<lparr>rlp_body = (\<lambda>_. []), rlp_qc = (\<lambda>_. []), rlp_tc = (\<lambda>_. []), rlp_nec = (\<lambda>_. []),
      rlp_consensus_message = (\<lambda>_. []), sig_validate = (\<lambda>_. True), st_pubkey = (\<lambda>k. k)\<rparr>"

definition example_cfg :: "(nop_signature, nop_signature multi_sig, unit, unit, unit) node_cfg" where
  "example_cfg =
     \<lparr>cfg_env = node_env, cfg_wire = node_wire, cfg_iter = (\<lambda>m. m),
      check_coherency = (\<lambda>_ _ _ _. Inr ()), update_committed_block = (\<lambda>p _. p),
      get_expected_execution_results = (\<lambda>_ _ _. Inr []),
      block_validate = (\<lambda>h b _. Inr \<lparr>fb_header = h, fb_body = b\<rparr>),
      val_epoch_map = example_vem, election = (\<lambda>r _. Some (if r = 5 then 2 else 1)), cfg_version = 1,
      cfg_block_timestamp = \<lparr>local_time_ns = 3, max_delta_ns = 10, latency_estimate_ns = 1\<rparr>,
      beneficiary = 0, nodeid = 3, cfg_keypair = 3, cfg_cert_keypair = 103, cfg_delta = 1,
      cfg_chain_params = (\<lambda>_. \<lparr>tx_limit = 1, proposal_gas_limit = 1, proposal_byte_limit = 1,
        max_reserve_balance = 0, vote_pace = 1\<rparr>),
      live_to_statesync_threshold = 100\<rparr>"

text \<open>The configuration some time later: the clock has advanced.\<close>

definition later_cfg :: "(nop_signature, nop_signature multi_sig, unit, unit, unit) node_cfg" where
  "later_cfg = example_cfg\<lparr>cfg_block_timestamp := \<lparr>local_time_ns = 6, max_delta_ns = 10, latency_estimate_ns = 1\<rparr>\<rparr>"

lemma later_cfg_env: "cfg_env later_cfg = cfg_env example_cfg"
  by (simp add: later_cfg_def)

definition node_block :: "round \<Rightarrow> block_id \<Rightarrow> (nop_signature, nop_signature multi_sig, unit) consensus_full_block" where
  "node_block r parent_id =
     \<lparr>fb_header = (example_header r)\<lparr>bh_qc :=
        \<lparr>qc_info = \<lparr>vote_id = parent_id, vote_round = r - 1, vote_epoch = 1\<rparr>, qc_signatures = \<lparr>ms_sigs = []\<rparr>\<rparr>,
        author := (if r = 5 then 2 else 1), bh_seq_num := r, timestamp_ns := r\<rparr>,
      fb_body = \<lparr>execution_body = ()\<rparr>\<rparr>"

abbreviation "c3 \<equiv> node_block 3 5"
abbreviation "c4 \<equiv> node_block 4 (fb_id node_env c3)"
abbreviation "c5 \<equiv> node_block 5 (fb_id node_env c4)"

definition example_proposal ::
  "(nop_signature, nop_signature multi_sig, unit) consensus_full_block \<Rightarrow> (nop_signature, nop_signature multi_sig, unit) proposal_message" where
  "example_proposal b =
     \<lparr>proposal_round = fb_round b, proposal_epoch = 1, prop_tip = tip_new node_env 1 (fb_header b) None,
      prop_block_body = fb_body b, prop_last_round_tc = None\<rparr>"

definition n0 :: "(nop_signature, nop_signature multi_sig, unit, unit) wrapper_state" where
  "n0 =
     \<lparr>pending_block_tree = block_tree_new example_root,
      cs_vote_state = vote_state_new 3, cs_no_endorsement_state = no_endorsement_state_new 3, scheduled_vote = None,
      cs_safety =
        \<lparr>maybe_high_tip = None, high_certificate_qc_round = 2, highest_vote = 3,
         highest_no_endorse = \<lparr>hne_round = 3, hne_tip = 0\<rparr>, highest_propose = 3, highest_recovery_request = 3,
         handled_proposals = []\<rparr>,
      cs_pacemaker =
        \<lparr>pm_delta = 1, pm_vote_pace = (\<lambda>_. 1), pm_local_processing = 1, pm_current_epoch = 1,
         pm_high_certificate = RcQc example_qc, pm_pending_timeouts = [], pm_invalid_timeout_senders = [], pm_phase = PhaseZero\<rparr>,
      block_sync_requests = [], canonical_proposed_tip = None, cs_vote_delay_timer_start = None,
      cs_vote_delay_metrics = [], ws_epoch_manager = example_em, ws_block_policy = (),
      ws_vote_delay_stats = \<lparr>p50_ms = 0, p90_ms = 0, p99_ms = 0\<rparr>\<rparr>"

lemma example_epoch: "get_epoch example_em r = Some (if r < 17 then 1 else 2)"
  by (simp add: get_epoch_def example_em_def)

lemma example_no_boundary: "schedule_epoch_start example_em 3 r = Some example_em"
  by (simp add: schedule_epoch_start_def is_boundary_block_def example_em_def checked_rem_def seq_num_rem_def seq_num_sub_def checked_sub_def)

lemma node_start: "consensus_state_new example_cfg example_em () example_root (RcQc example_qc) = Some n0"
  by (simp add: consensus_state_new_def pacemaker_new_def example_cfg_def example_qc_def example_epoch
     safety_new_def round_add_def u64_max_def get_current_round_def get_round_def n0_def checked_add_def GENESIS_BLOCK_ID_def)

lemmas node_eval =
  c_return_def c_then_def c_seq_def c_skip_def c_get_def c_try_def c_modify_def c_emit_def c_update_def
  handle_proposal_message_def validate_block_def try_add_and_commit_blocktree_def try_update_coherency_def
  update_proposed_head_def process_qc_def try_vote_def try_propose_def request_blocks_if_missing_ancestor_def
  request_tip_if_missing_def epoch_of_def validators_of_def leader_in_def leader_of_def lookup_leader_def last_round_tc_tip_def
  current_round_def emit_voted_def cancel_obsolete_requests_def update_safety_def maybe_statesync_def run_pacemaker_def
  try_commit_def commit_block_def cast_vote_def schedule_or_send_def send_vote_and_reset_timer_def
  maybe_record_vote_delay_metrics_def handle_vote_timer_def
  high_certificate_def

lemmas tree_eval =
  fb_id_def fb_parent_id_def fb_body_id_def fb_round_def fb_parent_round_def fb_seq_num_def fb_timestamp_def
  get_block_def get_block_id_def get_round_def get_id_def is_coherent_def bt_add_def is_valid_to_insert_def tree_insert_def
  block_tree_new_def tree_default_def get_blocks_on_path_from_root_def bt_try_update_coherency_def set_coherent_def
  get_high_committable_qc_def get_canonical_coherent_tip_def highest_round_coherent_descendant_def
  maybe_fill_path_to_root_def get_seq_num_of_qc_def get_timestamp_of_qc_def get_block_round_of_qc_def
  get_highest_coherent_block_on_path_from_root_def entry_or_def Let_def

lemmas arith_eval = round_add_def checked_add_def u64_max_def seq_num_add_def checked_sub_def

lemmas example_eval =
  example_cfg_def example_proposal_def node_block_def example_header_def example_root_def example_qc_def example_epoch
  example_vem_def get_val_set_def node_env_def example_env_def example_rlp_header_def tip_new_def get_cert_pubkeys_def
  example_vm_def node_wire_def signed_def consensus_message_sign_def

lemmas step_eval =
  is_safe_to_handle_proposal_def handle_proposal_def assert_p_def get_current_round_def HANDLED_PROPOSAL_CACHE_SIZE_def
  body_get_id_def get_committable_id_def valid_block_timestamp_def is_safe_to_vote_def safety_vote_def valid_bounds_def
  abs_diff_def saturating_sub_def saturating_add_def insort_insert_key_def
  get_parent_id_def pm_process_certificate_def get_round_timer_def duration_mul_def duration_add_def duration_max_def
  safety_process_certificate_def vote_state_start_new_round_def ne_start_new_round_def vote_state_new_def
  no_endorsement_state_new_def get_current_time_def ns_to_ms_def vote_message_new_def List.map_filter_def
  u128_max_def bt_retain_def example_no_boundary
  prune_def prune_loop.simps tree_remove_def root_info_of_def
  record_ready_after_timer_start_def window_prune_def VOTE_DELAY_WINDOW_MS_def update_metrics_def percentile_def
  path_loop.simps fill_loop.simps coherency_loop.simps committable_loop.simps descendant_loop.simps

lemmas run_eval = node_eval tree_eval arith_eval example_eval step_eval

definition n1 :: "(nop_signature, nop_signature multi_sig, unit, unit) wrapper_state" where
  "n1 = n0\<lparr>pending_block_tree :=
     \<lparr>bt_root = example_root, bt_root_children = [13],
      bt_tree = \<lparr>t_tree = [(13, \<lparr>validated_block = c3, entry_coherent = True, children_blocks = []\<rparr>)],
                 t_payloads = [(0, \<lparr>bbi_body = \<lparr>execution_body = ()\<rparr>, active_blocks = [13]\<rparr>)]\<rparr>\<rparr>,
     cs_safety := (cs_safety n0)\<lparr>handled_proposals := [3]\<rparr>\<rparr>"

lemma node_step3:
  "handle_event example_cfg (ProposalMsg 1 (example_proposal c3)) n0 = Some ((), n1, [CommitBlocks (Proposed c3 False)])"
  by (simp add: run_eval n0_def n1_def)

definition n2 :: "(nop_signature, nop_signature multi_sig, unit, unit) wrapper_state" where
  "n2 = n1\<lparr>scheduled_vote := Some TimerFired\<rparr>"

lemma node_step_timer: "handle_event example_cfg (VoteTimer 4) n1 = Some ((), n2, [])"
  by (simp add: handle_vote_timer_def c_then_def c_get_def c_modify_def n2_def n1_def n0_def)

definition vote_of_node :: "(nop_signature, nop_signature multi_sig, unit) signed_message" where
  "vote_of_node = signed example_cfg (MsgVote (vote_message_new node_env \<lparr>vote_id = 14, vote_round = 4, vote_epoch = 1\<rparr> 103))"

definition n3 :: "(nop_signature, nop_signature multi_sig, unit, unit) wrapper_state" where
  "n3 = n1\<lparr>pending_block_tree :=
     \<lparr>bt_root = example_root, bt_root_children = [13],
      bt_tree = \<lparr>t_tree = [(13, \<lparr>validated_block = c3, entry_coherent = True, children_blocks = [14]\<rparr>),
                           (14, \<lparr>validated_block = c4, entry_coherent = True, children_blocks = []\<rparr>)],
                 t_payloads = [(0, \<lparr>bbi_body = \<lparr>execution_body = ()\<rparr>, active_blocks = [14, 13]\<rparr>)]\<rparr>\<rparr>,
     cs_vote_state := vote_state_new 4, cs_no_endorsement_state := no_endorsement_state_new 4,
     cs_safety := (cs_safety n1)\<lparr>maybe_high_tip := Some (tip_new node_env 1 (fb_header c4) None),
       high_certificate_qc_round := 3, highest_vote := 4, handled_proposals := [3, 4]\<rparr>,
     cs_pacemaker := (cs_pacemaker n1)\<lparr>pm_high_certificate := RcQc (bh_qc (fb_header c4))\<rparr>,
     canonical_proposed_tip := Some 14,
     cs_vote_delay_timer_start := Some \<lparr>vdt_round = 5, vdt_started_at_ms = 0\<rparr>\<rparr>"

lemma node_step4:
  "\<exists>cs. handle_event example_cfg (ProposalMsg 1 (example_proposal c4)) n2 = Some ((), n3, cs) \<and>
     {Publish (PointToPoint 1) vote_of_node, Publish (PointToPoint 2) vote_of_node, EnterRound 1 4} \<subseteq> set cs \<and>
     List.map_filter finalised cs = [] \<and> List.map_filter entered cs = [4]"
  by (simp add: run_eval n0_def n1_def n2_def n3_def vote_of_node_def)

lemma node_step5:
  "\<exists>s cs. handle_event later_cfg (ProposalMsg 2 (example_proposal c5)) n3 = Some ((), s, cs) \<and>
     List.map_filter finalised cs = [c3] \<and> root_id (pending_block_tree s) = 13 \<and> List.map_filter entered cs = [5]"
  by (simp add: run_eval later_cfg_def n0_def n1_def n3_def)

lemma example_run:
  "\<exists>s cmds. node_run example_cfg example_root s cmds \<and> List.map_filter finalised cmds = [c3] \<and> List.map_filter entered cmds = [4, 5] \<and>
     {Publish (PointToPoint 1) vote_of_node, Publish (PointToPoint 2) vote_of_node} \<subseteq> set cmds \<and>
     root_id (pending_block_tree s) = 13"
proof -
  obtain cs where cs: "handle_event example_cfg (ProposalMsg 1 (example_proposal c4)) n2 = Some ((), n3, cs)"
    "{Publish (PointToPoint 1) vote_of_node, Publish (PointToPoint 2) vote_of_node, EnterRound 1 4} \<subseteq> set cs"
    "List.map_filter finalised cs = []" "List.map_filter entered cs = [4]"
    using node_step4 by blast
  obtain s ds where ds: "handle_event later_cfg (ProposalMsg 2 (example_proposal c5)) n3 = Some ((), s, ds)"
    "List.map_filter finalised ds = [c3]" "root_id (pending_block_tree s) = 13" "List.map_filter entered ds = [5]"
    using node_step5 by blast
  let ?cmds = "((([] @ [CommitBlocks (Proposed c3 False)]) @ []) @ cs) @ ds"
  have "node_run example_cfg example_root s ?cmds"
    by (rule run_event[OF run_event[OF run_event[OF run_event[OF run_start[OF node_start] HOL.refl node_step3]
          HOL.refl node_step_timer] HOL.refl cs(1)] later_cfg_env ds(1)])
  then show ?thesis
    using cs(2-) ds(2-) by (intro exI[of _ s] exI[of _ ?cmds]) (simp add: map_filter_append)
qed

section \<open>Properties\<close>

fun vote_sent :: "('s, 'c, 'x) env \<Rightarrow> ('s, 'c, 'x) consensus_command \<Rightarrow> (round \<times> block_id) option" where
  "vote_sent E (Publish t m) =
     (case message_of m of
        MsgVote vm \<Rightarrow> Some (vote_round (vmsg_vote vm), vote_id (vmsg_vote vm))
      | MsgTimeout to \<Rightarrow>
          (case to_high_extend to of
             HevTip tip (Some _) \<Rightarrow> Some (tm_round (to_tminfo to), get_id E (tip_block_header tip))
           | _ \<Rightarrow> None)
      | _ \<Rightarrow> None)"
| "vote_sent E c = None"

lemma vote_sent_backed:
  assumes "command_backed E es c" "vote_sent E c = Some (r, b)"
  shows "\<exists>tip. (r, tip) \<in> votes_in es \<and> b = get_id E (tip_block_header tip)"
proof (cases c)
  case (Publish t m)
  then show ?thesis
    using assms by (cases "message_of m") (auto simp: vote_backed_def split: high_extend_vote.splits option.splits)
qed (use assms in auto)

lemma node_run_history:
  assumes "node_run cfg root s cmds"
  shows "\<exists>es. node_inv (cfg_env cfg) s es \<and> (\<forall>c \<in> set cmds. command_backed (cfg_env cfg) es c)"
proof -
  obtain em policy rc s0 where "consensus_state_new cfg em policy root rc = Some s0" "saf_eff (cfg_env cfg) None s0 s cmds"
    using node_run_effect[OF assms, of "saf_eff (cfg_env cfg) None"] handlers_refine.node_effect_axioms by metis
  then show ?thesis using node_inv_start[of cfg em policy root rc s0 "cfg_env cfg"]
    unfolding saf_eff_def history_has_def by fastforce
qed

text \<open>
  C2: the consensus state machine refines the safety module.  After any sequence of events, in
  any order and from any sender, and whatever the clock, the validator sets and the other configuration at
  each event, the safety module is in a state reached by its own operations,
  with rounds that never decrease and never pass the node's current round, and every vote, every
  vote inside a timeout message and every no-endorsement the node has published is an event of
  that history.
\<close>

theorem node_refines_safety_module:
  assumes "node_run cfg root s cmds"
  shows "\<exists>es. safety_run (cs_safety s) es \<and> monotone_history es \<and>
    (\<forall>ev \<in> set es. event_round ev \<le> rc_round (high_certificate s) + 1) \<and>
    (\<forall>c \<in> set cmds. command_backed (cfg_env cfg) es c)"
  using node_run_history[OF assms] unfolding node_inv_def cur_def by blast

theorem node_refines_safety_module_witness:
  "\<exists>s cmds es. node_run example_cfg example_root s cmds \<and> Publish (PointToPoint 2) vote_of_node \<in> set cmds \<and>
     safety_run (cs_safety s) es \<and> vote_backed node_env es \<lparr>vote_id = 14, vote_round = 4, vote_epoch = 1\<rparr>"
proof -
  obtain s cmds where run: "node_run example_cfg example_root s cmds" "Publish (PointToPoint 2) vote_of_node \<in> set cmds"
    using example_run by blast
  obtain es where es: "safety_run (cs_safety s) es" "\<forall>c \<in> set cmds. command_backed (cfg_env example_cfg) es c"
    using node_refines_safety_module[OF run(1)] by blast
  have "cfg_env example_cfg = node_env" by (simp add: example_cfg_def)
  then have "vote_backed node_env es \<lparr>vote_id = 14, vote_round = 4, vote_epoch = 1\<rparr>"
    using es(2) run(2) by (auto simp: vote_of_node_def)
  then show ?thesis using run es(1) by blast
qed

text \<open>
  C3: a node never votes for two blocks in one round.  Whatever it receives, all the votes it
  publishes for a round, in vote messages and inside timeout messages, name the same block.
\<close>

theorem node_votes_once_per_round:
  assumes "node_run cfg root s cmds" "c \<in> set cmds" "c' \<in> set cmds"
    and "vote_sent (cfg_env cfg) c = Some (r, b)" "vote_sent (cfg_env cfg) c' = Some (r, b')"
  shows "b = b'"
proof -
  obtain es where es: "safety_run (cs_safety s) es" "\<forall>c \<in> set cmds. command_backed (cfg_env cfg) es c"
    using node_run_history[OF assms(1)] unfolding node_inv_def by blast
  obtain t u where "(r, t) \<in> votes_in es" "b = get_id (cfg_env cfg) (tip_block_header t)"
    "(r, u) \<in> votes_in es" "b' = get_id (cfg_env cfg) (tip_block_header u)"
    using vote_sent_backed[OF _ assms(4)] vote_sent_backed[OF _ assms(5)] es(2) assms(2,3) by blast
  then show ?thesis using votes_inv_run[OF es(1)] unfolding votes_inv_def by auto
qed

theorem node_votes_once_per_round_witness:
  "\<exists>s cmds c c'. node_run example_cfg example_root s cmds \<and> c \<in> set cmds \<and> c' \<in> set cmds \<and> c \<noteq> c' \<and>
     vote_sent node_env c = Some (4, 14) \<and> (\<forall>b. vote_sent node_env c' = Some (4, b) \<longrightarrow> b = 14)"
proof -
  let ?c = "Publish (PointToPoint 1) vote_of_node" and ?d = "Publish (PointToPoint 2) vote_of_node"
  obtain s cmds where run: "node_run example_cfg example_root s cmds" "?c \<in> set cmds" "?d \<in> set cmds"
    using example_run by blast
  have E: "cfg_env example_cfg = node_env" by (simp add: example_cfg_def)
  have c: "vote_sent node_env ?c = Some (4, 14)" by (simp add: vote_of_node_def)
  have "b = 14" if "vote_sent node_env ?d = Some (4, b)" for b
    using node_votes_once_per_round[OF run(1,3,2), of 4 b 14] that c by (simp add: E)
  then show ?thesis using run c by (intro exI[of _ s] exI[of _ cmds] exI[of _ ?c] exI[of _ ?d]) simp
qed

text \<open>
  C10: the round of a node only grows, and it proposes at most once per round.  Over any run the
  rounds announced by \<^verbatim>\<open>EnterRound\<close> are strictly increasing and end at the node's current round at
  most, and the rounds of the proposals it makes, fresh or repeated, are strictly increasing.
\<close>

theorem node_rounds_and_proposals_increase:
  assumes "node_run cfg root s cmds"
  shows "sorted_wrt (<) (List.map_filter entered cmds) \<and>
    (\<forall>r \<in> set (List.map_filter entered cmds). r \<le> rc_round (high_certificate s) + 1) \<and>
    sorted_wrt (<) (List.map_filter proposed cmds)"
  using node_run_effect[OF assms rounds_climb.node_effect_axioms] unfolding progress_eff_def climbs_def by blast

theorem node_rounds_and_proposals_increase_witness:
  "\<exists>s cmds. node_run example_cfg example_root s cmds \<and> List.map_filter entered cmds = [4, 5] \<and> 5 \<le> rc_round (high_certificate s) + 1"
proof -
  obtain s cmds where run: "node_run example_cfg example_root s cmds" "List.map_filter entered cmds = [4, 5]"
    using example_run by blast
  then show ?thesis using node_rounds_and_proposals_increase[OF run(1)] by auto
qed

text \<open>
  C4: finality.  Over any run the blocks a node finalises form one chain: each is the child of
  the one finalised before it, the first one is a child of the root the node started from, and the
  last one is the root of its block tree.
\<close>

theorem finalised_blocks_form_a_chain:
  assumes "node_run cfg root s cmds"
  shows "linked (cfg_env cfg) (ri_block_id root) (List.map_filter finalised cmds) (root_id (pending_block_tree s))"
proof -
  obtain em policy rc s0 where 0: "consensus_state_new cfg em policy root rc = Some s0" "chain_eff (cfg_env cfg) s0 s cmds"
    using node_run_effect[OF assms, of "chain_eff (cfg_env cfg)"] chain_grows.node_effect_axioms by metis
  then have "keyed (cfg_env cfg) (bt_tree (pending_block_tree s0))" "root_id (pending_block_tree s0) = ri_block_id root"
    by (auto simp: consensus_state_new_def bind_eq_Some_conv block_tree_new_def tree_default_def keyed_def)
  then show ?thesis using 0(2) unfolding chain_eff_def by simp
qed

theorem finalised_blocks_form_a_chain_witness:
  "\<exists>s cmds. node_run example_cfg example_root s cmds \<and> List.map_filter finalised cmds = [c3] \<and>
     linked node_env 5 [c3] (root_id (pending_block_tree s))"
proof -
  obtain s cmds where run: "node_run example_cfg example_root s cmds" "List.map_filter finalised cmds = [c3]" using example_run by blast
  have "cfg_env example_cfg = node_env" "ri_block_id example_root = 5" by (simp_all add: example_cfg_def example_root_def)
  then show ?thesis using finalised_blocks_form_a_chain[OF run(1)] run by auto
qed

end
