(* ===== verification/Block_Sync.thy ===== *)
theory Block_Sync
  imports Block_Tree_Correct Leader_Election
begin

text \<open>
  Fetching missing blocks, \<^verbatim>\<open>monad-blocksync/src/blocksync.rs\<close> with the messages of
  \<^verbatim>\<open>messages/message.rs\<close>: requests of the node itself (headers of a range first, then the bodies, at most
  ten of them at a time), and requests of peers, answered from the block cache and the ledger.

  A handler returns the commands and the new state, or \<^term>\<open>None\<close> when the code panics.  What the wrapper only
  reads is the record \<open>sync_view\<close>.  The random generator and the iteration order of the hash maps are parameters
  there.  Metrics and log lines are left out.

  The theorem: whatever peers answer, in whatever order, when the ledger, the block cache and the choice of a peer
  do what \<open>event_ok\<close> and \<open>view_ok\<close> say, the handlers do not panic, keep at most ten body
  requests in flight, and the blocks they hand to the node are exactly a chain of the requested length that
  ends in the requested block, each with the body its header names.
\<close>

section \<open>Messages and commands\<close>

datatype sync_requester = ConsensusRequester | StateSyncRequester

datatype sync_request = HeadersRequest block_range | PayloadRequest body_id

datatype ('s, 'c, 'x) headers_response =
    HeadersFound block_range "('s, 'c, 'x) consensus_block_header list"
  | HeadersNotAvailable block_range

fun headers_response_range :: "('s, 'c, 'x) headers_response \<Rightarrow> block_range" where
  "headers_response_range (HeadersFound r hs) = r"
| "headers_response_range (HeadersNotAvailable r) = r"

datatype 'x body_response = BodyFound "'x consensus_block_body" | BodyNotAvailable body_id

fun body_response_id :: "('s, 'c, 'x) env \<Rightarrow> ('s, 'c, 'x) wire \<Rightarrow> 'x body_response \<Rightarrow> body_id" where
  "body_response_id E W (BodyFound p) = body_get_id E W p"
| "body_response_id E W (BodyNotAvailable i) = i"

datatype ('s, 'c, 'x) sync_response =
    HeadersResponse "('s, 'c, 'x) headers_response"
  | PayloadResponse "'x body_response"

datatype ('s, 'c, 'x) sync_command =
    SendRequest node_id sync_request
  | ScheduleSyncTimeout sync_request
  | ResetSyncTimeout sync_request
  | SendResponse node_id "('s, 'c, 'x) sync_response"
  | FetchHeaders block_range
  | FetchPayload body_id
  | EmitBlocks sync_requester block_range "('s, 'c, 'x) consensus_full_block list"

section \<open>State\<close>

definition BLOCKSYNC_MAX_PAYLOAD_REQUESTS :: nat where
  "BLOCKSYNC_MAX_PAYLOAD_REQUESTS = 10"

record self_request =
  sr_requester :: sync_requester
  sr_to :: "node_id option"

record ('s, 'c, 'x) self_completed_header =
  sh_requester :: sync_requester
  sh_blocks :: "(('s, 'c, 'x) consensus_block_header \<times> 'x consensus_block_body option) list"
  sh_payload_cache :: "(body_id, 'x consensus_block_body) hash_map"

record ('s, 'c, 'x, 'r) block_sync =
  bs_headers_requests :: "(block_range, (node_id, ('s, 'c, 'x) consensus_block_header list) btree_map) hash_map"
  bs_payload_requests :: "(body_id, node_id btree_set) hash_map"
  bs_self_headers :: "(block_range, self_request) hash_map"
  bs_self_payloads :: "(body_id, self_request option) hash_map"
  bs_in_flight :: nat
  bs_completed :: "(block_range, ('s, 'c, 'x) self_completed_header) hash_map"
  bs_mode :: sync_requester
  bs_override_peers :: "node_id list"
  bs_self_node_id :: node_id
  bs_rng :: 'r

datatype ('s, 'c, 'x) block_cache =
    CacheTree "('s, 'c, 'x) block_tree"
  | CacheBuffer "(body_id, 'x consensus_block_body) hash_map"

record ('s, 'c, 'x, 'r) sync_view =
  sv_env :: "('s, 'c, 'x) env"
  sv_wire :: "('s, 'c, 'x) wire"
  sv_cache :: "('s, 'c, 'x) block_cache"
  sv_nodeid :: node_id
  sv_epoch :: epoch
  sv_val_epoch_map :: validators_epoch_mapping
  sv_secondary_peers :: "(node_id, round) btree_map"
  sv_choose :: "'r \<Rightarrow> node_id list \<Rightarrow> node_id option \<times> 'r"
  sv_draws :: "'r \<Rightarrow> nat \<Rightarrow> u256"
  sv_drawn :: "'r \<Rightarrow> 'r"
  sv_iter_ids :: "body_id list \<Rightarrow> body_id list"
  sv_iter_ranges :: "block_range list \<Rightarrow> block_range list"

definition set_override_peers :: "node_id list \<Rightarrow> ('s, 'c, 'x, 'r) block_sync \<Rightarrow> ('s, 'c, 'x, 'r) block_sync" where
  "set_override_peers peers st = st\<lparr>bs_override_peers := filter (\<lambda>p. p \<noteq> bs_self_node_id st) peers\<rparr>"

definition block_sync_new :: "node_id list \<Rightarrow> node_id \<Rightarrow> 'r \<Rightarrow> ('s, 'c, 'x, 'r) block_sync" where
  "block_sync_new peers self rng =
     set_override_peers peers
       \<lparr>bs_headers_requests = [], bs_payload_requests = [], bs_self_headers = [], bs_self_payloads = [],
        bs_in_flight = 0, bs_completed = [], bs_mode = StateSyncRequester, bs_override_peers = [],
        bs_self_node_id = self, bs_rng = rng\<rparr>"

definition clear_self_requests :: "('s, 'c, 'x, 'r) block_sync \<Rightarrow> ('s, 'c, 'x, 'r) block_sync" where
  "clear_self_requests st = st\<lparr>bs_self_headers := [], bs_self_payloads := [], bs_in_flight := 0, bs_completed := []\<rparr>"

definition self_request_exists :: "('s, 'c, 'x, 'r) block_sync \<Rightarrow> block_range \<Rightarrow> bool" where
  "self_request_exists st r \<longleftrightarrow> map_of (bs_self_headers st) r \<noteq> None \<or> map_of (bs_completed st) r \<noteq> None"

type_synonym ('s, 'c, 'x, 'r) sync_result = "(('s, 'c, 'x) sync_command list \<times> ('s, 'c, 'x, 'r) block_sync) option"

section \<open>Requests of the node\<close>

definition handle_self_request ::
  "sync_requester \<Rightarrow> block_range \<Rightarrow> ('s, 'c, 'x, 'r) block_sync \<Rightarrow> ('s, 'c, 'x) sync_command list \<times> ('s, 'c, 'x, 'r) block_sync" where
  "handle_self_request requester r st =
     (if br_num_blocks r = 0 then ([], st)
      else
        let st = (if requester \<noteq> bs_mode st then (clear_self_requests st)\<lparr>bs_mode := requester\<rparr> else st)
        in if self_request_exists st r then ([], st)
           else ([FetchHeaders r],
                 st\<lparr>bs_self_headers := AList.update r \<lparr>sr_requester = requester, sr_to = None\<rparr> (bs_self_headers st)\<rparr>))"

definition handle_self_cancel_request ::
  "sync_requester \<Rightarrow> block_range \<Rightarrow> ('s, 'c, 'x, 'r) block_sync \<Rightarrow> ('s, 'c, 'x, 'r) block_sync" where
  "handle_self_cancel_request requester r st =
     (let st = (case map_of (bs_self_headers st) r of
                  Some q \<Rightarrow> if sr_requester q = requester then st\<lparr>bs_self_headers := AList.delete r (bs_self_headers st)\<rparr> else st
                | None \<Rightarrow> st)
      in case map_of (bs_completed st) r of
           Some h \<Rightarrow> if sh_requester h = requester then st\<lparr>bs_completed := AList.delete r (bs_completed st)\<rparr> else st
         | None \<Rightarrow> st)"

section \<open>Peers and caches\<close>

definition pick_peer :: "('s, 'c, 'x, 'r) sync_view \<Rightarrow> node_id list \<Rightarrow> 'r \<Rightarrow> (node_id option \<times> 'r) option" where
  "pick_peer w override_peers rng =
     (if override_peers \<noteq> [] then Some (sv_choose w rng override_peers)
      else do {
        vs \<leftarrow> get_val_set (sv_val_epoch_map w) (sv_epoch w);
        if bt_get (validators vs) (sv_nodeid w) = None then
          Some (sv_choose w rng (bt_keys (sv_secondary_peers w)))
        else do {
          let members = filter (\<lambda>e. fst e \<noteq> sv_nodeid w) (validators vs);
          _ \<leftarrow> assert_p (members \<noteq> []);
          n \<leftarrow> generate_random_validator_with_randomizer members (randomize_256_with_rng (sv_draws w rng));
          Some (Some n, sv_drawn w rng)
        }
      })"

text \<open>Asking a peer, when the ledger does not have the data and when a peer does not answer in time.\<close>

definition ask_peer ::
  "('s, 'c, 'x, 'r) sync_view \<Rightarrow> sync_request \<Rightarrow> ('s, 'c, 'x, 'r) block_sync
     \<Rightarrow> (node_id option \<times> ('s, 'c, 'x) sync_command list \<times> ('s, 'c, 'x, 'r) block_sync) option" where
  "ask_peer w req st = do {
     (to, rng) \<leftarrow> pick_peer w (bs_override_peers st) (bs_rng st);
     Some (to, (case to of Some n \<Rightarrow> [SendRequest n req] | None \<Rightarrow> []) @ [ScheduleSyncTimeout req], st\<lparr>bs_rng := rng\<rparr>)
   }"

definition headers_linked :: "('s, 'c, 'x) env \<Rightarrow> ('s, 'c, 'x) consensus_block_header list \<Rightarrow> bool" where
  "headers_linked E hs \<longleftrightarrow> list_all (\<lambda>(p, b). get_id E p = get_parent_id b) (zip hs (drop 1 hs))"

definition verify_block_headers ::
  "('s, 'c, 'x) env \<Rightarrow> block_range \<Rightarrow> ('s, 'c, 'x) consensus_block_header list \<Rightarrow> bool option" where
  "verify_block_headers E r hs =
     (if length hs \<noteq> br_num_blocks r then Some False
      else if hs = [] then None
      else if br_last_block_id r \<noteq> get_id E (last hs) then Some False
      else Some (headers_linked E hs))"

definition cache_payload :: "('s, 'c, 'x, 'r) sync_view \<Rightarrow> body_id \<Rightarrow> 'x consensus_block_body option" where
  "cache_payload w i =
     (case sv_cache w of
        CacheBuffer m \<Rightarrow> map_of m i
      | CacheTree T \<Rightarrow> tree_get_payload (bt_tree T) i)"

definition get_cached_payload ::
  "('s, 'c, 'x, 'r) sync_view \<Rightarrow> ('s, 'c, 'x, 'r) block_sync \<Rightarrow> body_id \<Rightarrow> 'x consensus_block_body option" where
  "get_cached_payload w st i =
     (case cache_payload w i of
        Some p \<Rightarrow> Some p
      | None \<Rightarrow>
          (case List.map_filter (\<lambda>r. Option.bind (map_of (bs_completed st) r) (\<lambda>h. map_of (sh_payload_cache h) i))
                  (sv_iter_ranges w (map fst (bs_completed st))) of
             [] \<Rightarrow> None
           | p # _ \<Rightarrow> Some p))"

section \<open>Bodies for the node\<close>

definition hydrate_header ::
  "body_id \<Rightarrow> 'x consensus_block_body \<Rightarrow> ('s, 'c, 'x) self_completed_header \<Rightarrow> ('s, 'c, 'x) self_completed_header" where
  "hydrate_header i p h =
     (let hit = (\<lambda>e. block_body_id (fst e) = i \<and> snd e = None)
      in h\<lparr>sh_blocks := map (\<lambda>e. if hit e then (fst e, Some p) else e) (sh_blocks h),
           sh_payload_cache := (if list_ex hit (sh_blocks h) then AList.update i p (sh_payload_cache h)
                                else sh_payload_cache h)\<rparr>)"

definition hydrate ::
  "body_id \<Rightarrow> 'x consensus_block_body \<Rightarrow> ('s, 'c, 'x, 'r) block_sync \<Rightarrow> ('s, 'c, 'x, 'r) block_sync" where
  "hydrate i p st = st\<lparr>bs_completed := map (\<lambda>(r, h). (r, hydrate_header i p h)) (bs_completed st)\<rparr>"

definition finish_request :: "('s, 'c, 'x, 'r) block_sync \<Rightarrow> ('s, 'c, 'x, 'r) block_sync" where
  "finish_request st = st\<lparr>bs_in_flight := wrapping_add u64_max (bs_in_flight st) u64_max\<rparr>"

fun use_cached_payloads ::
  "('s, 'c, 'x, 'r) sync_view \<Rightarrow> body_id list \<Rightarrow> ('s, 'c, 'x, 'r) block_sync \<Rightarrow> ('s, 'c, 'x, 'r) sync_result" where
  "use_cached_payloads w [] st = Some ([], st)"
| "use_cached_payloads w (i # is) st =
     (case get_cached_payload w st i of
        None \<Rightarrow> use_cached_payloads w is st
      | Some p \<Rightarrow> do {
          req \<leftarrow> map_of (bs_self_payloads st) i;
          let st = st\<lparr>bs_self_payloads := AList.delete i (bs_self_payloads st)\<rparr>;
          let st = (if req \<noteq> None then finish_request st else st);
          let cmds = (case req of
                        Some q \<Rightarrow> if sr_to q \<noteq> None then [ResetSyncTimeout (PayloadRequest i)] else []
                      | None \<Rightarrow> []);
          (rest, st) \<leftarrow> use_cached_payloads w is (hydrate i p st);
          Some (cmds @ rest, st)
        })"

function start_payload_requests ::
  "('s, 'c, 'x, 'r) sync_view \<Rightarrow> ('s, 'c, 'x, 'r) block_sync
     \<Rightarrow> ('s, 'c, 'x) sync_command list \<times> ('s, 'c, 'x, 'r) block_sync" where
  "start_payload_requests w st =
     (if bs_in_flight st < BLOCKSYNC_MAX_PAYLOAD_REQUESTS then
        case find (\<lambda>i. map_of (bs_self_payloads st) i = Some None) (sv_iter_ids w (map fst (bs_self_payloads st))) of
          None \<Rightarrow> ([], st)
        | Some i \<Rightarrow>
            let (cmds, st) = start_payload_requests w
                  (st\<lparr>bs_self_payloads := AList.update i (Some \<lparr>sr_requester = bs_mode st, sr_to = None\<rparr>) (bs_self_payloads st),
                      bs_in_flight := bs_in_flight st + 1\<rparr>)
            in (FetchPayload i # cmds, st)
      else ([], st))"
  by pat_completeness auto
termination by (relation "measure (\<lambda>(w, st). BLOCKSYNC_MAX_PAYLOAD_REQUESTS - bs_in_flight st)") auto

declare start_payload_requests.simps [simp del]

fun full_blocks ::
  "('s, 'c, 'x) env \<Rightarrow> ('s, 'c, 'x) wire \<Rightarrow> (('s, 'c, 'x) consensus_block_header \<times> 'x consensus_block_body option) list
     \<Rightarrow> ('s, 'c, 'x) consensus_full_block list option" where
  "full_blocks E W [] = Some []"
| "full_blocks E W ((h, payload) # rest) = do {
     p \<leftarrow> payload;
     b \<leftarrow> (case full_block_new E W h p of Inr b \<Rightarrow> Some b | Inl _ \<Rightarrow> None);
     bs \<leftarrow> full_blocks E W rest;
     Some (b # bs)
   }"

fun emit_ranges ::
  "('s, 'c, 'x, 'r) sync_view \<Rightarrow> block_range list \<Rightarrow> ('s, 'c, 'x, 'r) block_sync \<Rightarrow> ('s, 'c, 'x, 'r) sync_result" where
  "emit_ranges w [] st = Some ([], st)"
| "emit_ranges w (r # rs) st = do {
     h \<leftarrow> map_of (bs_completed st) r;
     blocks \<leftarrow> full_blocks (sv_env w) (sv_wire w) (sh_blocks h);
     (cmds, st) \<leftarrow> emit_ranges w rs (st\<lparr>bs_completed := AList.delete r (bs_completed st)\<rparr>);
     Some (EmitBlocks (sh_requester h) r blocks # cmds, st)
   }"

definition handle_completed_ranges ::
  "('s, 'c, 'x, 'r) sync_view \<Rightarrow> ('s, 'c, 'x, 'r) block_sync \<Rightarrow> ('s, 'c, 'x, 'r) sync_result" where
  "handle_completed_ranges w st =
     emit_ranges w
       (filter (\<lambda>r. case map_of (bs_completed st) r of
                      None \<Rightarrow> False
                    | Some h \<Rightarrow> list_all (\<lambda>e. snd e \<noteq> None) (sh_blocks h))
         (sv_iter_ranges w (map fst (bs_completed st)))) st"

definition try_initiate_payload_requests_for_self ::
  "('s, 'c, 'x, 'r) sync_view \<Rightarrow> ('s, 'c, 'x, 'r) block_sync \<Rightarrow> ('s, 'c, 'x, 'r) sync_result" where
  "try_initiate_payload_requests_for_self w st = do {
     (cached, st) \<leftarrow> use_cached_payloads w (sv_iter_ids w (map fst (bs_self_payloads st))) st;
     let (started, st) = start_payload_requests w st;
     (emitted, st) \<leftarrow> handle_completed_ranges w st;
     Some (cached @ started @ emitted, st)
   }"

section \<open>Answers for the node\<close>

definition request_payload :: "body_id \<Rightarrow> (body_id, self_request option) hash_map \<Rightarrow> (body_id, self_request option) hash_map" where
  "request_payload i m = (if map_of m i = None then AList.update i None m else m)"

definition accept_headers ::
  "block_range \<Rightarrow> ('s, 'c, 'x) consensus_block_header list \<Rightarrow> ('s, 'c, 'x, 'r) block_sync \<Rightarrow> ('s, 'c, 'x, 'r) block_sync" where
  "accept_headers r hs st =
     st\<lparr>bs_self_headers := AList.delete r (bs_self_headers st),
        bs_self_payloads := fold request_payload (map block_body_id hs) (bs_self_payloads st),
        bs_completed := AList.update r
          \<lparr>sh_requester = bs_mode st, sh_blocks = map (\<lambda>h. (h, None)) hs, sh_payload_cache = []\<rparr> (bs_completed st)\<rparr>"

definition handle_headers_response_for_self ::
  "('s, 'c, 'x, 'r) sync_view \<Rightarrow> node_id option \<Rightarrow> ('s, 'c, 'x) headers_response \<Rightarrow> ('s, 'c, 'x, 'r) block_sync
     \<Rightarrow> ('s, 'c, 'x, 'r) sync_result" where
  "handle_headers_response_for_self w sender resp st =
     (let r = headers_response_range resp
      in case map_of (bs_self_headers st) r of
           None \<Rightarrow> Some ([], st)
         | Some q \<Rightarrow> do {
             (cmds, st) \<leftarrow>
               (case resp of
                  HeadersFound _ hs \<Rightarrow> do {
                    _ \<leftarrow> assert_p (sr_requester q = bs_mode st);
                    valid \<leftarrow> verify_block_headers (sv_env w) r hs;
                    if valid then
                      Some (if sender \<noteq> None then [ResetSyncTimeout (HeadersRequest r)] else [], accept_headers r hs st)
                    else do { _ \<leftarrow> assert_p (sender \<noteq> None); Some ([], st) }
                  }
                | HeadersNotAvailable _ \<Rightarrow>
                    if sender = None \<and> sr_to q = None then do {
                      (to, cmds, st) \<leftarrow> ask_peer w (HeadersRequest r) st;
                      Some (cmds, st\<lparr>bs_self_headers := AList.update r (q\<lparr>sr_to := to\<rparr>) (bs_self_headers st)\<rparr>)
                    } else Some ([], st));
             (more, st) \<leftarrow> try_initiate_payload_requests_for_self w st;
             Some (cmds @ more, st)
           })"

definition handle_payload_response_for_self ::
  "('s, 'c, 'x, 'r) sync_view \<Rightarrow> node_id option \<Rightarrow> 'x body_response \<Rightarrow> ('s, 'c, 'x, 'r) block_sync
     \<Rightarrow> ('s, 'c, 'x, 'r) sync_result" where
  "handle_payload_response_for_self w sender resp st =
     (let i = body_response_id (sv_env w) (sv_wire w) resp
      in case map_of (bs_self_payloads st) i of
           None \<Rightarrow> Some ([], st)
         | Some None \<Rightarrow> Some ([], st)
         | Some (Some q) \<Rightarrow> do {
             (cmds, st) \<leftarrow>
               (case resp of
                  BodyFound p \<Rightarrow> do {
                    _ \<leftarrow> assert_p (sr_requester q = bs_mode st);
                    let st = (finish_request st)\<lparr>bs_self_payloads := AList.delete i (bs_self_payloads st)\<rparr>;
                    Some (if sender \<noteq> None then [ResetSyncTimeout (PayloadRequest i)] else [], hydrate i p st)
                  }
                | BodyNotAvailable _ \<Rightarrow>
                    if sender = None \<and> sr_to q = None then do {
                      (to, cmds, st) \<leftarrow> ask_peer w (PayloadRequest i) st;
                      Some (cmds, st\<lparr>bs_self_payloads := AList.update i (Some (q\<lparr>sr_to := to\<rparr>)) (bs_self_payloads st)\<rparr>)
                    } else Some ([], st));
             (emitted, st) \<leftarrow> handle_completed_ranges w st;
             (more, st) \<leftarrow> try_initiate_payload_requests_for_self w st;
             Some (cmds @ emitted @ more, st)
           })"

section \<open>Requests of peers, answers and timeouts\<close>

definition cached_headers ::
  "('s, 'c, 'x, 'r) sync_view \<Rightarrow> block_range \<Rightarrow> ('s, 'c, 'x) consensus_block_header list option" where
  "cached_headers w r =
     (case sv_cache w of
        CacheTree T \<Rightarrow>
          map_option (\<lambda>blocks. rev (take (br_num_blocks r) (rev (map fb_header blocks))))
            (get_parent_block_chain T (br_last_block_id r))
      | CacheBuffer _ \<Rightarrow> Some [])"

definition handle_peer_request ::
  "('s, 'c, 'x, 'r) sync_view \<Rightarrow> node_id \<Rightarrow> sync_request \<Rightarrow> ('s, 'c, 'x, 'r) block_sync \<Rightarrow> ('s, 'c, 'x, 'r) sync_result" where
  "handle_peer_request w sender req st =
     (case req of
        HeadersRequest r \<Rightarrow>
          if br_num_blocks r = 0 then Some ([], st)
          else do {
            cached \<leftarrow> cached_headers w r;
            if length cached = br_num_blocks r then do {
              _ \<leftarrow> assert_p (cached \<noteq> [] \<and> get_id (sv_env w) (last cached) = br_last_block_id r);
              Some ([SendResponse sender (HeadersResponse (HeadersFound r cached))], st)
            } else
              let fetch = \<lparr>br_last_block_id = (case cached of [] \<Rightarrow> br_last_block_id r | h # _ \<Rightarrow> get_parent_id h),
                           br_num_blocks = br_num_blocks r - length cached\<rparr>
              in Some ([FetchHeaders fetch],
                   st\<lparr>bs_headers_requests := AList.update fetch
                        (bt_insert sender cached (entry_or [] (map_of (bs_headers_requests st) fetch))) (bs_headers_requests st)\<rparr>)
          }
      | PayloadRequest i \<Rightarrow>
          (case get_cached_payload w st i of
             Some p \<Rightarrow> Some ([SendResponse sender (PayloadResponse (BodyFound p))], st)
           | None \<Rightarrow>
               Some ([FetchPayload i],
                 st\<lparr>bs_payload_requests := AList.update i
                      (insort_insert sender (entry_or [] (map_of (bs_payload_requests st) i))) (bs_payload_requests st)\<rparr>)))"

definition answer_headers ::
  "('s, 'c, 'x) env \<Rightarrow> ('s, 'c, 'x) headers_response \<Rightarrow> node_id \<times> ('s, 'c, 'x) consensus_block_header list
     \<Rightarrow> ('s, 'c, 'x) sync_command option" where
  "answer_headers E resp e =
     (let r = headers_response_range resp;
          cached = snd e;
          requested = \<lparr>br_last_block_id = (if cached = [] then br_last_block_id r else get_id E (last cached)),
                       br_num_blocks = wrapping_add u64_max (br_num_blocks r) (length cached)\<rparr>
      in case resp of
           HeadersFound _ hs \<Rightarrow> do {
             _ \<leftarrow> assert_p (headers_linked E (hs @ cached));
             Some (SendResponse (fst e) (HeadersResponse (HeadersFound requested (hs @ cached))))
           }
         | HeadersNotAvailable _ \<Rightarrow> Some (SendResponse (fst e) (HeadersResponse (HeadersNotAvailable requested))))"

fun answer_all ::
  "('s, 'c, 'x) env \<Rightarrow> ('s, 'c, 'x) headers_response \<Rightarrow> (node_id \<times> ('s, 'c, 'x) consensus_block_header list) list
     \<Rightarrow> ('s, 'c, 'x) sync_command list option" where
  "answer_all E resp [] = Some []"
| "answer_all E resp (e # es) = do {
     c \<leftarrow> answer_headers E resp e;
     cs \<leftarrow> answer_all E resp es;
     Some (c # cs)
   }"

definition handle_ledger_response ::
  "('s, 'c, 'x, 'r) sync_view \<Rightarrow> ('s, 'c, 'x) sync_response \<Rightarrow> ('s, 'c, 'x, 'r) block_sync \<Rightarrow> ('s, 'c, 'x, 'r) sync_result" where
  "handle_ledger_response w resp st =
     (case resp of
        HeadersResponse hr \<Rightarrow> do {
          let r = headers_response_range hr;
          let requesters = entry_or [] (map_of (bs_headers_requests st) r);
          answers \<leftarrow> answer_all (sv_env w) hr requesters;
          (cmds, st) \<leftarrow> handle_headers_response_for_self w None hr
            (st\<lparr>bs_headers_requests := AList.delete r (bs_headers_requests st)\<rparr>);
          Some (answers @ cmds, st)
        }
      | PayloadResponse br \<Rightarrow> do {
          let i = body_response_id (sv_env w) (sv_wire w) br;
          let requesters = entry_or [] (map_of (bs_payload_requests st) i);
          (cmds, st) \<leftarrow> handle_payload_response_for_self w None br
            (st\<lparr>bs_payload_requests := AList.delete i (bs_payload_requests st)\<rparr>);
          Some (map (\<lambda>n. SendResponse n (PayloadResponse br)) requesters @ cmds, st)
        })"

definition handle_peer_response ::
  "('s, 'c, 'x, 'r) sync_view \<Rightarrow> node_id \<Rightarrow> ('s, 'c, 'x) sync_response \<Rightarrow> ('s, 'c, 'x, 'r) block_sync
     \<Rightarrow> ('s, 'c, 'x, 'r) sync_result" where
  "handle_peer_response w sender resp st =
     (case resp of
        HeadersResponse hr \<Rightarrow> handle_headers_response_for_self w (Some sender) hr st
      | PayloadResponse br \<Rightarrow> handle_payload_response_for_self w (Some sender) br st)"

definition handle_sync_timeout ::
  "('s, 'c, 'x, 'r) sync_view \<Rightarrow> sync_request \<Rightarrow> ('s, 'c, 'x, 'r) block_sync \<Rightarrow> ('s, 'c, 'x, 'r) sync_result" where
  "handle_sync_timeout w req st =
     (case req of
        HeadersRequest r \<Rightarrow>
          (case map_of (bs_self_headers st) r of
             None \<Rightarrow> Some ([], st)
           | Some q \<Rightarrow> do {
               (to, cmds, st) \<leftarrow> ask_peer w req st;
               Some (cmds, st\<lparr>bs_self_headers := AList.update r (q\<lparr>sr_to := to\<rparr>) (bs_self_headers st)\<rparr>)
             })
      | PayloadRequest i \<Rightarrow>
          (case map_of (bs_self_payloads st) i of
             None \<Rightarrow> Some ([], st)
           | Some None \<Rightarrow> Some ([], st)
           | Some (Some q) \<Rightarrow> do {
               (to, cmds, st) \<leftarrow> ask_peer w req st;
               Some (cmds, st\<lparr>bs_self_payloads := AList.update i (Some (q\<lparr>sr_to := to\<rparr>)) (bs_self_payloads st)\<rparr>)
             }))"

section \<open>Runs\<close>

datatype ('s, 'c, 'x) sync_event =
    SelfRequest sync_requester block_range
  | SelfCancelRequest sync_requester block_range
  | PeerRequest node_id sync_request
  | PeerResponse node_id "('s, 'c, 'x) sync_response"
  | LedgerResponse "('s, 'c, 'x) sync_response"
  | SyncTimeout sync_request
  | OverridePeers "node_id list"

definition sync_step ::
  "('s, 'c, 'x, 'r) sync_view \<Rightarrow> ('s, 'c, 'x) sync_event \<Rightarrow> ('s, 'c, 'x, 'r) block_sync \<Rightarrow> ('s, 'c, 'x, 'r) sync_result" where
  "sync_step w ev st =
     (case ev of
        SelfRequest q r \<Rightarrow> Some (handle_self_request q r st)
      | SelfCancelRequest q r \<Rightarrow> Some ([], handle_self_cancel_request q r st)
      | PeerRequest n req \<Rightarrow> handle_peer_request w n req st
      | PeerResponse n resp \<Rightarrow> handle_peer_response w n resp st
      | LedgerResponse resp \<Rightarrow> handle_ledger_response w resp st
      | SyncTimeout req \<Rightarrow> handle_sync_timeout w req st
      | OverridePeers ps \<Rightarrow> Some ([], set_override_peers ps st))"

fun sync_run ::
  "(('s, 'c, 'x, 'r) sync_view \<times> ('s, 'c, 'x) sync_event) list \<Rightarrow> ('s, 'c, 'x, 'r) block_sync \<Rightarrow> ('s, 'c, 'x, 'r) sync_result" where
  "sync_run [] st = Some ([], st)"
| "sync_run ((w, ev) # evs) st = do {
     (cmds, st) \<leftarrow> sync_step w ev st;
     (rest, st) \<leftarrow> sync_run evs st;
     Some (cmds @ rest, st)
   }"

section \<open>What the state means\<close>

definition verified_headers :: "('s, 'c, 'x) env \<Rightarrow> block_range \<Rightarrow> ('s, 'c, 'x) consensus_block_header list \<Rightarrow> bool" where
  "verified_headers E r hs \<longleftrightarrow> hs \<noteq> [] \<and> length hs = br_num_blocks r \<and> get_id E (last hs) = br_last_block_id r \<and> headers_linked E hs"

definition header_ok ::
  "('s, 'c, 'x) env \<Rightarrow> ('s, 'c, 'x) wire \<Rightarrow> body_id set \<Rightarrow> block_range \<Rightarrow> ('s, 'c, 'x) self_completed_header \<Rightarrow> bool" where
  "header_ok E W K r h \<longleftrightarrow> verified_headers E r (map fst (sh_blocks h))
     \<and> (\<forall>b p. (b, Some p) \<in> set (sh_blocks h) \<longrightarrow> body_get_id E W p = block_body_id b)
     \<and> (\<forall>b. (b, None) \<in> set (sh_blocks h) \<longrightarrow> block_body_id b \<in> K)
     \<and> (\<forall>i p. map_of (sh_payload_cache h) i = Some p \<longrightarrow> body_get_id E W p = i)"

definition extends :: "('s, 'c, 'x) env \<Rightarrow> block_range \<Rightarrow> ('s, 'c, 'x) consensus_block_header list \<Rightarrow> bool" where
  "extends E r hs \<longleftrightarrow> headers_linked E hs \<and> (hs \<noteq> [] \<longrightarrow> get_parent_id (hd hs) = br_last_block_id r)
     \<and> br_num_blocks r + length hs \<le> u64_max"

definition sync_inv :: "('s, 'c, 'x) env \<Rightarrow> ('s, 'c, 'x) wire \<Rightarrow> ('s, 'c, 'x, 'r) block_sync \<Rightarrow> bool" where
  "sync_inv E W st \<longleftrightarrow> hm_wf (bs_self_payloads st) \<and> hm_wf (bs_completed st)
     \<and> (\<forall>r q. map_of (bs_self_headers st) r = Some q \<longrightarrow> sr_requester q = bs_mode st \<and> br_num_blocks r \<noteq> 0)
     \<and> (\<forall>i q. map_of (bs_self_payloads st) i = Some (Some q) \<longrightarrow> sr_requester q = bs_mode st)
     \<and> bs_in_flight st = length (filter (\<lambda>e. snd e \<noteq> None) (bs_self_payloads st))
     \<and> bs_in_flight st \<le> BLOCKSYNC_MAX_PAYLOAD_REQUESTS
     \<and> (\<forall>r h. map_of (bs_completed st) r = Some h \<longrightarrow> header_ok E W (dom (map_of (bs_self_payloads st))) r h)
     \<and> (\<forall>r m n hs. map_of (bs_headers_requests st) r = Some m \<longrightarrow> (n, hs) \<in> set m \<longrightarrow> extends E r hs)"

fun emit_ok :: "('s, 'c, 'x) env \<Rightarrow> ('s, 'c, 'x) wire \<Rightarrow> ('s, 'c, 'x) sync_command \<Rightarrow> bool" where
  "emit_ok E W (EmitBlocks q r blocks) \<longleftrightarrow> verified_headers E r (map fb_header blocks)
     \<and> list_all (\<lambda>b. body_get_id E W (fb_body b) = fb_body_id b) blocks"
| "emit_ok E W (SendResponse n (HeadersResponse (HeadersFound r hs))) \<longleftrightarrow> verified_headers E r hs"
| "emit_ok E W _ \<longleftrightarrow> True"

text \<open>The result of a step: no panic, the invariant, and only verified chains for the node and for its peers.\<close>

definition good :: "('s, 'c, 'x) env \<Rightarrow> ('s, 'c, 'x) wire \<Rightarrow> ('s, 'c, 'x, 'r) sync_result \<Rightarrow> bool" where
  "good E W res \<longleftrightarrow> (\<exists>cmds st. res = Some (cmds, st) \<and> sync_inv E W st \<and> list_all (emit_ok E W) cmds)"

lemma good_Some [simp]: "good E W (Some (cmds, st)) \<longleftrightarrow> sync_inv E W st \<and> list_all (emit_ok E W) cmds"
  by (simp add: good_def)

lemma good_bind:
  assumes "good E W m" and "\<And>cmds st. m = Some (cmds, st) \<Longrightarrow> sync_inv E W st \<Longrightarrow> list_all (emit_ok E W) cmds \<Longrightarrow> good E W (f (cmds, st))"
  shows "good E W (Option.bind m f)"
  using assms by (auto simp: good_def)

text \<open>What the handlers read: bodies are stored under their ids, the block tree keeps its invariant, the iteration order of
  a hash map is an order of its keys, and a peer can be picked.\<close>

definition view_ok :: "('s, 'c, 'x) env \<Rightarrow> ('s, 'c, 'x) wire \<Rightarrow> ('s, 'c, 'x, 'r) sync_view \<Rightarrow> bool" where
  "view_ok E W w \<longleftrightarrow> sv_env w = E \<and> sv_wire w = W
     \<and> (\<forall>i p. cache_payload w i = Some p \<longrightarrow> body_get_id E W p = i)
     \<and> (\<forall>T. sv_cache w = CacheTree T \<longrightarrow> bt_inv E T)
     \<and> (\<forall>ks. set (sv_iter_ids w ks) = set ks \<and> (distinct ks \<longrightarrow> distinct (sv_iter_ids w ks)))
     \<and> (\<forall>ks. set (sv_iter_ranges w ks) = set ks \<and> (distinct ks \<longrightarrow> distinct (sv_iter_ranges w ks)))
     \<and> (\<forall>peers rng. pick_peer w peers rng \<noteq> None)"

lemma view_okD:
  assumes "view_ok E W w"
  shows "sv_env w = E" "sv_wire w = W" "cache_payload w i = Some p \<Longrightarrow> body_get_id E W p = i"
    "sv_cache w = CacheTree T \<Longrightarrow> bt_inv E T"
    "set (sv_iter_ids w ks) = set ks" "distinct ks \<Longrightarrow> distinct (sv_iter_ids w ks)"
    "set (sv_iter_ranges w rs) = set rs" "distinct rs \<Longrightarrow> distinct (sv_iter_ranges w rs)"
    "pick_peer w peers rng \<noteq> None"
  using assms unfolding view_ok_def by blast+

lemma sync_invD:
  assumes "sync_inv E W st"
  shows "hm_wf (bs_self_payloads st)" "hm_wf (bs_completed st)"
    "map_of (bs_self_headers st) r = Some q \<Longrightarrow> sr_requester q = bs_mode st \<and> br_num_blocks r \<noteq> 0"
    "map_of (bs_self_payloads st) i = Some (Some p) \<Longrightarrow> sr_requester p = bs_mode st"
    "bs_in_flight st = length (filter (\<lambda>e. snd e \<noteq> None) (bs_self_payloads st))"
    "bs_in_flight st \<le> BLOCKSYNC_MAX_PAYLOAD_REQUESTS"
    "map_of (bs_completed st) r = Some h \<Longrightarrow> header_ok E W (dom (map_of (bs_self_payloads st))) r h"
    "map_of (bs_headers_requests st) r = Some m \<Longrightarrow> (n, hs) \<in> set m \<Longrightarrow> extends E r hs"
  using assms unfolding sync_inv_def by blast+

lemma sync_inv_new: "sync_inv E W (block_sync_new peers self rng)"
  by (simp add: sync_inv_def block_sync_new_def set_override_peers_def hm_wf_def)

lemma sync_inv_irrelevant [simp]:
  "sync_inv E W (st\<lparr>bs_rng := g\<rparr>) = sync_inv E W st" "sync_inv E W (st\<lparr>bs_override_peers := ps\<rparr>) = sync_inv E W st"
  "sync_inv E W (st\<lparr>bs_payload_requests := m\<rparr>) = sync_inv E W st"
  by (simp_all add: sync_inv_def)

section \<open>Headers\<close>

lemma headers_linked_simps [simp]:
  "headers_linked E []" "headers_linked E [h]"
  "headers_linked E (h # k # hs) \<longleftrightarrow> get_id E h = get_parent_id k \<and> headers_linked E (k # hs)"
  by (simp_all add: headers_linked_def)

lemma headers_linked_append:
  "headers_linked E (as @ bs) \<longleftrightarrow> headers_linked E as \<and> headers_linked E bs \<and>
     (as \<noteq> [] \<longrightarrow> bs \<noteq> [] \<longrightarrow> get_id E (last as) = get_parent_id (hd bs))"
proof (induction as)
  case (Cons a as)
  then show ?case by (cases as; cases bs) auto
qed simp

lemma verify_correct:
  "br_num_blocks r \<noteq> 0 \<Longrightarrow> verify_block_headers E r hs = Some (verified_headers E r hs)"
  by (auto simp: verify_block_headers_def verified_headers_def)

text \<open>The chain that the block tree returns is linked and ends in the requested block.\<close>

lemma parent_chain_linked:
  assumes "bt_inv E T" and "bt_entry T k = Some e" and "headers_linked E (map fb_header (rev (bs @ [validated_block e])))"
  shows "\<exists>ch. parent_chain_loop T (bs @ [validated_block e]) = Some ch \<and> headers_linked E (map fb_header ch)
    \<and> (\<exists>pre. ch = pre @ rev (bs @ [validated_block e]))"
  using assms(2,3)
proof (induction "fb_round (validated_block e)" arbitrary: k e bs rule: less_induct)
  case less
  let ?b = "validated_block e"
  show ?case
  proof (cases "bt_entry T (fb_parent_id ?b)")
    case None
    then show ?thesis using less.prems(2) by (subst parent_chain_loop.simps) simp
  next
    case (Some p)
    note ok = bt_invD(5)[OF assms(1) less.prems(1)]
    have "fb_round (validated_block p) < fb_round ?b" using entry_okD(1)[OF ok] entry_okD(6)[OF ok Some] by simp
    moreover have "get_id E (fb_header (validated_block p)) = get_parent_id (fb_header ?b)"
      using bt_invD(6)[OF assms(1) Some] by (simp add: fb_id_def fb_parent_id_def get_parent_id_def)
    then have "headers_linked E (map fb_header (rev ((bs @ [?b]) @ [validated_block p])))"
      using less.prems(2) by simp
    ultimately obtain ch where "parent_chain_loop T ((bs @ [?b]) @ [validated_block p]) = Some ch"
      "headers_linked E (map fb_header ch)" "\<exists>pre. ch = pre @ rev ((bs @ [?b]) @ [validated_block p])"
      using less.hyps[OF _ Some, of "bs @ [?b]"] by blast
    then show ?thesis using Some by (subst parent_chain_loop.simps) auto
  qed
qed

lemma cached_headers_ok:
  assumes "view_ok E W w"
  shows "\<exists>hs. cached_headers w r = Some hs \<and> headers_linked E hs \<and> length hs \<le> br_num_blocks r
    \<and> (hs \<noteq> [] \<longrightarrow> get_id E (last hs) = br_last_block_id r)"
proof (cases "sv_cache w")
  case (CacheTree T)
  note inv = view_okD(4)[OF assms CacheTree]
  obtain ch where ch: "get_parent_block_chain T (br_last_block_id r) = Some ch" "headers_linked E (map fb_header ch)"
    "ch \<noteq> [] \<longrightarrow> get_id E (fb_header (last ch)) = br_last_block_id r"
  proof (cases "bt_entry T (br_last_block_id r)")
    case (Some e)
    then show ?thesis
      using that parent_chain_linked[OF inv Some, of "[]"] bt_invD(6)[OF inv Some]
      by (auto simp: get_parent_block_chain_def fb_id_def)
  qed (use that in \<open>simp add: get_parent_block_chain_def\<close>)
  let ?hs = "rev (take (br_num_blocks r) (rev (map fb_header ch)))"
  have "map fb_header ch = rev (drop (br_num_blocks r) (rev (map fb_header ch))) @ ?hs"
    by (metis append_take_drop_id rev_append rev_rev_ident)
  then have l: "headers_linked E ?hs" using ch(2) headers_linked_append by metis
  have "?hs \<noteq> [] \<longrightarrow> get_id E (last ?hs) = br_last_block_id r"
    using ch(3) by (cases ch rule: rev_cases) (auto simp: take_Cons split: nat.splits)
  then show ?thesis using l by (auto simp: cached_headers_def CacheTree ch(1) length_take)
qed (simp add: cached_headers_def)

section \<open>Bodies\<close>

lemma cached_payload_id:
  assumes "view_ok E W w" and "sync_inv E W st" and "get_cached_payload w st i = Some p"
  shows "body_get_id E W p = i"
proof (cases "cache_payload w i")
  case None
  let ?f = "\<lambda>r. Option.bind (map_of (bs_completed st) r) (\<lambda>h. map_of (sh_payload_cache h) i)"
  have "p \<in> set (List.map_filter ?f (sv_iter_ranges w (map fst (bs_completed st))))"
    using None assms(3) by (auto simp: get_cached_payload_def split: list.splits)
  then obtain r h where "map_of (bs_completed st) r = Some h" "map_of (sh_payload_cache h) i = Some p"
    by (auto simp: map_filter_def bind_eq_Some_conv)
  then show ?thesis using sync_invD(7)[OF assms(2)] unfolding header_ok_def by blast
next
  case (Some q)
  then show ?thesis using assms(3) view_okD(3)[OF assms(1)] by (simp add: get_cached_payload_def)
qed

lemma hydrate_header_ok:
  assumes "header_ok E W K r h" and "body_get_id E W p = i"
  shows "header_ok E W (K - {i}) r (hydrate_header i p h)"
proof -
  let ?g = "\<lambda>e. if block_body_id (fst e) = i \<and> snd e = None then (fst e, Some p) else e"
  have b: "sh_blocks (hydrate_header i p h) = map ?g (sh_blocks h)" by (simp add: hydrate_header_def)
  have m: "map fst (map ?g (sh_blocks h)) = map fst (sh_blocks h)" by simp
  have "verified_headers E r (map fst (map ?g (sh_blocks h)))" unfolding m using assms(1) by (simp add: header_ok_def)
  moreover have "body_get_id E W q = block_body_id c" if "(c, Some q) \<in> set (map ?g (sh_blocks h))" for c q
    using that assms by (auto simp: header_ok_def split: if_splits)
  moreover have "block_body_id c \<in> K - {i}" if "(c, None) \<in> set (map ?g (sh_blocks h))" for c
    using that assms(1) by (auto simp: header_ok_def split: if_splits)
  moreover have "body_get_id E W q = j" if "map_of (sh_payload_cache (hydrate_header i p h)) j = Some q" for j q
    using that assms by (auto simp: hydrate_header_def update_conv' header_ok_def split: if_splits)
  ultimately show ?thesis unfolding header_ok_def b by blast
qed

lemma finish_request_exact:
  assumes "0 < bs_in_flight st" and "bs_in_flight st \<le> BLOCKSYNC_MAX_PAYLOAD_REQUESTS"
  shows "finish_request st = st\<lparr>bs_in_flight := bs_in_flight st - 1\<rparr>"
proof -
  obtain n where n: "bs_in_flight st = Suc n" using assms(1) gr0_implies_Suc by blast
  have "n < u64_max" using assms(2) n by (simp add: BLOCKSYNC_MAX_PAYLOAD_REQUESTS_def u64_max_def)
  then show ?thesis using n mod_add_self2[of n "Suc u64_max"] by (simp add: finish_request_def wrapping_add_def)
qed

text \<open>A body settles its request: the request goes away and every header that waits for the body gets it.\<close>

lemma settle_inv:
  assumes inv: "sync_inv E W st" and req: "map_of (bs_self_payloads st) i = Some req" and p: "body_get_id E W p = i"
  defines "st' \<equiv> (if req \<noteq> None then finish_request st else st)"
  shows "sync_inv E W (hydrate i p (st'\<lparr>bs_self_payloads := AList.delete i (bs_self_payloads st)\<rparr>))"
proof -
  note d = sync_invD[OF inv]
  have n: "length (filter (\<lambda>e. snd e \<noteq> None) (bs_self_payloads st)) =
      length (filter (\<lambda>e. snd e \<noteq> None) (AList.delete i (bs_self_payloads st))) + (if req \<noteq> None then 1 else 0)"
    using alist_count_delete[OF d(1) req, of "\<lambda>e. snd e \<noteq> None"] by simp
  have f: "st' = st\<lparr>bs_in_flight := bs_in_flight st - (if req \<noteq> None then 1 else 0)\<rparr>"
  proof (cases "req = None")
    case False
    then have "0 < bs_in_flight st" using d(5) n by simp
    then show ?thesis unfolding st'_def using finish_request_exact[OF _ d(6)] False by simp
  qed (simp add: st'_def)
  have K: "dom (map_of (AList.delete i (bs_self_payloads st))) = dom (map_of (bs_self_payloads st)) - {i}"
    by (auto simp: delete_conv')
  have "header_ok E W (dom (map_of (bs_self_payloads st)) - {i}) r h"
    if "map_of (map (\<lambda>(r, h). (r, hydrate_header i p h)) (bs_completed st)) r = Some h" for r h
    using that hydrate_header_ok[OF d(7) p] by (auto simp: map_of_map)
  moreover have "hm_wf (map (\<lambda>(r, h). (r, hydrate_header i p h)) (bs_completed st))"
    using d(2) by (simp add: hm_wf_def o_def split_def)
  moreover have "hm_wf (AList.delete i (bs_self_payloads st))" using d(1) by (simp add: hmm.wf_del)
  moreover have "map_of (AList.delete i (bs_self_payloads st)) j = Some (Some q) \<Longrightarrow> sr_requester q = bs_mode st" for j q
    using d(4)[of j q] by (auto simp: delete_conv' split: if_splits)
  ultimately show ?thesis
    unfolding sync_inv_def f hydrate_def using d(3,5,6,8) n by (simp add: K)
qed

lemma use_cached_payloads_good:
  assumes "view_ok E W w" and "sync_inv E W st" and "distinct is" and "set is \<subseteq> dom (map_of (bs_self_payloads st))"
  shows "good E W (use_cached_payloads w is st)"
  using assms(2-4)
proof (induction "is" arbitrary: st)
  case (Cons i "is")
  show ?case
  proof (cases "get_cached_payload w st i")
    case None
    then show ?thesis using Cons by simp
  next
    case (Some p)
    obtain req where req: "map_of (bs_self_payloads st) i = Some req" using Cons.prems(3) by auto
    note inv = settle_inv[OF Cons.prems(1) req cached_payload_id[OF assms(1) Cons.prems(1) Some]]
    let ?st = "hydrate i p ((if req \<noteq> None then finish_request st else st)\<lparr>bs_self_payloads := AList.delete i (bs_self_payloads st)\<rparr>)"
    have c: "finish_request (st\<lparr>bs_self_payloads := m\<rparr>) = (finish_request st)\<lparr>bs_self_payloads := m\<rparr>" for m
      by (simp add: finish_request_def)
    have "set is \<subseteq> dom (map_of (bs_self_payloads ?st))"
      using Cons.prems(2,3) by (auto simp: hydrate_def delete_conv')
    then have "good E W (use_cached_payloads w is ?st)" using Cons.IH[OF inv] Cons.prems(2) by simp
    then show ?thesis
      using Some req by (auto simp: good_def c split: option.splits)
  qed
qed simp

lemma find_in: "find P xs = Some x \<Longrightarrow> x \<in> set xs \<and> P x"
  by (auto simp: find_Some_iff)

lemma start_payload_requests_good:
  "sync_inv E W st \<Longrightarrow> sync_inv E W (snd (start_payload_requests w st)) \<and>
     list_all (emit_ok E W) (fst (start_payload_requests w st))"
proof (induction w st rule: start_payload_requests.induct)
  case (1 w st)
  show ?case
  proof (cases "bs_in_flight st < BLOCKSYNC_MAX_PAYLOAD_REQUESTS \<and>
      find (\<lambda>i. map_of (bs_self_payloads st) i = Some None) (sv_iter_ids w (map fst (bs_self_payloads st))) \<noteq> None")
    case False
    then have "start_payload_requests w st = ([], st)"
      by (subst start_payload_requests.simps) (auto split: option.splits)
    then show ?thesis using "1.prems" by simp
  next
    case True
    then obtain i where i: "bs_in_flight st < BLOCKSYNC_MAX_PAYLOAD_REQUESTS"
      "find (\<lambda>i. map_of (bs_self_payloads st) i = Some None) (sv_iter_ids w (map fst (bs_self_payloads st))) = Some i"
      by auto
    note d = sync_invD[OF "1.prems"]
    have n: "map_of (bs_self_payloads st) i = Some None" using find_in[OF i(2)] by simp
    let ?m = "AList.update i (Some \<lparr>sr_requester = bs_mode st, sr_to = None\<rparr>) (bs_self_payloads st)"
    let ?st = "st\<lparr>bs_self_payloads := ?m, bs_in_flight := bs_in_flight st + 1\<rparr>"
    have "dom (map_of ?m) = dom (map_of (bs_self_payloads st))" using n by (auto simp: update_conv')
    moreover have "length (filter (\<lambda>e. snd e \<noteq> None) ?m) = bs_in_flight st + 1"
      using alist_count_update[OF d(1) n, of "\<lambda>e. snd e \<noteq> None"] d(5) by simp
    moreover have "map_of ?m j = Some (Some q) \<Longrightarrow> sr_requester q = bs_mode st" for j q
      using d(4)[of j q] by (auto simp: update_conv' split: if_splits)
    ultimately have "sync_inv E W ?st"
      using d(2,3,7,8) i(1) hmm.wf_put[OF d(1)] by (simp add: sync_inv_def)
    from "1.IH"[OF i this] show ?thesis
      using i by (subst (1 2) start_payload_requests.simps) (simp add: split_def Let_def)
  qed
qed

section \<open>Completed ranges\<close>

lemma full_blocks_total:
  assumes "\<And>b p. (b, Some p) \<in> set bs \<Longrightarrow> body_get_id E W p = block_body_id b" and "\<And>b. (b, None) \<notin> set bs"
  shows "\<exists>blocks. full_blocks E W bs = Some blocks \<and> map fb_header blocks = map fst bs
    \<and> list_all (\<lambda>b. body_get_id E W (fb_body b) = fb_body_id b) blocks"
  using assms
proof (induction bs)
  case (Cons e bs)
  obtain b p where e: "e = (b, Some p)" using Cons.prems(2) by (cases e; cases "snd e") auto
  obtain blocks where "full_blocks E W bs = Some blocks" "map fb_header blocks = map fst bs"
    "list_all (\<lambda>b. body_get_id E W (fb_body b) = fb_body_id b) blocks"
    using Cons by force
  moreover have "body_get_id E W p = block_body_id b" using Cons.prems(1) e by simp
  ultimately show ?case by (simp add: e full_block_new_def fb_body_id_def)
qed simp

lemma sync_inv_drop_completed:
  assumes "sync_inv E W st"
  shows "sync_inv E W (st\<lparr>bs_completed := AList.delete r (bs_completed st)\<rparr>)"
proof -
  note d = sync_invD[OF assms]
  have "header_ok E W (dom (map_of (bs_self_payloads st))) s h" if "map_of (AList.delete r (bs_completed st)) s = Some h" for s h
    using that d(7)[of s h] by (auto simp: delete_conv' split: if_splits)
  then show ?thesis
    unfolding sync_inv_def using d(1,3,4,5,6,8) hmm.wf_del[OF d(2)] by simp
qed

lemma emit_ranges_good:
  assumes "view_ok E W w" and "sync_inv E W st" and "distinct rs"
    and "\<And>r. r \<in> set rs \<Longrightarrow> \<exists>h. map_of (bs_completed st) r = Some h \<and> list_all (\<lambda>e. snd e \<noteq> None) (sh_blocks h)"
  shows "good E W (emit_ranges w rs st)"
  using assms(2-4)
proof (induction rs arbitrary: st)
  case (Cons r rs)
  obtain h where h: "map_of (bs_completed st) r = Some h" "list_all (\<lambda>e. snd e \<noteq> None) (sh_blocks h)"
    using Cons.prems(3)[of r] by auto
  note ok = sync_invD(7)[OF Cons.prems(1) h(1)]
  obtain blocks where b: "full_blocks E W (sh_blocks h) = Some blocks" "map fb_header blocks = map fst (sh_blocks h)"
    "list_all (\<lambda>b. body_get_id E W (fb_body b) = fb_body_id b) blocks"
    using full_blocks_total[of "sh_blocks h" E W] ok h(2) unfolding header_ok_def list_all_iff by fastforce
  let ?st = "st\<lparr>bs_completed := AList.delete r (bs_completed st)\<rparr>"
  have "good E W (emit_ranges w rs ?st)"
    using Cons.IH[OF sync_inv_drop_completed[OF Cons.prems(1)], of r] Cons.prems(2,3) by (simp add: delete_conv') metis
  moreover have "emit_ok E W (EmitBlocks (sh_requester h) r blocks)"
    using b(2,3) ok by (simp add: header_ok_def)
  ultimately show ?case
    using h(1) b(1) by (auto simp: good_def view_okD(1,2)[OF assms(1)])
qed simp

lemma handle_completed_ranges_good:
  assumes "view_ok E W w" and "sync_inv E W st"
  shows "good E W (handle_completed_ranges w st)"
  unfolding handle_completed_ranges_def
proof (rule emit_ranges_good[OF assms])
  have "distinct (map fst (bs_completed st))" using sync_invD(2)[OF assms(2)] by (simp add: hm_wf_def)
  from view_okD(8)[OF assms(1) this] show "distinct (filter (\<lambda>r. case map_of (bs_completed st) r of
      None \<Rightarrow> False | Some h \<Rightarrow> list_all (\<lambda>e. snd e \<noteq> None) (sh_blocks h)) (sv_iter_ranges w (map fst (bs_completed st))))"
    by (rule distinct_filter)
qed (auto split: option.splits)

lemma try_initiate_good:
  assumes "view_ok E W w" and "sync_inv E W st"
  shows "good E W (try_initiate_payload_requests_for_self w st)"
proof -
  have d: "distinct (map fst (bs_self_payloads st))" using sync_invD(1)[OF assms(2)] by (simp add: hm_wf_def)
  have "good E W (use_cached_payloads w (sv_iter_ids w (map fst (bs_self_payloads st))) st)"
    using use_cached_payloads_good[OF assms view_okD(6)[OF assms(1) d]] view_okD(5)[OF assms(1)]
    by (simp add: dom_map_of_conv_image_fst)
  then show ?thesis
    unfolding try_initiate_payload_requests_for_self_def
  proof (rule good_bind)
    fix cmds s assume "use_cached_payloads w (sv_iter_ids w (map fst (bs_self_payloads st))) st = Some (cmds, s)"
      and s: "sync_inv E W s" and c: "list_all (emit_ok E W) cmds"
    obtain cs s' where p: "start_payload_requests w s = (cs, s')" by force
    then have "sync_inv E W s'" "list_all (emit_ok E W) cs" using start_payload_requests_good[OF s, of w] by simp_all
    then have "good E W (handle_completed_ranges w s')" using handle_completed_ranges_good[OF assms(1)] by simp
    then show "good E W ((\<lambda>(cached, st). let (started, st) = start_payload_requests w st in
        Option.bind (handle_completed_ranges w st) (\<lambda>(emitted, st). Some (cached @ started @ emitted, st))) (cmds, s))"
      using p c \<open>list_all (emit_ok E W) cs\<close> by (auto simp: good_def)
  qed
qed

section \<open>Handlers\<close>

lemma sync_inv_headers:
  assumes "sync_inv E W st" and "\<And>r q. map_of m r = Some q \<Longrightarrow> sr_requester q = bs_mode st \<and> br_num_blocks r \<noteq> 0"
  shows "sync_inv E W (st\<lparr>bs_self_headers := m\<rparr>)"
  using assms(1) assms(2) unfolding sync_inv_def by simp

lemma sync_inv_retarget:
  assumes "sync_inv E W st" and "map_of (bs_self_payloads st) i = Some (Some q)"
  shows "sync_inv E W (st\<lparr>bs_self_payloads := AList.update i (Some (q\<lparr>sr_to := to\<rparr>)) (bs_self_payloads st)\<rparr>)"
proof -
  note d = sync_invD[OF assms(1)]
  let ?m = "AList.update i (Some (q\<lparr>sr_to := to\<rparr>)) (bs_self_payloads st)"
  have "dom (map_of ?m) = dom (map_of (bs_self_payloads st))" using assms(2) by (auto simp: update_conv')
  moreover have "length (filter (\<lambda>e. snd e \<noteq> None) ?m) = bs_in_flight st"
    using alist_count_update[OF d(1) assms(2), of "\<lambda>e. snd e \<noteq> None" "Some (q\<lparr>sr_to := to\<rparr>)"] d(5) by simp
  moreover have "map_of ?m j = Some (Some p) \<Longrightarrow> sr_requester p = bs_mode st" for j p
    using d(4)[of j p] d(4)[OF assms(2)] by (auto simp: update_conv' split: if_splits)
  ultimately show ?thesis
    unfolding sync_inv_def using d(2,3,6,7,8) hmm.wf_put[OF d(1)] by simp
qed

lemma ask_peer_total:
  assumes "view_ok E W w"
  shows "\<exists>to cmds g. ask_peer w req st = Some (to, cmds, st\<lparr>bs_rng := g\<rparr>) \<and> list_all (emit_ok E W) cmds"
proof -
  obtain to g where "pick_peer w (bs_override_peers st) (bs_rng st) = Some (to, g)"
    using view_okD(9)[OF assms] by (metis option.exhaust surj_pair)
  then show ?thesis by (cases to) (auto simp: ask_peer_def)
qed

lemma request_payloads:
  "hm_wf m \<Longrightarrow> hm_wf (fold request_payload is m) \<and> dom (map_of (fold request_payload is m)) = dom (map_of m) \<union> set is
     \<and> (\<forall>i q. map_of (fold request_payload is m) i = Some (Some q) \<longrightarrow> map_of m i = Some (Some q))
     \<and> length (filter (\<lambda>e. snd e \<noteq> None) (fold request_payload is m)) = length (filter (\<lambda>e. snd e \<noteq> None) m)"
proof (induction "is" arbitrary: m)
  case (Cons i "is")
  let ?m = "request_payload i m"
  have "hm_wf ?m" using Cons.prems by (simp add: request_payload_def hmm.wf_put)
  moreover have "dom (map_of ?m) = insert i (dom (map_of m))" by (auto simp: request_payload_def update_conv')
  moreover have "map_of ?m j = Some (Some q) \<Longrightarrow> map_of m j = Some (Some q)" for j q
    by (auto simp: request_payload_def update_conv' split: if_splits)
  moreover have "length (filter (\<lambda>e. snd e \<noteq> None) ?m) = length (filter (\<lambda>e. snd e \<noteq> None) m)"
    by (simp add: request_payload_def alist_update_new)
  ultimately show ?case using Cons.IH[of ?m] by (simp only: fold_simps) auto
qed simp

lemma accept_headers_inv:
  assumes "sync_inv E W st" and "verified_headers E r hs"
  shows "sync_inv E W (accept_headers r hs st)"
proof -
  note d = sync_invD[OF assms(1)]
  note f = request_payloads[OF d(1), of "map block_body_id hs"]
  let ?K = "dom (map_of (fold request_payload (map block_body_id hs) (bs_self_payloads st)))"
  let ?h = "\<lparr>sh_requester = bs_mode st, sh_blocks = map (\<lambda>h. (h, None)) hs, sh_payload_cache = []\<rparr>"
  have "header_ok E W ?K r ?h" using assms(2) f by (auto simp: header_ok_def o_def)
  moreover have "header_ok E W K s h \<Longrightarrow> K \<subseteq> K' \<Longrightarrow> header_ok E W K' s h" for K K' s h
    unfolding header_ok_def by blast
  ultimately have c: "header_ok E W ?K s h" if "map_of (AList.update r ?h (bs_completed st)) s = Some h" for s h
    using that d(7)[of s h] f by (auto simp: update_conv' split: if_splits)
  have q: "map_of (AList.delete r (bs_self_headers st)) s = Some q \<Longrightarrow> sr_requester q = bs_mode st \<and> br_num_blocks s \<noteq> 0" for s q
    using d(3)[of s q] by (auto simp: delete_conv' split: if_splits)
  have p: "map_of (fold request_payload (map block_body_id hs) (bs_self_payloads st)) i = Some (Some q) \<Longrightarrow> sr_requester q = bs_mode st" for i q
    using f d(4) by blast
  show ?thesis
    unfolding sync_inv_def accept_headers_def using d(5,6,8) f hmm.wf_put[OF d(2)] c q p by simp
qed

lemma sync_inv_reask:
  assumes "sync_inv E W st" and "map_of (bs_self_headers st) r = Some q"
  shows "sync_inv E W (st\<lparr>bs_self_headers := AList.update r (q\<lparr>sr_to := to\<rparr>) (bs_self_headers st)\<rparr>)"
  by (rule sync_inv_headers[OF assms(1)])
    (use sync_invD(3)[OF assms(1)] sync_invD(3)[OF assms] in \<open>auto simp: update_conv' split: if_splits\<close>)

lemma sync_inv_ask:
  assumes "sync_inv E W st" and "br_num_blocks r \<noteq> 0" and "bs_mode st = q"
  shows "sync_inv E W (st\<lparr>bs_self_headers := AList.update r \<lparr>sr_requester = q, sr_to = None\<rparr> (bs_self_headers st)\<rparr>)"
  by (rule sync_inv_headers[OF assms(1)])
    (use sync_invD(3)[OF assms(1)] assms(2,3) in \<open>auto simp: update_conv' split: if_splits\<close>)

lemma handle_self_request_good:
  assumes "sync_inv E W st"
  shows "good E W (Some (handle_self_request q r st))"
proof -
  define st' where "st' = (if q \<noteq> bs_mode st then (clear_self_requests st)\<lparr>bs_mode := q\<rparr> else st)"
  have s: "sync_inv E W st'"
    using assms by (auto simp: st'_def sync_inv_def clear_self_requests_def hm_wf_def)
  have m: "bs_mode st' = q" by (simp add: st'_def)
  then show ?thesis using sync_inv_ask[OF s _ m, of r] s assms
    unfolding handle_self_request_def Let_def st'_def[symmetric] by simp
qed

lemma handle_self_cancel_request_inv:
  assumes "sync_inv E W st"
  shows "sync_inv E W (handle_self_cancel_request q r st)"
proof -
  have d: "sync_inv E W (st\<lparr>bs_self_headers := AList.delete r (bs_self_headers st)\<rparr>)"
    by (rule sync_inv_headers[OF assms]) (use sync_invD(3)[OF assms] in \<open>auto simp: delete_conv' split: if_splits\<close>)
  show ?thesis
    using assms d sync_inv_drop_completed[OF assms, of r] sync_inv_drop_completed[OF d, of r]
    unfolding handle_self_cancel_request_def Let_def by (auto split: option.splits)
qed

lemma handle_headers_response_good:
  assumes "view_ok E W w" and "sync_inv E W st"
    and "\<And>r hs. sender = None \<Longrightarrow> resp = HeadersFound r hs \<Longrightarrow> verified_headers E r hs"
  shows "good E W (handle_headers_response_for_self w sender resp st)"
proof (cases "map_of (bs_self_headers st) (headers_response_range resp)")
  case (Some q)
  let ?r = "headers_response_range resp"
  note q = sync_invD(3)[OF assms(2) Some]
  obtain cmds st' where step: "sync_inv E W st'" "list_all (emit_ok E W) cmds"
    "handle_headers_response_for_self w sender resp st =
       Option.bind (try_initiate_payload_requests_for_self w st') (\<lambda>(more, st). Some (cmds @ more, st))"
  proof (cases resp)
    case (HeadersFound r hs)
    have v: "verify_block_headers (sv_env w) r hs = Some (verified_headers E r hs)"
      using verify_correct[of r E hs] q HeadersFound view_okD(1)[OF assms(1)] by simp
    show thesis
    proof (cases "verified_headers E r hs")
      case True
      show thesis
        by (rule that[of "accept_headers r hs st" "if sender \<noteq> None then [ResetSyncTimeout (HeadersRequest r)] else []"])
          (use True v q Some HeadersFound accept_headers_inv[OF assms(2)] in
            \<open>simp_all add: handle_headers_response_for_self_def assert_p_def\<close>)
    next
      case False
      then have "sender \<noteq> None" using assms(3) HeadersFound by blast
      then show thesis
        using that[OF assms(2), of "[]"] False v q Some HeadersFound
        by (simp add: handle_headers_response_for_self_def assert_p_def)
    qed
  next
    case (HeadersNotAvailable r)
    obtain to cs g where a: "ask_peer w (HeadersRequest r) st = Some (to, cs, st\<lparr>bs_rng := g\<rparr>)" "list_all (emit_ok E W) cs"
      using ask_peer_total[OF assms(1)] by metis
    have i: "sync_inv E W (st\<lparr>bs_rng := g, bs_self_headers := AList.update r (q\<lparr>sr_to := to\<rparr>) (bs_self_headers st)\<rparr>)"
      using sync_inv_reask[of E W "st\<lparr>bs_rng := g\<rparr>" r q to] assms(2) Some HeadersNotAvailable by simp
    show thesis
      using that[OF i a(2)] that[OF assms(2), of "[]"] Some HeadersNotAvailable a(1)
      by (cases "sender = None \<and> sr_to q = None") (auto simp: handle_headers_response_for_self_def)
  qed
  show ?thesis unfolding step(3)
    by (rule good_bind[OF try_initiate_good[OF assms(1) step(1)]]) (use step(2) in simp)
qed (use assms(2) in \<open>simp add: handle_headers_response_for_self_def\<close>)

lemma handle_payload_response_good:
  assumes "view_ok E W w" and "sync_inv E W st"
  shows "good E W (handle_payload_response_for_self w sender resp st)"
proof -
  let ?i = "body_response_id (sv_env w) (sv_wire w) resp"
  consider "map_of (bs_self_payloads st) ?i = None" | "map_of (bs_self_payloads st) ?i = Some None"
    | q where "map_of (bs_self_payloads st) ?i = Some (Some q)"
    by (cases "map_of (bs_self_payloads st) ?i") auto
  then show ?thesis
  proof cases
    case 3
    note q = sync_invD(4)[OF assms(2) 3]
    obtain cmds st' where step: "sync_inv E W st'" "list_all (emit_ok E W) cmds"
      "handle_payload_response_for_self w sender resp st =
         Option.bind (handle_completed_ranges w st') (\<lambda>(emitted, st).
           Option.bind (try_initiate_payload_requests_for_self w st) (\<lambda>(more, st). Some (cmds @ emitted @ more, st)))"
    proof (cases resp)
      case (BodyFound p)
      have "body_get_id E W p = ?i" using BodyFound view_okD(1,2)[OF assms(1)] by simp
      from settle_inv[OF assms(2) 3 this] show thesis
        by (intro that[of "hydrate ?i p ((finish_request st)\<lparr>bs_self_payloads := AList.delete ?i (bs_self_payloads st)\<rparr>)"
              "if sender \<noteq> None then [ResetSyncTimeout (PayloadRequest ?i)] else []"])
          (use 3 q BodyFound in \<open>simp_all add: handle_payload_response_for_self_def assert_p_def Let_def\<close>)
    next
      case (BodyNotAvailable i)
      obtain to cs g where a: "ask_peer w (PayloadRequest i) st = Some (to, cs, st\<lparr>bs_rng := g\<rparr>)" "list_all (emit_ok E W) cs"
        using ask_peer_total[OF assms(1)] by metis
      have i: "sync_inv E W (st\<lparr>bs_rng := g, bs_self_payloads := AList.update i (Some (q\<lparr>sr_to := to\<rparr>)) (bs_self_payloads st)\<rparr>)"
        using sync_inv_retarget[of E W "st\<lparr>bs_rng := g\<rparr>" i q to] assms(2) 3 BodyNotAvailable by simp
      show thesis
        using that[OF i a(2)] that[OF assms(2), of "[]"] 3 BodyNotAvailable a(1)
        by (cases "sender = None \<and> sr_to q = None") (auto simp: handle_payload_response_for_self_def)
    qed
    show ?thesis unfolding step(3)
    proof (rule good_bind[OF handle_completed_ranges_good[OF assms(1) step(1)]])
      fix emitted s assume "handle_completed_ranges w st' = Some (emitted, s)" and s: "sync_inv E W s"
        and e: "list_all (emit_ok E W) emitted"
      have "good E W (Option.bind (try_initiate_payload_requests_for_self w s) (\<lambda>(more, st). Some (cmds @ emitted @ more, st)))"
        by (rule good_bind[OF try_initiate_good[OF assms(1) s]]) (use step(2) e in simp)
      then show "good E W ((\<lambda>(emitted, st). Option.bind (try_initiate_payload_requests_for_self w st)
          (\<lambda>(more, st). Some (cmds @ emitted @ more, st))) (emitted, s))" by simp
    qed
  qed (use assms(2) in \<open>simp_all add: handle_payload_response_for_self_def\<close>)
qed

lemma sync_inv_peer_requests:
  assumes "sync_inv E W st"
    and "\<And>r m n hs. map_of k r = Some m \<Longrightarrow> (n, hs) \<in> set m \<Longrightarrow> extends E r hs"
  shows "sync_inv E W (st\<lparr>bs_headers_requests := k\<rparr>)"
  using assms(1) assms(2) unfolding sync_inv_def by simp

lemma bt_insert_subset: "e \<in> set (bt_insert k v m) \<Longrightarrow> e = (k, v) \<or> e \<in> set m"
  by (induction m) (auto split: if_splits)

lemma peer_request_inv:
  assumes "sync_inv E W st" and "extends E r hs"
  shows "sync_inv E W (st\<lparr>bs_headers_requests := AList.update r
    (bt_insert n hs (entry_or [] (map_of (bs_headers_requests st) r))) (bs_headers_requests st)\<rparr>)"
proof (rule sync_inv_peer_requests[OF assms(1)])
  fix s m n' hs' assume "map_of (AList.update r (bt_insert n hs (entry_or [] (map_of (bs_headers_requests st) r)))
    (bs_headers_requests st)) s = Some m" and "(n', hs') \<in> set m"
  then show "extends E s hs'"
    using assms(2) sync_invD(8)[OF assms(1)]
    by (cases "map_of (bs_headers_requests st) r") (auto simp: update_conv' split: if_splits dest!: bt_insert_subset)
qed

lemma handle_peer_request_good:
  assumes "view_ok E W w" and "sync_inv E W st" and "\<And>r. req = HeadersRequest r \<Longrightarrow> br_num_blocks r \<le> u64_max"
  shows "good E W (handle_peer_request w n req st)"
proof (cases req)
  case (HeadersRequest r)
  obtain hs where hs: "cached_headers w r = Some hs" "headers_linked E hs" "length hs \<le> br_num_blocks r"
    "hs \<noteq> [] \<longrightarrow> get_id E (last hs) = br_last_block_id r"
    using cached_headers_ok[OF assms(1)] by metis
  define fetch where "fetch = \<lparr>br_last_block_id = (case hs of [] \<Rightarrow> br_last_block_id r | h # _ \<Rightarrow> get_parent_id h),
    br_num_blocks = br_num_blocks r - length hs\<rparr>"
  have "extends E fetch hs"
    using hs(2,3) assms(3)[OF HeadersRequest] by (auto simp: extends_def fetch_def split: list.splits)
  note inv = peer_request_inv[OF assms(2) this, of n]
  have "verified_headers E r hs" if "length hs = br_num_blocks r" "br_num_blocks r \<noteq> 0"
    using that hs(2,4) by (auto simp: verified_headers_def)
  then show ?thesis
    using hs(1,4) inv assms(2) HeadersRequest view_okD(1)[OF assms(1)]
    unfolding handle_peer_request_def Let_def
    by (auto simp: assert_p_def fetch_def[symmetric])
qed (use assms(2) in \<open>simp add: handle_peer_request_def split: option.splits\<close>)

lemma answer_all_total:
  assumes "\<And>n hs. (n, hs) \<in> set es \<Longrightarrow> extends E (headers_response_range resp) hs"
    and "\<And>r hs. resp = HeadersFound r hs \<Longrightarrow> verified_headers E r hs"
  shows "\<exists>cs. answer_all E resp es = Some cs \<and> list_all (emit_ok E W) cs"
  using assms(1)
proof (induction es)
  case (Cons e es)
  obtain n cached where e: "e = (n, cached)" by force
  have x: "extends E (headers_response_range resp) cached" using Cons.prems[of n cached] e by simp
  have "\<exists>c. answer_headers E resp e = Some c \<and> emit_ok E W c"
  proof (cases resp)
    case (HeadersFound r hs)
    have v: "verified_headers E r hs" using assms(2) HeadersFound .
    have l: "headers_linked E (hs @ cached)"
      using v x HeadersFound by (auto simp: headers_linked_append extends_def verified_headers_def)
    moreover have "verified_headers E \<lparr>br_last_block_id = (if cached = [] then br_last_block_id r else get_id E (last cached)),
        br_num_blocks = wrapping_add u64_max (br_num_blocks r) (length cached)\<rparr> (hs @ cached)"
      using v x l HeadersFound by (auto simp: verified_headers_def extends_def wrapping_add_def)
    ultimately show ?thesis using HeadersFound e by (simp add: answer_headers_def assert_p_def Let_def)
  qed (simp add: answer_headers_def Let_def)
  moreover obtain cs where "answer_all E resp es = Some cs" "list_all (emit_ok E W) cs"
    using Cons.IH Cons.prems by (meson list.set_intros(2))
  ultimately show ?case by auto
qed simp

lemma handle_ledger_response_good:
  assumes "view_ok E W w" and "sync_inv E W st"
    and "\<And>r hs. resp = HeadersResponse (HeadersFound r hs) \<Longrightarrow> verified_headers E r hs"
  shows "good E W (handle_ledger_response w resp st)"
proof (cases resp)
  case (HeadersResponse hr)
  let ?r = "headers_response_range hr"
  let ?st = "st\<lparr>bs_headers_requests := AList.delete ?r (bs_headers_requests st)\<rparr>"
  have inv: "sync_inv E W ?st"
    by (rule sync_inv_peer_requests[OF assms(2)])
      (use sync_invD(8)[OF assms(2)] in \<open>auto simp: delete_conv' split: if_splits\<close>)
  have x: "extends E ?r hs" if "(n, hs) \<in> set (entry_or [] (map_of (bs_headers_requests st) ?r))" for n hs
    using that sync_invD(8)[OF assms(2)] by (cases "map_of (bs_headers_requests st) ?r") auto
  have v: "\<And>r hs. hr = HeadersFound r hs \<Longrightarrow> verified_headers E r hs" using assms(3) HeadersResponse by blast
  obtain cs where "answer_all E hr (entry_or [] (map_of (bs_headers_requests st) ?r)) = Some cs" "list_all (emit_ok E W) cs"
    using answer_all_total[of "entry_or [] (map_of (bs_headers_requests st) ?r)" E hr W] x v by blast
  moreover have "good E W (handle_headers_response_for_self w None hr ?st)"
    using handle_headers_response_good[OF assms(1) inv] v by blast
  ultimately show ?thesis
    using HeadersResponse view_okD(1)[OF assms(1)] by (auto simp: handle_ledger_response_def good_def Let_def)
next
  case (PayloadResponse br)
  let ?i = "body_response_id (sv_env w) (sv_wire w) br"
  have "good E W (handle_payload_response_for_self w None br
      (st\<lparr>bs_payload_requests := AList.delete ?i (bs_payload_requests st)\<rparr>))"
    using handle_payload_response_good[OF assms(1)] assms(2) by simp
  then show ?thesis
    using PayloadResponse by (auto simp: handle_ledger_response_def good_def Let_def list_all_iff)
qed

lemma handle_sync_timeout_good:
  assumes "view_ok E W w" and "sync_inv E W st"
  shows "good E W (handle_sync_timeout w req st)"
proof -
  obtain to cs g where a: "ask_peer w req st = Some (to, cs, st\<lparr>bs_rng := g\<rparr>)" "list_all (emit_ok E W) cs"
    using ask_peer_total[OF assms(1)] by metis
  have g: "sync_inv E W (st\<lparr>bs_rng := g\<rparr>)" using assms(2) by simp
  show ?thesis
    using a assms(2) sync_inv_reask[OF g] sync_inv_retarget[OF g]
    by (auto simp: handle_sync_timeout_def good_def split: sync_request.splits option.splits)
qed

section \<open>Every run\<close>

text \<open>What the other parts of the node deliver: a range fits a 64-bit counter, and the headers that the ledger finds are the
  headers of the range it was asked for. Nothing is assumed of what peers send.\<close>

fun event_ok :: "('s, 'c, 'x) env \<Rightarrow> ('s, 'c, 'x) sync_event \<Rightarrow> bool" where
  "event_ok E (PeerRequest n (HeadersRequest r)) \<longleftrightarrow> br_num_blocks r \<le> u64_max"
| "event_ok E (LedgerResponse (HeadersResponse (HeadersFound r hs))) \<longleftrightarrow> verified_headers E r hs"
| "event_ok E _ \<longleftrightarrow> True"

lemma sync_step_good:
  assumes "view_ok E W w" and "sync_inv E W st" and "event_ok E ev"
  shows "good E W (sync_step w ev st)"
proof (cases ev)
  case (PeerResponse n resp)
  then show ?thesis
    using handle_headers_response_good[OF assms(1,2), of "Some n"] handle_payload_response_good[OF assms(1,2)]
    by (cases resp) (simp_all add: sync_step_def handle_peer_response_def)
next
  case (PeerRequest n req)
  have "good E W (handle_peer_request w n req st)"
    by (rule handle_peer_request_good[OF assms(1,2)]) (use assms(3) PeerRequest in simp)
  then show ?thesis using PeerRequest by (simp add: sync_step_def)
next
  case (LedgerResponse resp)
  have "good E W (handle_ledger_response w resp st)"
    by (rule handle_ledger_response_good[OF assms(1,2)]) (use assms(3) LedgerResponse in simp)
  then show ?thesis using LedgerResponse by (simp add: sync_step_def)
qed (use assms(2) handle_self_request_good[OF assms(2)] handle_self_cancel_request_inv[OF assms(2)]
       handle_sync_timeout_good[OF assms(1,2)] in \<open>simp_all add: sync_step_def set_override_peers_def\<close>)

lemma sync_run_good:
  "sync_inv E W st \<Longrightarrow> list_all (\<lambda>(w, ev). view_ok E W w \<and> event_ok E ev) evs \<Longrightarrow> good E W (sync_run evs st)"
proof (induction evs arbitrary: st)
  case (Cons e evs)
  obtain w ev where e: "e = (w, ev)" by force
  have "good E W (sync_step w ev st)" using sync_step_good[of E W w st ev] Cons.prems e by simp
  then obtain cs s where s: "sync_step w ev st = Some (cs, s)" "sync_inv E W s" "list_all (emit_ok E W) cs"
    by (auto simp: good_def)
  then show ?case using Cons.IH[OF s(2)] Cons.prems(2) e by (auto simp: good_def)
qed simp

section \<open>The property\<close>

text \<open>C13: whatever peers send, in whatever order requests, cancellations, answers, ledger responses and timeouts arrive,
  block sync does not panic, has at most ten body requests in flight and counts them exactly.  The blocks it hands to the
  node are as many as the range asks for, they are linked from parent to child, end in the block the range names, and each
  has the body its header commits to.  The header answers it sends to peers are such chains as well.  The hypotheses:
  \<open>event_ok\<close>, a requested range fits 64 bits and the ledger answers with the headers of the range; \<open>view_ok\<close>, cached bodies are
  stored under their ids, the block tree keeps its invariant, and \<open>pick_peer\<close> does not panic, which it does when the
  validator set of the epoch is unknown or the node is its only member.\<close>

theorem block_sync_emits_verified_chains:
  assumes "list_all (\<lambda>(w, ev). view_ok E W w \<and> event_ok E ev) evs"
  shows "\<exists>cmds st. sync_run evs (block_sync_new peers self rng) = Some (cmds, st)
    \<and> bs_in_flight st = length (filter (\<lambda>e. snd e \<noteq> None) (bs_self_payloads st)) \<and> bs_in_flight st \<le> 10
    \<and> (\<forall>q r blocks. EmitBlocks q r blocks \<in> set cmds \<longrightarrow>
         blocks \<noteq> [] \<and> length blocks = br_num_blocks r \<and> fb_id E (last blocks) = br_last_block_id r
         \<and> headers_linked E (map fb_header blocks)
         \<and> list_all (\<lambda>b. body_get_id E W (fb_body b) = fb_body_id b) blocks)
    \<and> (\<forall>n r hs. SendResponse n (HeadersResponse (HeadersFound r hs)) \<in> set cmds \<longrightarrow> verified_headers E r hs)"
proof -
  obtain cmds st where run: "sync_run evs (block_sync_new peers self rng) = Some (cmds, st)"
    and inv: "sync_inv E W st" and cmds: "\<forall>c \<in> set cmds. emit_ok E W c"
    using sync_run_good[OF sync_inv_new assms, of peers self rng] by (auto simp: good_def list_all_iff)
  have "blocks \<noteq> [] \<and> length blocks = br_num_blocks r \<and> fb_id E (last blocks) = br_last_block_id r
      \<and> headers_linked E (map fb_header blocks)
      \<and> list_all (\<lambda>b. body_get_id E W (fb_body b) = fb_body_id b) blocks"
    if "EmitBlocks q r blocks \<in> set cmds" for q r blocks
    using cmds[rule_format, OF that] by (auto simp: verified_headers_def fb_id_def last_map)
  moreover have "verified_headers E r hs" if "SendResponse n (HeadersResponse (HeadersFound r hs)) \<in> set cmds" for n r hs
    using cmds[rule_format, OF that] by simp
  ultimately show ?thesis
    using run sync_invD(5,6)[OF inv] by (auto simp: BLOCKSYNC_MAX_PAYLOAD_REQUESTS_def)
qed

text \<open>A run: the node misses two blocks, its ledger does not have them, the first answer of the peer is one header short
  and is dropped, the next one is used, and the body that both headers name completes the range.\<close>

definition sync_env :: "(nop_signature, nop_signature multi_sig, unit) env" where
  "sync_env = example_env\<lparr>hasher := (\<lambda>bs. case bs of [] \<Rightarrow> 1 | b # _ \<Rightarrow> b)\<rparr>"

definition sync_wire :: "(nop_signature, nop_signature multi_sig, unit) wire" where
  "sync_wire = \<lparr>rlp_body = (\<lambda>_. []), rlp_qc = (\<lambda>_. []), rlp_tc = (\<lambda>_. []), rlp_nec = (\<lambda>_. []),
     rlp_consensus_message = (\<lambda>_. []), sig_validate = (\<lambda>_. True), st_pubkey = (\<lambda>k. k)\<rparr>"

definition sync_example_view :: "(nop_signature, nop_signature multi_sig, unit, unit) sync_view" where
  "sync_example_view =
     \<lparr>sv_env = sync_env, sv_wire = sync_wire, sv_cache = CacheBuffer [], sv_nodeid = 1, sv_epoch = 1,
      sv_val_epoch_map = [(1, (\<lparr>validators = [(2, 1)], total_stake = 1\<rparr>, []))],
      sv_secondary_peers = [(7, 0)], sv_choose = (\<lambda>g ps. (case ps of [] \<Rightarrow> None | p # _ \<Rightarrow> Some p, g)),
      sv_draws = (\<lambda>_ _. 0), sv_drawn = (\<lambda>g. g), sv_iter_ids = rev, sv_iter_ranges = (\<lambda>rs. rs)\<rparr>"

definition sync_h1 :: "(nop_signature, nop_signature multi_sig, unit) consensus_block_header" where
  "sync_h1 = (example_header 3)\<lparr>block_body_id := 1\<rparr>"

definition sync_h2 :: "(nop_signature, nop_signature multi_sig, unit) consensus_block_header" where
  "sync_h2 = (example_header 4)\<lparr>block_body_id := 1, bh_qc :=
     \<lparr>qc_info = \<lparr>vote_id = get_id sync_env sync_h1, vote_round = 3, vote_epoch = 1\<rparr>, qc_signatures = \<lparr>ms_sigs = []\<rparr>\<rparr>\<rparr>"

definition sync_range :: block_range where
  "sync_range = \<lparr>br_last_block_id = get_id sync_env sync_h2, br_num_blocks = 2\<rparr>"

definition sync_example_events :: "(nop_signature, nop_signature multi_sig, unit) sync_event list" where
  "sync_example_events =
     [SelfRequest ConsensusRequester sync_range,
      LedgerResponse (HeadersResponse (HeadersNotAvailable sync_range)),
      PeerResponse 7 (HeadersResponse (HeadersFound sync_range [sync_h2])),
      SyncTimeout (HeadersRequest sync_range),
      PeerResponse 7 (HeadersResponse (HeadersFound sync_range [sync_h1, sync_h2])),
      LedgerResponse (PayloadResponse (BodyNotAvailable 1)),
      PeerResponse 7 (PayloadResponse (BodyFound \<lparr>execution_body = ()\<rparr>))]"

lemma sync_example_view_ok: "view_ok sync_env sync_wire sync_example_view"
  by (simp add: view_ok_def sync_example_view_def cache_payload_def pick_peer_def get_val_set_def)

lemmas sync_eval =
  sync_step_def handle_self_request_def handle_peer_response_def handle_ledger_response_def handle_sync_timeout_def
  handle_headers_response_for_self_def handle_payload_response_for_self_def try_initiate_payload_requests_for_self_def
  handle_completed_ranges_def accept_headers_def request_payload_def ask_peer_def pick_peer_def verify_block_headers_def
  get_cached_payload_def cache_payload_def hydrate_def hydrate_header_def finish_request_def self_request_exists_def
  clear_self_requests_def block_sync_new_def set_override_peers_def get_val_set_def full_block_new_def
  start_payload_requests.simps BLOCKSYNC_MAX_PAYLOAD_REQUESTS_def List.map_filter_def Let_def assert_p_def
  wrapping_add_def u64_max_def body_get_id_def get_id_def get_parent_id_def get_block_id_def
  sync_env_def sync_wire_def sync_example_view_def sync_h1_def sync_h2_def sync_range_def example_header_def
  example_env_def example_rlp_header_def

theorem block_sync_emits_verified_chains_witness:
  "list_all (\<lambda>(w, ev). view_ok sync_env sync_wire w \<and> event_ok sync_env ev) (map (Pair sync_example_view) sync_example_events)
   \<and> (\<exists>cmds st. sync_run (map (Pair sync_example_view) sync_example_events) (block_sync_new [] 1 ()) = Some (cmds, st)
        \<and> bs_in_flight st \<le> 10
        \<and> EmitBlocks ConsensusRequester sync_range
             [\<lparr>fb_header = sync_h1, fb_body = \<lparr>execution_body = ()\<rparr>\<rparr>, \<lparr>fb_header = sync_h2, fb_body = \<lparr>execution_body = ()\<rparr>\<rparr>]
             \<in> set cmds
        \<and> headers_linked sync_env [sync_h1, sync_h2])"
proof -
  let ?evs = "map (Pair sync_example_view) sync_example_events"
  let ?e = "EmitBlocks ConsensusRequester sync_range
    [\<lparr>fb_header = sync_h1, fb_body = \<lparr>execution_body = ()\<rparr>\<rparr>, \<lparr>fb_header = sync_h2, fb_body = \<lparr>execution_body = ()\<rparr>\<rparr>]"
  have ok: "list_all (\<lambda>(w, ev). view_ok sync_env sync_wire w \<and> event_ok sync_env ev) ?evs"
    using sync_example_view_ok by (simp add: sync_example_events_def)
  have "map_option (\<lambda>(cmds, st). ?e \<in> set cmds) (sync_run ?evs (block_sync_new [] 1 ())) = Some True"
    by (simp add: sync_example_events_def sync_eval)
  then obtain cmds st where run: "sync_run ?evs (block_sync_new [] 1 ()) = Some (cmds, st)" and e: "?e \<in> set cmds"
    by auto
  have "bs_in_flight st \<le> 10" and
    all: "\<forall>q r blocks. EmitBlocks q r blocks \<in> set cmds \<longrightarrow> headers_linked sync_env (map fb_header blocks)"
    using block_sync_emits_verified_chains[OF ok, of "[]" 1 "()"] unfolding run by auto
  then show ?thesis using ok run e all[rule_format, OF e] by simp
qed

end
