(* ===== verification/Chain_Config.thy ===== *)
theory Chain_Config
  imports Consensus_State
begin

text \<open>
  The chain configuration, from \<^verbatim>\<open>monad-chain-config\<close>: the protocol revisions with their
  parameters (\<^verbatim>\<open>revision.rs\<close>), the execution revisions (\<^verbatim>\<open>execution_revision.rs\<close>), the staking
  schedule (\<^verbatim>\<open>staking_config.rs\<close>) and the three built-in configurations with the functions that
  select a revision by round or by timestamp (\<^verbatim>\<open>lib.rs\<close>).  Durations are in milliseconds.
\<close>

section \<open>Protocol revisions\<close>

datatype monad_chain_revision = V_0_7_0 | V_0_8_0 | V_0_10_0 | V_0_11_0

fun chain_params_of :: "monad_chain_revision \<Rightarrow> chain_params" where
  "chain_params_of V_0_7_0 =
     \<lparr>tx_limit = 10000, proposal_gas_limit = 300000000, proposal_byte_limit = 4000000,
      max_reserve_balance = 10000000000000000000, vote_pace = 1000\<rparr>"
| "chain_params_of V_0_8_0 =
     \<lparr>tx_limit = 5000, proposal_gas_limit = 150000000, proposal_byte_limit = 2000000,
      max_reserve_balance = 10000000000000000000, vote_pace = 500\<rparr>"
| "chain_params_of V_0_10_0 =
     \<lparr>tx_limit = 5000, proposal_gas_limit = 150000000, proposal_byte_limit = 2000000,
      max_reserve_balance = 10000000000000000000, vote_pace = 400\<rparr>"
| "chain_params_of V_0_11_0 =
     \<lparr>tx_limit = 5000, proposal_gas_limit = 200000000, proposal_byte_limit = 2000000,
      max_reserve_balance = 10000000000000000000, vote_pace = 400\<rparr>"

section \<open>Execution revisions\<close>

record execution_chain_params =
  max_code_size :: nat
  prague_enabled :: bool
  validate_system_txs :: bool

datatype monad_execution_revision = V_ZERO | V_ONE | V_TWO | V_FOUR

fun execution_chain_params_of :: "monad_execution_revision \<Rightarrow> execution_chain_params" where
  "execution_chain_params_of V_ZERO =
     \<lparr>max_code_size = 24 * 1024, prague_enabled = False, validate_system_txs = False\<rparr>"
| "execution_chain_params_of V_ONE =
     \<lparr>max_code_size = 24 * 1024, prague_enabled = False, validate_system_txs = False\<rparr>"
| "execution_chain_params_of V_TWO =
     \<lparr>max_code_size = 128 * 1024, prague_enabled = False, validate_system_txs = False\<rparr>"
| "execution_chain_params_of V_FOUR =
     \<lparr>max_code_size = 128 * 1024, prague_enabled = True, validate_system_txs = True\<rparr>"

section \<open>Staking schedule\<close>

record block_reward_config =
  block_reward_activation :: epoch
  block_reward_mon :: u64

record monad_staking_config =
  staking_activation :: epoch
  block_reward_v_one :: block_reward_config

definition staking_block_reward_mon :: "monad_staking_config \<Rightarrow> epoch \<Rightarrow> u64" where
  "staking_block_reward_mon cfg epoch =
     (if epoch \<ge> block_reward_activation (block_reward_v_one cfg) then block_reward_mon (block_reward_v_one cfg)
      else 0)"

definition MONAD_DEVNET_STAKING_CONFIG :: monad_staking_config where
  "MONAD_DEVNET_STAKING_CONFIG =
     \<lparr>staking_activation = 2,
      block_reward_v_one = \<lparr>block_reward_activation = 3, block_reward_mon = 1\<rparr>\<rparr>"

definition MONAD_TESTNET_STAKING_CONFIG :: monad_staking_config where
  "MONAD_TESTNET_STAKING_CONFIG =
     \<lparr>staking_activation = 2,
      block_reward_v_one = \<lparr>block_reward_activation = 3, block_reward_mon = 25\<rparr>\<rparr>"

definition MONAD_MAINNET_STAKING_CONFIG :: monad_staking_config where
  "MONAD_MAINNET_STAKING_CONFIG =
     \<lparr>staking_activation = 675,
      block_reward_v_one = \<lparr>block_reward_activation = 747, block_reward_mon = 25\<rparr>\<rparr>"

section \<open>Chain configurations\<close>

record monad_chain_config =
  chain_id :: u64
  cc_epoch_length :: seq_num
  cc_epoch_start_delay :: round
  v_0_7_0_activation :: round
  v_0_8_0_activation :: round
  v_0_10_0_activation :: round
  v_0_11_0_activation :: round
  staking_config :: monad_staking_config
  execution_v_one_activation :: u64
  execution_v_two_activation :: u64
  execution_v_four_activation :: u64

definition get_chain_revision :: "monad_chain_config \<Rightarrow> round \<Rightarrow> monad_chain_revision" where
  "get_chain_revision cfg round =
     (if round \<ge> v_0_11_0_activation cfg then V_0_11_0
      else if round \<ge> v_0_10_0_activation cfg then V_0_10_0
      else if round \<ge> v_0_8_0_activation cfg then V_0_8_0
      else if round \<ge> v_0_7_0_activation cfg then V_0_7_0
      else V_0_7_0)"

definition get_execution_chain_revision :: "monad_chain_config \<Rightarrow> u64 \<Rightarrow> monad_execution_revision" where
  "get_execution_chain_revision cfg execution_timestamp_s =
     (if execution_timestamp_s \<ge> execution_v_four_activation cfg then V_FOUR
      else if execution_timestamp_s \<ge> execution_v_two_activation cfg then V_TWO
      else if execution_timestamp_s \<ge> execution_v_one_activation cfg then V_ONE
      else V_ZERO)"

definition get_staking_activation :: "monad_chain_config \<Rightarrow> epoch" where
  "get_staking_activation cfg = staking_activation (staking_config cfg)"

definition get_block_reward_mon :: "monad_chain_config \<Rightarrow> epoch \<Rightarrow> u64" where
  "get_block_reward_mon cfg epoch = staking_block_reward_mon (staking_config cfg) epoch"

definition MONAD_MAINNET_CHAIN_ID :: u64 where
  "MONAD_MAINNET_CHAIN_ID = 143"

definition MONAD_TESTNET_CHAIN_ID :: u64 where
  "MONAD_TESTNET_CHAIN_ID = 10143"

definition MONAD_DEVNET_CHAIN_ID :: u64 where
  "MONAD_DEVNET_CHAIN_ID = 20143"

definition MONAD_DEVNET_CHAIN_CONFIG :: monad_chain_config where
  "MONAD_DEVNET_CHAIN_CONFIG =
     \<lparr>chain_id = MONAD_DEVNET_CHAIN_ID, cc_epoch_length = 10000, cc_epoch_start_delay = 1000,
      v_0_7_0_activation = 0, v_0_8_0_activation = 0, v_0_10_0_activation = 0, v_0_11_0_activation = 0,
      staking_config = MONAD_DEVNET_STAKING_CONFIG,
      execution_v_one_activation = 0, execution_v_two_activation = 0, execution_v_four_activation = 0\<rparr>"

definition MONAD_TESTNET_CHAIN_CONFIG :: monad_chain_config where
  "MONAD_TESTNET_CHAIN_CONFIG =
     \<lparr>chain_id = MONAD_TESTNET_CHAIN_ID, cc_epoch_length = 50000, cc_epoch_start_delay = 5000,
      v_0_7_0_activation = 0, v_0_8_0_activation = 0, v_0_10_0_activation = 0, v_0_11_0_activation = 0,
      staking_config = MONAD_TESTNET_STAKING_CONFIG,
      execution_v_one_activation = 0, execution_v_two_activation = 0, execution_v_four_activation = 0\<rparr>"

definition MONAD_MAINNET_CHAIN_CONFIG :: monad_chain_config where
  "MONAD_MAINNET_CHAIN_CONFIG =
     \<lparr>chain_id = MONAD_MAINNET_CHAIN_ID, cc_epoch_length = 50000, cc_epoch_start_delay = 5000,
      v_0_7_0_activation = 0, v_0_8_0_activation = 0, v_0_10_0_activation = 15643179,
      v_0_11_0_activation = 33493399,
      staking_config = MONAD_MAINNET_STAKING_CONFIG,
      execution_v_one_activation = 0, execution_v_two_activation = 0,
      execution_v_four_activation = 1762266600\<rparr>"

datatype chain_config_error = WrongOverrideChainId u64 | UnsupportedChainId u64

definition monad_chain_config_new :: "u64 \<Rightarrow> monad_chain_config option \<Rightarrow> chain_config_error + monad_chain_config" where
  "monad_chain_config_new cid devnet_override =
     (if cid = MONAD_MAINNET_CHAIN_ID then Inr MONAD_MAINNET_CHAIN_CONFIG
      else if cid = MONAD_TESTNET_CHAIN_ID then Inr MONAD_TESTNET_CHAIN_CONFIG
      else if cid = MONAD_DEVNET_CHAIN_ID then
        (case devnet_override of
           None \<Rightarrow> Inr MONAD_DEVNET_CHAIN_CONFIG
         | Some override_config \<Rightarrow>
             if chain_id override_config \<noteq> MONAD_DEVNET_CHAIN_ID
             then Inl (WrongOverrideChainId (chain_id override_config))
             else Inr override_config)
      else Inl (UnsupportedChainId cid))"

section \<open>Lemmas\<close>

lemmas chain_config_eval = get_chain_revision_def get_execution_chain_revision_def get_staking_activation_def
  get_block_reward_mon_def staking_block_reward_mon_def MONAD_MAINNET_CHAIN_ID_def MONAD_TESTNET_CHAIN_ID_def
  MONAD_DEVNET_CHAIN_ID_def MONAD_DEVNET_CHAIN_CONFIG_def MONAD_TESTNET_CHAIN_CONFIG_def
  MONAD_MAINNET_CHAIN_CONFIG_def MONAD_DEVNET_STAKING_CONFIG_def MONAD_TESTNET_STAKING_CONFIG_def
  MONAD_MAINNET_STAKING_CONFIG_def

lemma max_reserve_balance_of [simp]: "max_reserve_balance (chain_params_of v) = 10000000000000000000"
  by (cases v) simp_all

lemma tx_limit_bound: "tx_limit (chain_params_of v) \<le> 10000"
  by (cases v) simp_all

lemma proposal_gas_limit_bound: "proposal_gas_limit (chain_params_of v) \<le> 300000000"
  by (cases v) simp_all

lemma max_code_size_bound: "max_code_size (execution_chain_params_of v) \<le> 128 * 1024"
  by (cases v) simp_all

lemma chain_config_new_id: "monad_chain_config_new cid ov = Inr cfg \<Longrightarrow> chain_id cfg = cid"
  by (auto simp: monad_chain_config_new_def chain_config_eval split: if_splits option.splits)

lemma chain_config_new_total:
  "(\<exists>cfg. monad_chain_config_new cid None = Inr cfg) \<longleftrightarrow> cid \<in> {143, 10143, 20143}"
  by (simp add: monad_chain_config_new_def chain_config_eval)

end
