(* ===== verification/Eth_Txn.thy ===== *)
theory Eth_Txn
  imports Chain_Config
begin

text \<open>
  Ethereum transactions as the consensus layer reads them, from
  \<^verbatim>\<open>monad-eth-block-policy/src/validation.rs\<close> (static validation) and
  \<^verbatim>\<open>monad-eth-block-policy/src/lib.rs\<close> (gas cost of a transaction).

  The transaction type itself belongs to the \<^verbatim>\<open>alloy\<close> packages.  The record \<open>tx_envelope\<close> holds
  the results of the accessors that the code calls on a transaction: for instance \<open>tx_gas_price\<close>
  is what \<^verbatim>\<open>gas_price()\<close> returns, and \<open>tx_high_s\<close> tells whether \<^verbatim>\<open>signature().normalize_s()\<close> is
  \<^verbatim>\<open>Some\<close>.  Addresses are the numbers their 20 bytes stand for.  Unchecked \<^verbatim>\<open>u64\<close> arithmetic
  wraps around.
\<close>

section \<open>Transactions\<close>

type_synonym address = nat
type_synonym balance = u256

abbreviation add64 :: "u64 \<Rightarrow> u64 \<Rightarrow> u64" where
  "add64 a b \<equiv> wrapping_add u64_max a b"

abbreviation mul64 :: "u64 \<Rightarrow> u64 \<Rightarrow> u64" where
  "mul64 a b \<equiv> wrapping_mul u64_max a b"

datatype tx_type = TxLegacy | TxEip2930 | TxEip1559 | TxEip4844 | TxEip7702

datatype tx_kind = TxCreate | TxCall address

record authorization =
  auth_chain_id :: u256
  auth_address :: address
  auth_nonce :: u64

record recovered_authorization = authorization +
  auth_authority :: "address option"

record 'sig tx_envelope =
  tx_type_of :: tx_type
  tx_chain_id :: "u64 option"
  tx_nonce :: u64
  tx_gas_price :: "nat option"
  tx_gas_limit :: u64
  tx_max_fee_per_gas :: nat
  tx_max_priority_fee_per_gas :: "nat option"
  tx_kind_of :: tx_kind
  tx_value :: u256
  tx_input :: bytes
  tx_access_list :: "(address \<times> nat list) list option"
  tx_authorization_list :: "(authorization \<times> 'sig) list option"
  tx_signature :: 'sig
  tx_high_s :: bool
  tx_length :: nat

definition is_create :: "tx_kind \<Rightarrow> bool" where
  "is_create k \<longleftrightarrow> k = TxCreate"

definition tx_to :: "'sig tx_envelope \<Rightarrow> address option" where
  "tx_to tx = (case tx_kind_of tx of TxCreate \<Rightarrow> None | TxCall a \<Rightarrow> Some a)"

record 'sig recovered_tx =
  rec_tx :: "'sig tx_envelope"
  rec_signer :: address

record 'sig validated_tx =
  val_tx :: "'sig recovered_tx"
  authorizations_7702 :: "recovered_authorization list"

definition vt_signer :: "'sig validated_tx \<Rightarrow> address" where
  "vt_signer t = rec_signer (val_tx t)"

definition vt_tx :: "'sig validated_tx \<Rightarrow> 'sig tx_envelope" where
  "vt_tx t = rec_tx (val_tx t)"

definition vt_nonce :: "'sig validated_tx \<Rightarrow> u64" where
  "vt_nonce t = tx_nonce (vt_tx t)"

section \<open>The cost of a transaction\<close>

definition compute_txn_max_gas_cost :: "'sig tx_envelope \<Rightarrow> u64 \<Rightarrow> u256 option" where
  "compute_txn_max_gas_cost txn block_base_fee =
     (if tx_type_of txn = TxLegacy \<or> tx_type_of txn = TxEip2930 then
        checked_mul u256_max (tx_gas_limit txn) (tx_max_fee_per_gas txn)
      else
        let max_fee = tx_max_fee_per_gas txn;
            priority_fee = (case tx_max_priority_fee_per_gas txn of None \<Rightarrow> 0 | Some f \<Rightarrow> f);
            gas_bid = min max_fee (saturating_add u256_max block_base_fee priority_fee)
        in checked_mul u256_max (tx_gas_limit txn) gas_bid)"

definition compute_txn_max_value :: "'sig tx_envelope \<Rightarrow> u64 \<Rightarrow> u256 option" where
  "compute_txn_max_value txn block_base_fee = do {
     gas_cost \<leftarrow> compute_txn_max_gas_cost txn block_base_fee;
     Some (saturating_add u256_max (tx_value txn) gas_cost)
   }"

section \<open>Static validation\<close>

datatype static_validation_error =
    InvalidChainId u64
  | MaxPriorityOverMaxFee nat nat
  | InitCodeLimitExceeded nat nat
  | EncodedLengthLimitExceeded
  | GasLimitUnderFloorDataGas u64 u64
  | GasLimitUnderIntrinsicGas u64 u64
  | GasLimitOverTFMGasLimit u64 u64
  | GasLimitOverProposalGasLimit u64 u64
  | InvalidSignature
  | UnsupportedTransactionType
  | AuthorizationListEmpty
  | AuthorizationListLengthLimitExceeded

definition TFM_MAX_GAS_LIMIT :: u64 where
  "TFM_MAX_GAS_LIMIT = 30000000"

definition EIP_7702_PER_EMPTY_ACCOUNT_COST :: u64 where
  "EIP_7702_PER_EMPTY_ACCOUNT_COST = 25000"

definition zero_data_len :: "bytes \<Rightarrow> u64" where
  "zero_data_len input = length (filter (\<lambda>v. v = 0) input)"

definition compute_intrinsic_gas :: "'sig tx_envelope \<Rightarrow> u64" where
  "compute_intrinsic_gas tx =
     (let input = tx_input tx;
          zero = zero_data_len input;
          non_zero = length input - zero;
          gas = add64 21000 (mul64 zero 4);
          gas = add64 gas (mul64 non_zero 16);
          gas = (if is_create (tx_kind_of tx)
                 then add64 (add64 gas 32000) (mul64 (div_ceil (length input) 32) 2)
                 else gas);
          access_list = (case tx_access_list tx of None \<Rightarrow> [] | Some l \<Rightarrow> l);
          accessed_slots = foldl (\<lambda>n item. add64 n (length (snd item))) 0 access_list;
          gas = add64 gas (mul64 (length access_list) 2400);
          gas = add64 gas (mul64 accessed_slots 1900)
      in if tx_type_of tx = TxEip7702
         then (case tx_authorization_list tx of
                 Some auth_list \<Rightarrow>
                   saturating_add u64_max gas (saturating_mul u64_max EIP_7702_PER_EMPTY_ACCOUNT_COST (length auth_list))
               | None \<Rightarrow> gas)
         else gas)"

definition compute_floor_data_gas :: "'sig tx_envelope \<Rightarrow> u64" where
  "compute_floor_data_gas tx =
     (let zero = zero_data_len (tx_input tx);
          non_zero = length (tx_input tx) - zero
      in add64 21000 (add64 (mul64 zero 10) (mul64 non_zero 40)))"

definition tfm_validate :: "'sig tx_envelope \<Rightarrow> chain_params \<Rightarrow> static_validation_error + unit" where
  "tfm_validate tx params =
     (if tx_gas_limit tx > TFM_MAX_GAS_LIMIT then Inl (GasLimitOverTFMGasLimit (tx_gas_limit tx) TFM_MAX_GAS_LIMIT)
      else if tx_gas_limit tx > proposal_gas_limit params
        then Inl (GasLimitOverProposalGasLimit (tx_gas_limit tx) (proposal_gas_limit params))
      else Inr ())"

definition intrinsic_gas_validation :: "'sig tx_envelope \<Rightarrow> static_validation_error + unit" where
  "intrinsic_gas_validation tx =
     (let intrinsic_gas = compute_intrinsic_gas tx
      in if tx_gas_limit tx < intrinsic_gas then Inl (GasLimitUnderIntrinsicGas (tx_gas_limit tx) intrinsic_gas)
         else Inr ())"

definition eip_2 :: "'sig tx_envelope \<Rightarrow> static_validation_error + unit" where
  "eip_2 tx = (if tx_high_s tx then Inl InvalidSignature else Inr ())"

definition eip_155 :: "'sig tx_envelope \<Rightarrow> u64 \<Rightarrow> static_validation_error + unit" where
  "eip_155 tx cid =
     (case tx_chain_id tx of
        Some tx_cid \<Rightarrow> if tx_cid \<noteq> cid then Inl (InvalidChainId tx_cid) else Inr ()
      | None \<Rightarrow> Inr ())"

definition eip_1559 :: "'sig tx_envelope \<Rightarrow> static_validation_error + unit" where
  "eip_1559 tx =
     (case tx_max_priority_fee_per_gas tx of
        Some fee \<Rightarrow>
          if fee > tx_max_fee_per_gas tx then Inl (MaxPriorityOverMaxFee fee (tx_max_fee_per_gas tx)) else Inr ()
      | None \<Rightarrow> Inr ())"

definition eip_3860 :: "'sig tx_envelope \<Rightarrow> execution_chain_params \<Rightarrow> static_validation_error + unit" where
  "eip_3860 tx params =
     (let max_init_code_size = 2 * max_code_size params
      in if is_create (tx_kind_of tx) \<and> length (tx_input tx) > max_init_code_size
         then Inl (InitCodeLimitExceeded (length (tx_input tx)) max_init_code_size)
         else Inr ())"

definition eip_7623 :: "'sig tx_envelope \<Rightarrow> static_validation_error + unit" where
  "eip_7623 tx =
     (let floor_data_gas = compute_floor_data_gas tx
      in if tx_gas_limit tx < floor_data_gas then Inl (GasLimitUnderFloorDataGas (tx_gas_limit tx) floor_data_gas)
         else Inr ())"

definition eip_7702 :: "'sig tx_envelope \<Rightarrow> execution_chain_params \<Rightarrow> static_validation_error + unit" where
  "eip_7702 tx params =
     (if tx_type_of tx \<noteq> TxEip7702 then Inr ()
      else if \<not> prague_enabled params then Inl UnsupportedTransactionType
      else (case tx_authorization_list tx of
              Some auth_list \<Rightarrow> if auth_list = [] then Inl AuthorizationListEmpty else Inr ()
            | None \<Rightarrow> Inl AuthorizationListEmpty))"

definition homestead_validate :: "'sig tx_envelope \<Rightarrow> u64 \<Rightarrow> static_validation_error + unit" where
  "homestead_validate tx cid = (case eip_2 tx of Inl e \<Rightarrow> Inl e | Inr _ \<Rightarrow> eip_155 tx cid)"

definition prague_validate :: "'sig tx_envelope \<Rightarrow> execution_chain_params \<Rightarrow> static_validation_error + unit" where
  "prague_validate tx params =
     (case (if prague_enabled params then eip_7623 tx else Inr ()) of
        Inl e \<Rightarrow> Inl e
      | Inr _ \<Rightarrow> eip_7702 tx params)"

definition static_validate_transaction ::
  "'sig tx_envelope \<Rightarrow> u64 \<Rightarrow> chain_params \<Rightarrow> execution_chain_params \<Rightarrow> static_validation_error + unit" where
  "static_validate_transaction tx cid params execution_params =
     (if tx_type_of tx = TxEip4844 then Inl UnsupportedTransactionType
      else case tfm_validate tx params of Inl e \<Rightarrow> Inl e | Inr _ \<Rightarrow>
      case homestead_validate tx cid of Inl e \<Rightarrow> Inl e | Inr _ \<Rightarrow>
      case eip_1559 tx of Inl e \<Rightarrow> Inl e | Inr _ \<Rightarrow>
      case eip_3860 tx execution_params of Inl e \<Rightarrow> Inl e | Inr _ \<Rightarrow>
      case intrinsic_gas_validation tx of Inl e \<Rightarrow> Inl e | Inr _ \<Rightarrow>
      prague_validate tx execution_params)"

section \<open>Lemmas: costs\<close>

definition u128_max :: nat where
  "u128_max = 2 ^ 128 - 1"

definition tx_widths :: "'sig tx_envelope \<Rightarrow> bool" where
  "tx_widths tx \<longleftrightarrow> tx_gas_limit tx \<le> u64_max \<and> tx_max_fee_per_gas tx \<le> u128_max
     \<and> tx_value tx \<le> u256_max \<and> tx_nonce tx \<le> u64_max"

lemma gas_product_fits:
  assumes "g \<le> u64_max" and "p \<le> u128_max"
  shows "g * p \<le> u256_max"
proof -
  have "g * p \<le> u64_max * u128_max" using assms by (rule mult_le_mono)
  also have "\<dots> \<le> u256_max" by (simp add: u64_max_def u128_max_def u256_max_def)
  finally show ?thesis .
qed

definition gas_price_bid :: "'sig tx_envelope \<Rightarrow> u64 \<Rightarrow> nat" where
  "gas_price_bid tx block_base_fee =
     (if tx_type_of tx = TxLegacy \<or> tx_type_of tx = TxEip2930 then tx_max_fee_per_gas tx
      else min (tx_max_fee_per_gas tx)
             (block_base_fee + (case tx_max_priority_fee_per_gas tx of None \<Rightarrow> 0 | Some f \<Rightarrow> f)))"

lemma max_gas_cost_value:
  assumes "tx_widths tx"
  shows "compute_txn_max_gas_cost tx block_base_fee = Some (tx_gas_limit tx * gas_price_bid tx block_base_fee)"
proof -
  have fee: "tx_max_fee_per_gas tx \<le> u128_max" and gas: "tx_gas_limit tx \<le> u64_max"
    using assms by (auto simp: tx_widths_def)
  have fits: "tx_gas_limit tx * min (tx_max_fee_per_gas tx) x \<le> u256_max" for x
    by (rule gas_product_fits[OF gas]) (use fee in simp)
  have cap: "min (tx_max_fee_per_gas tx) (min u256_max x) = min (tx_max_fee_per_gas tx) x" for x
    using fee by (auto simp: min_def u128_max_def u256_max_def)
  show ?thesis
    using fits[of "block_base_fee + (case tx_max_priority_fee_per_gas tx of None \<Rightarrow> 0 | Some f \<Rightarrow> f)"]
      gas_product_fits[OF gas fee]
    by (simp add: compute_txn_max_gas_cost_def gas_price_bid_def checked_mul_def saturating_add_def cap Let_def)
qed

lemma max_gas_cost_le:
  "tx_widths tx \<Longrightarrow> compute_txn_max_gas_cost tx block_base_fee = Some c \<Longrightarrow> c \<le> u256_max"
  using gas_product_fits[of "tx_gas_limit tx" "tx_max_fee_per_gas tx"]
  by (auto simp: compute_txn_max_gas_cost_def checked_mul_def Let_def split: if_splits)

end
