(* ===== verification/Nonce_Usage.thy ===== *)
theory Nonce_Usage
  imports Eth_Txn
begin

text \<open>
  What a block does to the nonces of accounts, from
  \<^verbatim>\<open>monad-eth-block-policy/src/nonce_usage.rs\<close>.  A transaction fixes the nonce of its sender
  (\<open>Known\<close>); an EIP-7702 authorization only uses a nonce if it is the next one, which the block
  alone does not tell (\<open>Possible\<close>).  The summaries of consecutive blocks are merged newest first.
  The additions wrap around at 64 bits.
\<close>

section \<open>Usage of one account\<close>

datatype nonce_usage = Known u64 | Possible "u64 list"

fun merge_known_loop :: "u64 \<Rightarrow> u64 list \<Rightarrow> u64" where
  "merge_known_loop nonce [] = nonce"
| "merge_known_loop nonce (p # ps) = merge_known_loop (if add64 nonce 1 = p then add64 nonce 1 else nonce) ps"

fun merge_with_previous :: "nonce_usage \<Rightarrow> nonce_usage \<Rightarrow> nonce_usage" where
  "merge_with_previous (Known n) previous = Known n"
| "merge_with_previous (Possible ps) (Known previous_nonce) = Known (merge_known_loop previous_nonce ps)"
| "merge_with_previous (Possible ps) (Possible previous) = Possible (foldl (\<lambda>acc p. p # acc) ps (rev previous))"

fun apply_possible_nonces_to_account_nonce :: "u64 \<Rightarrow> u64 list \<Rightarrow> u64" where
  "apply_possible_nonces_to_account_nonce account_nonce [] = account_nonce"
| "apply_possible_nonces_to_account_nonce account_nonce (p # ps) =
     apply_possible_nonces_to_account_nonce (if p = account_nonce then add64 account_nonce 1 else account_nonce) ps"

fun apply_to_account_nonce :: "nonce_usage \<Rightarrow> u64 \<Rightarrow> u64" where
  "apply_to_account_nonce (Known nonce) account_nonce = add64 nonce 1"
| "apply_to_account_nonce (Possible ps) account_nonce = apply_possible_nonces_to_account_nonce account_nonce ps"

section \<open>Usage of a block\<close>

type_synonym nonce_usage_map = "(address, nonce_usage) btree_map"

definition add_known :: "address \<Rightarrow> u64 \<Rightarrow> nonce_usage_map \<Rightarrow> nonce_usage option \<times> nonce_usage_map" where
  "add_known signer nonce m = (bt_get m signer, bt_insert signer (Known nonce) m)"

fun merge_with_previous_block :: "nonce_usage_map \<Rightarrow> (address \<times> nonce_usage) list \<Rightarrow> nonce_usage_map" where
  "merge_with_previous_block m [] = m"
| "merge_with_previous_block m ((a, previous) # rest) =
     merge_with_previous_block
       (case bt_get m a of
          None \<Rightarrow> bt_insert a previous m
        | Some u \<Rightarrow> bt_insert a (merge_with_previous u previous) m) rest"

definition get_nonce_usages :: "nonce_usage_map list \<Rightarrow> nonce_usage_map" where
  "get_nonce_usages blocks =
     (case rev blocks of
        [] \<Rightarrow> []
      | newest # older \<Rightarrow> foldl merge_with_previous_block newest older)"

section \<open>Lemmas\<close>

text \<open>The nonce an account has after a block: unchanged where the block does not mention it.\<close>

definition usage_effect :: "nonce_usage option \<Rightarrow> u64 \<Rightarrow> u64" where
  "usage_effect u n = (case u of None \<Rightarrow> n | Some v \<Rightarrow> apply_to_account_nonce v n)"

definition merged_usage :: "nonce_usage option \<Rightarrow> nonce_usage option \<Rightarrow> nonce_usage option" where
  "merged_usage u previous =
     (case u of
        None \<Rightarrow> previous
      | Some v \<Rightarrow> (case previous of None \<Rightarrow> Some v | Some p \<Rightarrow> Some (merge_with_previous v p)))"

lemma usage_effect_simps [simp]:
  "usage_effect None n = n" "usage_effect (Some u) n = apply_to_account_nonce u n"
  by (simp_all add: usage_effect_def)

lemma merged_usage_simps [simp]:
  "merged_usage None p = p" "merged_usage (Some u) None = Some u"
  "merged_usage (Some u) (Some p') = Some (merge_with_previous u p')"
  by (simp_all add: merged_usage_def)

lemma apply_possible_append:
  "apply_possible_nonces_to_account_nonce n (ps @ qs) =
   apply_possible_nonces_to_account_nonce (apply_possible_nonces_to_account_nonce n ps) qs"
  by (induction ps arbitrary: n) auto

lemma merge_known_loop_next:
  "add64 (merge_known_loop n ps) 1 = apply_possible_nonces_to_account_nonce (add64 n 1) ps"
  by (induction ps arbitrary: n) auto

lemma push_front_rev: "foldl (\<lambda>acc p. p # acc) ps (rev qs) = qs @ ps"
  by (induction qs arbitrary: ps rule: rev_induct) auto

lemma merge_with_previous_effect:
  "apply_to_account_nonce (merge_with_previous u p) n = apply_to_account_nonce u (apply_to_account_nonce p n)"
  by (cases "(u, p)" rule: merge_with_previous.cases)
     (simp_all add: push_front_rev apply_possible_append merge_known_loop_next del: One_nat_def)

lemma merged_usage_effect: "usage_effect (merged_usage u p) n = usage_effect u (usage_effect p n)"
  by (cases u; cases p) (simp_all add: merge_with_previous_effect)

lemma merge_with_previous_block_wf: "bt_wf m \<Longrightarrow> bt_wf (merge_with_previous_block m ps)"
  by (induction m ps rule: merge_with_previous_block.induct) (auto split: option.splits)

lemma merge_block_absent:
  "a \<notin> fst ` set ps \<Longrightarrow> bt_wf m \<Longrightarrow> bt_get (merge_with_previous_block m ps) a = bt_get m a"
  by (induction m ps rule: merge_with_previous_block.induct) (auto split: option.splits)

lemma merge_block_get:
  "distinct (map fst ps) \<Longrightarrow> bt_wf m \<Longrightarrow>
   bt_get (merge_with_previous_block m ps) a = merged_usage (bt_get m a) (map_of ps a)"
proof (induction m ps rule: merge_with_previous_block.induct)
  case (1 m)
  then show ?case by (cases "bt_get m a") auto
next
  case (2 m b u rest)
  let ?m = "case bt_get m b of None \<Rightarrow> bt_insert b u m | Some v \<Rightarrow> bt_insert b (merge_with_previous v u) m"
  have wf: "bt_wf ?m" using 2(3) by (auto split: option.splits)
  have rest: "bt_get (merge_with_previous_block ?m rest) a = merged_usage (bt_get ?m a) (map_of rest a)"
    using 2 wf by simp
  show ?case
  proof (cases "a = b")
    case True
    then have "map_of rest a = None" using 2(2) by (force simp: map_of_eq_None_iff)
    then show ?thesis using rest True 2(3) by (cases "bt_get m b"; simp)
  next
    case False
    then have "bt_get ?m a = bt_get m a" using 2(3) by (cases "bt_get m b"; simp)
    then show ?thesis using rest False by simp
  qed
qed

lemma merge_blocks_effect:
  assumes "bt_wf m" and "\<And>b. b \<in> set older \<Longrightarrow> bt_wf b"
  shows "usage_effect (bt_get (foldl merge_with_previous_block m older) a) n
         = usage_effect (bt_get m a) (fold (\<lambda>b. usage_effect (bt_get b a)) (rev older) n)"
  using assms
proof (induction older arbitrary: m n)
  case (Cons b older)
  have d: "distinct (map fst b)" using Cons.prems(2) by (simp add: bt_wf_distinct)
  show ?case
    using Cons.IH[of "merge_with_previous_block m b" n] Cons.prems
    by (simp add: merge_with_previous_block_wf merge_block_get[OF d] merged_usage_effect)
qed simp

end
