(* ===== verification/System_Calls.thy ===== *)
theory System_Calls
  imports Nonce_Usage
begin

text \<open>
  System transactions, from \<^verbatim>\<open>monad-system-calls\<close>: the calls to the staking contract
  (\<^verbatim>\<open>staking_contract.rs\<close>), the calls a block must start with (\<^verbatim>\<open>lib.rs\<close>), and the validation of
  a block's system transactions (\<^verbatim>\<open>validator.rs\<close>).

  The record \<open>eth_ops\<close> collects the functions of other packages: ABI encoding, signing a legacy
  transaction with the system key, and recovering the signer of a transaction or of an
  authorization.
\<close>

section \<open>Functions of other packages\<close>

record tx_legacy =
  lg_chain_id :: "u64 option"
  lg_nonce :: u64
  lg_gas_price :: nat
  lg_gas_limit :: u64
  lg_to :: tx_kind
  lg_value :: u256
  lg_input :: bytes

record 'sig eth_ops =
  abi_encode_address :: "address \<Rightarrow> bytes"
  abi_encode_u64 :: "u64 \<Rightarrow> bytes"
  sign_legacy :: "tx_legacy \<Rightarrow> 'sig tx_envelope"
  recover_signer :: "'sig tx_envelope \<Rightarrow> address option"
  recover_authority :: "authorization \<Rightarrow> 'sig \<Rightarrow> address option"
  get_eth_address :: "node_id \<Rightarrow> address"

definition SYSTEM_SENDER_ETH_ADDRESS :: address where
  "SYSTEM_SENDER_ETH_ADDRESS = 0x6f49a8F621353f12378d0046E7d7e4b9B249DC9e"

definition sign_with_system_sender :: "'sig eth_ops \<Rightarrow> tx_legacy \<Rightarrow> 'sig recovered_tx" where
  "sign_with_system_sender ops transaction =
     \<lparr>rec_tx = sign_legacy ops transaction, rec_signer = SYSTEM_SENDER_ETH_ADDRESS\<rparr>"

section \<open>Calls to the staking contract\<close>

datatype system_transaction_error =
    UnexpectedSenderAddress
  | InvalidTxType
  | SysInvalidChainId
  | InvalidTxSignature
  | NonZeroGasPrice
  | NonZeroGasLimit
  | InvalidTxKind
  | UnexpectedDestAddress address "address option"
  | UnexpectedInput bytes bytes
  | UnexpectedValue u256 u256

datatype staking_contract_call =
    Reward address u256
  | Snapshot
  | EpochChange epoch

definition STAKING_CONTRACT_ADDRESS :: address where
  "STAKING_CONTRACT_ADDRESS = 0x0000000000000000000000000000000000001000"

definition REWARD_FUNCTION_SELECTOR :: bytes where
  "REWARD_FUNCTION_SELECTOR = [0x79, 0x1b, 0xdc, 0xf3]"

definition SNAPSHOT_FUNCTION_SELECTOR :: bytes where
  "SNAPSHOT_FUNCTION_SELECTOR = [0x15, 0x7e, 0xeb, 0x21]"

definition EPOCH_CHANGE_FUNCTION_SELECTOR :: bytes where
  "EPOCH_CHANGE_FUNCTION_SELECTOR = [0x1d, 0x4e, 0x9f, 0x02]"

definition MON :: u64 where
  "MON = 1000000000000000000"

definition starts_with :: "bytes \<Rightarrow> bytes \<Rightarrow> bool" where
  "starts_with input p \<longleftrightarrow> take (length p) input = p"

definition is_restricted_staking_contract_call :: "'sig recovered_tx \<Rightarrow> bool" where
  "is_restricted_staking_contract_call txn =
     (if tx_to (rec_tx txn) = Some STAKING_CONTRACT_ADDRESS then
        let input = tx_input (rec_tx txn)
        in starts_with input REWARD_FUNCTION_SELECTOR \<or> starts_with input SNAPSHOT_FUNCTION_SELECTOR
           \<or> starts_with input EPOCH_CHANGE_FUNCTION_SELECTOR
      else False)"

fun get_transaction_value :: "staking_contract_call \<Rightarrow> u256" where
  "get_transaction_value (Reward _ block_reward) = block_reward"
| "get_transaction_value Snapshot = 0"
| "get_transaction_value (EpochChange _) = 0"

fun get_transaction_input :: "'sig eth_ops \<Rightarrow> staking_contract_call \<Rightarrow> bytes" where
  "get_transaction_input ops (Reward block_author_address _) =
     REWARD_FUNCTION_SELECTOR @ abi_encode_address ops block_author_address"
| "get_transaction_input ops Snapshot = SNAPSHOT_FUNCTION_SELECTOR"
| "get_transaction_input ops (EpochChange new_epoch) =
     EPOCH_CHANGE_FUNCTION_SELECTOR @ abi_encode_u64 ops new_epoch"

definition as_legacy_transaction :: "'sig eth_ops \<Rightarrow> staking_contract_call \<Rightarrow> u64 \<Rightarrow> u64 \<Rightarrow> tx_legacy" where
  "as_legacy_transaction ops call cid nonce =
     \<lparr>lg_chain_id = Some cid, lg_nonce = nonce, lg_gas_price = 0, lg_gas_limit = 0,
      lg_to = TxCall STAKING_CONTRACT_ADDRESS, lg_value = get_transaction_value call,
      lg_input = get_transaction_input ops call\<rparr>"

datatype 'sig staking_contract_transaction =
    RewardTxn "'sig recovered_tx"
  | SnapshotTxn "'sig recovered_tx"
  | EpochChangeTxn "'sig recovered_tx"

fun into_inner :: "'sig staking_contract_transaction \<Rightarrow> 'sig recovered_tx" where
  "into_inner (RewardTxn t) = t"
| "into_inner (SnapshotTxn t) = t"
| "into_inner (EpochChangeTxn t) = t"

definition into_signed_transaction ::
  "'sig eth_ops \<Rightarrow> staking_contract_call \<Rightarrow> u64 \<Rightarrow> u64 \<Rightarrow> 'sig staking_contract_transaction" where
  "into_signed_transaction ops call cid nonce =
     (let signed = sign_with_system_sender ops (as_legacy_transaction ops call cid nonce)
      in case call of
           Reward _ _ \<Rightarrow> RewardTxn signed
         | Snapshot \<Rightarrow> SnapshotTxn signed
         | EpochChange _ \<Rightarrow> EpochChangeTxn signed)"

definition check_call_payload ::
  "'sig eth_ops \<Rightarrow> staking_contract_call \<Rightarrow> u256 \<Rightarrow> bytes \<Rightarrow> u256 \<Rightarrow> system_transaction_error + unit" where
  "check_call_payload ops call expected_value input val =
     (let expected_input = get_transaction_input ops call
      in if input \<noteq> expected_input then Inl (UnexpectedInput expected_input input)
         else if val \<noteq> expected_value then Inl (UnexpectedValue expected_value val)
         else Inr ())"

definition validate_system_transaction_input ::
  "'sig eth_ops \<Rightarrow> staking_contract_call \<Rightarrow> 'sig validated_tx \<Rightarrow> system_transaction_error + unit" where
  "validate_system_transaction_input ops call system_txn =
     (let tx = vt_tx system_txn; to = tx_to tx
      in if to \<noteq> Some STAKING_CONTRACT_ADDRESS then Inl (UnexpectedDestAddress STAKING_CONTRACT_ADDRESS to)
         else case call of
           Reward _ block_reward \<Rightarrow> check_call_payload ops call block_reward (tx_input tx) (tx_value tx)
         | Snapshot \<Rightarrow> check_call_payload ops call 0 (tx_input tx) (tx_value tx)
         | EpochChange _ \<Rightarrow> check_call_payload ops call 0 (tx_input tx) (tx_value tx))"

section \<open>The calls a block must make\<close>

definition snapshot_due :: "seq_num \<Rightarrow> seq_num \<Rightarrow> epoch \<Rightarrow> bool option" where
  "snapshot_due proposed_seq_num len activation = do {
     b \<leftarrow> is_boundary_block proposed_seq_num len;
     if b then do {
       e \<leftarrow> get_locked_epoch proposed_seq_num len;
       Some (e \<ge> activation)
     } else Some False
   }"

definition epoch_change_due :: "seq_num \<Rightarrow> epoch \<Rightarrow> epoch \<Rightarrow> epoch \<Rightarrow> bool option" where
  "epoch_change_due proposed_seq_num proposed_epoch parent_block_epoch activation = do {
     is_first_epoch_block \<leftarrow>
       (if parent_block_epoch \<noteq> proposed_epoch then do {
          before \<leftarrow> epoch_sub activation 1;
          Some (proposed_epoch \<ge> before)
        } else Some False);
     let is_genesis_block = (proposed_seq_num = GENESIS_SEQ_NUM + 1 \<and> activation = 2);
     Some (is_first_epoch_block \<or> is_genesis_block)
   }"

definition generate_system_calls ::
  "seq_num \<Rightarrow> epoch \<Rightarrow> epoch \<Rightarrow> address \<Rightarrow> monad_chain_config \<Rightarrow> staking_contract_call list option" where
  "generate_system_calls proposed_seq_num proposed_epoch parent_block_epoch block_author_address cfg =
     (let activation = get_staking_activation cfg
      in do {
        snapshot \<leftarrow> snapshot_due proposed_seq_num (cc_epoch_length cfg) activation;
        epoch_change \<leftarrow> epoch_change_due proposed_seq_num proposed_epoch parent_block_epoch activation;
        let block_reward = wrapping_mul u256_max MON (get_block_reward_mon cfg proposed_epoch);
        Some ((if snapshot then [Snapshot] else [])
              @ (if epoch_change then [EpochChange proposed_epoch] else [])
              @ (if proposed_epoch \<ge> activation then [Reward block_author_address block_reward] else []))
      })"

fun sign_system_calls ::
  "'sig eth_ops \<Rightarrow> u64 \<Rightarrow> u64 \<Rightarrow> staking_contract_call list \<Rightarrow> 'sig staking_contract_transaction list" where
  "sign_system_calls ops cid nonce [] = []"
| "sign_system_calls ops cid nonce (c # cs) =
     into_signed_transaction ops c cid nonce # sign_system_calls ops cid (add64 nonce 1) cs"

definition generate_system_transactions ::
  "'sig eth_ops \<Rightarrow> seq_num \<Rightarrow> epoch \<Rightarrow> epoch \<Rightarrow> address \<Rightarrow> u64 \<Rightarrow> monad_chain_config
     \<Rightarrow> 'sig staking_contract_transaction list option" where
  "generate_system_transactions ops proposed_seq_num proposed_epoch parent_block_epoch block_author
       next_system_txn_nonce cfg = do {
     calls \<leftarrow> generate_system_calls proposed_seq_num proposed_epoch parent_block_epoch block_author cfg;
     Some (sign_system_calls ops (chain_id cfg) next_system_txn_nonce calls)
   }"

section \<open>Validation of the system transactions of a block\<close>

datatype system_transaction_validation_error =
    MissingSystemTransaction
  | UnexpectedSystemTransaction
  | SystemTransactionError system_transaction_error

definition is_system_sender :: "address \<Rightarrow> bool" where
  "is_system_sender a \<longleftrightarrow> a = SYSTEM_SENDER_ETH_ADDRESS"

definition static_validate_system_transaction ::
  "'sig recovered_tx \<Rightarrow> monad_chain_config \<Rightarrow> system_transaction_error + unit" where
  "static_validate_system_transaction txn cfg =
     (let tx = rec_tx txn
      in if \<not> is_system_sender (rec_signer txn) then Inl UnexpectedSenderAddress
         else if tx_type_of tx \<noteq> TxLegacy then Inl InvalidTxType
         else if tx_chain_id tx \<noteq> Some (chain_id cfg) then Inl SysInvalidChainId
         else if tx_high_s tx then Inl InvalidTxSignature
         else if tx_gas_price tx \<noteq> Some 0 then Inl NonZeroGasPrice
         else if tx_gas_limit tx \<noteq> 0 then Inl NonZeroGasLimit
         else if is_create (tx_kind_of tx) then Inl InvalidTxKind
         else Inr ())"

definition timestamp_ns_to_secs :: "nat \<Rightarrow> u64" where
  "timestamp_ns_to_secs ns = min (ns div 1000000000) u64_max"

fun extract_loop ::
  "monad_chain_config \<Rightarrow> 'sig validated_tx list \<Rightarrow> 'sig recovered_tx list
     \<Rightarrow> system_transaction_validation_error + ('sig validated_tx list \<times> 'sig recovered_tx list)" where
  "extract_loop cfg sys_txns [] = Inr (sys_txns, [])"
| "extract_loop cfg sys_txns (txn # rest) =
     (if \<not> is_system_sender (rec_signer txn) then Inr (sys_txns, txn # rest)
      else case static_validate_system_transaction txn cfg of
             Inl e \<Rightarrow> Inl (SystemTransactionError e)
           | Inr _ \<Rightarrow> extract_loop cfg (sys_txns @ [\<lparr>val_tx = txn, authorizations_7702 = []\<rparr>]) rest)"

fun check_user_txns :: "'sig recovered_tx list \<Rightarrow> system_transaction_validation_error + unit" where
  "check_user_txns [] = Inr ()"
| "check_user_txns (txn # rest) =
     (if is_system_sender (rec_signer txn) then Inl UnexpectedSystemTransaction
      else if is_restricted_staking_contract_call txn then Inl UnexpectedSystemTransaction
      else check_user_txns rest)"

definition extract_system_transactions ::
  "nat \<Rightarrow> 'sig recovered_tx list \<Rightarrow> monad_chain_config
     \<Rightarrow> system_transaction_validation_error + ('sig validated_tx list \<times> 'sig recovered_tx list)" where
  "extract_system_transactions header_timestamp_ns recovered_txns cfg =
     (if \<not> validate_system_txs (execution_chain_params_of
             (get_execution_chain_revision cfg (timestamp_ns_to_secs header_timestamp_ns)))
      then Inr ([], recovered_txns)
      else case extract_loop cfg [] recovered_txns of
             Inl e \<Rightarrow> Inl e
           | Inr (sys_txns, user_txns) \<Rightarrow>
               (case check_user_txns user_txns of Inl e \<Rightarrow> Inl e | Inr _ \<Rightarrow> Inr (sys_txns, user_txns)))"

fun validate_inputs ::
  "'sig eth_ops \<Rightarrow> (staking_contract_call \<times> 'sig validated_tx) list \<Rightarrow> system_transaction_validation_error + unit" where
  "validate_inputs ops [] = Inr ()"
| "validate_inputs ops ((call, txn) # rest) =
     (case validate_system_transaction_input ops call txn of
        Inl e \<Rightarrow> Inl (SystemTransactionError e)
      | Inr _ \<Rightarrow> validate_inputs ops rest)"

definition validate_system_transactions_input ::
  "'sig eth_ops \<Rightarrow> nat \<Rightarrow> seq_num \<Rightarrow> epoch \<Rightarrow> node_id \<Rightarrow> epoch \<Rightarrow> 'sig validated_tx list \<Rightarrow> monad_chain_config
     \<Rightarrow> (system_transaction_validation_error + unit) option" where
  "validate_system_transactions_input ops header_timestamp_ns seq ep auth parent_block_epoch sys_txns cfg =
     (if \<not> validate_system_txs (execution_chain_params_of
             (get_execution_chain_revision cfg (timestamp_ns_to_secs header_timestamp_ns)))
      then do { _ \<leftarrow> assert_p (sys_txns = []); ok () }
      else do {
        expected \<leftarrow> generate_system_calls seq ep parent_block_epoch (get_eth_address ops auth) cfg;
        if length expected \<noteq> length sys_txns then err UnexpectedSystemTransaction
        else Some (validate_inputs ops (zip expected sys_txns))
      })"

section \<open>Lemmas\<close>

text \<open>What the code relies on when it signs: the envelope of a signed legacy transaction has the
  fields that were signed and a signature in the lower half of the curve order.\<close>

definition legacy_signer :: "'sig eth_ops \<Rightarrow> bool" where
  "legacy_signer ops \<longleftrightarrow> (\<forall>t. let e = sign_legacy ops t in
     tx_type_of e = TxLegacy \<and> tx_chain_id e = lg_chain_id t \<and> tx_nonce e = lg_nonce t
     \<and> tx_gas_price e = Some (lg_gas_price t) \<and> tx_gas_limit e = lg_gas_limit t \<and> tx_kind_of e = lg_to t
     \<and> tx_value e = lg_value t \<and> tx_input e = lg_input t \<and> \<not> tx_high_s e)"

lemma into_inner_signed:
  "into_inner (into_signed_transaction ops c cid n) = sign_with_system_sender ops (as_legacy_transaction ops c cid n)"
  by (simp add: into_signed_transaction_def Let_def split: staking_contract_call.splits)

lemma signed_call_valid:
  fixes ops :: "'sig eth_ops" and cfg :: monad_chain_config and c :: staking_contract_call and n :: u64
  assumes "legacy_signer ops"
  defines "t \<equiv> into_inner (into_signed_transaction ops c (chain_id cfg) n)"
  shows "is_system_sender (rec_signer t)" and "static_validate_system_transaction t cfg = Inr ()"
    and "tx_nonce (rec_tx t) = n"
    and "validate_system_transaction_input ops c \<lparr>val_tx = t, authorizations_7702 = []\<rparr> = Inr ()"
  using assms
  by (cases c; simp add: t_def into_inner_signed legacy_signer_def sign_with_system_sender_def is_system_sender_def
      static_validate_system_transaction_def as_legacy_transaction_def is_create_def Let_def
      validate_system_transaction_input_def vt_tx_def tx_to_def check_call_payload_def)+

abbreviation as_validated :: "'sig recovered_tx \<Rightarrow> 'sig validated_tx" where
  "as_validated t \<equiv> \<lparr>val_tx = t, authorizations_7702 = []\<rparr>"

lemma extract_loop_prefix:
  assumes "\<And>t. t \<in> set txns \<Longrightarrow> is_system_sender (rec_signer t) \<and> static_validate_system_transaction t cfg = Inr ()"
    and "user = [] \<or> \<not> is_system_sender (rec_signer (hd user))"
  shows "extract_loop cfg acc (txns @ user) = Inr (acc @ map as_validated txns, user)"
  using assms
proof (induction txns arbitrary: acc)
  case Nil
  then show ?case by (cases user) auto
qed simp

lemma extract_loop_sound:
  "extract_loop cfg acc txns = Inr (sys, user) \<Longrightarrow>
   \<exists>pre. txns = pre @ user \<and> sys = acc @ map as_validated pre
     \<and> (\<forall>t \<in> set pre. is_system_sender (rec_signer t) \<and> static_validate_system_transaction t cfg = Inr ())"
proof (induction cfg acc txns rule: extract_loop.induct)
  case (2 cfg acc t rest)
  show ?case
  proof (cases "is_system_sender (rec_signer t)")
    case True
    then obtain u where v: "static_validate_system_transaction t cfg = Inr u"
      using 2(2) by (auto split: sum.splits)
    then obtain pre where "rest = pre @ user" "sys = (acc @ [as_validated t]) @ map as_validated pre"
      "\<forall>t \<in> set pre. is_system_sender (rec_signer t) \<and> static_validate_system_transaction t cfg = Inr ()"
      using 2 True by auto
    then show ?thesis using True v by (intro exI[of _ "t # pre"]) simp
  next
    case False
    then show ?thesis using 2(2) by simp
  qed
qed simp

lemma check_user_txns_ok:
  "check_user_txns ts = Inr () \<longleftrightarrow>
   (\<forall>t \<in> set ts. \<not> is_system_sender (rec_signer t) \<and> \<not> is_restricted_staking_contract_call t)"
  by (induction ts) auto

lemma validate_inputs_ok:
  "validate_inputs ops ps = Inr () \<longleftrightarrow> (\<forall>(c, t) \<in> set ps. validate_system_transaction_input ops c t = Inr ())"
  by (induction ops ps rule: validate_inputs.induct) (auto split: sum.splits)

lemma validate_input_sound:
  "validate_system_transaction_input ops c t = Inr () \<longleftrightarrow>
   tx_to (vt_tx t) = Some STAKING_CONTRACT_ADDRESS \<and> tx_input (vt_tx t) = get_transaction_input ops c
   \<and> tx_value (vt_tx t) = get_transaction_value c"
  by (cases c) (auto simp: validate_system_transaction_input_def check_call_payload_def Let_def)

lemma sign_system_calls_props:
  fixes ops :: "'sig eth_ops" and cfg :: monad_chain_config
  assumes "legacy_signer ops"
  defines "ts n cs \<equiv> map into_inner (sign_system_calls ops (chain_id cfg) n cs)"
  shows "length (ts n cs) = length cs"
    and "t \<in> set (ts n cs) \<Longrightarrow> is_system_sender (rec_signer t) \<and> static_validate_system_transaction t cfg = Inr ()"
    and "validate_inputs ops (zip cs (map as_validated (ts n cs))) = Inr ()"
    and "i < length cs \<Longrightarrow> n \<le> u64_max \<Longrightarrow> tx_nonce (rec_tx (ts n cs ! i)) = (n + i) mod 2 ^ 64"
proof -
  show len: "length (ts n cs) = length cs" for n by (induction cs arbitrary: n) (simp_all add: ts_def)
  show "t \<in> set (ts n cs) \<Longrightarrow> is_system_sender (rec_signer t) \<and> static_validate_system_transaction t cfg = Inr ()"
    by (induction cs arbitrary: n) (auto simp: ts_def signed_call_valid[OF assms(1)] simp del: One_nat_def)
  show "validate_inputs ops (zip cs (map as_validated (ts n cs))) = Inr ()"
    by (induction cs arbitrary: n) (simp_all add: ts_def signed_call_valid[OF assms(1)])
  have w: "(wrapping_add u64_max m 1 + k) mod 2 ^ 64 = (m + Suc k) mod 2 ^ 64" for m k
    by (simp add: wrapping_add_def u64_max_def mod_simps)
  have le: "wrapping_add u64_max m 1 \<le> u64_max" for m
    by (simp add: wrapping_add_def less_Suc_eq_le[symmetric])
  show "i < length cs \<Longrightarrow> n \<le> u64_max \<Longrightarrow> tx_nonce (rec_tx (ts n cs ! i)) = (n + i) mod 2 ^ 64"
  proof (induction cs arbitrary: n i)
    case (Cons c cs)
    show ?case
    proof (cases i)
      case 0
      then show ?thesis using Cons.prems by (simp add: ts_def signed_call_valid[OF assms(1)] u64_max_def)
    next
      case (Suc j)
      then show ?thesis using Cons.IH[of j "wrapping_add u64_max n 1"] Cons.prems le w
        by (simp add: ts_def del: One_nat_def)
    qed
  qed simp
qed

section \<open>The system transactions of a proposal\<close>

definition example_ops :: "nat eth_ops" where
  "example_ops = \<lparr>abi_encode_address = (\<lambda>a. replicate 31 0 @ [of_nat a]), abi_encode_u64 = (\<lambda>n. replicate 31 0 @ [of_nat n]),
     sign_legacy = (\<lambda>t. \<lparr>tx_type_of = TxLegacy, tx_chain_id = lg_chain_id t, tx_nonce = lg_nonce t,
        tx_gas_price = Some (lg_gas_price t), tx_gas_limit = lg_gas_limit t, tx_max_fee_per_gas = lg_gas_price t,
        tx_max_priority_fee_per_gas = None, tx_kind_of = lg_to t, tx_value = lg_value t, tx_input = lg_input t,
        tx_access_list = None, tx_authorization_list = None, tx_signature = SYSTEM_SENDER_ETH_ADDRESS,
        tx_high_s = False, tx_length = 100\<rparr>),
     recover_signer = (\<lambda>t. Some (tx_signature t)), recover_authority = (\<lambda>_ s. Some s),
     get_eth_address = (\<lambda>n. 5)\<rparr>"

lemma example_ops_signer: "legacy_signer example_ops"
  by (simp add: legacy_signer_def example_ops_def)

text \<open>C33: A proposal that starts with the system transactions its leader generates and continues with
  user transactions that neither come from the system account nor make a restricted call passes every
  check the other validators apply to them: the system transactions are extracted exactly, their
  contents are the expected ones, and their nonces count up from the one the leader started with.\<close>

theorem system_transactions_round_trip:
  assumes "legacy_signer ops"
    and "generate_system_transactions ops seq ep parent_ep (get_eth_address ops auth) nonce cfg = Some txns"
    and "validate_system_txs (execution_chain_params_of (get_execution_chain_revision cfg (timestamp_ns_to_secs ts)))"
    and "check_user_txns user = Inr ()" and "nonce \<le> u64_max"
  defines "sys \<equiv> map (\<lambda>t. as_validated (into_inner t)) txns"
  shows "extract_system_transactions ts (map into_inner txns @ user) cfg = Inr (sys, user)
    \<and> validate_system_transactions_input ops ts seq ep auth parent_ep sys cfg = Some (Inr ())
    \<and> (\<forall>i < length sys. vt_nonce (sys ! i) = (nonce + i) mod 2 ^ 64)"
proof -
  obtain calls where calls: "generate_system_calls seq ep parent_ep (get_eth_address ops auth) cfg = Some calls"
    and txns: "txns = sign_system_calls ops (chain_id cfg) nonce calls"
    using assms(2) by (auto simp: generate_system_transactions_def bind_eq_Some_conv)
  note props = sign_system_calls_props[OF assms(1), where cfg = cfg and cs = calls and n = nonce]
  have sys: "sys = map as_validated (map into_inner txns)" by (simp add: sys_def comp_def)
  have "user = [] \<or> \<not> is_system_sender (rec_signer (hd user))"
    using assms(4) by (cases user) (auto split: if_splits)
  then have loop: "extract_loop cfg [] (map into_inner txns @ user) = Inr (sys, user)"
    using extract_loop_prefix[of "map into_inner txns" cfg user "[]"] props(2) by (simp add: txns sys)
  have len: "length calls = length sys" using props(1) by (simp add: txns sys)
  show ?thesis
    using assms(3,4) loop calls len props(3,4) assms(5)
    by (simp add: extract_system_transactions_def validate_system_transactions_input_def sys txns vt_nonce_def vt_tx_def)
qed

theorem system_transactions_round_trip_witness:
  "\<exists>txns. generate_system_transactions example_ops 9999 2 1 5 (7::nat) MONAD_DEVNET_CHAIN_CONFIG = Some txns
     \<and> length txns = 3
     \<and> extract_system_transactions 0 (map into_inner txns) MONAD_DEVNET_CHAIN_CONFIG
       = Inr (map (\<lambda>t. as_validated (into_inner t)) txns, [])
     \<and> validate_system_transactions_input example_ops 0 9999 2 0 1
         (map (\<lambda>t. as_validated (into_inner t)) txns) MONAD_DEVNET_CHAIN_CONFIG = Some (Inr ())"
proof -
  obtain txns where t: "generate_system_transactions example_ops 9999 2 1 5 (7::nat) MONAD_DEVNET_CHAIN_CONFIG = Some txns"
    and l: "length txns = 3"
    by (simp add: generate_system_transactions_def generate_system_calls_def snapshot_due_def epoch_change_due_def
        is_boundary_block_def seq_num_rem_def seq_num_sub_def checked_rem_def checked_sub_def get_locked_epoch_def
        to_epoch_def checked_div_def wrapping_add_def u64_max_def epoch_add_def checked_add_def epoch_sub_def
        chain_config_eval Let_def)
  have a: "get_eth_address example_ops 0 = 5" by (simp add: example_ops_def)
  have g: "generate_system_transactions example_ops 9999 2 1 (get_eth_address example_ops 0) 7
      MONAD_DEVNET_CHAIN_CONFIG = Some txns" using t a by simp
  have v: "validate_system_txs (execution_chain_params_of
      (get_execution_chain_revision MONAD_DEVNET_CHAIN_CONFIG (timestamp_ns_to_secs 0)))"
    by (simp add: chain_config_eval timestamp_ns_to_secs_def)
  show ?thesis
    using system_transactions_round_trip[OF example_ops_signer g v, of "[]"] t l
    by (simp add: u64_max_def)
qed

text \<open>C32: Whatever a proposer puts into a block, if extraction and the check of the inputs accept it while
  system transactions are validated, then the transactions of the system account in it are exactly the
  staking calls that every validator expects for that block, in that order, each with the expected
  contract, input and value, and they come before all user transactions.\<close>

theorem system_transactions_are_expected:
  assumes "extract_system_transactions ts txns cfg = Inr (sys, user)"
    and "validate_system_transactions_input ops ts seq ep auth parent_ep sys cfg = Some (Inr ())"
    and "validate_system_txs (execution_chain_params_of (get_execution_chain_revision cfg (timestamp_ns_to_secs ts)))"
  shows "\<exists>calls. generate_system_calls seq ep parent_ep (get_eth_address ops auth) cfg = Some calls
    \<and> txns = map val_tx sys @ user
    \<and> filter (\<lambda>t. is_system_sender (rec_signer t)) txns = map val_tx sys
    \<and> map (\<lambda>t. (tx_to (vt_tx t), tx_input (vt_tx t), tx_value (vt_tx t))) sys
      = map (\<lambda>c. (Some STAKING_CONTRACT_ADDRESS, get_transaction_input ops c, get_transaction_value c)) calls"
proof -
  obtain calls where calls: "generate_system_calls seq ep parent_ep (get_eth_address ops auth) cfg = Some calls"
    and len: "length calls = length sys" and inputs: "validate_inputs ops (zip calls sys) = Inr ()"
    using assms(2,3) by (auto simp: validate_system_transactions_input_def bind_eq_Some_conv split: if_splits)
  have loop: "extract_loop cfg [] txns = Inr (sys, user)" and users: "check_user_txns user = Inr ()"
    using assms(1,3) by (auto simp: extract_system_transactions_def split: sum.splits prod.splits)
  obtain pre where pre: "txns = pre @ user" "sys = map as_validated pre"
    "\<forall>t \<in> set pre. is_system_sender (rec_signer t) \<and> static_validate_system_transaction t cfg = Inr ()"
    using extract_loop_sound[OF loop] by auto
  have val: "map val_tx sys = pre" by (simp add: pre(2) comp_def)
  have filt: "filter (\<lambda>t. is_system_sender (rec_signer t)) txns = pre"
    using pre(3) users by (auto simp: pre(1) check_user_txns_ok)
  have each: "validate_system_transaction_input ops (calls ! i) (sys ! i) = Inr ()" if "i < length sys" for i
    using inputs that len by (force simp: validate_inputs_ok set_zip)
  have "map (\<lambda>t. (tx_to (vt_tx t), tx_input (vt_tx t), tx_value (vt_tx t))) sys
      = map (\<lambda>c. (Some STAKING_CONTRACT_ADDRESS, get_transaction_input ops c, get_transaction_value c)) calls"
    using each len by (intro nth_equalityI) (simp_all add: validate_input_sound)
  then show ?thesis using calls pre(1) val filt by auto
qed

definition example_sys_txns :: "nat validated_tx list" where
  "example_sys_txns = [as_validated (into_inner (into_signed_transaction example_ops (EpochChange 1) MONAD_DEVNET_CHAIN_ID 0))]"

theorem system_transactions_are_expected_witness:
  "\<exists>calls. generate_system_calls 1 1 1 5 MONAD_DEVNET_CHAIN_CONFIG = Some calls
     \<and> filter (\<lambda>t. is_system_sender (rec_signer t)) (map val_tx example_sys_txns) = map val_tx example_sys_txns
     \<and> map (\<lambda>t. (tx_to (vt_tx t), tx_input (vt_tx t), tx_value (vt_tx t))) example_sys_txns
       = map (\<lambda>c. (Some STAKING_CONTRACT_ADDRESS, get_transaction_input example_ops c, get_transaction_value c)) calls"
proof -
  have e: "extract_system_transactions 0 (map val_tx example_sys_txns) MONAD_DEVNET_CHAIN_CONFIG
      = Inr (example_sys_txns, [])"
    by (simp add: extract_system_transactions_def example_sys_txns_def into_inner_signed sign_with_system_sender_def
        is_system_sender_def static_validate_system_transaction_def example_ops_def as_legacy_transaction_def
        is_create_def chain_config_eval timestamp_ns_to_secs_def)
  have v: "validate_system_transactions_input example_ops 0 1 1 0 1 example_sys_txns MONAD_DEVNET_CHAIN_CONFIG
      = Some (Inr ())"
    by (simp add: validate_system_transactions_input_def example_sys_txns_def into_inner_signed
        sign_with_system_sender_def example_ops_def as_legacy_transaction_def chain_config_eval timestamp_ns_to_secs_def
        generate_system_calls_def snapshot_due_def epoch_change_due_def is_boundary_block_def seq_num_rem_def
        seq_num_sub_def checked_rem_def checked_sub_def Let_def GENESIS_SEQ_NUM_def vt_tx_def tx_to_def
        validate_system_transaction_input_def check_call_payload_def)
  have x: "validate_system_txs (execution_chain_params_of
      (get_execution_chain_revision MONAD_DEVNET_CHAIN_CONFIG (timestamp_ns_to_secs 0)))"
    by (simp add: chain_config_eval timestamp_ns_to_secs_def)
  show ?thesis
    using system_transactions_are_expected[OF e v x] by (simp add: example_ops_def)
qed

end
