(* ===== verification/Reserve_Balance.thy ===== *)
theory Reserve_Balance
  imports System_Calls
begin

text \<open>
  The reserve balance rules, from \<^verbatim>\<open>monad-eth-block-policy/src/lib.rs\<close> and
  \<^verbatim>\<open>monad-consensus-types/src/block.rs\<close>.  Execution runs behind consensus, so consensus admits a
  transaction only if its gas is covered by what is left of the sender's reserve, or, for an account
  without a recent transaction or a delegation, by its balance (an emptying transaction).

  \<open>try_add_transaction\<close> is the rule for the next transaction of a block under construction or under
  validation.  \<open>try_apply_block_fees\<close> is its counterpart for a whole earlier block, of which only a
  summary per account, the \<open>txn_fee\<close>, is kept.  Both return the new state of the account; an error
  leaves the state of the caller alone, because each caller stops there.
\<close>

section \<open>State of an account\<close>

record account_balance_state =
  acc_balance :: balance
  remaining_reserve_balance :: balance
  acc_max_reserve_balance :: balance
  block_seqnum_of_latest_txn :: seq_num
  acc_is_delegated :: bool

definition account_balance_state_new :: "balance \<Rightarrow> account_balance_state" where
  "account_balance_state_new max_reserve =
     \<lparr>acc_balance = 0, remaining_reserve_balance = 0, acc_max_reserve_balance = max_reserve,
      block_seqnum_of_latest_txn = GENESIS_SEQ_NUM, acc_is_delegated = False\<rparr>"

record txn_fee =
  first_txn_value :: balance
  first_txn_gas :: balance
  max_gas_cost :: balance
  fee_is_delegated :: bool
  delegation_before_first_txn :: bool

type_synonym txn_fees = "(address, txn_fee) btree_map"
type_synonym account_balances = "(address, account_balance_state) btree_map"

datatype block_policy_block_validator_error =
    AccountBalanceMissing
  | InsufficientBalance
  | InsufficientReserveBalance

datatype state_backend_error = NotAvailableYet | NeverAvailable

datatype block_policy_error =
    BlockNotCoherent
  | StateBackendError state_backend_error
  | TimestampError
  | ExecutionResultMismatch
  | BaseFeeError
  | BlockPolicyBlockValidatorError block_policy_block_validator_error
  | Eip7702Error
  | PolicySystemTransactionError

section \<open>The validator of a block\<close>

record block_validator =
  bv_block_seq_num :: seq_num
  bv_execution_delay :: seq_num
  bv_base_fee :: u64
  bv_chain_revision :: monad_chain_revision

definition block_validator_new :: "seq_num \<Rightarrow> seq_num \<Rightarrow> u64 \<Rightarrow> monad_chain_revision \<Rightarrow> block_validator" where
  "block_validator_new seq delay fee revision =
     \<lparr>bv_block_seq_num = seq, bv_execution_delay = delay, bv_base_fee = fee, bv_chain_revision = revision\<rparr>"

definition is_possibly_emptying_transaction :: "seq_num \<Rightarrow> account_balance_state \<Rightarrow> seq_num \<Rightarrow> bool option" where
  "is_possibly_emptying_transaction block_seq_num_of_curr_txn state execution_delay =
     (let blocks_since_latest_txn = saturating_sub block_seq_num_of_curr_txn (block_seqnum_of_latest_txn state)
      in if acc_is_delegated state then Some False
         else do {
           limit \<leftarrow> seq_num_sub execution_delay 1;
           Some (blocks_since_latest_txn > limit)
         })"

definition charge_reserve ::
  "block_validator \<Rightarrow> account_balance_state \<Rightarrow> txn_fee \<Rightarrow> balance
     \<Rightarrow> (block_policy_error + account_balance_state) option" where
  "charge_reserve V state fees block_gas_cost =
     (if remaining_reserve_balance state < block_gas_cost
      then err (BlockPolicyBlockValidatorError InsufficientReserveBalance)
      else ok (state\<lparr>remaining_reserve_balance := saturating_sub (remaining_reserve_balance state) block_gas_cost,
                     block_seqnum_of_latest_txn := bv_block_seq_num V,
                     acc_is_delegated := (acc_is_delegated state \<or> fee_is_delegated fees)\<rparr>))"

definition try_apply_block_fees ::
  "block_validator \<Rightarrow> account_balance_state \<Rightarrow> txn_fee \<Rightarrow> (block_policy_error + account_balance_state) option" where
  "try_apply_block_fees V state fees =
     (let max_reserve = max_reserve_balance (chain_params_of (bv_chain_revision V))
      in do {
        emptying \<leftarrow> is_possibly_emptying_transaction (bv_block_seq_num V) state (bv_execution_delay V);
        if emptying \<and> \<not> delegation_before_first_txn fees then
          if acc_balance state < first_txn_gas fees
          then err (BlockPolicyBlockValidatorError InsufficientBalance)
          else
            let first_txn_cost = saturating_add u256_max (first_txn_value fees) (first_txn_gas fees);
                estimated_balance = saturating_sub (acc_balance state) first_txn_cost
            in charge_reserve V
                 (state\<lparr>remaining_reserve_balance := min estimated_balance max_reserve,
                        acc_balance := estimated_balance\<rparr>)
                 fees (max_gas_cost fees)
        else charge_reserve V state fees (saturating_add u256_max (max_gas_cost fees) (first_txn_gas fees))
      })"

definition authorities :: "'sig validated_tx \<Rightarrow> address list" where
  "authorities txn = List.map_filter auth_authority (authorizations_7702 txn)"

fun delegate_authorities :: "address list \<Rightarrow> account_balances \<Rightarrow> account_balances" where
  "delegate_authorities [] m = m"
| "delegate_authorities (a # as) m =
     delegate_authorities as
       (case bt_get m a of None \<Rightarrow> m | Some state \<Rightarrow> bt_insert a (state\<lparr>acc_is_delegated := True\<rparr>) m)"

definition charge_transaction ::
  "block_validator \<Rightarrow> account_balance_state \<Rightarrow> 'sig validated_tx
     \<Rightarrow> (block_policy_error + account_balance_state) option" where
  "charge_transaction V state txn = do {
     emptying \<leftarrow> is_possibly_emptying_transaction (bv_block_seq_num V) state (bv_execution_delay V);
     let contains_self_authorization = (vt_signer txn \<in> set (authorities txn));
     txn_max_gas \<leftarrow> compute_txn_max_gas_cost (vt_tx txn) (bv_base_fee V);
     if emptying \<and> \<not> contains_self_authorization then
       if acc_balance state < txn_max_gas then err (BlockPolicyBlockValidatorError InsufficientBalance)
       else do {
         txn_max_cost \<leftarrow> compute_txn_max_value (vt_tx txn) (bv_base_fee V);
         let estimated_balance = saturating_sub (acc_balance state) txn_max_cost;
         ok (state\<lparr>acc_balance := estimated_balance,
                   remaining_reserve_balance := min (acc_max_reserve_balance state) estimated_balance,
                   block_seqnum_of_latest_txn := bv_block_seq_num V\<rparr>)
       }
     else if remaining_reserve_balance state < txn_max_gas
       then err (BlockPolicyBlockValidatorError InsufficientReserveBalance)
     else ok (state\<lparr>remaining_reserve_balance := saturating_sub (remaining_reserve_balance state) txn_max_gas,
                    block_seqnum_of_latest_txn := bv_block_seq_num V\<rparr>)
   }"

definition try_add_transaction ::
  "block_validator \<Rightarrow> account_balances \<Rightarrow> 'sig validated_tx \<Rightarrow> (block_policy_error + account_balances) option" where
  "try_add_transaction V balances txn =
     (case bt_get balances (vt_signer txn) of
        None \<Rightarrow> err (BlockPolicyBlockValidatorError AccountBalanceMissing)
      | Some state \<Rightarrow>
          try_bind (charge_transaction V state txn)
            (\<lambda>state. ok (delegate_authorities (authorities txn) (bt_insert (vt_signer txn) state balances))))"

section \<open>The fees of a block\<close>

definition authorized_fee :: txn_fee where
  "authorized_fee = \<lparr>first_txn_value = 0, first_txn_gas = 0, max_gas_cost = 0, fee_is_delegated = True,
     delegation_before_first_txn = True\<rparr>"

definition record_authority :: "address \<Rightarrow> txn_fees \<Rightarrow> txn_fees" where
  "record_authority a fees =
     (case bt_get fees a of
        None \<Rightarrow> bt_insert a authorized_fee fees
      | Some e \<Rightarrow> bt_insert a (e\<lparr>fee_is_delegated := True\<rparr>) fees)"

definition record_sender :: "u64 \<Rightarrow> 'sig validated_tx \<Rightarrow> txn_fees \<Rightarrow> txn_fees option" where
  "record_sender fee txn fees = do {
     gas \<leftarrow> compute_txn_max_gas_cost (vt_tx txn) fee;
     Some (case bt_get fees (vt_signer txn) of
        Some e \<Rightarrow> bt_insert (vt_signer txn) (e\<lparr>max_gas_cost := saturating_add u256_max (max_gas_cost e) gas\<rparr>) fees
      | None \<Rightarrow> bt_insert (vt_signer txn)
          \<lparr>first_txn_value = tx_value (vt_tx txn), first_txn_gas = gas, max_gas_cost = 0, fee_is_delegated = False,
           delegation_before_first_txn = False\<rparr> fees)
   }"

section \<open>Lemmas\<close>

lemma emptying_delegated [simp]:
  "acc_is_delegated s \<Longrightarrow> is_possibly_emptying_transaction n s d = Some False"
  by (simp add: is_possibly_emptying_transaction_def)

lemma emptying_recent:
  "0 < d \<Longrightarrow> block_seqnum_of_latest_txn s = n \<Longrightarrow> is_possibly_emptying_transaction n s d = Some False"
  by (simp add: is_possibly_emptying_transaction_def seq_num_sub_def checked_sub_def saturating_sub_def)

lemma emptying_total: "0 < d \<Longrightarrow> \<exists>b. is_possibly_emptying_transaction n s d = Some b"
  by (cases "acc_is_delegated s") (auto simp: is_possibly_emptying_transaction_def seq_num_sub_def checked_sub_def)

text \<open>States that differ at most in the latest transaction of a delegated account: no rule can tell
  them apart.\<close>

definition bal_eq :: "account_balance_state \<Rightarrow> account_balance_state \<Rightarrow> bool" where
  "bal_eq s t \<longleftrightarrow> acc_balance s = acc_balance t \<and> remaining_reserve_balance s = remaining_reserve_balance t
     \<and> acc_max_reserve_balance s = acc_max_reserve_balance t \<and> acc_is_delegated s = acc_is_delegated t
     \<and> (acc_is_delegated s \<or> block_seqnum_of_latest_txn s = block_seqnum_of_latest_txn t)"

lemma bal_eq_refl [simp]: "bal_eq s s"
  by (simp add: bal_eq_def)

lemma bal_eq_emptying:
  "bal_eq s t \<Longrightarrow> is_possibly_emptying_transaction n s d = is_possibly_emptying_transaction n t d"
  by (auto simp: bal_eq_def is_possibly_emptying_transaction_def)

lemma charge_reserve_more:
  assumes "charge_reserve V s f g = Some (Inr s')" and "c \<le> remaining_reserve_balance s'"
    and "remaining_reserve_balance s \<le> u256_max"
  shows "charge_reserve V s (f\<lparr>max_gas_cost := m\<rparr>) (saturating_add u256_max g c)
         = Some (Inr (s'\<lparr>remaining_reserve_balance := remaining_reserve_balance s' - c\<rparr>))"
proof -
  have g: "g \<le> remaining_reserve_balance s"
    and s': "s' = s\<lparr>remaining_reserve_balance := remaining_reserve_balance s - g,
      block_seqnum_of_latest_txn := bv_block_seq_num V,
      acc_is_delegated := (acc_is_delegated s \<or> fee_is_delegated f)\<rparr>"
    using assms(1) by (auto simp: charge_reserve_def saturating_sub_def split: if_splits)
  have sum: "g + c \<le> remaining_reserve_balance s" using assms(2) g by (simp add: s')
  then have "saturating_add u256_max g c = g + c" using assms(3) by (simp add: saturating_add_def)
  then show ?thesis using sum by (simp add: charge_reserve_def s' saturating_sub_def)
qed

lemma charge_reserve_delegate:
  "charge_reserve V s f g = Some (Inr s') \<Longrightarrow>
   charge_reserve V s (f\<lparr>fee_is_delegated := True\<rparr>) g = Some (Inr (s'\<lparr>acc_is_delegated := True\<rparr>))"
  by (auto simp: charge_reserve_def split: if_splits)

lemma charge_reserve_keeps:
  "charge_reserve V s f g = Some (Inr s') \<Longrightarrow>
   acc_balance s' = acc_balance s \<and> remaining_reserve_balance s' \<le> remaining_reserve_balance s
   \<and> acc_max_reserve_balance s' = acc_max_reserve_balance s \<and> block_seqnum_of_latest_txn s' = bv_block_seq_num V
   \<and> acc_is_delegated s' = (acc_is_delegated s \<or> fee_is_delegated f)"
  by (auto simp: charge_reserve_def saturating_sub_def split: if_splits)

definition emptied :: "account_balance_state \<Rightarrow> txn_fee \<Rightarrow> account_balance_state" where
  "emptied s f =
     (let est = acc_balance s - saturating_add u256_max (first_txn_value f) (first_txn_gas f)
      in s\<lparr>remaining_reserve_balance := min est 10000000000000000000, acc_balance := est\<rparr>)"

lemma emptied_simps [simp]:
  "emptied s (f\<lparr>max_gas_cost := m\<rparr>) = emptied s f" "emptied s (f\<lparr>fee_is_delegated := b\<rparr>) = emptied s f"
  "remaining_reserve_balance (emptied s f) \<le> u256_max"
  "acc_max_reserve_balance (emptied s f) = acc_max_reserve_balance s"
  "acc_is_delegated (emptied s f) = acc_is_delegated s"
  by (simp_all add: emptied_def Let_def u256_max_def min.coboundedI2)

text \<open>The two ways a block's fees are charged.\<close>

lemma apply_fees_emptying:
  assumes "is_possibly_emptying_transaction (bv_block_seq_num V) s (bv_execution_delay V) = Some True"
    and "\<not> delegation_before_first_txn f"
  shows "try_apply_block_fees V s f =
    (if acc_balance s < first_txn_gas f then err (BlockPolicyBlockValidatorError InsufficientBalance)
     else charge_reserve V (emptied s f) f (max_gas_cost f))"
  using assms by (simp add: try_apply_block_fees_def emptied_def Let_def saturating_sub_def)

lemma apply_fees_reserve:
  assumes "is_possibly_emptying_transaction (bv_block_seq_num V) s (bv_execution_delay V) = Some e"
    and "\<not> e \<or> delegation_before_first_txn f"
  shows "try_apply_block_fees V s f =
    charge_reserve V s f (saturating_add u256_max (max_gas_cost f) (first_txn_gas f))"
  using assms by (cases e) (simp_all add: try_apply_block_fees_def Let_def)

lemma apply_fees_cases [consumes 1, case_names emptying reserve]:
  assumes "try_apply_block_fees V s f = Some r"
  obtains (emptying) "is_possibly_emptying_transaction (bv_block_seq_num V) s (bv_execution_delay V) = Some True"
      "\<not> delegation_before_first_txn f"
  | (reserve) e where "is_possibly_emptying_transaction (bv_block_seq_num V) s (bv_execution_delay V) = Some e"
      "\<not> e \<or> delegation_before_first_txn f"
  using assms by (cases "is_possibly_emptying_transaction (bv_block_seq_num V) s (bv_execution_delay V)")
    (auto simp: try_apply_block_fees_def Let_def)

lemma sat_add_right_comm:
  "saturating_add h (saturating_add h a c) b = saturating_add h (saturating_add h a b) c"
  by (simp add: saturating_add_def)

lemma apply_fees_more:
  assumes ap: "try_apply_block_fees V s f = Some (Inr s')" and c: "c \<le> remaining_reserve_balance s'"
    and r: "remaining_reserve_balance s \<le> u256_max"
  shows "try_apply_block_fees V s (f\<lparr>max_gas_cost := saturating_add u256_max (max_gas_cost f) c\<rparr>)
         = Some (Inr (s'\<lparr>remaining_reserve_balance := remaining_reserve_balance s' - c\<rparr>))"
  using ap
proof (cases rule: apply_fees_cases)
  case emptying
  have ch: "charge_reserve V (emptied s f) f (max_gas_cost f) = Some (Inr s')" and b: "\<not> acc_balance s < first_txn_gas f"
    using ap by (simp_all add: apply_fees_emptying[OF emptying] split: if_splits)
  show ?thesis
    using charge_reserve_more[OF ch c emptied_simps(3)] b emptying by (simp add: apply_fees_emptying)
next
  case (reserve e)
  have ch: "charge_reserve V s f (saturating_add u256_max (max_gas_cost f) (first_txn_gas f)) = Some (Inr s')"
    using ap by (simp add: apply_fees_reserve[OF reserve])
  show ?thesis
    using charge_reserve_more[OF ch c r] reserve
      apply_fees_reserve[of V s e "f\<lparr>max_gas_cost := saturating_add u256_max (max_gas_cost f) c\<rparr>"]
    by (simp add: sat_add_right_comm[of u256_max "max_gas_cost f" c])
qed

lemma apply_fees_delegate:
  assumes ap: "try_apply_block_fees V s f = Some (Inr s')"
  shows "try_apply_block_fees V s (f\<lparr>fee_is_delegated := True\<rparr>) = Some (Inr (s'\<lparr>acc_is_delegated := True\<rparr>))"
  using ap
proof (cases rule: apply_fees_cases)
  case emptying
  then show ?thesis using ap by (simp add: apply_fees_emptying charge_reserve_delegate split: if_splits)
next
  case (reserve e)
  then show ?thesis
    using ap apply_fees_reserve[OF reserve] apply_fees_reserve[of V s e "f\<lparr>fee_is_delegated := True\<rparr>"]
    by (simp add: charge_reserve_delegate)
qed

lemma apply_fees_keeps:
  assumes ap: "try_apply_block_fees V s f = Some (Inr s')"
  shows "acc_max_reserve_balance s' = acc_max_reserve_balance s
   \<and> block_seqnum_of_latest_txn s' = bv_block_seq_num V
   \<and> acc_is_delegated s' = (acc_is_delegated s \<or> fee_is_delegated f)"
  using ap
proof (cases rule: apply_fees_cases)
  case emptying
  then have "charge_reserve V (emptied s f) f (max_gas_cost f) = Some (Inr s')"
    using ap by (simp add: apply_fees_emptying split: if_splits)
  from charge_reserve_keeps[OF this] show ?thesis by simp
next
  case (reserve e)
  show ?thesis using charge_reserve_keeps ap[unfolded apply_fees_reserve[OF reserve]] by blast
qed

lemma apply_fees_authorized:
  assumes "0 < bv_execution_delay V"
  shows "try_apply_block_fees V s authorized_fee
    = Some (Inr (s\<lparr>block_seqnum_of_latest_txn := bv_block_seq_num V, acc_is_delegated := True\<rparr>))"
  using emptying_total[OF assms, of "bv_block_seq_num V" s]
  by (auto simp: try_apply_block_fees_def Let_def authorized_fee_def charge_reserve_def saturating_add_def saturating_sub_def)

end
