(* ===== verification/Eth_Block_Validator.thy ===== *)
theory Eth_Block_Validator
  imports Reserve_Balance
begin

text \<open>
  Validation of an Ethereum block on its own, from \<^verbatim>\<open>monad-eth-block-validator/src/lib.rs\<close> and
  \<^verbatim>\<open>error.rs\<close>: the header against the body and the chain parameters, the limits of the body, the
  system transactions, the static validity of each user transaction, and the two summaries of the
  block that later blocks are checked against, its nonce usages and its transaction fees.

  The record \<open>eth_consensus_header\<close> has the fields of \<^verbatim>\<open>ConsensusBlockHeader\<close> at the Ethereum
  execution protocol that this layer reads.  Hashes, Merkle roots and signatures come from the
  record \<open>block_ops\<close>.  Metrics are left out.
\<close>

section \<open>Blocks\<close>

record proposed_eth_header =
  ommers_hash :: bytes
  eth_beneficiary :: address
  transactions_root :: bytes
  difficulty :: u64
  eth_number :: u64
  eth_gas_limit :: u64
  eth_timestamp :: u64
  extra_data :: bytes
  mix_hash :: bytes
  eth_nonce :: bytes
  base_fee_per_gas :: u64
  withdrawals_root :: bytes
  blob_gas_used :: u64
  excess_blob_gas :: u64
  parent_beacon_block_root :: bytes
  requests_hash :: "bytes option"

record ('s, 'h) eth_consensus_header =
  eh_block_round :: round
  eh_epoch :: epoch
  eh_author :: node_id
  eh_seq_num :: seq_num
  eh_timestamp_ns :: nat
  eh_round_signature :: 's
  eh_delayed_execution_results :: "'h list"
  eh_execution_inputs :: proposed_eth_header
  eh_block_body_id :: body_id
  eh_base_fee :: u64
  eh_base_fee_trend :: u64
  eh_base_fee_moment :: u64

record 'sig eth_block_body =
  transactions :: "'sig tx_envelope list"
  ommers :: "unit list"
  withdrawals :: "unit list"

record ('s, 'h, 'sig) block_ops =
  txn_ops :: "'sig eth_ops"
  eth_body_id :: "'sig eth_block_body \<Rightarrow> body_id"
  eth_header_id :: "('s, 'h) eth_consensus_header \<Rightarrow> block_id"
  verify_round_signature :: "'s \<Rightarrow> round \<Rightarrow> nat \<Rightarrow> bool"
  round_signature_hash :: "'s \<Rightarrow> bytes"
  calculate_transaction_root :: "'sig tx_envelope list \<Rightarrow> bytes"
  EMPTY_OMMER_ROOT_HASH :: bytes
  EMPTY_WITHDRAWALS :: bytes

record ('s, 'h, 'sig) eth_validated_block =
  evb_header :: "('s, 'h) eth_consensus_header"
  evb_body :: "'sig eth_block_body"
  system_txns :: "'sig validated_tx list"
  validated_txns :: "'sig validated_tx list"
  nonce_usages :: nonce_usage_map
  block_txn_fees :: txn_fees

section \<open>Errors\<close>

datatype header_error =
    HeaderBodyMismatch body_id body_id
  | RandaoError
  | NonEmptyOmmersHash bytes
  | InvalidTransactionsRoot bytes bytes
  | NonEmptyWithdrawalsRoot bytes
  | NonZeroDifficulty u64
  | InvalidHeaderNumber u64 u64
  | InvalidGasLimit u64 u64
  | InvalidTimestamp nat nat
  | InvalidRoundSignatureHash bytes bytes
  | InvalidBaseFee u64 u64
  | NonEmptyHeaderNonce bytes
  | NonEmptyExtraData bytes
  | NonZeroBlockGasUsed u64
  | NonZeroExcessBlobGas u64
  | NonEmptyParentBeaconRoot bytes
  | InvalidRequestsHash "bytes option" "bytes option"

datatype payload_error =
    NonEmptyOmmers
  | NonEmptyWithdrawals
  | ExceededNumTxnLimit nat
  | ExceededBlockGasLimit u64
  | ExceededBlockSizeLimit nat

datatype txn_error =
    SignerRecoveryError
  | StaticValidationError static_validation_error
  | MaxFeeLessThanBaseFee
  | InvalidSystemAccountAuthorization
  | NonceOverflow
  | InvalidNonce

datatype eth_block_validation_error =
    HeaderError header_error
  | PayloadError payload_error
  | SystemTxnError system_transaction_validation_error
  | TxnError txn_error

section \<open>The header\<close>

definition check :: "bool \<Rightarrow> 'e \<Rightarrow> 'e + unit \<Rightarrow> 'e + unit" where
  "check b e k = (if b then k else Inl e)"

definition validate_block_header ::
  "('s, 'h, 'sig) block_ops \<Rightarrow> ('s, 'h) eth_consensus_header \<Rightarrow> 'sig eth_block_body \<Rightarrow> nat option
     \<Rightarrow> chain_params \<Rightarrow> execution_chain_params \<Rightarrow> header_error + unit" where
  "validate_block_header B h body author_pubkey params execution_params =
     (let x = eh_execution_inputs h;
          expected_root = calculate_transaction_root B (transactions body);
          consensus_secs = eh_timestamp_ns h div 1000000000;
          expected_mix = round_signature_hash B (eh_round_signature h);
          expected_requests = (if prague_enabled execution_params then Some (replicate 32 0) else None)
      in
      check (eh_block_body_id h = eth_body_id B body) (HeaderBodyMismatch (eth_body_id B body) (eh_block_body_id h)) (
      check (case author_pubkey of None \<Rightarrow> True
             | Some pk \<Rightarrow> verify_round_signature B (eh_round_signature h) (eh_block_round h) pk) RandaoError (
      check (ommers_hash x = EMPTY_OMMER_ROOT_HASH B) (NonEmptyOmmersHash (ommers_hash x)) (
      check (transactions_root x = expected_root) (InvalidTransactionsRoot expected_root (transactions_root x)) (
      check (withdrawals_root x = EMPTY_WITHDRAWALS B) (NonEmptyWithdrawalsRoot (withdrawals_root x)) (
      check (difficulty x = 0) (NonZeroDifficulty (difficulty x)) (
      check (eth_number x = eh_seq_num h) (InvalidHeaderNumber (eh_seq_num h) (eth_number x)) (
      check (eth_gas_limit x = proposal_gas_limit params) (InvalidGasLimit (proposal_gas_limit params) (eth_gas_limit x)) (
      check (eth_timestamp x = consensus_secs) (InvalidTimestamp consensus_secs (eth_timestamp x)) (
      check (mix_hash x = expected_mix) (InvalidRoundSignatureHash expected_mix (mix_hash x)) (
      check (eth_nonce x = replicate 8 0) (NonEmptyHeaderNonce (eth_nonce x)) (
      check (extra_data x = replicate 32 0) (NonEmptyExtraData (extra_data x)) (
      check (blob_gas_used x = 0) (NonZeroBlockGasUsed (blob_gas_used x)) (
      check (excess_blob_gas x = 0) (NonZeroExcessBlobGas (excess_blob_gas x)) (
      check (parent_beacon_block_root x = replicate 32 0) (NonEmptyParentBeaconRoot (parent_beacon_block_root x)) (
      check (eh_base_fee h = base_fee_per_gas x) (InvalidBaseFee (eh_base_fee h) (base_fee_per_gas x)) (
      check (requests_hash x = expected_requests) (InvalidRequestsHash expected_requests (requests_hash x)) (
      Inr ()))))))))))))))))))"

section \<open>The body\<close>

fun sum_gas_limits :: "u64 \<Rightarrow> 'sig tx_envelope list \<Rightarrow> u64 option" where
  "sum_gas_limits acc [] = Some acc"
| "sum_gas_limits acc (tx # txs) = do { a \<leftarrow> checked_add u64_max acc (tx_gas_limit tx); sum_gas_limits a txs }"

fun recover_txns :: "'sig eth_ops \<Rightarrow> 'sig tx_envelope list \<Rightarrow> 'sig recovered_tx list option" where
  "recover_txns ops [] = Some []"
| "recover_txns ops (tx # txs) = do {
     signer \<leftarrow> recover_signer ops tx;
     rest \<leftarrow> recover_txns ops txs;
     Some (\<lparr>rec_tx = tx, rec_signer = signer\<rparr> # rest)
   }"

definition sum_lengths :: "'sig recovered_tx list \<Rightarrow> nat" where
  "sum_lengths txs = foldl (\<lambda>n t. add64 n (tx_length (rec_tx t))) 0 txs"

text \<open>The nonce a transaction must have, given what the block has used for its sender so far.\<close>

definition check_next_nonce :: "nonce_usage option \<Rightarrow> u64 \<Rightarrow> txn_error + unit" where
  "check_next_nonce old nonce =
     (case old of
        Some (Known old_nonce) \<Rightarrow>
          (case checked_add u64_max old_nonce 1 of
             None \<Rightarrow> Inl NonceOverflow
           | Some expected \<Rightarrow> if expected \<noteq> nonce then Inl InvalidNonce else Inr ())
      | _ \<Rightarrow> Inr ())"

fun system_nonces :: "nonce_usage_map \<Rightarrow> 'sig validated_tx list \<Rightarrow> txn_error + nonce_usage_map" where
  "system_nonces m [] = Inr m"
| "system_nonces m (t # ts) =
     (let (old, m') = add_known (vt_signer t) (vt_nonce t) m
      in case old of
           Some (Possible _) \<Rightarrow> Inl InvalidNonce
         | _ \<Rightarrow> (case check_next_nonce old (vt_nonce t) of
                  Inl e \<Rightarrow> Inl e
                | Inr _ \<Rightarrow> system_nonces m' ts))"

fun static_validate_all ::
  "u64 \<Rightarrow> chain_params \<Rightarrow> execution_chain_params \<Rightarrow> 'sig recovered_tx list \<Rightarrow> txn_error + unit" where
  "static_validate_all cid params eparams [] = Inr ()"
| "static_validate_all cid params eparams (t # ts) =
     (case static_validate_transaction (rec_tx t) cid params eparams of
        Inl e \<Rightarrow> Inl (StaticValidationError e)
      | Inr _ \<Rightarrow> static_validate_all cid params eparams ts)"

definition recover_authorization :: "'sig eth_ops \<Rightarrow> authorization \<times> 'sig \<Rightarrow> recovered_authorization option" where
  "recover_authorization ops sa =
     (case recover_authority ops (fst sa) (snd sa) of
        None \<Rightarrow> None
      | Some authority \<Rightarrow>
          Some \<lparr>auth_chain_id = auth_chain_id (fst sa), auth_address = auth_address (fst sa),
                auth_nonce = auth_nonce (fst sa), auth_authority = Some authority\<rparr>)"

definition to_validated :: "'sig eth_ops \<Rightarrow> 'sig recovered_tx \<Rightarrow> 'sig validated_tx" where
  "to_validated ops t =
     \<lparr>val_tx = t,
      authorizations_7702 =
        (if tx_type_of (rec_tx t) = TxEip7702
         then List.map_filter (recover_authorization ops)
                (case tx_authorization_list (rec_tx t) of None \<Rightarrow> [] | Some l \<Rightarrow> l)
         else [])\<rparr>"

definition use_authorization_nonce ::
  "address \<Rightarrow> u64 \<Rightarrow> nonce_usage_map \<Rightarrow> txn_error + nonce_usage_map" where
  "use_authorization_nonce a nonce m =
     (case bt_get m a of
        Some (Known n) \<Rightarrow>
          (case checked_add u64_max n 1 of
             Some next_nonce \<Rightarrow> Inr (if next_nonce = nonce then bt_insert a (Known next_nonce) m else m)
           | None \<Rightarrow> Inl NonceOverflow)
      | Some (Possible ps) \<Rightarrow> Inr (bt_insert a (Possible (ps @ [nonce])) m)
      | None \<Rightarrow> Inr (bt_insert a (Possible [nonce]) m))"

fun process_authorizations ::
  "u64 \<Rightarrow> recovered_authorization list \<Rightarrow> nonce_usage_map \<times> txn_fees \<Rightarrow> txn_error + (nonce_usage_map \<times> txn_fees)" where
  "process_authorizations cid [] s = Inr s"
| "process_authorizations cid (au # rest) (m, fees) =
     (case auth_authority au of
        None \<Rightarrow> process_authorizations cid rest (m, fees)
      | Some a \<Rightarrow>
          if a = SYSTEM_SENDER_ETH_ADDRESS then Inl InvalidSystemAccountAuthorization
          else let fees = record_authority a fees
               in if auth_chain_id au \<noteq> 0 \<and> auth_chain_id au \<noteq> cid then process_authorizations cid rest (m, fees)
                  else case use_authorization_nonce a (auth_nonce au) m of
                         Inl e \<Rightarrow> Inl e
                       | Inr m \<Rightarrow> process_authorizations cid rest (m, fees))"

definition process_txn ::
  "u64 \<Rightarrow> u64 \<Rightarrow> 'sig validated_tx \<Rightarrow> nonce_usage_map \<times> txn_fees
     \<Rightarrow> (txn_error + (nonce_usage_map \<times> txn_fees)) option" where
  "process_txn cid fee t s =
     (if tx_max_fee_per_gas (vt_tx t) < fee then err MaxFeeLessThanBaseFee
      else let (m, fees) = s; (old, m) = add_known (vt_signer t) (vt_nonce t) m
           in case check_next_nonce old (vt_nonce t) of
                Inl e \<Rightarrow> err e
              | Inr _ \<Rightarrow>
                  (case (if tx_type_of (vt_tx t) = TxEip7702
                         then process_authorizations cid (authorizations_7702 t) (m, fees) else Inr (m, fees)) of
                     Inl e \<Rightarrow> err e
                   | Inr (m, fees) \<Rightarrow> do { fees \<leftarrow> record_sender fee t fees; ok (m, fees) }))"

fun process_txns ::
  "u64 \<Rightarrow> u64 \<Rightarrow> 'sig validated_tx list \<Rightarrow> nonce_usage_map \<times> txn_fees
     \<Rightarrow> (txn_error + (nonce_usage_map \<times> txn_fees)) option" where
  "process_txns cid fee [] s = ok s"
| "process_txns cid fee (t # ts) s = try_bind (process_txn cid fee t s) (process_txns cid fee ts)"

definition validate_block_body ::
  "('s, 'h, 'sig) block_ops \<Rightarrow> ('s, 'h) eth_consensus_header \<Rightarrow> 'sig eth_block_body \<Rightarrow> monad_chain_config
     \<Rightarrow> (eth_block_validation_error
         + ('sig validated_tx list \<times> 'sig validated_tx list \<times> nonce_usage_map \<times> txn_fees)) option" where
  "validate_block_body B h body cfg =
     (let params = chain_params_of (get_chain_revision cfg (eh_block_round h));
          eparams = execution_chain_params_of
            (get_execution_chain_revision cfg (timestamp_ns_to_secs (eh_timestamp_ns h)));
          txs = transactions body
      in if ommers body \<noteq> [] then err (PayloadError NonEmptyOmmers)
         else if withdrawals body \<noteq> [] then err (PayloadError NonEmptyWithdrawals)
         else if length txs > tx_limit params then err (PayloadError (ExceededNumTxnLimit (length txs)))
         else case sum_gas_limits 0 txs of
           None \<Rightarrow> err (PayloadError (ExceededBlockGasLimit u64_max))
         | Some total_gas \<Rightarrow>
           if total_gas > proposal_gas_limit params then err (PayloadError (ExceededBlockGasLimit total_gas))
           else case recover_txns (txn_ops B) txs of
             None \<Rightarrow> err (TxnError SignerRecoveryError)
           | Some recovered \<Rightarrow>
             (case extract_system_transactions (eh_timestamp_ns h) recovered cfg of
                Inl e \<Rightarrow> err (SystemTxnError e)
              | Inr (sys, eth_txns) \<Rightarrow>
                let proposal_size = add64 (sum_lengths (map val_tx sys)) (sum_lengths eth_txns)
                in if proposal_size > proposal_byte_limit params
                   then err (PayloadError (ExceededBlockSizeLimit proposal_size))
                   else case system_nonces [] sys of
                     Inl e \<Rightarrow> err (TxnError e)
                   | Inr nonces \<Rightarrow>
                     (case static_validate_all (chain_id cfg) params eparams eth_txns of
                        Inl e \<Rightarrow> err (TxnError e)
                      | Inr _ \<Rightarrow>
                        let txns = map (to_validated (txn_ops B)) eth_txns
                        in try_bind (map_err TxnError (process_txns (chain_id cfg) (eh_base_fee h) txns (nonces, [])))
                             (\<lambda>(nonces, fees). ok (sys, txns, nonces, fees)))))"

definition eth_validate ::
  "('s, 'h, 'sig) block_ops \<Rightarrow> ('s, 'h) eth_consensus_header \<Rightarrow> 'sig eth_block_body \<Rightarrow> nat option
     \<Rightarrow> monad_chain_config \<Rightarrow> (eth_block_validation_error + ('s, 'h, 'sig) eth_validated_block) option" where
  "eth_validate B h body author_pubkey cfg =
     (let params = chain_params_of (get_chain_revision cfg (eh_block_round h));
          eparams = execution_chain_params_of
            (get_execution_chain_revision cfg (timestamp_ns_to_secs (eh_timestamp_ns h)))
      in case validate_block_header B h body author_pubkey params eparams of
           Inl e \<Rightarrow> err (HeaderError e)
         | Inr _ \<Rightarrow>
             try_bind (validate_block_body B h body cfg) (\<lambda>(sys, txns, nonces, fees). do {
               _ \<leftarrow> assert_p (eth_body_id B body = eh_block_body_id h);
               ok \<lparr>evb_header = h, evb_body = body, system_txns = sys, validated_txns = txns,
                   nonce_usages = nonces, block_txn_fees = fees\<rparr>
             }))"

end
