(* ===== verification/Eth_Block_Policy.thy ===== *)
theory Eth_Block_Policy
  imports Eth_Block_Validator Base_Fee
begin

text \<open>
  The block policy of \<^verbatim>\<open>monad-eth-block-policy/src/lib.rs\<close>: the buffer of committed blocks, the
  nonces and balances of accounts at the start of a block (from the state at the block
  \<open>execution_delay\<close> earlier and the summaries of the blocks since), and the coherency check of a
  block against the blocks it extends.

  The state backend (\<open>state_backend\<close>) is the interface to the execution database.  \<open>pol_iter\<close> is
  the iteration order of a hash set of addresses; a set is a list without repetitions.  The sorted
  vector map of committed blocks is an association list with increasing keys.
\<close>

section \<open>Committed blocks\<close>

record committed_block =
  cb_block_id :: block_id
  cb_round :: round
  cb_epoch :: epoch
  cb_seq_num :: seq_num
  cb_nonce_usages :: nonce_usage_map
  cb_timestamp_ns :: nat
  cb_fees :: txn_fees
  cb_base_fee :: u64
  cb_base_fee_trend :: u64
  cb_base_fee_moment :: u64
  cb_block_gas_usage :: u64

record committed_blk_buffer =
  buf_blocks :: "(seq_num, committed_block) btree_map"
  min_buffer_size :: nat

definition blk_buffer_new :: "nat \<Rightarrow> committed_blk_buffer" where
  "blk_buffer_new n = \<lparr>buf_blocks = [], min_buffer_size = n\<rparr>"

definition buffer_get_epoch :: "committed_blk_buffer \<Rightarrow> seq_num \<Rightarrow> epoch option" where
  "buffer_get_epoch buf n = map_option cb_epoch (bt_get (buf_blocks buf) n)"

definition bt_range :: "seq_num \<Rightarrow> seq_num \<Rightarrow> (seq_num, 'v) btree_map \<Rightarrow> (seq_num, 'v) btree_map" where
  "bt_range lo hi m = filter (\<lambda>e. lo \<le> fst e \<and> fst e < hi) m"

definition bt_range_from :: "seq_num \<Rightarrow> (seq_num, 'v) btree_map \<Rightarrow> (seq_num, 'v) btree_map" where
  "bt_range_from lo m = filter (\<lambda>e. lo \<le> fst e) m"

fun emptying_scan ::
  "address \<Rightarrow> (seq_num \<times> committed_block) list \<Rightarrow> account_balance_state \<Rightarrow> seq_num
     \<Rightarrow> (account_balance_state \<times> seq_num) option" where
  "emptying_scan a [] st next_validate = Some (st, next_validate)"
| "emptying_scan a ((n, b) # rest) st next_validate = do {
     _ \<leftarrow> assert_p (n = next_validate);
     let st = (if bt_get (cb_fees b) a \<noteq> None \<and> block_seqnum_of_latest_txn st < cb_seq_num b
               then st\<lparr>block_seqnum_of_latest_txn := cb_seq_num b\<rparr> else st);
     next_validate \<leftarrow> seq_num_add next_validate 1;
     emptying_scan a rest st next_validate
   }"

fun reserve_scan ::
  "monad_chain_config \<Rightarrow> seq_num \<Rightarrow> address \<Rightarrow> (seq_num \<times> committed_block) list \<Rightarrow> account_balance_state \<Rightarrow> seq_num
     \<Rightarrow> (block_policy_error + (account_balance_state \<times> seq_num)) option" where
  "reserve_scan cfg delay a [] st next_validate = ok (st, next_validate)"
| "reserve_scan cfg delay a ((n, b) # rest) st next_validate = do {
     _ \<leftarrow> assert_p (n = next_validate);
     try_bind
       (case bt_get (cb_fees b) a of
          Some fees \<Rightarrow>
            try_apply_block_fees
              (block_validator_new (cb_seq_num b) delay (cb_base_fee b) (get_chain_revision cfg (cb_round b))) st fees
        | None \<Rightarrow> ok st)
       (\<lambda>st. do {
          next_validate \<leftarrow> seq_num_add next_validate 1;
          reserve_scan cfg delay a rest st next_validate
        })
   }"

definition update_account_balance ::
  "committed_blk_buffer \<Rightarrow> account_balance_state \<Rightarrow> address \<Rightarrow> seq_num \<Rightarrow> seq_num \<Rightarrow> seq_num
     \<Rightarrow> monad_chain_config \<Rightarrow> (block_policy_error + (account_balance_state \<times> seq_num)) option" where
  "update_account_balance buf st a delay emptying_start reserve_start cfg = do {
     (st, next_validate) \<leftarrow>
       emptying_scan a (bt_range emptying_start reserve_start (buf_blocks buf)) st emptying_start;
     reserve_scan cfg delay a (bt_range_from reserve_start (buf_blocks buf)) st next_validate
   }"

definition get_total_gas :: "('s, 'h, 'sig) eth_validated_block \<Rightarrow> u64" where
  "get_total_gas b = foldl (\<lambda>acc t. add64 acc (tx_gas_limit (vt_tx t))) 0 (validated_txns b)"

definition to_committed :: "('s, 'h, 'sig) block_ops \<Rightarrow> ('s, 'h, 'sig) eth_validated_block \<Rightarrow> committed_block" where
  "to_committed B b =
     \<lparr>cb_block_id = eth_header_id B (evb_header b), cb_round = eh_block_round (evb_header b),
      cb_epoch = eh_epoch (evb_header b), cb_seq_num = eh_seq_num (evb_header b),
      cb_nonce_usages = nonce_usages b, cb_timestamp_ns = eh_timestamp_ns (evb_header b),
      cb_fees = block_txn_fees b, cb_base_fee = eh_base_fee (evb_header b),
      cb_base_fee_trend = eh_base_fee_trend (evb_header b),
      cb_base_fee_moment = eh_base_fee_moment (evb_header b), cb_block_gas_usage = get_total_gas b\<rparr>"

definition buffer_trim :: "committed_blk_buffer \<Rightarrow> seq_num \<Rightarrow> committed_blk_buffer option" where
  "buffer_trim buf block_number =
     (if length (buf_blocks buf) \<ge> saturating_mul u64_max (min_buffer_size buf) 2 then
        case buf_blocks buf of
          [] \<Rightarrow> None
        | (first_block_num, _) # _ \<Rightarrow> do {
            n \<leftarrow> checked_sub (length (buf_blocks buf)) (min_buffer_size buf);
            divider \<leftarrow> seq_num_add first_block_num n;
            let kept = bt_range_from divider (buf_blocks buf);
            (last_num, _) \<leftarrow> bt_last kept;
            after \<leftarrow> seq_num_add last_num 1;
            _ \<leftarrow> assert_p (after = block_number);
            _ \<leftarrow> assert_p (length kept \<ge> min_buffer_size buf);
            Some (buf\<lparr>buf_blocks := kept\<rparr>)
          }
      else Some buf)"

definition buffer_update_committed_block ::
  "('s, 'h, 'sig) block_ops \<Rightarrow> committed_blk_buffer \<Rightarrow> ('s, 'h, 'sig) eth_validated_block
     \<Rightarrow> committed_blk_buffer option" where
  "buffer_update_committed_block B buf block =
     (let block_number = eh_seq_num (evb_header block)
      in do {
        _ \<leftarrow> (case bt_last (buf_blocks buf) of
               None \<Rightarrow> Some ()
             | Some (last_num, _) \<Rightarrow> do { after \<leftarrow> seq_num_add last_num 1; assert_p (after = block_number) });
        buf \<leftarrow> buffer_trim buf block_number;
        _ \<leftarrow> assert_p (bt_get (buf_blocks buf) block_number = None);
        Some (buf\<lparr>buf_blocks := bt_insert block_number (to_committed B block) (buf_blocks buf)\<rparr>)
      })"

section \<open>The policy\<close>

record eth_account =
  ea_nonce :: u64
  ea_balance :: balance
  ea_is_delegated :: bool

record 'h state_backend =
  sb_get_account_statuses ::
    "block_id \<Rightarrow> seq_num \<Rightarrow> bool \<Rightarrow> address list \<Rightarrow> state_backend_error + eth_account option list"
  sb_get_execution_result :: "block_id \<Rightarrow> seq_num \<Rightarrow> bool \<Rightarrow> state_backend_error + 'h"

record block_lookup_index =
  ix_block_id :: block_id
  ix_seq_num :: seq_num
  ix_round :: round
  ix_is_finalized :: bool

record eth_block_policy =
  last_commit :: seq_num
  committed_cache :: committed_blk_buffer
  pol_execution_delay :: seq_num

record ('s, 'h, 'sig) policy_env =
  pe_ops :: "('s, 'h, 'sig) block_ops"
  pe_backend :: "'h state_backend"
  pe_config :: monad_chain_config
  pol_iter :: "address list \<Rightarrow> address list"

type_synonym ('s, 'h, 'sig) ext_blocks = "('s, 'h, 'sig) eth_validated_block list"

definition eth_block_policy_new :: "seq_num \<Rightarrow> u64 \<Rightarrow> eth_block_policy" where
  "eth_block_policy_new commit delay =
     \<lparr>last_commit = commit, committed_cache = blk_buffer_new (saturating_mul u64_max delay 2),
      pol_execution_delay = delay\<rparr>"

definition evb_seq_num :: "('s, 'h, 'sig) eth_validated_block \<Rightarrow> seq_num" where
  "evb_seq_num b = eh_seq_num (evb_header b)"

definition get_last_commit_epoch :: "eth_block_policy \<Rightarrow> epoch option" where
  "get_last_commit_epoch P =
     (if last_commit P = GENESIS_SEQ_NUM then Some 1 else buffer_get_epoch (committed_cache P) (last_commit P))"

definition get_block_index ::
  "('s, 'h, 'sig) policy_env \<Rightarrow> eth_block_policy \<Rightarrow> ('s, 'h, 'sig) ext_blocks option \<Rightarrow> seq_num
     \<Rightarrow> (state_backend_error + block_lookup_index) option" where
  "get_block_index E P extending_blocks base_seq_num =
     (if base_seq_num \<le> last_commit P then
        if base_seq_num = GENESIS_SEQ_NUM then
          ok \<lparr>ix_block_id = GENESIS_BLOCK_ID, ix_seq_num = GENESIS_SEQ_NUM, ix_round = GENESIS_ROUND,
              ix_is_finalized = True\<rparr>
        else do {
          b \<leftarrow> bt_get (buf_blocks (committed_cache P)) base_seq_num;
          ok \<lparr>ix_block_id = cb_block_id b, ix_seq_num = base_seq_num, ix_round = cb_round b, ix_is_finalized = True\<rparr>
        }
      else case extending_blocks of
        Some blocks \<Rightarrow> do {
          b \<leftarrow> find (\<lambda>b. evb_seq_num b = base_seq_num) blocks;
          ok \<lparr>ix_block_id = eth_header_id (pe_ops E) (evb_header b), ix_seq_num = base_seq_num,
              ix_round = eh_block_round (evb_header b), ix_is_finalized = False\<rparr>
        }
      | None \<Rightarrow> err NotAvailableYet)"

definition get_account_statuses ::
  "('s, 'h, 'sig) policy_env \<Rightarrow> eth_block_policy \<Rightarrow> ('s, 'h, 'sig) ext_blocks option \<Rightarrow> address list \<Rightarrow> seq_num
     \<Rightarrow> (state_backend_error + eth_account option list) option" where
  "get_account_statuses E P extending_blocks addresses base_seq_num =
     try_bind (get_block_index E P extending_blocks base_seq_num) (\<lambda>ix.
       Some (sb_get_account_statuses (pe_backend E) (ix_block_id ix) base_seq_num (ix_is_finalized ix) addresses))"

section \<open>Nonces at the start of a block\<close>

definition blocks_since_base ::
  "eth_block_policy \<Rightarrow> ('s, 'h, 'sig) ext_blocks \<Rightarrow> seq_num \<Rightarrow> nonce_usage_map list" where
  "blocks_since_base P extending_blocks base_seq_num =
     map snd (filter (\<lambda>e. fst e > base_seq_num)
       (map (\<lambda>(n, b). (n, cb_nonce_usages b)) (buf_blocks (committed_cache P))
        @ map (\<lambda>b. (evb_seq_num b, nonce_usages b)) extending_blocks))"

definition cached_nonce_usages :: "nonce_usage_map list \<Rightarrow> address list \<Rightarrow> nonce_usage_map" where
  "cached_nonce_usages usages addresses =
     foldl (\<lambda>m u. merge_with_previous_block m (filter (\<lambda>e. fst e \<in> set addresses) u)) [] (rev usages)"

fun split_cache_hits ::
  "nonce_usage_map \<Rightarrow> address list \<Rightarrow> (address, u64) btree_map \<times> (address \<times> u64 list option) list
     \<Rightarrow> (address, u64) btree_map \<times> (address \<times> u64 list option) list" where
  "split_cache_hits cached [] acc = acc"
| "split_cache_hits cached (a # as) (nonces, misses) =
     split_cache_hits cached as
       (case bt_get cached a of
          Some (Known nonce) \<Rightarrow> (bt_insert a (add64 nonce 1) nonces, misses)
        | Some (Possible ps) \<Rightarrow> (nonces, misses @ [(a, Some ps)])
        | None \<Rightarrow> (nonces, misses @ [(a, None)]))"

definition resolve_miss :: "u64 list option \<Rightarrow> eth_account option \<Rightarrow> u64" where
  "resolve_miss possible status =
     (let nonce = (case status of None \<Rightarrow> 0 | Some st \<Rightarrow> ea_nonce st)
      in case possible of None \<Rightarrow> nonce | Some ps \<Rightarrow> apply_possible_nonces_to_account_nonce nonce ps)"

definition base_seq_num_of :: "eth_block_policy \<Rightarrow> seq_num \<Rightarrow> seq_num" where
  "base_seq_num_of P n = max n (pol_execution_delay P) - pol_execution_delay P"

definition get_account_base_nonces ::
  "('s, 'h, 'sig) policy_env \<Rightarrow> eth_block_policy \<Rightarrow> seq_num \<Rightarrow> ('s, 'h, 'sig) ext_blocks \<Rightarrow> address list
     \<Rightarrow> (state_backend_error + (address, u64) btree_map) option" where
  "get_account_base_nonces E P consensus_block_seq_num extending_blocks addresses =
     (let addresses = pol_iter E (remdups addresses);
          base_seq_num = base_seq_num_of P consensus_block_seq_num;
          cached = cached_nonce_usages (blocks_since_base P extending_blocks base_seq_num) addresses;
          (nonces, misses) = split_cache_hits cached addresses ([], [])
      in try_bind (get_account_statuses E P (Some extending_blocks) (map fst misses) base_seq_num) (\<lambda>statuses. do {
           _ \<leftarrow> assert_p (length statuses = length misses);
           ok (fold (\<lambda>((a, possible), status). bt_insert a (resolve_miss possible status)) (zip misses statuses) nonces)
         }))"

section \<open>Balances at the start of a block\<close>

fun extending_scan ::
  "monad_chain_config \<Rightarrow> seq_num \<Rightarrow> seq_num \<Rightarrow> address \<Rightarrow> ('s, 'h, 'sig) ext_blocks \<Rightarrow> account_balance_state \<Rightarrow> seq_num
     \<Rightarrow> (block_policy_error + account_balance_state) option" where
  "extending_scan cfg delay reserve_start a [] st next_validate = ok st"
| "extending_scan cfg delay reserve_start a (b # rest) st next_validate = do {
     _ \<leftarrow> assert_p (next_validate = evb_seq_num b);
     try_bind
       (case bt_get (block_txn_fees b) a of
          None \<Rightarrow> ok st
        | Some fee \<Rightarrow>
            if next_validate < reserve_start then
              ok (if block_seqnum_of_latest_txn st < next_validate
                  then st\<lparr>block_seqnum_of_latest_txn := evb_seq_num b\<rparr> else st)
            else
              try_apply_block_fees
                (block_validator_new (evb_seq_num b) delay (eh_base_fee (evb_header b))
                   (get_chain_revision cfg (eh_block_round (evb_header b)))) st fee)
       (\<lambda>st. do {
          next_validate \<leftarrow> seq_num_add next_validate 1;
          extending_scan cfg delay reserve_start a rest st next_validate
        })
   }"

definition account_base_balance ::
  "('s, 'h, 'sig) policy_env \<Rightarrow> eth_block_policy \<Rightarrow> seq_num \<Rightarrow> ('s, 'h, 'sig) ext_blocks option \<Rightarrow> address
     \<Rightarrow> account_balance_state \<Rightarrow> (block_policy_error + account_balance_state) option" where
  "account_base_balance E P base_seq_num extending_blocks a st = do {
     reserve_start \<leftarrow> seq_num_add base_seq_num 1;
     r \<leftarrow> seq_num_add reserve_start 1;
     let start = max r (pol_execution_delay P) - pol_execution_delay P;
     let emptying_start = (if start = GENESIS_SEQ_NUM then 1 else start);
     let st = (if emptying_start > GENESIS_SEQ_NUM then st\<lparr>block_seqnum_of_latest_txn := emptying_start - 1\<rparr> else st);
     try_bind (update_account_balance (committed_cache P) st a (pol_execution_delay P) emptying_start reserve_start
                 (pe_config E)) (\<lambda>(st, next_validate).
       case extending_blocks of
         None \<Rightarrow> ok st
       | Some blocks \<Rightarrow>
           extending_scan (pe_config E) (pol_execution_delay P) reserve_start a
             (dropWhile (\<lambda>b. evb_seq_num b < next_validate) blocks) st next_validate)
   }"

definition base_balance_state :: "balance \<Rightarrow> seq_num \<Rightarrow> eth_account option \<Rightarrow> account_balance_state" where
  "base_balance_state max_reserve base_seq_num status =
     (case status of
        None \<Rightarrow> account_balance_state_new max_reserve
      | Some st \<Rightarrow>
          \<lparr>acc_balance = ea_balance st, remaining_reserve_balance = min (ea_balance st) max_reserve,
           acc_max_reserve_balance = max_reserve, block_seqnum_of_latest_txn = base_seq_num,
           acc_is_delegated = ea_is_delegated st\<rparr>)"

fun collect_balances ::
  "('s, 'h, 'sig) policy_env \<Rightarrow> eth_block_policy \<Rightarrow> seq_num \<Rightarrow> ('s, 'h, 'sig) ext_blocks option
     \<Rightarrow> (address \<times> account_balance_state) list \<Rightarrow> account_balances \<Rightarrow> (block_policy_error + account_balances) option" where
  "collect_balances E P base_seq_num extending_blocks [] acc = ok acc"
| "collect_balances E P base_seq_num extending_blocks ((a, st) # rest) acc =
     try_bind (account_base_balance E P base_seq_num extending_blocks a st) (\<lambda>st.
       collect_balances E P base_seq_num extending_blocks rest (bt_insert a st acc))"

definition compute_account_base_balances ::
  "('s, 'h, 'sig) policy_env \<Rightarrow> eth_block_policy \<Rightarrow> seq_num \<Rightarrow> ('s, 'h, 'sig) ext_blocks option \<Rightarrow> address list
     \<Rightarrow> (block_policy_error + account_balances) option" where
  "compute_account_base_balances E P consensus_block_seq_num extending_blocks addresses =
     (let base_seq_num = base_seq_num_of P consensus_block_seq_num
      in try_bind (map_err StateBackendError (get_block_index E P extending_blocks base_seq_num)) (\<lambda>ix.
         let max_reserve = max_reserve_balance (chain_params_of (get_chain_revision (pe_config E) (ix_round ix)));
             addresses = rev (remdups (rev addresses))
         in try_bind (map_err StateBackendError
                        (get_account_statuses E P extending_blocks addresses base_seq_num)) (\<lambda>statuses. do {
              _ \<leftarrow> assert_p (length statuses = length addresses);
              collect_balances E P base_seq_num extending_blocks
                (zip addresses (map (base_balance_state max_reserve base_seq_num) statuses)) []
            })))"

section \<open>Base fee\<close>

definition get_parent_base_fee_fields ::
  "eth_block_policy \<Rightarrow> ('s, 'h, 'sig) ext_blocks \<Rightarrow> (round \<times> u64 \<times> u64 \<times> u64 \<times> u64) option" where
  "get_parent_base_fee_fields P extending_blocks =
     (if extending_blocks \<noteq> [] then
        let parent = last extending_blocks; h = evb_header parent
        in Some (eh_block_round h, eh_base_fee h, eh_base_fee_trend h, eh_base_fee_moment h, get_total_gas parent)
      else if last_commit P = GENESIS_SEQ_NUM then
        Some (GENESIS_ROUND, GENESIS_BASE_FEE, GENESIS_BASE_FEE_TREND, GENESIS_BASE_FEE_MOMENT, 0)
      else do {
        b \<leftarrow> bt_get (buf_blocks (committed_cache P)) (last_commit P);
        Some (cb_round b, cb_base_fee b, cb_base_fee_trend b, cb_base_fee_moment b, cb_block_gas_usage b)
      })"

definition policy_compute_base_fee ::
  "('s, 'h, 'sig) policy_env \<Rightarrow> eth_block_policy \<Rightarrow> ('s, 'h, 'sig) ext_blocks \<Rightarrow> (u64 \<times> u64 \<times> u64) option" where
  "policy_compute_base_fee E P extending_blocks = do {
     (round, fee, trend, moment, gas_usage) \<leftarrow> get_parent_base_fee_fields P extending_blocks;
     compute_base_fee (proposal_gas_limit (chain_params_of (get_chain_revision (pe_config E) round)))
       gas_usage fee trend moment
   }"

section \<open>Coherency\<close>

definition policy_validate_system_transactions ::
  "('s, 'h, 'sig) policy_env \<Rightarrow> eth_block_policy \<Rightarrow> ('s, 'h, 'sig) eth_validated_block \<Rightarrow> ('s, 'h, 'sig) ext_blocks
     \<Rightarrow> (system_transaction_validation_error + unit) option" where
  "policy_validate_system_transactions E P block extending_blocks = do {
     parent_block_epoch \<leftarrow>
       (if extending_blocks \<noteq> [] then Some (eh_epoch (evb_header (last extending_blocks)))
        else do {
          n \<leftarrow> seq_num_add (last_commit P) 1;
          _ \<leftarrow> assert_p (evb_seq_num block = n);
          get_last_commit_epoch P
        });
     let h = evb_header block;
     validate_system_transactions_input (txn_ops (pe_ops E)) (eh_timestamp_ns h) (eh_seq_num h) (eh_epoch h)
       (eh_author h) parent_block_epoch (system_txns block) (pe_config E)
   }"

definition nonce_check_and_update ::
  "'sig validated_tx \<Rightarrow> (address, u64) btree_map \<Rightarrow> (block_policy_error + (address, u64) btree_map) option" where
  "nonce_check_and_update txn nonces = do {
     expected \<leftarrow> bt_get nonces (vt_signer txn);
     if vt_nonce txn \<noteq> expected then err BlockNotCoherent
     else ok (bt_insert (vt_signer txn) (add64 expected 1) nonces)
   }"

fun system_transaction_nonce_check ::
  "'sig validated_tx list \<Rightarrow> (address, u64) btree_map \<Rightarrow> (block_policy_error + (address, u64) btree_map) option" where
  "system_transaction_nonce_check [] nonces = ok nonces"
| "system_transaction_nonce_check (t # ts) nonces = do {
     expected \<leftarrow> bt_get nonces (vt_signer t);
     if vt_nonce t \<noteq> expected then err BlockNotCoherent
     else system_transaction_nonce_check ts (bt_insert (vt_signer t) (add64 expected 1) nonces)
   }"

fun eip_7702_valid_nonce_update ::
  "u64 \<Rightarrow> recovered_authorization list \<Rightarrow> (address, u64) btree_map \<Rightarrow> (address, u64) btree_map option" where
  "eip_7702_valid_nonce_update cid [] nonces = Some nonces"
| "eip_7702_valid_nonce_update cid (au # rest) nonces =
     (case auth_authority au of
        None \<Rightarrow> eip_7702_valid_nonce_update cid rest nonces
      | Some a \<Rightarrow>
          if auth_chain_id au \<noteq> 0 \<and> auth_chain_id au \<noteq> cid then eip_7702_valid_nonce_update cid rest nonces
          else do {
            expected \<leftarrow> bt_get nonces a;
            if expected \<noteq> auth_nonce au then eip_7702_valid_nonce_update cid rest nonces
            else eip_7702_valid_nonce_update cid rest (bt_insert a (add64 expected 1) nonces)
          })"

definition extract_signers :: "'sig validated_tx list \<Rightarrow> 'sig validated_tx list \<Rightarrow> address list" where
  "extract_signers txns sys =
     remdups (map vt_signer txns @ concat (map authorities txns) @ map vt_signer sys)"

fun check_transactions ::
  "u64 \<Rightarrow> block_validator \<Rightarrow> 'sig validated_tx list \<Rightarrow> (address, u64) btree_map \<times> account_balances
     \<Rightarrow> (block_policy_error + ((address, u64) btree_map \<times> account_balances)) option" where
  "check_transactions cid V [] s = ok s"
| "check_transactions cid V (t # ts) (nonces, balances) =
     try_bind (nonce_check_and_update t nonces) (\<lambda>nonces.
     try_bind (try_add_transaction V balances t) (\<lambda>balances. do {
       nonces \<leftarrow> (if tx_type_of (vt_tx t) = TxEip7702
                  then eip_7702_valid_nonce_update cid (authorizations_7702 t) nonces else Some nonces);
       check_transactions cid V ts (nonces, balances)
     }))"

definition eth_get_expected_execution_results ::
  "('s, 'h, 'sig) policy_env \<Rightarrow> eth_block_policy \<Rightarrow> seq_num \<Rightarrow> ('s, 'h, 'sig) ext_blocks
     \<Rightarrow> (state_backend_error + 'h list) option" where
  "eth_get_expected_execution_results E P block_seq_num extending_blocks =
     (if block_seq_num < pol_execution_delay P then ok []
      else do {
        base_seq_num \<leftarrow> seq_num_sub block_seq_num (pol_execution_delay P);
        try_bind (get_block_index E P (Some extending_blocks) base_seq_num) (\<lambda>ix.
        try_bind (Some (sb_get_execution_result (pe_backend E) (ix_block_id ix) (ix_seq_num ix) (ix_is_finalized ix)))
          (\<lambda>result. ok [result]))
      })"

text \<open>The accounts of a block: nonces and balances before its first transaction, then the check of the
  system transactions and of each user transaction.\<close>

definition check_accounts ::
  "('s, 'h, 'sig) policy_env \<Rightarrow> eth_block_policy \<Rightarrow> ('s, 'h, 'sig) eth_validated_block \<Rightarrow> ('s, 'h, 'sig) ext_blocks
     \<Rightarrow> (block_policy_error + ((address, u64) btree_map \<times> account_balances)) option" where
  "check_accounts E P block extending_blocks =
     (let h = evb_header block;
          tx_signers = pol_iter E (extract_signers (validated_txns block) (system_txns block))
      in try_bind (map_err StateBackendError
                     (get_account_base_nonces E P (eh_seq_num h) extending_blocks tx_signers)) (\<lambda>account_nonces.
         try_bind (compute_account_base_balances E P (eh_seq_num h) (Some extending_blocks) tx_signers) (\<lambda>account_balances.
         let validator = block_validator_new (eh_seq_num h) (pol_execution_delay P) (eh_base_fee h)
               (get_chain_revision (pe_config E) (eh_block_round h))
         in try_bind (map_err (\<lambda>_. PolicySystemTransactionError)
                        (policy_validate_system_transactions E P block extending_blocks)) (\<lambda>_.
            try_bind (system_transaction_nonce_check (system_txns block) account_nonces) (\<lambda>account_nonces.
              check_transactions (chain_id (pe_config E)) validator (validated_txns block)
                (account_nonces, account_balances))))))"

definition eth_check_coherency ::
  "('s, 'h, 'sig) policy_env \<Rightarrow> eth_block_policy \<Rightarrow> ('s, 'h, 'sig) eth_validated_block \<Rightarrow> ('s, 'h, 'sig) ext_blocks
     \<Rightarrow> root_info \<Rightarrow> (block_policy_error + unit) option" where
  "eth_check_coherency E P block extending_blocks blocktree_root =
     (let h = evb_header block;
          (extending_seq_num, extending_timestamp) =
            (if extending_blocks \<noteq> []
             then (evb_seq_num (last extending_blocks), eh_timestamp_ns (evb_header (last extending_blocks)))
             else (ri_seq_num blocktree_root, 0))
      in do {
        next_seq_num \<leftarrow> seq_num_add extending_seq_num 1;
        if eh_seq_num h \<noteq> next_seq_num then err BlockNotCoherent
        else if eh_timestamp_ns h \<le> extending_timestamp then err TimestampError
        else try_bind (map_err StateBackendError
                         (eth_get_expected_execution_results E P (eh_seq_num h) extending_blocks)) (\<lambda>expected.
             if eh_delayed_execution_results h \<noteq> expected then err ExecutionResultMismatch
             else do {
               (fee, trend, moment) \<leftarrow> policy_compute_base_fee E P extending_blocks;
               if fee \<noteq> eh_base_fee h \<or> trend \<noteq> eh_base_fee_trend h \<or> moment \<noteq> eh_base_fee_moment h
               then err BaseFeeError
               else try_bind (check_accounts E P block extending_blocks) (\<lambda>_. ok ())
             })
      })"

section \<open>Commits\<close>

definition eth_update_committed_block ::
  "('s, 'h, 'sig) policy_env \<Rightarrow> eth_block_policy \<Rightarrow> ('s, 'h, 'sig) eth_validated_block \<Rightarrow> eth_block_policy option" where
  "eth_update_committed_block E P block = do {
     n \<leftarrow> seq_num_add (last_commit P) 1;
     _ \<leftarrow> assert_p (evb_seq_num block = n);
     cache \<leftarrow> buffer_update_committed_block (pe_ops E) (committed_cache P) block;
     Some (P\<lparr>last_commit := evb_seq_num block, committed_cache := cache\<rparr>)
   }"

fun reset_loop ::
  "('s, 'h, 'sig) policy_env \<Rightarrow> ('s, 'h, 'sig) eth_validated_block list \<Rightarrow> eth_block_policy \<Rightarrow> eth_block_policy option" where
  "reset_loop E [] P = Some P"
| "reset_loop E (b # bs) P = do {
     cache \<leftarrow> buffer_update_committed_block (pe_ops E) (committed_cache P) b;
     reset_loop E bs (P\<lparr>last_commit := evb_seq_num b, committed_cache := cache\<rparr>)
   }"

definition eth_policy_reset ::
  "('s, 'h, 'sig) policy_env \<Rightarrow> eth_block_policy \<Rightarrow> ('s, 'h, 'sig) eth_validated_block list \<Rightarrow> eth_block_policy option" where
  "eth_policy_reset E P blocks =
     reset_loop E blocks (P\<lparr>committed_cache := blk_buffer_new (min_buffer_size (committed_cache P))\<rparr>)"

end
