(* ===== verification/Eth_Coherency.thy ===== *)
theory Eth_Coherency
  imports Eth_Block_Policy
begin

text \<open>
  Why the summaries of a block are enough.  A block is checked transaction by transaction against
  the accounts (\<open>check_transactions\<close>), but once it is accepted the node only keeps its nonce usages
  and its fees per account, and charges those to the accounts when it checks later blocks.  The
  lemmas follow the two computations side by side, per address.
\<close>

section \<open>Fees\<close>

definition tracks :: "block_validator \<Rightarrow> account_balance_state \<Rightarrow> txn_fee option \<Rightarrow> account_balance_state \<Rightarrow> bool" where
  "tracks V s0 f s =
     (case f of
        None \<Rightarrow> s = s0
      | Some fee \<Rightarrow> \<exists>s'. try_apply_block_fees V s0 fee = Some (Inr s') \<and> bal_eq s' s
          \<and> (block_seqnum_of_latest_txn s = bv_block_seq_num V \<or> acc_is_delegated s))"

definition with_authority :: "txn_fee option \<Rightarrow> txn_fee" where
  "with_authority f = (case f of None \<Rightarrow> authorized_fee | Some e \<Rightarrow> e\<lparr>fee_is_delegated := True\<rparr>)"

definition with_gas :: "balance \<Rightarrow> txn_fee \<Rightarrow> txn_fee" where
  "with_gas c e = e\<lparr>max_gas_cost := saturating_add u256_max (max_gas_cost e) c\<rparr>"

definition acc_ok :: "account_balance_state \<Rightarrow> bool" where
  "acc_ok s \<longleftrightarrow> acc_max_reserve_balance s = 10000000000000000000
     \<and> remaining_reserve_balance s \<le> 10000000000000000000"

lemma acc_ok_fits: "acc_ok s \<Longrightarrow> remaining_reserve_balance s \<le> u256_max"
  by (simp add: acc_ok_def u256_max_def)

lemma tracks_authority:
  assumes "tracks V s0 f s" and "0 < bv_execution_delay V"
  shows "tracks V s0 (Some (with_authority f)) (s\<lparr>acc_is_delegated := True\<rparr>)"
proof (cases f)
  case None
  then show ?thesis
    using assms(1) apply_fees_authorized[OF assms(2), of s0]
    by (simp add: tracks_def with_authority_def bal_eq_def)
next
  case (Some e)
  then obtain s' where "try_apply_block_fees V s0 e = Some (Inr s')" "bal_eq s' s"
    using assms(1) by (auto simp: tracks_def)
  then show ?thesis
    using apply_fees_delegate[of V s0 e s'] Some by (simp add: tracks_def with_authority_def bal_eq_def)
qed

lemma charge_reserved:
  assumes "charge_transaction V s txn = Some (Inr s1)"
    and "compute_txn_max_gas_cost (vt_tx txn) (bv_base_fee V) = Some c"
    and "is_possibly_emptying_transaction (bv_block_seq_num V) s (bv_execution_delay V) = Some False
         \<or> vt_signer txn \<in> set (authorities txn)"
  shows "c \<le> remaining_reserve_balance s"
    and "s1 = s\<lparr>remaining_reserve_balance := remaining_reserve_balance s - c,
                block_seqnum_of_latest_txn := bv_block_seq_num V\<rparr>"
  using assms by (auto simp: charge_transaction_def bind_eq_Some_conv Let_def saturating_sub_def split: if_splits)

lemma tracks_sender_again:
  assumes t: "tracks V s0 (Some e) s" and d: "0 < bv_execution_delay V" and ok: "acc_ok s0"
    and ch: "charge_transaction V s txn = Some (Inr s1)"
    and c: "compute_txn_max_gas_cost (vt_tx txn) (bv_base_fee V) = Some c"
  shows "tracks V s0 (Some (with_gas c e)) s1"
proof -
  obtain s' where ap: "try_apply_block_fees V s0 e = Some (Inr s')" and eq: "bal_eq s' s"
    and recent: "block_seqnum_of_latest_txn s = bv_block_seq_num V \<or> acc_is_delegated s"
    using t by (auto simp: tracks_def)
  have "is_possibly_emptying_transaction (bv_block_seq_num V) s (bv_execution_delay V) = Some False"
    using recent by (auto intro: emptying_recent[OF d])
  then have le: "c \<le> remaining_reserve_balance s"
    and s1: "s1 = s\<lparr>remaining_reserve_balance := remaining_reserve_balance s - c,
                block_seqnum_of_latest_txn := bv_block_seq_num V\<rparr>"
    using charge_reserved[OF ch c] by auto
  have same: "remaining_reserve_balance s' = remaining_reserve_balance s" using eq by (simp add: bal_eq_def)
  have "try_apply_block_fees V s0 (with_gas c e)
      = Some (Inr (s'\<lparr>remaining_reserve_balance := remaining_reserve_balance s' - c\<rparr>))"
    unfolding with_gas_def using apply_fees_more[OF ap _ acc_ok_fits[OF ok]] le same by simp
  moreover have "block_seqnum_of_latest_txn s' = bv_block_seq_num V" using apply_fees_keeps[OF ap] by simp
  ultimately show ?thesis using eq by (simp add: tracks_def s1 bal_eq_def)
qed

lemma tracks_first_sender:
  assumes "acc_ok s" and d: "0 < bv_execution_delay V"
    and ch: "charge_transaction V s txn = Some (Inr s1)"
    and c: "compute_txn_max_gas_cost (vt_tx txn) (bv_base_fee V) = Some c"
    and na: "vt_signer txn \<notin> set (authorities txn)"
  defines "e \<equiv> \<lparr>first_txn_value = tx_value (vt_tx txn), first_txn_gas = c, max_gas_cost = 0, fee_is_delegated = False,
           delegation_before_first_txn = False\<rparr>"
  shows "tracks V s (Some e) s1"
proof -
  obtain b where b: "is_possibly_emptying_transaction (bv_block_seq_num V) s (bv_execution_delay V) = Some b"
    using emptying_total[OF d] by blast
  have mx: "acc_max_reserve_balance s = 10000000000000000000" using assms(1) by (simp add: acc_ok_def)
  show ?thesis
  proof (cases b)
    case True
    then have ne: "\<not> acc_balance s < c" and s1: "s1 = emptied s e\<lparr>block_seqnum_of_latest_txn := bv_block_seq_num V\<rparr>"
      using ch c b na mx
      by (auto simp: charge_transaction_def compute_txn_max_value_def emptied_def e_def Let_def saturating_sub_def
          min.commute split: if_splits)
    have "try_apply_block_fees V s e = charge_reserve V (emptied s e) e 0"
      using apply_fees_emptying[of V s e] b True ne by (simp add: e_def)
    then show ?thesis by (simp add: tracks_def s1 charge_reserve_def bal_eq_def saturating_sub_def e_def)
  next
    case False
    then have le: "c \<le> remaining_reserve_balance s"
      and s1: "s1 = s\<lparr>remaining_reserve_balance := remaining_reserve_balance s - c,
                block_seqnum_of_latest_txn := bv_block_seq_num V\<rparr>"
      using charge_reserved[OF ch c] b by auto
    have "saturating_add u256_max 0 c = c" using le acc_ok_fits[OF assms(1)] by (simp add: saturating_add_def)
    then have "try_apply_block_fees V s e = charge_reserve V s e c"
      using apply_fees_reserve[OF b, of e] False by (simp add: e_def)
    then show ?thesis using le by (simp add: tracks_def s1 charge_reserve_def bal_eq_def saturating_sub_def e_def)
  qed
qed

section \<open>Fees of one transaction, per address\<close>

lemma delegate_authorities_get:
  "bt_wf m \<Longrightarrow> bt_get (delegate_authorities as m) a
   = (if a \<in> set as then map_option (\<lambda>s. s\<lparr>acc_is_delegated := True\<rparr>) (bt_get m a) else bt_get m a)
   \<and> bt_wf (delegate_authorities as m)"
  by (induction as m rule: delegate_authorities.induct) (auto split: option.splits simp: option.map_comp comp_def)

lemma with_authority_idem [simp]: "with_authority (Some (with_authority f)) = with_authority f"
  by (cases f) (simp_all add: with_authority_def authorized_fee_def)

lemma record_authority_get:
  "bt_wf fees \<Longrightarrow> bt_get (record_authority b fees) a
   = (if a = b then Some (with_authority (bt_get fees a)) else bt_get fees a)
   \<and> bt_wf (record_authority b fees)"
  by (auto simp: record_authority_def with_authority_def split: option.splits)

lemma process_authorizations_fees:
  "process_authorizations cid aus (m, fees) = Inr (m', fees') \<Longrightarrow> bt_wf fees \<Longrightarrow>
   bt_wf fees' \<and> bt_get fees' a =
     (if a \<in> set (List.map_filter auth_authority aus) then Some (with_authority (bt_get fees a)) else bt_get fees a)"
proof (induction aus arbitrary: m fees)
  case (Cons au rest)
  show ?case
  proof (cases "auth_authority au")
    case None
    then show ?thesis using Cons by (simp add: List.map_filter_simps)
  next
    case (Some b)
    then obtain m'' where
      "process_authorizations cid rest (m'', record_authority b fees) = Inr (m', fees')"
      using Cons.prems(1) by (auto simp: Let_def split: if_splits sum.splits)
    from Cons.IH[OF this] show ?thesis
      using record_authority_get[OF Cons.prems(2), of b a] Some
      by (cases "a = b") (simp_all add: List.map_filter_simps)
  qed
qed (simp add: List.map_filter_simps)

definition txn_shape :: "'sig validated_tx \<Rightarrow> bool" where
  "txn_shape t \<longleftrightarrow> (tx_type_of (vt_tx t) \<noteq> TxEip7702 \<longrightarrow> authorizations_7702 t = [])"

lemma to_validated_shape [simp]: "txn_shape (to_validated ops t)"
  by (simp add: txn_shape_def to_validated_def vt_tx_def)

text \<open>What a transaction does to the fees of an address.\<close>

definition fee_after :: "u64 \<Rightarrow> 'sig validated_tx \<Rightarrow> address \<Rightarrow> txn_fee option \<Rightarrow> txn_fee option" where
  "fee_after fee t a f =
     (let f = (if a \<in> set (authorities t) then Some (with_authority f) else f);
          c = the (compute_txn_max_gas_cost (vt_tx t) fee)
      in if a = vt_signer t then
           (case f of
              Some e \<Rightarrow> Some (with_gas c e)
            | None \<Rightarrow> Some \<lparr>first_txn_value = tx_value (vt_tx t), first_txn_gas = c, max_gas_cost = 0,
                fee_is_delegated = False, delegation_before_first_txn = False\<rparr>)
         else f)"

lemma record_sender_get:
  "record_sender fee t fees = Some fees' \<Longrightarrow> bt_wf fees \<Longrightarrow>
   (\<exists>c. compute_txn_max_gas_cost (vt_tx t) fee = Some c) \<and> bt_wf fees' \<and>
   bt_get fees' a =
     (if a = vt_signer t then
        (case bt_get fees a of
           Some e \<Rightarrow> Some (with_gas (the (compute_txn_max_gas_cost (vt_tx t) fee)) e)
         | None \<Rightarrow> Some \<lparr>first_txn_value = tx_value (vt_tx t),
             first_txn_gas = the (compute_txn_max_gas_cost (vt_tx t) fee), max_gas_cost = 0,
             fee_is_delegated = False, delegation_before_first_txn = False\<rparr>)
      else bt_get fees a)"
  by (cases "bt_get fees (vt_signer t)") (auto simp: record_sender_def bind_eq_Some_conv with_gas_def)

lemma process_txn_fees:
  assumes "process_txn cid fee t (m, fees) = Some (Inr (m', fees'))" and "bt_wf fees" and "txn_shape t"
  shows "(\<exists>c. compute_txn_max_gas_cost (vt_tx t) fee = Some c) \<and> bt_wf fees'
    \<and> bt_get fees' a = fee_after fee t a (bt_get fees a)"
proof -
  obtain m1 m2 fees2 where
    auths: "(if tx_type_of (vt_tx t) = TxEip7702 then process_authorizations cid (authorizations_7702 t) (m1, fees)
       else Inr (m1, fees)) = Inr (m2, fees2)" and sender: "record_sender fee t fees2 = Some fees'"
    using assms(1)
    by (auto simp: process_txn_def add_known_def bind_eq_Some_conv split: if_splits sum.splits prod.splits)
  have two: "bt_wf fees2 \<and> bt_get fees2 a =
     (if a \<in> set (authorities t) then Some (with_authority (bt_get fees a)) else bt_get fees a)"
  proof (cases "tx_type_of (vt_tx t) = TxEip7702")
    case True
    then show ?thesis
      using process_authorizations_fees[of cid "authorizations_7702 t" m1 fees m2 fees2 a] auths assms(2)
      by (simp add: authorities_def)
  next
    case False
    then show ?thesis using auths assms(2,3) by (simp add: txn_shape_def authorities_def List.map_filter_simps)
  qed
  show ?thesis
    using record_sender_get[OF sender, of a] two by (cases "a = vt_signer t") (simp_all add: fee_after_def Let_def)
qed

lemma try_add_transaction_get:
  assumes "try_add_transaction V bal t = Some (Inr bal')" and "bt_wf bal"
  shows "\<exists>st st'. bt_get bal (vt_signer t) = Some st \<and> charge_transaction V st t = Some (Inr st') \<and> bt_wf bal'
    \<and> (\<forall>a. bt_get bal' a =
        map_option (\<lambda>s. if a \<in> set (authorities t) then s\<lparr>acc_is_delegated := True\<rparr> else s)
          (if a = vt_signer t then Some st' else bt_get bal a))"
proof -
  obtain st st' where st: "bt_get bal (vt_signer t) = Some st" "charge_transaction V st t = Some (Inr st')"
    "bal' = delegate_authorities (authorities t) (bt_insert (vt_signer t) st' bal)"
    using assms(1) by (auto simp: try_add_transaction_def try_bind_eq_ok split: option.splits)
  have get: "bt_get bal' a =
        map_option (\<lambda>s. if a \<in> set (authorities t) then s\<lparr>acc_is_delegated := True\<rparr> else s)
          (if a = vt_signer t then Some st' else bt_get bal a) \<and> bt_wf bal'" for a
    using delegate_authorities_get[of "bt_insert (vt_signer t) st' bal" "authorities t" a] assms(2)
    by (simp add: st(3) option.map_ident)
  then show ?thesis using st(1,2) by blast
qed

lemma charge_self_authorized_eq:
  assumes "vt_signer t \<in> set (authorities t)" and "0 < bv_execution_delay V"
  shows "charge_transaction V s t = do {
     c \<leftarrow> compute_txn_max_gas_cost (vt_tx t) (bv_base_fee V);
     if remaining_reserve_balance s < c then err (BlockPolicyBlockValidatorError InsufficientReserveBalance)
     else ok (s\<lparr>remaining_reserve_balance := saturating_sub (remaining_reserve_balance s) c,
                block_seqnum_of_latest_txn := bv_block_seq_num V\<rparr>)
   }"
proof -
  obtain b where "is_possibly_emptying_transaction (bv_block_seq_num V) s (bv_execution_delay V) = Some b"
    using emptying_total[OF assms(2)] by blast
  then show ?thesis using assms(1) by (simp add: charge_transaction_def Let_def)
qed

lemma charge_self_authorized:
  assumes "charge_transaction V s t = Some (Inr s1)" and "vt_signer t \<in> set (authorities t)"
    and "0 < bv_execution_delay V"
  shows "charge_transaction V (s\<lparr>acc_is_delegated := True\<rparr>) t = Some (Inr (s1\<lparr>acc_is_delegated := True\<rparr>))"
  using assms(1) unfolding charge_self_authorized_eq[OF assms(2,3)]
  by (cases "compute_txn_max_gas_cost (vt_tx t) (bv_base_fee V)") (auto split: if_splits)

lemma tracks_transaction:
  assumes tr: "tracks V s0 f s" and ok: "acc_ok s0" and d: "0 < bv_execution_delay V"
    and c: "\<exists>c. compute_txn_max_gas_cost (vt_tx t) (bv_base_fee V) = Some c"
    and ch: "vt_signer t = a \<Longrightarrow> charge_transaction V s t = Some (Inr s1)"
    and s1: "vt_signer t \<noteq> a \<Longrightarrow> s1 = s"
  shows "tracks V s0 (fee_after (bv_base_fee V) t a f)
    (if a \<in> set (authorities t) then s1\<lparr>acc_is_delegated := True\<rparr> else s1)"
proof -
  obtain g where g: "compute_txn_max_gas_cost (vt_tx t) (bv_base_fee V) = Some g" using c by blast
  consider "a \<noteq> vt_signer t" | "a = vt_signer t" "a \<in> set (authorities t)"
    | e where "a = vt_signer t" "a \<notin> set (authorities t)" "f = Some e"
    | "a = vt_signer t" "a \<notin> set (authorities t)" "f = None"
    by (cases f) auto
  then show ?thesis
  proof cases
    case 1
    then show ?thesis using tr s1 tracks_authority[OF tr d] by (auto simp: fee_after_def Let_def)
  next
    case 2
    have "tracks V s0 (Some (with_gas g (with_authority f))) (s1\<lparr>acc_is_delegated := True\<rparr>)"
      by (rule tracks_sender_again[OF tracks_authority[OF tr d] d ok charge_self_authorized[OF ch _ d] g])
         (use 2 in auto)
    then show ?thesis using 2 g by (simp add: fee_after_def Let_def)
  next
    case (3 e)
    then show ?thesis
      using tracks_sender_again[of V s0 e s t s1 g] tr d ok ch g by (simp add: fee_after_def Let_def)
  next
    case 4
    then have "s = s0" using tr by (simp add: tracks_def)
    then show ?thesis
      using 4 tracks_first_sender[of s V t s1 g] ok d ch g by (simp add: fee_after_def Let_def)
  qed
qed

section \<open>Nonces\<close>

definition nonces_track :: "(address, u64) btree_map \<Rightarrow> nonce_usage_map \<Rightarrow> (address, u64) btree_map \<Rightarrow> bool" where
  "nonces_track n0 m n \<longleftrightarrow> bt_wf m \<and> bt_wf n \<and>
     (\<forall>a. bt_get n a = map_option (usage_effect (bt_get m a)) (bt_get n0 a))"

lemma nonces_trackD:
  "nonces_track n0 m n \<Longrightarrow> bt_wf m \<and> bt_wf n \<and> bt_get n a = map_option (usage_effect (bt_get m a)) (bt_get n0 a)"
  by (simp add: nonces_track_def)

lemma nonces_track_update:
  assumes "nonces_track n0 m n" and "bt_get n0 a = Some k" and "usage_effect (Some u) k = v"
  shows "nonces_track n0 (bt_insert a u m) (bt_insert a v n)"
  using assms by (auto simp: nonces_track_def)

lemma nonces_track_known:
  assumes tr: "nonces_track n0 m n" and "bt_get n a = Some k"
  shows "nonces_track n0 (bt_insert a (Known k) m) (bt_insert a (add64 k 1) n)"
proof -
  obtain k0 where "bt_get n0 a = Some k0" using assms nonces_trackD[OF tr, of a] by auto
  then show ?thesis by (rule nonces_track_update[OF tr]) simp
qed

lemma nonces_track_possible:
  assumes tr: "nonces_track n0 m n" and "bt_get n a = Some k"
    and u: "bt_get m a = None \<and> ps = [] \<or> bt_get m a = Some (Possible ps)"
  shows "nonces_track n0 (bt_insert a (Possible (ps @ [x])) m) (if k = x then bt_insert a (add64 k 1) n else n)"
proof -
  obtain k0 where k0: "bt_get n0 a = Some k0" and k: "k = apply_possible_nonces_to_account_nonce k0 ps"
    using assms nonces_trackD[OF tr, of a] by auto
  show ?thesis
  proof (cases "k = x")
    case True
    then show ?thesis
      using nonces_track_update[OF tr k0, of "Possible (ps @ [x])" "add64 k 1"] k
      by (simp add: apply_possible_append del: One_nat_def)
  next
    case False
    then show ?thesis
      using tr k0 k assms(2) by (auto simp: nonces_track_def apply_possible_append)
  qed
qed

lemma nonces_track_authorization:
  assumes tr: "nonces_track n0 m n" and k: "bt_get n a = Some k" and use: "use_authorization_nonce a x m = Inr m'"
  shows "nonces_track n0 m' (if k = x then bt_insert a (add64 k 1) n else n)"
proof (cases "bt_get m a")
  case None
  then show ?thesis
    using nonces_track_possible[OF tr k, of "[]" x] use by (simp add: use_authorization_nonce_def)
next
  case (Some u)
  show ?thesis
  proof (cases u)
    case (Possible ps)
    then show ?thesis
      using nonces_track_possible[OF tr k, of ps x] use Some by (simp add: use_authorization_nonce_def)
  next
    case (Known j)
    then have j: "j + 1 \<le> u64_max" and m': "m' = (if j + 1 = x then bt_insert a (Known (j + 1)) m else m)"
      using use Some by (auto simp: use_authorization_nonce_def checked_add_def split: if_splits)
    have "k = add64 j 1" using k nonces_trackD[OF tr, of a] Some Known by auto
    then have "k = j + 1" using j by (simp add: wrapping_add_def)
    then show ?thesis using tr m' nonces_track_known[OF tr k] by auto
  qed
qed

lemma nonces_track_authorizations:
  "eip_7702_valid_nonce_update cid aus n = Some n' \<Longrightarrow> process_authorizations cid aus (m, fees) = Inr (m', fees') \<Longrightarrow>
   nonces_track n0 m n \<Longrightarrow> nonces_track n0 m' n'"
proof (induction aus arbitrary: n m fees)
  case (Cons au rest)
  show ?case
  proof (cases "auth_authority au")
    case None
    then show ?thesis using Cons by simp
  next
    case (Some a)
    show ?thesis
    proof (cases "auth_chain_id au \<noteq> 0 \<and> auth_chain_id au \<noteq> cid")
      case True
      then have "process_authorizations cid rest (m, record_authority a fees) = Inr (m', fees')"
        and "eip_7702_valid_nonce_update cid rest n = Some n'"
        using Cons.prems(1,2) Some by (simp_all add: Let_def split: if_splits)
      then show ?thesis using Cons.IH Cons.prems(3) by blast
    next
      case False
      then obtain m1 where use: "use_authorization_nonce a (auth_nonce au) m = Inr m1"
        and rest: "process_authorizations cid rest (m1, record_authority a fees) = Inr (m', fees')"
        using Cons.prems(2) Some by (auto simp: Let_def split: if_splits sum.splits)
      obtain k where k: "bt_get n a = Some k"
        and up: "eip_7702_valid_nonce_update cid rest
          (if k = auth_nonce au then bt_insert a (add64 k 1) n else n) = Some n'"
        using Cons.prems(1) Some False by (auto simp: bind_eq_Some_conv split: if_splits)
      show ?thesis
        by (rule Cons.IH[OF up rest nonces_track_authorization[OF Cons.prems(3) k use]])
    qed
  qed
qed simp

section \<open>All transactions of a block\<close>

definition balances_track :: "block_validator \<Rightarrow> account_balances \<Rightarrow> txn_fees \<Rightarrow> account_balances \<Rightarrow> bool" where
  "balances_track V b0 fees b \<longleftrightarrow> bt_wf fees \<and> bt_wf b \<and>
     (\<forall>a. case bt_get b0 a of
            None \<Rightarrow> bt_get b a = None
          | Some s0 \<Rightarrow> \<exists>s. bt_get b a = Some s \<and> tracks V s0 (bt_get fees a) s)"

lemma balances_track_None: "balances_track V b0 fees b \<Longrightarrow> bt_get b0 a = None \<Longrightarrow> bt_get b a = None"
  unfolding balances_track_def by (auto dest!: spec[of _ a])

lemma balances_track_Some:
  "balances_track V b0 fees b \<Longrightarrow> bt_get b0 a = Some s0 \<Longrightarrow> \<exists>s. bt_get b a = Some s \<and> tracks V s0 (bt_get fees a) s"
  unfolding balances_track_def by (auto dest!: spec[of _ a])

lemma balances_track_transaction:
  assumes tr: "balances_track V b0 fees b" and ok: "\<And>a s. bt_get b0 a = Some s \<Longrightarrow> acc_ok s"
    and d: "0 < bv_execution_delay V"
    and add: "try_add_transaction V b t = Some (Inr b')"
    and pr: "process_txn cid (bv_base_fee V) t (m, fees) = Some (Inr (m', fees'))" and sh: "txn_shape t"
  shows "balances_track V b0 fees' b'"
proof -
  have wf: "bt_wf fees" "bt_wf b" using tr by (simp_all add: balances_track_def)
  note fee = process_txn_fees[OF pr wf(1) sh]
  obtain st st' where st: "bt_get b (vt_signer t) = Some st" "charge_transaction V st t = Some (Inr st')" "bt_wf b'"
    and get: "\<And>a. bt_get b' a =
        map_option (\<lambda>s. if a \<in> set (authorities t) then s\<lparr>acc_is_delegated := True\<rparr> else s)
          (if a = vt_signer t then Some st' else bt_get b a)"
    using try_add_transaction_get[OF add wf(2)] by auto
  show ?thesis
    unfolding balances_track_def
  proof (intro conjI allI)
    show "bt_wf fees'" by (rule fee[THEN conjunct2, THEN conjunct1])
    show "bt_wf b'" by (rule st(3))
    fix a
    show "case bt_get b0 a of None \<Rightarrow> bt_get b' a = None
      | Some s0 \<Rightarrow> \<exists>s. bt_get b' a = Some s \<and> tracks V s0 (bt_get fees' a) s"
    proof (cases "bt_get b0 a")
      case None
      then have "bt_get b a = None" by (rule balances_track_None[OF tr])
      then show ?thesis using None st(1) get[of a] by auto
    next
      case (Some s0)
      then obtain s where s: "bt_get b a = Some s" and t0: "tracks V s0 (bt_get fees a) s"
        using balances_track_Some[OF tr] by blast
      let ?s1 = "if a = vt_signer t then st' else s"
      have "tracks V s0 (fee_after (bv_base_fee V) t a (bt_get fees a))
          (if a \<in> set (authorities t) then ?s1\<lparr>acc_is_delegated := True\<rparr> else ?s1)"
        using fee[THEN conjunct1] st s by (intro tracks_transaction[OF t0 ok[OF Some] d]) auto
      moreover have "bt_get b' a = Some (if a \<in> set (authorities t) then ?s1\<lparr>acc_is_delegated := True\<rparr> else ?s1)"
        using s by (simp add: get[of a])
      ultimately show ?thesis using Some fee[of a] by simp
    qed
  qed
qed

lemma nonces_track_transaction:
  assumes tr: "nonces_track n0 m n" and ck: "nonce_check_and_update t n = Some (Inr n1)"
    and up: "(if tx_type_of (vt_tx t) = TxEip7702 then eip_7702_valid_nonce_update cid (authorizations_7702 t) n1
              else Some n1) = Some n'"
    and pr: "process_txn cid fee t (m, fees) = Some (Inr (m', fees'))"
  shows "nonces_track n0 m' n'"
proof -
  let ?m = "bt_insert (vt_signer t) (Known (vt_nonce t)) m"
  obtain fees2 where auths: "(if tx_type_of (vt_tx t) = TxEip7702
       then process_authorizations cid (authorizations_7702 t) (?m, fees) else Inr (?m, fees)) = Inr (m', fees2)"
    using pr by (auto simp: process_txn_def add_known_def bind_eq_Some_conv split: if_splits sum.splits prod.splits)
  have e: "bt_get n (vt_signer t) = Some (vt_nonce t)" and n1: "n1 = bt_insert (vt_signer t) (add64 (vt_nonce t) 1) n"
    using ck by (auto simp: nonce_check_and_update_def bind_eq_Some_conv split: if_splits)
  have t1: "nonces_track n0 ?m n1" unfolding n1 by (rule nonces_track_known[OF tr e])
  show ?thesis
  proof (cases "tx_type_of (vt_tx t) = TxEip7702")
    case True
    show ?thesis
      by (rule nonces_track_authorizations[OF _ _ t1, of cid "authorizations_7702 t" n' fees m' fees2])
         (use up auths True in simp_all)
  next
    case False
    then show ?thesis using up auths t1 by simp
  qed
qed

lemma block_tracks:
  assumes "check_transactions cid V ts (n, b) = Some (Inr (n', b'))"
    and "process_txns cid (bv_base_fee V) ts (m, fees) = Some (Inr (m', fees'))"
    and "nonces_track n0 m n" and "balances_track V b0 fees b"
    and "\<And>a s. bt_get b0 a = Some s \<Longrightarrow> acc_ok s" and "0 < bv_execution_delay V"
    and "\<And>t. t \<in> set ts \<Longrightarrow> txn_shape t"
  shows "nonces_track n0 m' n' \<and> balances_track V b0 fees' b'"
  using assms
proof (induction ts arbitrary: n b m fees)
  case (Cons t ts)
  obtain n1 b1 n2 where c: "nonce_check_and_update t n = Some (Inr n1)" "try_add_transaction V b t = Some (Inr b1)"
    "(if tx_type_of (vt_tx t) = TxEip7702 then eip_7702_valid_nonce_update cid (authorizations_7702 t) n1
      else Some n1) = Some n2"
    "check_transactions cid V ts (n2, b1) = Some (Inr (n', b'))"
    using Cons.prems(1) by (auto simp: try_bind_eq_ok bind_eq_Some_conv)
  obtain m1 fees1 where p: "process_txn cid (bv_base_fee V) t (m, fees) = Some (Inr (m1, fees1))"
    "process_txns cid (bv_base_fee V) ts (m1, fees1) = Some (Inr (m', fees'))"
    using Cons.prems(2) by (auto simp: try_bind_eq_ok)
  have n: "nonces_track n0 m1 n2" by (rule nonces_track_transaction[OF Cons.prems(3) c(1,3) p(1)])
  have b: "balances_track V b0 fees1 b1"
    by (rule balances_track_transaction[OF Cons.prems(4,5,6) c(2) p(1)]) (use Cons.prems(7) in auto)
  show ?case by (rule Cons.IH[OF c(4) p(2) n b Cons.prems(5,6)]) (use Cons.prems(7) in auto)
qed simp

lemma system_nonces_track:
  "system_transaction_nonce_check ts n = Some (Inr n') \<Longrightarrow> system_nonces m ts = Inr m' \<Longrightarrow>
   nonces_track n0 m n \<Longrightarrow> nonces_track n0 m' n'"
proof (induction ts arbitrary: n m)
  case (Cons t ts)
  have e: "bt_get n (vt_signer t) = Some (vt_nonce t)"
    and r: "system_transaction_nonce_check ts (bt_insert (vt_signer t) (add64 (vt_nonce t) 1) n) = Some (Inr n')"
    using Cons.prems(1) by (auto simp: bind_eq_Some_conv split: if_splits)
  have m: "system_nonces (bt_insert (vt_signer t) (Known (vt_nonce t)) m) ts = Inr m'"
    using Cons.prems(2) by (auto simp: add_known_def split: option.splits nonce_usage.splits sum.splits)
  show ?case by (rule Cons.IH[OF r m nonces_track_known[OF Cons.prems(3) e]])
qed simp

section \<open>The accounts at the start of a block\<close>

lemma charge_reserve_acc_ok: "charge_reserve V s f g = Some (Inr s') \<Longrightarrow> acc_ok s \<Longrightarrow> acc_ok s'"
  by (drule charge_reserve_keeps) (simp add: acc_ok_def)

lemma emptied_acc_ok: "acc_ok s \<Longrightarrow> acc_ok (emptied s f)"
  by (simp add: acc_ok_def emptied_def Let_def)

lemma apply_fees_acc_ok:
  assumes ap: "try_apply_block_fees V s f = Some (Inr s')" and ok: "acc_ok s"
  shows "acc_ok s'"
  using ap
proof (cases rule: apply_fees_cases)
  case emptying
  then have "charge_reserve V (emptied s f) f (max_gas_cost f) = Some (Inr s')"
    using ap by (simp add: apply_fees_emptying split: if_splits)
  then show ?thesis by (rule charge_reserve_acc_ok) (rule emptied_acc_ok[OF ok])
next
  case (reserve e)
  show ?thesis by (rule charge_reserve_acc_ok[OF ap[unfolded apply_fees_reserve[OF reserve]] ok])
qed

lemma acc_ok_latest [simp]: "acc_ok (s\<lparr>block_seqnum_of_latest_txn := n\<rparr>) = acc_ok s"
  by (simp add: acc_ok_def)

lemma emptying_scan_acc_ok: "emptying_scan a bs s n = Some (s', n') \<Longrightarrow> acc_ok s \<Longrightarrow> acc_ok s'"
  by (induction a bs s n rule: emptying_scan.induct) (auto simp: bind_eq_Some_conv Let_def split: if_splits)

lemma reserve_scan_acc_ok: "reserve_scan cfg d a bs s n = Some (Inr (s', n')) \<Longrightarrow> acc_ok s \<Longrightarrow> acc_ok s'"
proof (induction bs arbitrary: s n)
  case (Cons e rest)
  obtain m b where e: "e = (m, b)" by (cases e)
  obtain s1 k' where "(case bt_get (cb_fees b) a of
        Some fees \<Rightarrow> try_apply_block_fees (block_validator_new (cb_seq_num b) d (cb_base_fee b)
          (get_chain_revision cfg (cb_round b))) s fees
      | None \<Rightarrow> ok s) = Some (Inr s1)"
    and nx: "reserve_scan cfg d a rest s1 k' = Some (Inr (s', n'))"
    using Cons.prems(1) by (auto simp: e bind_eq_Some_conv try_bind_eq_ok)
  then have "acc_ok s1" using Cons.prems(2) by (auto split: option.splits dest: apply_fees_acc_ok)
  then show ?case using Cons.IH nx by blast
qed simp

lemma extending_scan_acc_ok: "extending_scan cfg d r a bs s n = Some (Inr s') \<Longrightarrow> acc_ok s \<Longrightarrow> acc_ok s'"
proof (induction bs arbitrary: s n)
  case (Cons b rest)
  obtain s1 k' where "(case bt_get (block_txn_fees b) a of
          None \<Rightarrow> ok s
        | Some fee \<Rightarrow>
            if n < r then
              ok (if block_seqnum_of_latest_txn s < n then s\<lparr>block_seqnum_of_latest_txn := evb_seq_num b\<rparr> else s)
            else try_apply_block_fees (block_validator_new (evb_seq_num b) d (eh_base_fee (evb_header b))
                   (get_chain_revision cfg (eh_block_round (evb_header b)))) s fee) = Some (Inr s1)"
    and nx: "extending_scan cfg d r a rest s1 k' = Some (Inr s')"
    using Cons.prems(1) by (auto simp: bind_eq_Some_conv try_bind_eq_ok)
  then have "acc_ok s1" using Cons.prems(2) by (auto split: option.splits if_splits dest: apply_fees_acc_ok)
  then show ?case using Cons.IH nx by blast
qed simp

lemma account_base_balance_acc_ok:
  assumes "account_base_balance E P n ext a s = Some (Inr s')" and "acc_ok s"
  shows "acc_ok s'"
proof -
  obtain b x e r s1 k where
    up: "update_account_balance (committed_cache P) (if b then s\<lparr>block_seqnum_of_latest_txn := x\<rparr> else s) a
      (pol_execution_delay P) e r (pe_config E) = Some (Inr (s1, k))"
    and ext: "(case ext of None \<Rightarrow> ok s1
       | Some blocks \<Rightarrow> extending_scan (pe_config E) (pol_execution_delay P) r a
             (dropWhile (\<lambda>b. evb_seq_num b < k) blocks) s1 k) = Some (Inr s')"
    using assms(1) unfolding account_base_balance_def Let_def
    by (clarsimp simp only: bind_eq_Some_conv try_bind_eq_ok split_beta fst_conv snd_conv)
  have "acc_ok (if b then s\<lparr>block_seqnum_of_latest_txn := x\<rparr> else s)" using assms(2) by simp
  then have "acc_ok s1"
    using up by (auto simp: update_account_balance_def bind_eq_Some_conv simp del: if_split
        dest!: reserve_scan_acc_ok emptying_scan_acc_ok)
  then show ?thesis using ext by (auto split: option.splits dest: extending_scan_acc_ok)
qed

lemma collect_balances_ok:
  "collect_balances E P n ext ps acc = Some (Inr b) \<Longrightarrow> bt_wf acc \<Longrightarrow> (\<And>a s. bt_get acc a = Some s \<Longrightarrow> acc_ok s) \<Longrightarrow>
   (\<And>a s. (a, s) \<in> set ps \<Longrightarrow> acc_ok s) \<Longrightarrow> bt_wf b \<and> (\<forall>a s. bt_get b a = Some s \<longrightarrow> acc_ok s)"
proof (induction ps arbitrary: acc)
  case (Cons p ps)
  obtain a s where p: "p = (a, s)" by (cases p)
  obtain s' where s': "account_base_balance E P n ext a s = Some (Inr s')"
    and rest: "collect_balances E P n ext ps (bt_insert a s' acc) = Some (Inr b)"
    using Cons.prems(1) by (auto simp: p try_bind_eq_ok)
  have "acc_ok s'" using account_base_balance_acc_ok[OF s'] Cons.prems(4)[of a s] by (simp add: p)
  then show ?case
    using Cons.prems(2,3,4) by (intro Cons.IH[OF rest]) (auto split: if_splits)
qed auto

lemma base_balance_state_ok: "acc_ok (base_balance_state 10000000000000000000 n st)"
  by (simp add: base_balance_state_def acc_ok_def account_balance_state_new_def split: option.splits)

lemma base_balances_ok:
  assumes "compute_account_base_balances E P n ext as = Some (Inr b)"
  shows "bt_wf b \<and> (\<forall>a s. bt_get b a = Some s \<longrightarrow> acc_ok s)"
proof -
  obtain bs sts where "collect_balances E P (base_seq_num_of P n) ext
      (zip bs (map (base_balance_state 10000000000000000000 (base_seq_num_of P n)) sts)) [] = Some (Inr b)"
    using assms by (auto simp: compute_account_base_balances_def Let_def try_bind_eq_ok bind_eq_Some_conv)
  then show ?thesis
    by (rule collect_balances_ok) (auto simp: base_balance_state_ok set_zip)
qed

end
