(* ===== verification/Eth_Theorems.thy ===== *)
theory Eth_Theorems
  imports Eth_Coherency
begin

text \<open>
  The properties of the Ethereum block layer: the nonces a block is checked against are the ones
  that result from executing the blocks before it, and the summaries kept of a coherent block have
  the same effect on the accounts as its transactions had.
\<close>

section \<open>Nonces at the start of a block\<close>

lemma bt_get_fold_insert:
  assumes "distinct (map f xs)" and "bt_wf m"
  shows "bt_get (fold (\<lambda>x. bt_insert (f x) (g x)) xs m) a =
    (case find (\<lambda>x. f x = a) xs of None \<Rightarrow> bt_get m a | Some x \<Rightarrow> Some (g x))"
  using assms
proof (induction xs arbitrary: m)
  case (Cons x xs)
  have none: "find (\<lambda>y. f y = a) xs = None" if "f x = a"
    using Cons.prems(1) that by (auto simp: find_None_iff) (metis image_eqI)
  have "bt_get (fold (\<lambda>x. bt_insert (f x) (g x)) xs (bt_insert (f x) (g x) m)) a =
    (case find (\<lambda>x. f x = a) xs of None \<Rightarrow> bt_get (bt_insert (f x) (g x) m) a | Some x \<Rightarrow> Some (g x))"
    using Cons.IH[of "bt_insert (f x) (g x) m"] Cons.prems by simp
  then show ?case using none Cons.prems(2) by (cases "f x = a") (simp_all split: option.split)
qed simp

definition miss_of :: "nonce_usage_map \<Rightarrow> address \<Rightarrow> (address \<times> u64 list option) list" where
  "miss_of cached a =
     (case bt_get cached a of Some (Known _) \<Rightarrow> [] | Some (Possible ps) \<Rightarrow> [(a, Some ps)] | None \<Rightarrow> [(a, None)])"

definition known_nonce :: "nonce_usage_map \<Rightarrow> address \<Rightarrow> u64 option" where
  "known_nonce cached a = (case bt_get cached a of Some (Known k) \<Rightarrow> Some (add64 k 1) | _ \<Rightarrow> None)"

lemma split_cache_hits_step:
  "split_cache_hits cached (b # as) (n, ms) = split_cache_hits cached as
     (case known_nonce cached b of None \<Rightarrow> n | Some k \<Rightarrow> bt_insert b k n, ms @ miss_of cached b)"
proof (cases "bt_get cached b")
  case (Some u)
  then show ?thesis by (cases u) (simp_all add: known_nonce_def miss_of_def)
qed (simp add: known_nonce_def miss_of_def)

lemma split_cache_hits_misses:
  "snd (split_cache_hits cached as (n, ms)) = ms @ concat (map (miss_of cached) as)"
proof (induction as arbitrary: n ms)
  case (Cons b as)
  then show ?case unfolding split_cache_hits_step by simp
qed simp

lemma split_cache_hits_nonces:
  "bt_wf n \<Longrightarrow> bt_wf (fst (split_cache_hits cached as (n, ms))) \<and>
   bt_get (fst (split_cache_hits cached as (n, ms))) a =
     (if a \<in> set as \<and> known_nonce cached a \<noteq> None then known_nonce cached a else bt_get n a)"
proof (induction as arbitrary: n ms)
  case (Cons b as)
  define n' where "n' = (case known_nonce cached b of None \<Rightarrow> n | Some k \<Rightarrow> bt_insert b k n)"
  have wf: "bt_wf n'" using Cons.prems by (simp add: n'_def split: option.split)
  have get: "bt_get n' a = (if a = b \<and> known_nonce cached a \<noteq> None then known_nonce cached a else bt_get n a)"
    using Cons.prems by (cases "known_nonce cached b") (auto simp: n'_def)
  show ?case
    unfolding split_cache_hits_step n'_def[symmetric] using Cons.IH[OF wf, of "ms @ miss_of cached b"] get by auto
qed simp

lemma miss_of_fst: "x \<in> set (miss_of cached a) \<Longrightarrow> fst x = a"
  by (auto simp: miss_of_def split: option.splits nonce_usage.splits)

lemma misses_distinct: "distinct as \<Longrightarrow> distinct (map fst (concat (map (miss_of cached) as)))"
proof (induction as)
  case (Cons b as)
  have "distinct (map fst (miss_of cached b))" by (simp add: miss_of_def split: option.split nonce_usage.split)
  then show ?case using Cons by (auto dest!: miss_of_fst)
qed simp

lemma misses_find:
  "distinct as \<Longrightarrow> find (\<lambda>x. fst x = a) (concat (map (miss_of cached) as)) =
   (if a \<in> set as then (case miss_of cached a of [] \<Rightarrow> None | x # _ \<Rightarrow> Some x) else None)"
proof (induction as)
  case (Cons b as)
  have app: "find P (xs @ ys) = (case find P xs of None \<Rightarrow> find P ys | Some x \<Rightarrow> Some x)"
    for P :: "address \<times> u64 list option \<Rightarrow> bool" and xs ys by (induction xs) auto
  have one: "find (\<lambda>x. fst x = a) (miss_of cached b)
      = (if a = b then (case miss_of cached b of [] \<Rightarrow> None | x # _ \<Rightarrow> Some x) else None)"
    by (simp add: miss_of_def split: option.split nonce_usage.split)
  show ?case using Cons by (auto simp: app one split: option.split list.split)
qed simp

lemma cached_usage_effect:
  assumes "a \<in> set as" and "\<And>m. m \<in> set us \<Longrightarrow> bt_wf m"
  shows "usage_effect (bt_get (cached_nonce_usages us as) a) n = fold (\<lambda>m. usage_effect (bt_get m a)) us n"
proof -
  let ?f = "\<lambda>m. filter (\<lambda>e. fst e \<in> set as) m"
  have get: "bt_get (?f m) a = bt_get m a" for m :: nonce_usage_map
    using assms(1) by (induction m) auto
  have "cached_nonce_usages us as = foldl merge_with_previous_block [] (map ?f (rev us))"
    by (simp add: cached_nonce_usages_def foldl_map)
  moreover have "\<And>b. b \<in> set (map ?f (rev us)) \<Longrightarrow> bt_wf b" using assms(2) by (auto simp: bt_wf_filter)
  ultimately show ?thesis
    using merge_blocks_effect[of "[]" "map ?f (rev us)" a n] by (simp add: rev_map[symmetric] fold_map comp_def get)
qed

text \<open>The documented behaviour of the state backend: one answer per address, in order.\<close>

definition backend_ok :: "'h state_backend \<Rightarrow> (block_id \<Rightarrow> seq_num \<Rightarrow> bool \<Rightarrow> address \<Rightarrow> eth_account option) \<Rightarrow> bool" where
  "backend_ok sb acc \<longleftrightarrow> (\<forall>i n f as sts. sb_get_account_statuses sb i n f as = Inr sts \<longrightarrow> sts = map (acc i n f) as)"

definition iter_ok_addr :: "(address list \<Rightarrow> address list) \<Rightarrow> bool" where
  "iter_ok_addr it \<longleftrightarrow> (\<forall>as. distinct as \<longrightarrow> distinct (it as) \<and> set (it as) = set as)"

definition state_nonce :: "eth_account option \<Rightarrow> u64" where
  "state_nonce st = (case st of None \<Rightarrow> 0 | Some s \<Rightarrow> ea_nonce s)"

lemma base_nonces_get:
  assumes r: "get_account_base_nonces E P n ext as = Some (Inr nonces)"
    and be: "backend_ok (pe_backend E) acc" and it: "iter_ok_addr (pol_iter E)"
    and wf: "\<And>m. m \<in> set (blocks_since_base P ext (base_seq_num_of P n)) \<Longrightarrow> bt_wf m"
  obtains ix where "get_block_index E P (Some ext) (base_seq_num_of P n) = Some (Inr ix)"
    and "\<And>a. a \<in> set as \<Longrightarrow> bt_get nonces a = Some (fold (\<lambda>m. usage_effect (bt_get m a))
        (blocks_since_base P ext (base_seq_num_of P n))
        (state_nonce (acc (ix_block_id ix) (base_seq_num_of P n) (ix_is_finalized ix) a)))"
    and "\<And>a. a \<notin> set as \<Longrightarrow> bt_get nonces a = None" and "bt_wf nonces"
proof -
  let ?as = "pol_iter E (remdups as)" and ?base = "base_seq_num_of P n"
  let ?us = "blocks_since_base P ext ?base"
  let ?c = "cached_nonce_usages ?us ?as"
  let ?ms = "concat (map (miss_of ?c) ?as)"
  have as: "distinct ?as" "set ?as = set as" using it by (simp_all add: iter_ok_addr_def)
  obtain hits where split: "split_cache_hits ?c ?as ([], []) = (hits, ?ms)"
    using split_cache_hits_misses[of ?c ?as "[]" "[]"] by (cases "split_cache_hits ?c ?as ([], [])") simp
  obtain sts ix where ix: "get_block_index E P (Some ext) ?base = Some (Inr ix)"
    and sts: "sb_get_account_statuses (pe_backend E) (ix_block_id ix) ?base (ix_is_finalized ix) (map fst ?ms) = Inr sts"
    and nonces: "nonces = fold (\<lambda>((a, p), st). bt_insert a (resolve_miss p st)) (zip ?ms sts) hits"
    using r unfolding get_account_base_nonces_def Let_def split prod.case get_account_statuses_def
    by (auto simp: try_bind_eq_ok bind_eq_Some_conv)
  let ?acc = "acc (ix_block_id ix) ?base (ix_is_finalized ix)"
  have "sts = map ?acc (map fst ?ms)" using be[unfolded backend_ok_def, rule_format, OF sts] .
  moreover have "zip xs (map ?acc (map fst xs)) = map (\<lambda>x. (x, ?acc (fst x))) xs"
    for xs :: "(address \<times> u64 list option) list" by (induction xs) simp_all
  ultimately have zip: "zip ?ms sts = map (\<lambda>x. (x, ?acc (fst x))) ?ms" by blast
  have n2: "nonces = fold (\<lambda>x. bt_insert (fst x) (resolve_miss (snd x) (?acc (fst x)))) ?ms hits"
    by (simp add: nonces zip fold_map comp_def split_beta)
  have hits: "bt_wf hits \<and> bt_get hits a = (if a \<in> set ?as then known_nonce ?c a else None)" for a
    using split_cache_hits_nonces[of "[]" ?c ?as "[]" a] split by auto
  have get: "bt_get nonces a = (case find (\<lambda>x. fst x = a) ?ms of None \<Rightarrow> bt_get hits a
      | Some x \<Rightarrow> Some (resolve_miss (snd x) (?acc (fst x))))" for a
    unfolding n2 by (rule bt_get_fold_insert[OF misses_distinct[OF as(1)]]) (rule hits[THEN conjunct1])
  have "bt_wf (fold (\<lambda>x. bt_insert (fst x) (resolve_miss (snd x) (?acc (fst x)))) xs m)" if "bt_wf m" for xs m
    using that by (induction xs arbitrary: m) auto
  then have w: "bt_wf nonces" using hits n2 by simp
  have in_as: "bt_get nonces a = Some (fold (\<lambda>m. usage_effect (bt_get m a)) ?us (state_nonce (?acc a)))"
    if "a \<in> set as" for a
  proof -
    have eff: "fold (\<lambda>m. usage_effect (bt_get m a)) ?us (state_nonce (?acc a)) =
        usage_effect (bt_get ?c a) (state_nonce (?acc a))"
      using cached_usage_effect[of a ?as ?us] that as(2) wf by simp
    show ?thesis
      using that as(2) unfolding get[of a] eff misses_find[OF as(1)] hits[of a, THEN conjunct2]
      by (auto simp: known_nonce_def miss_of_def resolve_miss_def state_nonce_def split: option.split nonce_usage.split)
  qed
  have out: "bt_get nonces a = None" if "a \<notin> set as" for a
    using that as(2) unfolding get[of a] misses_find[OF as(1)] hits[of a, THEN conjunct2]
    by (simp split: option.split nonce_usage.split)
  show ?thesis by (rule that[OF ix in_as out w])
qed

lemma base_nonces_wf:
  assumes "get_account_base_nonces E P n ext as = Some (Inr nonces)"
  shows "bt_wf nonces"
proof -
  obtain hits ms sts where split: "split_cache_hits (cached_nonce_usages (blocks_since_base P ext (base_seq_num_of P n))
      (pol_iter E (remdups as))) (pol_iter E (remdups as)) ([], []) = (hits, ms)"
    and nonces: "nonces = fold (\<lambda>((a, p), st). bt_insert a (resolve_miss p st)) (zip ms sts) hits"
    using assms unfolding get_account_base_nonces_def Let_def
    by (auto simp: try_bind_eq_ok bind_eq_Some_conv split: prod.splits)
  have "bt_wf hits" using split_cache_hits_nonces[of "[]"] split by (metis bt_wf_Nil fst_conv)
  moreover have "bt_wf m \<Longrightarrow> bt_wf (fold (\<lambda>((a, p), st). bt_insert a (resolve_miss p st)) xs m)" for xs m
    by (induction xs arbitrary: m) auto
  ultimately show ?thesis by (simp add: nonces)
qed

lemma eth_validate_sound:
  assumes "eth_validate B h body pk cfg = Some (Inr block)"
  obtains m where "evb_header block = h" and "evb_body block = body"
    and "system_nonces [] (system_txns block) = Inr m"
    and "process_txns (chain_id cfg) (eh_base_fee h) (validated_txns block) (m, [])
      = Some (Inr (nonce_usages block, block_txn_fees block))"
    and "\<And>t. t \<in> set (validated_txns block) \<Longrightarrow> txn_shape t"
proof -
  obtain sys txns nonces fees where body: "validate_block_body B h body cfg = Some (Inr (sys, txns, nonces, fees))"
    and block: "block = \<lparr>evb_header = h, evb_body = body, system_txns = sys, validated_txns = txns,
                   nonce_usages = nonces, block_txn_fees = fees\<rparr>"
    using assms by (auto simp: eth_validate_def Let_def try_bind_eq_ok bind_eq_Some_conv split: sum.splits)
  then obtain eth_txns m where "txns = map (to_validated (txn_ops B)) eth_txns" "system_nonces [] sys = Inr m"
    "process_txns (chain_id cfg) (eh_base_fee h) txns (m, []) = Some (Inr (nonces, fees))"
    by (auto simp: validate_block_body_def Let_def try_bind_eq_ok
        split: if_splits option.splits sum.splits prod.splits)
  then show ?thesis by (intro that[of m]) (auto simp: block)
qed

section \<open>An example\<close>

text \<open>The first block of a development network: the epoch change, then one EIP-7702 transaction of
  account 7 with an authorization by account 8.\<close>

definition example_tx :: "nat tx_envelope" where
  "example_tx = \<lparr>tx_type_of = TxEip7702, tx_chain_id = Some 20143, tx_nonce = 5, tx_gas_price = None,
     tx_gas_limit = 100000, tx_max_fee_per_gas = 200000000000, tx_max_priority_fee_per_gas = Some 0,
     tx_kind_of = TxCall 9, tx_value = 1, tx_input = [], tx_access_list = None,
     tx_authorization_list = Some [(\<lparr>auth_chain_id = 0, auth_address = 9, auth_nonce = 3\<rparr>, 8)],
     tx_signature = 7, tx_high_s = False, tx_length = 200\<rparr>"

definition example_sys_tx :: "nat tx_envelope" where
  "example_sys_tx = sign_legacy example_ops (as_legacy_transaction example_ops (EpochChange 1) 20143 0)"

definition example_body :: "nat eth_block_body" where
  "example_body = \<lparr>transactions = [example_sys_tx, example_tx], ommers = [], withdrawals = []\<rparr>"

definition example_block_ops :: "(nat, nat, nat) block_ops" where
  "example_block_ops = \<lparr>txn_ops = example_ops, eth_body_id = (\<lambda>b. length (transactions b)), eth_header_id = eh_seq_num,
     verify_round_signature = (\<lambda>s r k. s = r + k), round_signature_hash = (\<lambda>s. [s]),
     calculate_transaction_root = (\<lambda>txs. map tx_nonce txs), EMPTY_OMMER_ROOT_HASH = [1], EMPTY_WITHDRAWALS = [2]\<rparr>"

definition example_eth_header :: "(nat, nat) eth_consensus_header" where
  "example_eth_header = \<lparr>eh_block_round = 1, eh_epoch = 1, eh_author = 0, eh_seq_num = 1, eh_timestamp_ns = 2000000000,
     eh_round_signature = 5, eh_delayed_execution_results = [],
     eh_execution_inputs = \<lparr>ommers_hash = [1], eth_beneficiary = 0, transactions_root = [0, 5], difficulty = 0,
       eth_number = 1, eth_gas_limit = 200000000, eth_timestamp = 2, extra_data = replicate 32 0, mix_hash = [5],
       eth_nonce = replicate 8 0, base_fee_per_gas = 100000000000, withdrawals_root = [2], blob_gas_used = 0,
       excess_blob_gas = 0, parent_beacon_block_root = replicate 32 0, requests_hash = Some (replicate 32 0)\<rparr>,
     eh_block_body_id = 2, eh_base_fee = 100000000000, eh_base_fee_trend = 6400000,
     eh_base_fee_moment = 1024000000000000\<rparr>"

definition example_account :: "address \<Rightarrow> eth_account option" where
  "example_account a = (if a = 7 then Some \<lparr>ea_nonce = 5, ea_balance = 10 ^ 20, ea_is_delegated = False\<rparr>
     else if a = 8 then Some \<lparr>ea_nonce = 3, ea_balance = 10, ea_is_delegated = False\<rparr> else None)"

definition example_policy_env :: "(nat, nat, nat) policy_env" where
  "example_policy_env = \<lparr>pe_ops = example_block_ops,
     pe_backend = \<lparr>sb_get_account_statuses = (\<lambda>i n f as. Inr (map example_account as)),
                  sb_get_execution_result = (\<lambda>i n f. Inl NotAvailableYet)\<rparr>,
     pe_config = MONAD_DEVNET_CHAIN_CONFIG, pol_iter = (\<lambda>as. as)\<rparr>"

definition example_usages :: nonce_usage_map where
  "example_usages = [(7, Known 5), (8, Possible [3]), (SYSTEM_SENDER_ETH_ADDRESS, Known 0)]"

definition example_fees :: txn_fees where
  "example_fees = [(7, \<lparr>first_txn_value = 1, first_txn_gas = 10000000000000000, max_gas_cost = 0,
     fee_is_delegated = False, delegation_before_first_txn = False\<rparr>), (8, authorized_fee)]"

definition example_evb :: "(nat, nat, nat) eth_validated_block" where
  "example_evb = \<lparr>evb_header = example_eth_header, evb_body = example_body,
     system_txns = [\<lparr>val_tx = \<lparr>rec_tx = example_sys_tx, rec_signer = SYSTEM_SENDER_ETH_ADDRESS\<rparr>, authorizations_7702 = []\<rparr>],
     validated_txns = [\<lparr>val_tx = \<lparr>rec_tx = example_tx, rec_signer = 7\<rparr>,
       authorizations_7702 = [\<lparr>auth_chain_id = 0, auth_address = 9, auth_nonce = 3, auth_authority = Some 8\<rparr>]\<rparr>],
     nonce_usages = example_usages, block_txn_fees = example_fees\<rparr>"

lemmas example_eth_defs = example_tx_def example_sys_tx_def example_body_def example_block_ops_def
  example_eth_header_def example_policy_env_def example_usages_def example_fees_def example_evb_def example_ops_def
  as_legacy_transaction_def example_account_def

lemmas eth_validate_eval = eth_validate_def validate_block_header_def check_def validate_block_body_def
  extract_system_transactions_def is_system_sender_def static_validate_system_transaction_def is_create_def
  is_restricted_staking_contract_call_def tx_to_def sum_lengths_def wrapping_add_def wrapping_mul_def u64_max_def
  add_known_def vt_signer_def vt_nonce_def vt_tx_def static_validate_transaction_def tfm_validate_def
  TFM_MAX_GAS_LIMIT_def homestead_validate_def eip_2_def eip_155_def eip_1559_def eip_3860_def
  intrinsic_gas_validation_def compute_intrinsic_gas_def zero_data_len_def saturating_add_def saturating_mul_def
  EIP_7702_PER_EMPTY_ACCOUNT_COST_def prague_validate_def eip_7623_def compute_floor_data_gas_def eip_7702_def
  to_validated_def recover_authorization_def process_txn_def check_next_nonce_def use_authorization_nonce_def
  record_authority_def record_sender_def compute_txn_max_gas_cost_def checked_mul_def u256_max_def checked_add_def
  STAKING_CONTRACT_ADDRESS_def SYSTEM_SENDER_ETH_ADDRESS_def timestamp_ns_to_secs_def List.map_filter_simps
  authorized_fee_def chain_config_eval map_err_def ok_def Let_def

lemma example_validates:
  "eth_validate example_block_ops example_eth_header example_body (Some 4) MONAD_DEVNET_CHAIN_CONFIG
   = Some (Inr example_evb)"
  by (simp add: example_eth_defs eth_validate_eval)

lemmas coherency_eval = eth_check_coherency_def evb_seq_num_def seq_num_add_def
  eth_get_expected_execution_results_def policy_compute_base_fee_def
  get_parent_base_fee_fields_def eth_block_policy_new_def GENESIS_SEQ_NUM_def GENESIS_ROUND_def GENESIS_BASE_FEE_def
  GENESIS_BASE_FEE_TREND_def GENESIS_BASE_FEE_MOMENT_def check_accounts_def extract_signers_def authorities_def
  get_account_base_nonces_def base_seq_num_of_def blocks_since_base_def blk_buffer_new_def cached_nonce_usages_def
  get_account_statuses_def get_block_index_def resolve_miss_def compute_account_base_balances_def
  base_balance_state_def account_balance_state_new_def account_base_balance_def update_account_balance_def
  bt_range_def bt_range_from_def block_validator_new_def policy_validate_system_transactions_def
  get_last_commit_epoch_def validate_system_transactions_input_def generate_system_calls_def snapshot_due_def
  epoch_change_due_def is_boundary_block_def seq_num_rem_def seq_num_sub_def checked_rem_def checked_sub_def
  validate_system_transaction_input_def check_call_payload_def nonce_check_and_update_def try_add_transaction_def
  charge_transaction_def is_possibly_emptying_transaction_def saturating_sub_def

lemmas base_fee_eval = compute_base_fee_def compute_base_fee_math_def cu_mul_def cu_div_def to_checked_i64_def
  ci_sub_def ci_mul_def isqrt.simps saturating_to_checked_u64_def cu_add_def MAX_STEP_SIZE_DENOM_def cu_sub_def
  fake_exponential_def exponential_loop.simps next_trend_def BETA_def ci_neg_def ci_add_def ci_div_def
  next_moment_def u128_checked_def i128_checked_def MIN_BASE_FEE_def MAX_BASE_FEE_def i64_checked_def i64_range_def
  i256_checked_def i256_range_def cast_signed_def cast_unsigned_def signed_divide_int_def

lemma genesis_base_fee: "compute_base_fee 200000000 0 0 0 0 = Some (100000000000, 6400000, 1024000000000000)"
  by (simp add: base_fee_eval u64_max_def u256_max_def wrapping_mul_def Let_def)

definition example_root :: root_info where
  "example_root = \<lparr>ri_round = 0, ri_seq_num = 0, ri_epoch = 1, ri_block_id = 0, ri_timestamp_ns = 0\<rparr>"

lemma example_coherent:
  "eth_check_coherency example_policy_env (eth_block_policy_new 0 3) example_evb [] example_root = Some (Inr ())"
  by (simp add: coherency_eval eth_validate_eval example_eth_defs genesis_base_fee cast_unsigned_def example_root_def)

section \<open>Properties\<close>

text \<open>C15: The summaries a node keeps of a block it found coherent do to every account exactly what the
  transactions of the block did when they were checked one by one.  For each account that was looked
  up, applying the block's nonce usage to the nonce before the block gives the nonce after its last
  transaction.  For each balance, charging the block's fees in one step succeeds and gives the state
  after its last transaction, up to the latest transaction of a delegated account, which no rule reads.
  So a node that accepts a block can never reject its descendants because of the block's own fees.\<close>

theorem coherent_block_summaries_replay:
  assumes "eth_validate (pe_ops E) h body pk (pe_config E) = Some (Inr block)"
    and "eth_check_coherency E P block ext root = Some (Inr ())" and "0 < pol_execution_delay P"
  defines "V \<equiv> block_validator_new (eh_seq_num h) (pol_execution_delay P) (eh_base_fee h)
    (get_chain_revision (pe_config E) (eh_block_round h))"
  shows "\<exists>nonces balances nonces' balances'.
    get_account_base_nonces E P (eh_seq_num h) ext
      (pol_iter E (extract_signers (validated_txns block) (system_txns block))) = Some (Inr nonces)
    \<and> compute_account_base_balances E P (eh_seq_num h) (Some ext)
      (pol_iter E (extract_signers (validated_txns block) (system_txns block))) = Some (Inr balances)
    \<and> check_accounts E P block ext = Some (Inr (nonces', balances'))
    \<and> (\<forall>a. bt_get nonces' a = map_option (usage_effect (bt_get (nonce_usages block) a)) (bt_get nonces a))
    \<and> (\<forall>a. case bt_get balances a of
          None \<Rightarrow> bt_get balances' a = None
        | Some s0 \<Rightarrow> \<exists>s. bt_get balances' a = Some s \<and>
            (case bt_get (block_txn_fees block) a of
               None \<Rightarrow> s = s0
             | Some fee \<Rightarrow> \<exists>s'. try_apply_block_fees V s0 fee = Some (Inr s') \<and> bal_eq s' s))"
proof -
  obtain m where h: "evb_header block = h" and m: "system_nonces [] (system_txns block) = Inr m"
    and pr: "process_txns (chain_id (pe_config E)) (eh_base_fee h) (validated_txns block) (m, [])
      = Some (Inr (nonce_usages block, block_txn_fees block))"
    and shape: "\<And>t. t \<in> set (validated_txns block) \<Longrightarrow> txn_shape t"
    using eth_validate_sound[OF assms(1)] by metis
  obtain n' b' where acc: "check_accounts E P block ext = Some (Inr (n', b'))"
    using assms(2) by (auto simp: eth_check_coherency_def Let_def bind_eq_Some_conv try_bind_eq_ok split: if_splits)
  then obtain n b n1 where
    n: "get_account_base_nonces E P (eh_seq_num h) ext
      (pol_iter E (extract_signers (validated_txns block) (system_txns block))) = Some (Inr n)"
    and b: "compute_account_base_balances E P (eh_seq_num h) (Some ext)
      (pol_iter E (extract_signers (validated_txns block) (system_txns block))) = Some (Inr b)"
    and n1: "system_transaction_nonce_check (system_txns block) n = Some (Inr n1)"
    and ck: "check_transactions (chain_id (pe_config E)) V (validated_txns block) (n1, b) = Some (Inr (n', b'))"
    by (auto simp: check_accounts_def Let_def try_bind_eq_ok h V_def)
  have "map_option (usage_effect None) x = x" for x by (cases x) simp_all
  then have "nonces_track n [] n" using base_nonces_wf[OF n] by (simp add: nonces_track_def)
  then have t1: "nonces_track n m n1" by (rule system_nonces_track[OF n1 m])
  have t2: "balances_track V b [] b"
    using base_balances_ok[OF b] by (auto simp: balances_track_def tracks_def split: option.split)
  have fee: "bv_base_fee V = eh_base_fee h" and delay: "0 < bv_execution_delay V"
    using assms(3) by (simp_all add: V_def block_validator_new_def)
  have nt: "nonces_track n (nonce_usages block) n'" and bt: "balances_track V b (block_txn_fees block) b'"
    using block_tracks[OF ck pr[folded fee] t1 t2 _ delay] base_balances_ok[OF b] shape by blast+
  have "case bt_get b a of None \<Rightarrow> bt_get b' a = None
        | Some s0 \<Rightarrow> \<exists>s. bt_get b' a = Some s \<and> (case bt_get (block_txn_fees block) a of None \<Rightarrow> s = s0
             | Some fee \<Rightarrow> \<exists>s'. try_apply_block_fees V s0 fee = Some (Inr s') \<and> bal_eq s' s)" for a
  proof (cases "bt_get b a")
    case (Some s0)
    then obtain s where "bt_get b' a = Some s" "tracks V s0 (bt_get (block_txn_fees block) a) s"
      using balances_track_Some[OF bt] by blast
    then show ?thesis using Some by (cases "bt_get (block_txn_fees block) a") (auto simp: tracks_def)
  qed (simp add: balances_track_None[OF bt])
  moreover have "\<forall>a. bt_get n' a = map_option (usage_effect (bt_get (nonce_usages block) a)) (bt_get n a)"
    using nt by (simp add: nonces_track_def)
  ultimately show ?thesis using n b acc by blast
qed

theorem coherent_block_summaries_replay_witness:
  "\<exists>nonces nonces' balances'.
     check_accounts example_policy_env (eth_block_policy_new 0 3) example_evb [] = Some (Inr (nonces', balances'))
     \<and> get_account_base_nonces example_policy_env (eth_block_policy_new 0 3) 1 []
          (extract_signers (validated_txns example_evb) (system_txns example_evb)) = Some (Inr nonces)
     \<and> bt_get nonces' 8 = map_option (apply_to_account_nonce (Possible [3])) (bt_get nonces 8)"
proof -
  have v: "eth_validate (pe_ops example_policy_env) example_eth_header example_body (Some 4)
      (pe_config example_policy_env) = Some (Inr example_evb)"
    using example_validates by (simp add: example_policy_env_def)
  have d: "0 < pol_execution_delay (eth_block_policy_new 0 3)" by (simp add: eth_block_policy_new_def)
  have it: "pol_iter example_policy_env = (\<lambda>as. as)" by (simp add: example_policy_env_def)
  have s: "eh_seq_num example_eth_header = 1" by (simp add: example_eth_header_def)
  have u: "bt_get (nonce_usages example_evb) 8 = Some (Possible [3])"
    by (simp add: example_evb_def example_usages_def)
  show ?thesis
    using coherent_block_summaries_replay[OF v example_coherent d] unfolding it s
  proof (elim exE conjE)
    fix n b n' b'
    assume n: "get_account_base_nonces example_policy_env (eth_block_policy_new 0 3) 1 []
        (extract_signers (validated_txns example_evb) (system_txns example_evb)) = Some (Inr n)"
      and c: "check_accounts example_policy_env (eth_block_policy_new 0 3) example_evb [] = Some (Inr (n', b'))"
      and f: "\<forall>a. bt_get n' a = map_option (usage_effect (bt_get (nonce_usages example_evb) a)) (bt_get n a)"
    have "bt_get n' 8 = map_option (apply_to_account_nonce (Possible [3])) (bt_get n 8)"
      using f[rule_format, of 8] u by (cases "bt_get n 8") simp_all
    then show ?thesis using n c by blast
  qed
qed

text \<open>C18: The nonce that a transaction of a new block is checked against is the one the account has in the
  executed state at the base block, carried forward through every block since then, in order: through
  the nonces its transactions use and through each authorization that is the next one when its turn
  comes.  The cache that answers without the state backend, and the merged usages, change nothing.\<close>

theorem account_nonces_follow_execution:
  assumes "backend_ok (pe_backend E) acc" and "iter_ok_addr (pol_iter E)"
    and "\<forall>m \<in> set (blocks_since_base P ext (base_seq_num_of P n)). bt_wf m"
    and "get_account_base_nonces E P n ext as = Some (Inr nonces)"
  shows "\<exists>ix. get_block_index E P (Some ext) (base_seq_num_of P n) = Some (Inr ix)
    \<and> (\<forall>a \<in> set as. bt_get nonces a = Some (fold (\<lambda>m. usage_effect (bt_get m a))
        (blocks_since_base P ext (base_seq_num_of P n))
        (state_nonce (acc (ix_block_id ix) (base_seq_num_of P n) (ix_is_finalized ix) a))))
    \<and> (\<forall>a. a \<notin> set as \<longrightarrow> bt_get nonces a = None)"
  using base_nonces_get[OF assms(4,1,2)] assms(3) by metis

theorem account_nonces_follow_execution_witness:
  "\<exists>nonces. get_account_base_nonces example_policy_env (eth_block_policy_new 0 3) 2 [example_evb] [7, 8, 9] = Some (Inr nonces)
     \<and> bt_get nonces 7 = Some 6 \<and> bt_get nonces 8 = Some 4 \<and> bt_get nonces 9 = Some 0"
proof -
  let ?P = "eth_block_policy_new 0 3"
  have be: "backend_ok (pe_backend example_policy_env) (\<lambda>_ _ _. example_account)"
    by (simp add: backend_ok_def example_policy_env_def)
  have it: "iter_ok_addr (pol_iter example_policy_env)" by (simp add: iter_ok_addr_def example_policy_env_def)
  have bs: "blocks_since_base ?P [example_evb] (base_seq_num_of ?P 2) = [example_usages]"
    by (simp add: blocks_since_base_def base_seq_num_of_def eth_block_policy_new_def blk_buffer_new_def
        evb_seq_num_def example_evb_def example_eth_header_def)
  have wf: "\<forall>m \<in> set (blocks_since_base ?P [example_evb] (base_seq_num_of ?P 2)). bt_wf m"
    unfolding bs by (simp add: example_usages_def bt_wf_def SYSTEM_SENDER_ETH_ADDRESS_def)
  obtain nonces where n: "get_account_base_nonces example_policy_env ?P 2 [example_evb] [7, 8, 9] = Some (Inr nonces)"
    by (simp add: coherency_eval eth_validate_eval example_eth_defs)
  show ?thesis
    using account_nonces_follow_execution[OF be it wf n] n unfolding bs
    by (auto simp: state_nonce_def example_account_def example_usages_def usage_effect_def wrapping_add_def u64_max_def
        SYSTEM_SENDER_ETH_ADDRESS_def)
qed

end
