(* ===== verification/Replay_Filter.thy ===== *)
theory Replay_Filter
  imports Prelude "HOL-Library.Word"
begin

unbundle bit_operations_syntax

text \<open>
  The sliding window that rejects replayed packets of an authenticated session, from
  \<^verbatim>\<open>monad-wireauth/src/session/replay_filter.rs\<close>.

  The bitmap is a list of 64 bit words used as a ring: the bit of a counter is its remainder modulo
  the number of bits.  Counters are \<^verbatim>\<open>u64\<close>.  The abstract filter is the set of recorded counters
  together with the next one; the refinement relates a counter of the window to its bit.
\<close>

section \<open>The filter\<close>

definition REPLAY_WINDOW_SIZE :: nat where
  "REPLAY_WINDOW_SIZE = 128"

definition REPLAY_WINDOW_BITS :: nat where
  "REPLAY_WINDOW_BITS = REPLAY_WINDOW_SIZE * 64"

record replay_filter =
  rf_next :: u64
  rf_bitmap :: "64 word list"

datatype nonce_error = NonceOutsideWindow u64 u64 | NonceDuplicate u64

definition filter_new :: replay_filter where
  "filter_new = \<lparr>rf_next = 0, rf_bitmap = replicate REPLAY_WINDOW_SIZE 0\<rparr>"

definition word_index :: "u64 \<Rightarrow> nat" where
  "word_index counter = (counter mod REPLAY_WINDOW_BITS) div 64"

definition bit_index :: "u64 \<Rightarrow> nat" where
  "bit_index counter = (counter mod REPLAY_WINDOW_BITS) mod 64"

definition filter_is_set :: "replay_filter \<Rightarrow> u64 \<Rightarrow> bool" where
  "filter_is_set f counter \<longleftrightarrow> drop_bit (bit_index counter) (rf_bitmap f ! word_index counter) AND 1 = 1"

definition filter_set :: "u64 \<Rightarrow> replay_filter \<Rightarrow> replay_filter" where
  "filter_set counter f =
     f\<lparr>rf_bitmap := (rf_bitmap f)[word_index counter :=
         (rf_bitmap f ! word_index counter) OR push_bit (bit_index counter) 1]\<rparr>"

definition filter_clear :: "u64 \<Rightarrow> replay_filter \<Rightarrow> replay_filter" where
  "filter_clear counter f =
     f\<lparr>rf_bitmap := (rf_bitmap f)[word_index counter :=
         (rf_bitmap f ! word_index counter) AND NOT (push_bit (bit_index counter) 1)]\<rparr>"

definition filter_check :: "replay_filter \<Rightarrow> u64 \<Rightarrow> nonce_error + unit" where
  "filter_check f counter =
     (if counter \<ge> rf_next f then Inr ()
      else if saturating_add u64_max counter REPLAY_WINDOW_BITS \<le> rf_next f
        then Inl (NonceOutsideWindow counter (rf_next f))
      else if filter_is_set f counter then Inl (NonceDuplicate counter)
      else Inr ())"

definition filter_update :: "u64 \<Rightarrow> replay_filter \<Rightarrow> replay_filter" where
  "filter_update counter f =
     filter_set counter
       (if counter \<ge> rf_next f then
          let gap = saturating_sub counter (rf_next f);
              f = (if gap \<ge> REPLAY_WINDOW_BITS then f\<lparr>rf_bitmap := replicate REPLAY_WINDOW_SIZE 0\<rparr>
                   else fold filter_clear [rf_next f..<counter] f)
          in f\<lparr>rf_next := saturating_add u64_max counter 1\<rparr>
        else f)"

section \<open>The ring of bits\<close>

definition ring_bit :: "replay_filter \<Rightarrow> nat \<Rightarrow> bool" where
  "ring_bit f i = bit (rf_bitmap f ! (i div 64)) (i mod 64)"

abbreviation slot :: "u64 \<Rightarrow> nat" where
  "slot counter \<equiv> counter mod REPLAY_WINDOW_BITS"

lemma window_bits [simp]: "REPLAY_WINDOW_BITS = 8192" "REPLAY_WINDOW_SIZE = 128"
  by (simp_all add: REPLAY_WINDOW_BITS_def REPLAY_WINDOW_SIZE_def)

lemma word_index_less [simp]: "word_index c < 128"
  by (simp add: word_index_def less_mult_imp_div_less)

lemma bit_index_less [simp]: "bit_index c < 64"
  by (simp add: bit_index_def)

lemma is_set_ring: "filter_is_set f c = ring_bit f (slot c)"
proof -
  have "(drop_bit n w AND 1 = (1 :: 64 word)) = bit w n" for w :: "64 word" and n
    by (simp add: and_one_eq odd_iff_mod_2_eq_one[symmetric] bit_iff_odd_drop_bit)
  then show ?thesis by (simp add: filter_is_set_def ring_bit_def word_index_def bit_index_def)
qed

lemma slot_eq: "i < 8192 \<Longrightarrow> (i div 64 = word_index c \<and> i mod 64 = bit_index c) = (i = slot c)"
  unfolding word_index_def bit_index_def window_bits by (metis mult_div_mod_eq)

lemma ring_bit_set:
  assumes "length (rf_bitmap f) = 128" and "i < 8192"
  shows "ring_bit (filter_set c f) i = (i = slot c \<or> ring_bit f i)"
proof -
  have "i div 64 < 128" using assms(2) by (simp add: less_mult_imp_div_less)
  moreover have "i mod 64 < 64" by simp
  ultimately show ?thesis
    using slot_eq[OF assms(2), of c] assms(1)
    by (auto simp: ring_bit_def filter_set_def nth_list_update bit_simps)
qed

lemma ring_bit_clear:
  assumes "length (rf_bitmap f) = 128" and "i < 8192"
  shows "ring_bit (filter_clear c f) i = (i \<noteq> slot c \<and> ring_bit f i)"
proof -
  have "i div 64 < 128" using assms(2) by (simp add: less_mult_imp_div_less)
  moreover have "i mod 64 < 64" by simp
  ultimately show ?thesis
    using slot_eq[OF assms(2), of c] assms(1)
    by (auto simp: ring_bit_def filter_clear_def nth_list_update bit_simps)
qed

lemma filter_ops_keep [simp]:
  "length (rf_bitmap (filter_set c f)) = length (rf_bitmap f)" "rf_next (filter_set c f) = rf_next f"
  "length (rf_bitmap (filter_clear c f)) = length (rf_bitmap f)" "rf_next (filter_clear c f) = rf_next f"
  by (simp_all add: filter_set_def filter_clear_def)

lemma clear_range:
  assumes "length (rf_bitmap f) = 128"
  shows "length (rf_bitmap (fold filter_clear cs f)) = 128 \<and> rf_next (fold filter_clear cs f) = rf_next f
    \<and> (\<forall>i < 8192. ring_bit (fold filter_clear cs f) i = (i \<notin> slot ` set cs \<and> ring_bit f i))"
  using assms
proof (induction cs arbitrary: f)
  case (Cons c cs)
  have "length (rf_bitmap (filter_clear c f)) = 128" using Cons.prems by simp
  from Cons.IH[OF this] show ?case using ring_bit_clear[OF Cons.prems, of _ c] by auto
qed simp

section \<open>Refinement to a set of counters\<close>

text \<open>The recorded counters, as the filter represents them: all below the next counter, up to the
  last counter at which the next one saturates, and within the window exactly the counters whose bit
  is set.\<close>

definition filter_rel :: "replay_filter \<Rightarrow> u64 set \<Rightarrow> bool" where
  "filter_rel f seen \<longleftrightarrow> length (rf_bitmap f) = 128 \<and> rf_next f \<le> u64_max
     \<and> (\<forall>c \<in> seen. c < rf_next f \<or> c = u64_max)
     \<and> (\<forall>c < rf_next f. rf_next f < c + 8192 \<longrightarrow> ring_bit f (slot c) = (c \<in> seen))"

lemma filter_rel_new: "filter_rel filter_new {}"
  by (simp add: filter_rel_def filter_new_def)

lemma filter_relD:
  assumes "filter_rel f seen"
  shows "length (rf_bitmap f) = 128" "rf_next f \<le> u64_max"
    "c \<in> seen \<Longrightarrow> c < u64_max \<Longrightarrow> c < rf_next f"
    "c < rf_next f \<Longrightarrow> rf_next f < c + 8192 \<Longrightarrow> ring_bit f (slot c) = (c \<in> seen)"
  using assms by (auto simp: filter_rel_def)

text \<open>The window holds no two counters with the same slot.\<close>

lemma slot_inj:
  assumes "slot a = slot b" and "a < b + 8192" and "b < a + 8192"
  shows "a = b"
proof -
  have "a div 8192 = b div 8192 \<or> a div 8192 = b div 8192 + 1 \<or> b div 8192 = a div 8192 + 1"
    using assms(2,3) by linarith
  then show ?thesis
    using assms mult_div_mod_eq[of 8192 a] mult_div_mod_eq[of 8192 b] unfolding window_bits
    by (elim disjE) linarith+
qed

lemma filter_check_accepts:
  assumes "filter_rel f seen"
  shows "filter_check f c = Inr () \<longleftrightarrow>
    rf_next f \<le> c \<or> (saturating_add u64_max c 8192 > rf_next f \<and> c \<notin> seen)"
  using filter_relD(4)[OF assms, of c]
  by (auto simp: filter_check_def is_set_ring saturating_add_def)

lemma filter_check_spec:
  assumes "filter_rel f seen" and "rf_next f < u64_max"
  shows "filter_check f c =
    (if rf_next f \<le> c then Inr ()
     else if c + 8192 \<le> rf_next f then Inl (NonceOutsideWindow c (rf_next f))
     else if c \<in> seen then Inl (NonceDuplicate c) else Inr ())"
  using filter_relD(4)[OF assms(1), of c] assms(2)
  by (auto simp: filter_check_def is_set_ring saturating_add_def)

lemma update_advance:
  assumes "length (rf_bitmap f) = 128" and "rf_next f \<le> c"
  shows "rf_next (filter_update c f) = min u64_max (c + 1)"
    and "length (rf_bitmap (filter_update c f)) = 128"
    and "i < 8192 \<Longrightarrow> ring_bit (filter_update c f) i =
      (i = slot c \<or> (c < rf_next f + 8192 \<and> i \<notin> slot ` {rf_next f..<c} \<and> ring_bit f i))"
proof -
  define g where "g = (if c - rf_next f \<ge> 8192 then f\<lparr>rf_bitmap := replicate 128 0\<rparr>
    else fold filter_clear [rf_next f..<c] f)"
  let ?h = "g\<lparr>rf_next := min u64_max (c + 1)\<rparr>"
  have u: "filter_update c f = filter_set c ?h"
    using assms(2) by (simp add: filter_update_def g_def saturating_sub_def saturating_add_def Let_def)
  have g: "length (rf_bitmap g) = 128" "i < 8192 \<Longrightarrow> ring_bit g i =
      (c < rf_next f + 8192 \<and> i \<notin> slot ` {rf_next f..<c} \<and> ring_bit f i)" for i
    using clear_range[OF assms(1), of "[rf_next f..<c]"] assms(2)
    by (auto simp: g_def ring_bit_def less_mult_imp_div_less)
  have h: "length (rf_bitmap ?h) = 128" "ring_bit ?h i = ring_bit g i" for i
    using g(1) by (simp_all add: ring_bit_def)
  show "rf_next (filter_update c f) = min u64_max (c + 1)" unfolding u by simp
  show "length (rf_bitmap (filter_update c f)) = 128" unfolding u using h by simp
  show "i < 8192 \<Longrightarrow> ring_bit (filter_update c f) i =
      (i = slot c \<or> (c < rf_next f + 8192 \<and> i \<notin> slot ` {rf_next f..<c} \<and> ring_bit f i))"
    unfolding u using ring_bit_set[OF h(1), of i c] h(2) g(2) by simp
qed

lemma filter_update_advances:
  assumes r: "filter_rel f seen" and c: "rf_next f \<le> c" "c \<le> u64_max"
  shows "filter_rel (filter_update c f) (insert c seen)"
proof -
  note l = filter_relD(1)[OF r]
  note u = update_advance[OF l c(1)]
  have "ring_bit (filter_update c f) (slot d) = (d \<in> insert c seen)"
    if d: "d < min u64_max (c + 1)" "min u64_max (c + 1) < d + 8192" for d
  proof (cases "d = c")
    case False
    with d c(2) have lt: "d < c" "c < d + 8192" by (auto simp: min_def split: if_splits)
    have nc: "slot d \<noteq> slot c" using slot_inj[of d c] lt False by auto
    show ?thesis
    proof (cases "rf_next f \<le> d")
      case True
      then have "slot d \<in> slot ` {rf_next f..<c}" using lt by auto
      moreover have "d \<notin> seen" using filter_relD(3)[OF r, of d] True d by auto
      ultimately show ?thesis using u(3)[of "slot d"] nc False by simp
    next
      case below: False
      have "slot d \<notin> slot ` {rf_next f..<c}"
        using slot_inj[of d] below lt by fastforce
      then show ?thesis
        using u(3)[of "slot d"] nc False filter_relD(4)[OF r, of d] below lt c(1) by simp
    qed
  qed (use u(3) in simp)
  moreover have "d < min u64_max (c + 1) \<or> d = u64_max" if "d \<in> insert c seen" for d
    using that filter_relD(3)[OF r, of d] r c by (auto simp: filter_rel_def)
  ultimately show ?thesis using u(1,2) by (simp add: filter_rel_def)
qed

lemma filter_update_within:
  assumes r: "filter_rel f seen" and c: "c < rf_next f" "rf_next f < c + 8192"
  shows "filter_rel (filter_update c f) (insert c seen)"
proof -
  note l = filter_relD(1)[OF r]
  have u: "filter_update c f = filter_set c f" using c(1) by (simp add: filter_update_def)
  have "ring_bit (filter_set c f) (slot d) = (d \<in> insert c seen)"
    if d: "d < rf_next f" "rf_next f < d + 8192" for d
    using ring_bit_set[OF l, of "slot d" c] slot_inj[of d c] filter_relD(4)[OF r, of d] c d by auto
  then show ?thesis using r c(1) by (auto simp: filter_rel_def u)
qed

theorem filter_update_refines:
  assumes "filter_rel f seen" and "filter_check f c = Inr ()" and "c \<le> u64_max"
  shows "filter_rel (filter_update c f) (insert c seen)"
proof (cases "rf_next f \<le> c")
  case True
  then show ?thesis using filter_update_advances assms by blast
next
  case False
  then have "rf_next f < c + 8192"
    using assms(2) filter_check_accepts[OF assms(1), of c] by (auto simp: saturating_add_def)
  then show ?thesis using filter_update_within assms(1) False by simp
qed

lemma filter_rejects_recorded:
  assumes "filter_rel f seen" and "c \<in> seen" and "c < u64_max"
  shows "filter_check f c \<noteq> Inr ()"
  using filter_check_accepts[OF assms(1), of c] filter_relD(3)[OF assms] assms(2) by auto

text \<open>At the last counter the filter accepts a replay: the next counter saturates there.\<close>

lemma last_counter_replayed:
  assumes "filter_rel f seen"
  shows "filter_check (filter_update u64_max f) u64_max = Inr ()"
  using update_advance(1)[OF filter_relD(1,2)[OF assms]] by (simp add: filter_check_def)

end
