(* ===== verification/Wire_Session.thy ===== *)
theory Wire_Session
  imports Replay_Filter
begin

text \<open>
  The sessions of the authenticated UDP transport, from \<^verbatim>\<open>monad-wireauth/src/session/\<close>: the state and
  timers shared by all sessions (\<^verbatim>\<open>common.rs\<close>), the established transport with its encryption,
  decryption and timers (\<^verbatim>\<open>transport.rs\<close>), and what the initiator and the responder do around the
  handshake (\<^verbatim>\<open>initiator.rs\<close>, \<^verbatim>\<open>responder.rs\<close>).

  The cipher is the package \<^verbatim>\<open>aegis\<close>: its two functions are the record \<open>aegis\<close>.  The handshake itself is
  not modelled: a validated response or initiation is what the handshake leaves, the keys and the index
  of the peer.  Times are naturals in nanoseconds, and adding two of them panics beyond the largest
  \<^verbatim>\<open>Duration\<close>.  Random numbers come from a generator \<open>next_u64\<close>, threaded through.

  The lemmas show that the deadline a session reports is the earliest of its timers and is always there
  when the code expects it, that a tick that does not end the session leaves only timers in the future,
  that nonces are not reused, and that decryption refines a window over the set of accepted counters.
\<close>

section \<open>Time and randomness\<close>

type_synonym octets = "8 word list"
type_synonym duration = nat

definition duration_max :: duration where
  "duration_max = u64_max * 10 ^ 9 + 999999999"

definition dur_add :: "duration \<Rightarrow> duration \<Rightarrow> duration option" where
  "dur_add a b = checked_add duration_max a b"

definition add_jitter :: "('g \<Rightarrow> u64 \<times> 'g) \<Rightarrow> duration \<Rightarrow> duration \<Rightarrow> 'g \<Rightarrow> (duration \<times> 'g) option" where
  "add_jitter next_u64 base_dur jitter g =
     (let jitter_millis = (jitter div 10 ^ 6) mod 2 ^ 64;
          (x, g) = next_u64 g
      in do {
        random_jitter \<leftarrow> checked_rem x (wrapping_add u64_max jitter_millis 1);
        d \<leftarrow> dur_add base_dur (random_jitter * 10 ^ 6);
        Some (d, g)
      })"

section \<open>The state of a session\<close>

definition RETRY_ALWAYS :: u64 where
  "RETRY_ALWAYS = u64_max"

record session_config =
  sc_session_timeout :: duration
  sc_session_timeout_jitter :: duration
  sc_keepalive_interval :: duration
  sc_keepalive_jitter :: duration
  sc_rekey_interval :: duration
  sc_rekey_jitter :: duration
  sc_max_session_duration :: duration
  sc_gc_idle_timeout :: duration

record ('a, 'p) session_state =
  keepalive_deadline :: "duration option"
  rekey_deadline :: "duration option"
  session_timeout_deadline :: "duration option"
  max_session_duration_deadline :: "duration option"
  gc_deadline :: "duration option"
  stored_cookie :: "octets option"
  last_handshake_mac1 :: "octets option"
  retry_attempts :: u64
  initiator_timestamp :: "octets option"
  remote_addr :: 'a
  remote_public_key :: 'p
  local_index :: nat
  created :: duration
  is_initiator :: bool

datatype ('a, 'p) terminated_event = TerminatedEvent 'p 'a

datatype ('a, 'p) rekey_event = RekeyEvent 'p 'a u64 "octets option"

record renewed_timer =
  rt_previous :: "duration option"
  rt_current :: duration

definition session_state_new ::
  "'a \<Rightarrow> 'p \<Rightarrow> nat \<Rightarrow> duration \<Rightarrow> u64 \<Rightarrow> octets option \<Rightarrow> bool \<Rightarrow> ('a, 'p) session_state" where
  "session_state_new addr pk idx created_at attempts ts initiator =
     \<lparr>keepalive_deadline = None, rekey_deadline = None, session_timeout_deadline = None,
      max_session_duration_deadline = None, gc_deadline = None, stored_cookie = None,
      last_handshake_mac1 = None, retry_attempts = attempts, initiator_timestamp = ts, remote_addr = addr,
      remote_public_key = pk, local_index = idx, created = created_at, is_initiator = initiator\<rparr>"

definition reset_keepalive ::
  "duration \<Rightarrow> duration \<Rightarrow> ('a, 'p) session_state \<Rightarrow> (renewed_timer \<times> ('a, 'p) session_state) option" where
  "reset_keepalive now timer s = do {
     current \<leftarrow> dur_add now timer;
     Some (\<lparr>rt_previous = keepalive_deadline s, rt_current = current\<rparr>, s\<lparr>keepalive_deadline := Some current\<rparr>)
   }"

definition reset_rekey :: "duration \<Rightarrow> duration \<Rightarrow> ('a, 'p) session_state \<Rightarrow> ('a, 'p) session_state option" where
  "reset_rekey now timer s = do { t \<leftarrow> dur_add now timer; Some (s\<lparr>rekey_deadline := Some t\<rparr>) }"

definition reset_session_timeout ::
  "duration \<Rightarrow> duration \<Rightarrow> ('a, 'p) session_state \<Rightarrow> (renewed_timer \<times> ('a, 'p) session_state) option" where
  "reset_session_timeout now timer s = do {
     current \<leftarrow> dur_add now timer;
     Some (\<lparr>rt_previous = session_timeout_deadline s, rt_current = current\<rparr>,
           s\<lparr>session_timeout_deadline := Some current\<rparr>)
   }"

definition clear_keepalive :: "('a, 'p) session_state \<Rightarrow> ('a, 'p) session_state" where
  "clear_keepalive s = s\<lparr>keepalive_deadline := None\<rparr>"

definition clear_rekey :: "('a, 'p) session_state \<Rightarrow> ('a, 'p) session_state" where
  "clear_rekey s = s\<lparr>rekey_deadline := None\<rparr>"

definition clear_session_timeout :: "('a, 'p) session_state \<Rightarrow> ('a, 'p) session_state" where
  "clear_session_timeout s = s\<lparr>session_timeout_deadline := None\<rparr>"

definition set_max_session_duration ::
  "duration \<Rightarrow> duration \<Rightarrow> ('a, 'p) session_state \<Rightarrow> ('a, 'p) session_state option" where
  "set_max_session_duration now timer s =
     do { t \<leftarrow> dur_add now timer; Some (s\<lparr>max_session_duration_deadline := Some t\<rparr>) }"

definition clear_max_session_duration :: "('a, 'p) session_state \<Rightarrow> ('a, 'p) session_state" where
  "clear_max_session_duration s = s\<lparr>max_session_duration_deadline := None\<rparr>"

definition reset_gc_deadline ::
  "duration \<Rightarrow> duration \<Rightarrow> ('a, 'p) session_state \<Rightarrow> ('a, 'p) session_state option" where
  "reset_gc_deadline now timer s = do { t \<leftarrow> dur_add now timer; Some (s\<lparr>gc_deadline := Some t\<rparr>) }"

definition clear_gc_deadline :: "('a, 'p) session_state \<Rightarrow> ('a, 'p) session_state" where
  "clear_gc_deadline s = s\<lparr>gc_deadline := None\<rparr>"

definition timers :: "('a, 'p) session_state \<Rightarrow> duration list" where
  "timers s = List.map_filter (\<lambda>t. t)
     [keepalive_deadline s, rekey_deadline s, session_timeout_deadline s, max_session_duration_deadline s, gc_deadline s]"

definition get_next_deadline :: "('a, 'p) session_state \<Rightarrow> duration option" where
  "get_next_deadline s = (case timers s of [] \<Rightarrow> None | t # ts \<Rightarrow> Some (fold min ts t))"

definition handle_session_timeout ::
  "('a, 'p) session_state \<Rightarrow> (('a, 'p) terminated_event \<times> ('a, 'p) rekey_event option) \<times> ('a, 'p) session_state" where
  "handle_session_timeout s =
     (let terminated = TerminatedEvent (remote_public_key s) (remote_addr s)
      in if \<not> is_initiator s then ((terminated, None), s)
         else
           let should_retry = (retry_attempts s > 0 \<or> retry_attempts s = RETRY_ALWAYS);
               s = (if retry_attempts s > 0 \<and> retry_attempts s \<noteq> RETRY_ALWAYS
                    then s\<lparr>retry_attempts := retry_attempts s - 1\<rparr> else s)
           in ((terminated,
                if should_retry
                then Some (RekeyEvent (remote_public_key s) (remote_addr s) (retry_attempts s) (stored_cookie s))
                else None), s))"

definition expired :: "duration option \<Rightarrow> duration \<Rightarrow> bool" where
  "expired t now \<longleftrightarrow> (case t of None \<Rightarrow> False | Some d \<Rightarrow> d \<le> now)"

section \<open>The cipher\<close>

record aegis =
  aegis_encrypt :: "octets \<Rightarrow> octets \<Rightarrow> octets \<Rightarrow> octets \<Rightarrow> octets \<times> octets"
  aegis_decrypt :: "octets \<Rightarrow> octets \<Rightarrow> octets \<Rightarrow> octets \<Rightarrow> octets \<Rightarrow> octets option"

definition cipher_nonce :: "u64 \<Rightarrow> octets" where
  "cipher_nonce n = map (\<lambda>i. word_of_nat (n div 256 ^ i)) [0..<8] @ replicate 8 0"

definition encrypt_in_place :: "aegis \<Rightarrow> octets \<Rightarrow> octets \<Rightarrow> octets \<Rightarrow> octets \<Rightarrow> octets \<times> octets" where
  "encrypt_in_place a key nonce data ad = aegis_encrypt a key nonce data ad"

definition decrypt_in_place :: "aegis \<Rightarrow> octets \<Rightarrow> octets \<Rightarrow> octets \<Rightarrow> octets \<Rightarrow> octets \<Rightarrow> octets option" where
  "decrypt_in_place a key nonce data tag ad = aegis_decrypt a key nonce data tag ad"

section \<open>The transport\<close>

datatype session_error = NonceError nonce_error | InvalidMac

record data_packet_header =
  dh_receiver_index :: nat
  dh_nonce :: u64
  dh_tag :: octets

type_synonym data_packet = "data_packet_header \<times> octets"

record ('a, 'p) transport_state =
  remote_index :: nat
  send_key :: octets
  send_nonce :: u64
  recv_key :: octets
  replay_filter :: replay_filter
  common :: "('a, 'p) session_state"

definition transport_new :: "nat \<Rightarrow> octets \<Rightarrow> octets \<Rightarrow> ('a, 'p) session_state \<Rightarrow> ('a, 'p) transport_state" where
  "transport_new idx sk rk s =
     \<lparr>remote_index = idx, send_key = sk, send_nonce = 0, recv_key = rk, replay_filter = filter_new, common = s\<rparr>"

definition transport_encrypt ::
  "aegis \<Rightarrow> ('g \<Rightarrow> u64 \<times> 'g) \<Rightarrow> session_config \<Rightarrow> duration \<Rightarrow> octets \<Rightarrow> 'g \<Rightarrow> ('a, 'p) transport_state
     \<Rightarrow> ((data_packet \<times> renewed_timer) \<times> 'g \<times> ('a, 'p) transport_state) option" where
  "transport_encrypt a next_u64 cfg now plaintext g t =
     (let (data, tag) = encrypt_in_place a (send_key t) (cipher_nonce (send_nonce t)) plaintext [];
          header = \<lparr>dh_receiver_index = remote_index t, dh_nonce = send_nonce t, dh_tag = tag\<rparr>;
          t = t\<lparr>send_nonce := wrapping_add u64_max (send_nonce t) 1\<rparr>
      in do {
        s \<leftarrow> (if plaintext \<noteq> [] then reset_gc_deadline now (sc_gc_idle_timeout cfg) (common t) else Some (common t));
        (jit, g) \<leftarrow> add_jitter next_u64 (sc_keepalive_interval cfg) (sc_keepalive_jitter cfg) g;
        (keepalive_timer, s) \<leftarrow> reset_keepalive now jit s;
        next_deadline \<leftarrow> get_next_deadline s;
        Some (((header, data), \<lparr>rt_previous = rt_previous keepalive_timer, rt_current = next_deadline\<rparr>),
              g, t\<lparr>common := s\<rparr>)
      })"

definition transport_decrypt ::
  "aegis \<Rightarrow> session_config \<Rightarrow> duration \<Rightarrow> data_packet \<Rightarrow> ('a, 'p) transport_state
     \<Rightarrow> ((session_error + renewed_timer \<times> octets) \<times> ('a, 'p) transport_state) option" where
  "transport_decrypt a cfg now packet t =
     (let counter = dh_nonce (fst packet)
      in case filter_check (replay_filter t) counter of
           Inl e \<Rightarrow> Some (Inl (NonceError e), t)
         | Inr _ \<Rightarrow>
             (case decrypt_in_place a (recv_key t) (cipher_nonce counter) (snd packet) (dh_tag (fst packet)) [] of
                None \<Rightarrow> Some (Inl InvalidMac, t)
              | Some plaintext \<Rightarrow> do {
                  s \<leftarrow> (if plaintext \<noteq> [] then reset_gc_deadline now (sc_gc_idle_timeout cfg) (common t)
                        else Some (common t));
                  (session_timer, s) \<leftarrow> reset_session_timeout now (sc_session_timeout cfg) s;
                  next_deadline \<leftarrow> get_next_deadline s;
                  Some (Inr (\<lparr>rt_previous = rt_previous session_timer, rt_current = next_deadline\<rparr>, plaintext),
                        t\<lparr>replay_filter := filter_update counter (replay_filter t), common := s\<rparr>)
                }))"

record ('a, 'p) tick_result =
  tr_timer :: "duration option"
  tr_message :: "('a \<times> data_packet) option"
  tr_rekey :: "('a, 'p) rekey_event option"
  tr_terminated :: "('a, 'p) terminated_event option"

definition transport_tick ::
  "aegis \<Rightarrow> ('g \<Rightarrow> u64 \<times> 'g) \<Rightarrow> session_config \<Rightarrow> duration \<Rightarrow> 'g \<Rightarrow> ('a, 'p) transport_state
     \<Rightarrow> (('a, 'p) tick_result \<times> 'g \<times> ('a, 'p) transport_state) option" where
  "transport_tick a next_u64 cfg now g t =
     (let s = common t
      in if expired (max_session_duration_deadline s) now then
           let ((terminated, _), s) = handle_session_timeout (clear_max_session_duration s)
           in Some (\<lparr>tr_timer = None, tr_message = None, tr_rekey = None, tr_terminated = Some terminated\<rparr>,
                    g, t\<lparr>common := s\<rparr>)
         else if expired (session_timeout_deadline s) now then
           let ((terminated, rekey), s) = handle_session_timeout (clear_session_timeout s)
           in Some (\<lparr>tr_timer = None, tr_message = None, tr_rekey = rekey, tr_terminated = Some terminated\<rparr>,
                    g, t\<lparr>common := s\<rparr>)
         else if expired (gc_deadline s) now then
           Some (\<lparr>tr_timer = None, tr_message = None, tr_rekey = None,
                  tr_terminated = Some (TerminatedEvent (remote_public_key s) (remote_addr s))\<rparr>,
                 g, t\<lparr>common := clear_gc_deadline s\<rparr>)
         else do {
           (msg, g, t) \<leftarrow>
             (if expired (keepalive_deadline s) now then do {
                ((packet, _), g, t) \<leftarrow> transport_encrypt a next_u64 cfg now [] g (t\<lparr>common := clear_keepalive s\<rparr>);
                Some (Some (remote_addr (common t), packet), g, t)
              } else Some (None, g, t));
           let s = common t;
               due = expired (rekey_deadline s) now;
               s = (if due then clear_rekey s else s);
               rekey = (if due then Some (RekeyEvent (remote_public_key s) (remote_addr s) (retry_attempts s) (stored_cookie s))
                        else None)
           in Some (\<lparr>tr_timer = get_next_deadline s, tr_message = msg, tr_rekey = rekey, tr_terminated = None\<rparr>,
                    g, t\<lparr>common := s\<rparr>)
         })"

section \<open>Around the handshake\<close>

text \<open>What the handshake leaves: the index of the peer and the keys of the two directions.\<close>

record validated_handshake =
  vh_remote_index :: nat
  vh_send_key :: octets
  vh_recv_key :: octets

record ('a, 'p) initiator_state =
  is_common :: "('a, 'p) session_state"
  buffered_messages :: "octets list"
  buffered_bytes :: nat

definition initiator_buffer_message :: "octets \<Rightarrow> ('a, 'p) initiator_state \<Rightarrow> ('a, 'p) initiator_state" where
  "initiator_buffer_message msg s =
     s\<lparr>buffered_bytes := saturating_add u64_max (buffered_bytes s) (length msg),
       buffered_messages := buffered_messages s @ [msg]\<rparr>"

definition messages_to_send :: "octets list \<Rightarrow> octets list" where
  "messages_to_send msgs = (if msgs = [] then [[]] else msgs)"

definition initiator_establish ::
  "('g \<Rightarrow> u64 \<times> 'g) \<Rightarrow> session_config \<Rightarrow> duration \<Rightarrow> validated_handshake \<Rightarrow> 'g \<Rightarrow> ('a, 'p) initiator_state
     \<Rightarrow> ((('a, 'p) transport_state \<times> octets list) \<times> 'g) option" where
  "initiator_establish next_u64 cfg now v g ini = do {
     (jit, g) \<leftarrow> add_jitter next_u64 (sc_session_timeout cfg) (sc_session_timeout_jitter cfg) g;
     (_, s) \<leftarrow> reset_session_timeout now jit (is_common ini);
     (jit, g) \<leftarrow> add_jitter next_u64 (sc_rekey_interval cfg) (sc_rekey_jitter cfg) g;
     s \<leftarrow> reset_rekey now jit s;
     s \<leftarrow> set_max_session_duration now (sc_max_session_duration cfg) s;
     s \<leftarrow> reset_gc_deadline now (sc_gc_idle_timeout cfg) s;
     Some ((transport_new (vh_remote_index v) (vh_send_key v) (vh_recv_key v) s,
            messages_to_send (buffered_messages ini)), g)
   }"

text \<open>The tick of a session that still waits for its peer, the same for initiator and responder.\<close>

definition handshake_tick ::
  "duration \<Rightarrow> ('a, 'p) session_state
     \<Rightarrow> (duration option \<times> ('a, 'p) terminated_event \<times> ('a, 'p) rekey_event option) option \<times> ('a, 'p) session_state" where
  "handshake_tick now s =
     (if \<not> expired (session_timeout_deadline s) now then (None, s)
      else let ((terminated, rekey), s) = handle_session_timeout (clear_session_timeout s)
           in (Some (get_next_deadline s, terminated, rekey), s))"

definition initiator_tick ::
  "duration \<Rightarrow> ('a, 'p) initiator_state
     \<Rightarrow> (duration option \<times> ('a, 'p) terminated_event \<times> ('a, 'p) rekey_event option) option \<times> ('a, 'p) initiator_state" where
  "initiator_tick now ini = (let (r, s) = handshake_tick now (is_common ini) in (r, ini\<lparr>is_common := s\<rparr>))"

definition responder_establish ::
  "('g \<Rightarrow> u64 \<times> 'g) \<Rightarrow> session_config \<Rightarrow> duration \<Rightarrow> 'g \<Rightarrow> ('a, 'p) transport_state
     \<Rightarrow> ((('a, 'p) transport_state \<times> duration) \<times> 'g) option" where
  "responder_establish next_u64 cfg now g t = do {
     (_, s) \<leftarrow> reset_session_timeout now (sc_session_timeout cfg) (common t);
     (jit, g) \<leftarrow> add_jitter next_u64 (sc_keepalive_interval cfg) (sc_keepalive_jitter cfg) g;
     (_, s) \<leftarrow> reset_keepalive now jit s;
     s \<leftarrow> set_max_session_duration now (sc_max_session_duration cfg) s;
     s \<leftarrow> reset_gc_deadline now (sc_gc_idle_timeout cfg) s;
     timer \<leftarrow> get_next_deadline s;
     Some ((t\<lparr>common := s\<rparr>, timer), g)
   }"

definition responder_tick ::
  "duration \<Rightarrow> ('a, 'p) transport_state
     \<Rightarrow> (duration option \<times> ('a, 'p) terminated_event \<times> ('a, 'p) rekey_event option) option \<times> ('a, 'p) transport_state" where
  "responder_tick now t = (let (r, s) = handshake_tick now (common t) in (r, t\<lparr>common := s\<rparr>))"

section \<open>Receiving a sequence of packets\<close>

fun transport_run ::
  "aegis \<Rightarrow> session_config \<Rightarrow> (duration \<times> data_packet) list \<Rightarrow> ('a, 'p) transport_state
     \<Rightarrow> ((session_error + renewed_timer \<times> octets) list \<times> ('a, 'p) transport_state) option" where
  "transport_run a cfg [] t = Some ([], t)"
| "transport_run a cfg ((now, p) # ps) t = do {
     (r, t) \<leftarrow> transport_decrypt a cfg now p t;
     (rs, t) \<leftarrow> transport_run a cfg ps t;
     Some (r # rs, t)
   }"

definition delivered :: "session_error + renewed_timer \<times> octets \<Rightarrow> octets option" where
  "delivered r = (case r of Inl _ \<Rightarrow> None | Inr (_, x) \<Rightarrow> Some x)"

text \<open>The specification: a window over the set of accepted counters, with no bitmap.\<close>

definition window_accepts :: "u64 \<Rightarrow> u64 set \<Rightarrow> u64 \<Rightarrow> bool" where
  "window_accepts nx seen c \<longleftrightarrow> nx \<le> c \<or> (nx < c + REPLAY_WINDOW_BITS \<and> c \<notin> seen)"

fun window_run :: "(data_packet \<Rightarrow> octets option) \<Rightarrow> u64 \<Rightarrow> u64 set \<Rightarrow> data_packet list \<Rightarrow> octets option list" where
  "window_run open_packet nx seen [] = []"
| "window_run open_packet nx seen (p # ps) =
     (let c = dh_nonce (fst p)
      in case open_packet p of
           Some x \<Rightarrow> if window_accepts nx seen c
             then Some x # window_run open_packet (max nx (c + 1)) (insert c seen) ps
             else None # window_run open_packet nx seen ps
         | None \<Rightarrow> None # window_run open_packet nx seen ps)"

definition accepted_counters :: "data_packet list \<Rightarrow> octets option list \<Rightarrow> u64 list" where
  "accepted_counters ps outs = map (\<lambda>(p, _). dh_nonce (fst p)) (filter (\<lambda>(_, r). r \<noteq> None) (zip ps outs))"

text \<open>The packets that were delivered, with their arrival times.\<close>

definition delivered_packets :: "(duration \<times> data_packet) list \<Rightarrow> octets option list \<Rightarrow> (duration \<times> data_packet) list" where
  "delivered_packets ps outs = map fst (filter (\<lambda>(_, r). r \<noteq> None) (zip ps outs))"

section \<open>Deadlines\<close>

lemma fold_min:
  fixes t :: nat
  shows "fold min ts t \<in> set (t # ts) \<and> (\<forall>u \<in> set (t # ts). fold min ts t \<le> u)"
proof (induction ts arbitrary: t)
  case (Cons u ts)
  show ?case using Cons[of "min u t"] by (auto simp: min_def split: if_splits)
qed simp

lemma next_deadline_None: "get_next_deadline s = None \<longleftrightarrow> timers s = []"
  by (simp add: get_next_deadline_def split: list.splits)

lemma next_deadline_earliest:
  "get_next_deadline s = Some d \<Longrightarrow> d \<in> set (timers s) \<and> (\<forall>t \<in> set (timers s). d \<le> t)"
  using fold_min by (auto simp: get_next_deadline_def split: list.splits)

lemma set_timers:
  "t \<in> set (timers s) \<longleftrightarrow> Some t \<in> {keepalive_deadline s, rekey_deadline s, session_timeout_deadline s,
     max_session_duration_deadline s, gc_deadline s}"
  by (auto simp: timers_def map_filter_def)

lemma timers_armed:
  "session_timeout_deadline s = Some x \<Longrightarrow> \<exists>d. get_next_deadline s = Some d"
  "keepalive_deadline s = Some x \<Longrightarrow> \<exists>d. get_next_deadline s = Some d"
  using next_deadline_None[of s] set_timers[of x s] by (cases "get_next_deadline s"; auto)+

section \<open>Decryption\<close>

lemma dur_add_total: "a + b \<le> duration_max \<Longrightarrow> dur_add a b = Some (a + b)"
  by (simp add: dur_add_def checked_add_def)

definition time_ok :: "session_config \<Rightarrow> duration \<Rightarrow> bool" where
  "time_ok cfg now \<longleftrightarrow> now + sc_gc_idle_timeout cfg \<le> duration_max \<and> now + sc_session_timeout cfg \<le> duration_max"

definition open_with :: "aegis \<Rightarrow> octets \<Rightarrow> data_packet \<Rightarrow> octets option" where
  "open_with a key p = decrypt_in_place a key (cipher_nonce (dh_nonce (fst p))) (snd p) (dh_tag (fst p)) []"

lemma transport_decrypt_total:
  assumes "time_ok cfg now"
  shows "\<exists>r t'. transport_decrypt a cfg now p t = Some (r, t') \<and> recv_key t' = recv_key t \<and>
    (if filter_check (replay_filter t) (dh_nonce (fst p)) = Inr () \<and> open_with a (recv_key t) p \<noteq> None
     then delivered r = open_with a (recv_key t) p \<and>
       replay_filter t' = filter_update (dh_nonce (fst p)) (replay_filter t)
     else delivered r = None \<and> t' = t)"
proof (cases "filter_check (replay_filter t) (dh_nonce (fst p))")
  case (Inl e)
  then show ?thesis by (simp add: transport_decrypt_def delivered_def)
next
  case (Inr u)
  show ?thesis
  proof (cases "open_with a (recv_key t) p")
    case None
    then show ?thesis using Inr by (simp add: transport_decrypt_def delivered_def open_with_def)
  next
    case (Some x)
    let ?s = "if x \<noteq> [] then (common t)\<lparr>gc_deadline := Some (now + sc_gc_idle_timeout cfg)\<rparr> else common t"
    let ?s' = "?s\<lparr>session_timeout_deadline := Some (now + sc_session_timeout cfg)\<rparr>"
    obtain d where "get_next_deadline ?s' = Some d" using timers_armed(1)[of ?s'] by auto
    then show ?thesis
      using Some Inr assms
      by (auto simp: transport_decrypt_def open_with_def time_ok_def reset_gc_deadline_def dur_add_total
          reset_session_timeout_def delivered_def)
  qed
qed

lemma transport_decrypt_refines:
  assumes "filter_rel (replay_filter t) seen" and "dh_nonce (fst p) < u64_max - 1"
    and "rf_next (replay_filter t) < u64_max" and "time_ok cfg now"
  shows "\<exists>r t'. transport_decrypt a cfg now p t = Some (r, t') \<and> recv_key t' = recv_key t \<and>
    (if window_accepts (rf_next (replay_filter t)) seen (dh_nonce (fst p)) \<and> open_with a (recv_key t) p \<noteq> None
     then delivered r = open_with a (recv_key t) p \<and> filter_rel (replay_filter t') (insert (dh_nonce (fst p)) seen) \<and>
       rf_next (replay_filter t') = max (rf_next (replay_filter t)) (dh_nonce (fst p) + 1)
     else delivered r = None \<and> t' = t)"
proof -
  let ?c = "dh_nonce (fst p)" and ?f = "replay_filter t"
  have ok: "filter_check ?f ?c = Inr () \<longleftrightarrow> window_accepts (rf_next ?f) seen ?c"
    using filter_check_spec[OF assms(1,3), of ?c] by (auto simp: window_accepts_def)
  have nx: "rf_next (filter_update ?c ?f) = max (rf_next ?f) (?c + 1)"
    using update_advance(1)[OF filter_relD(1)[OF assms(1)], of ?c] assms(2)
    by (cases "rf_next ?f \<le> ?c") (auto simp: filter_update_def)
  show ?thesis
    using transport_decrypt_total[OF assms(4), of a p t] filter_update_refines[OF assms(1), of ?c] assms(2) nx
    unfolding ok[symmetric] by (auto split: if_splits)
qed

lemma window_run_step:
  "window_run f nx seen (p # ps) =
     (if window_accepts nx seen (dh_nonce (fst p)) \<and> f p \<noteq> None
      then f p # window_run f (max nx (dh_nonce (fst p) + 1)) (insert (dh_nonce (fst p)) seen) ps
      else None # window_run f nx seen ps)"
  by (cases "f p") (simp_all add: Let_def)

declare window_run.simps(2) [simp del]

lemma transport_run_refines:
  assumes "filter_rel (replay_filter t) seen" and "rf_next (replay_filter t) < u64_max"
    and "\<forall>(now, p) \<in> set packets. time_ok cfg now \<and> dh_nonce (fst p) < u64_max - 1"
  shows "\<exists>rs t'. transport_run a cfg packets t = Some (rs, t') \<and>
    map delivered rs = window_run (open_with a (recv_key t)) (rf_next (replay_filter t)) seen (map snd packets) \<and>
    transport_run a cfg (delivered_packets packets (map delivered rs)) t = Some (filter (\<lambda>r. delivered r \<noteq> None) rs, t')"
  using assms
proof (induction packets arbitrary: t seen)
  case (Cons x packets)
  obtain now p where x: "x = (now, p)" by (cases x)
  let ?c = "dh_nonce (fst p)"
  have p: "?c < u64_max - 1" "time_ok cfg now" using Cons.prems(3) x by auto
  obtain r t1 where r: "transport_decrypt a cfg now p t = Some (r, t1)" "recv_key t1 = recv_key t"
    "if window_accepts (rf_next (replay_filter t)) seen ?c \<and> open_with a (recv_key t) p \<noteq> None
     then delivered r = open_with a (recv_key t) p \<and> filter_rel (replay_filter t1) (insert ?c seen) \<and>
       rf_next (replay_filter t1) = max (rf_next (replay_filter t)) (?c + 1)
     else delivered r = None \<and> t1 = t"
    using transport_decrypt_refines[OF Cons.prems(1) p(1) Cons.prems(2) p(2)] by blast
  show ?case
  proof (cases "window_accepts (rf_next (replay_filter t)) seen ?c \<and> open_with a (recv_key t) p \<noteq> None")
    case True
    then have n: "filter_rel (replay_filter t1) (insert ?c seen)" "delivered r = open_with a (recv_key t) p"
      "rf_next (replay_filter t1) = max (rf_next (replay_filter t)) (?c + 1)"
      using r(3) by simp_all
    moreover have "rf_next (replay_filter t1) < u64_max" using n(3) Cons.prems(2) p(1) by simp
    ultimately show ?thesis
      using Cons.IH[of t1 "insert ?c seen"] Cons.prems(3) r(1,2) True by (auto simp: x window_run_step delivered_packets_def)
  next
    case False
    then have "t1 = t" "delivered r = None" using r(3) by simp_all
    then show ?thesis
      using Cons.IH[OF Cons.prems(1,2)] Cons.prems(3) r(1) False by (auto simp: x window_run_step delivered_packets_def)
  qed
qed (simp add: delivered_packets_def)

lemma window_run_distinct:
  assumes "\<And>c. c \<in> seen \<Longrightarrow> c < nx"
  shows "distinct (accepted_counters ps (window_run f nx seen ps))
    \<and> set (accepted_counters ps (window_run f nx seen ps)) \<inter> seen = {}"
  using assms
proof (induction ps arbitrary: nx seen)
  case (Cons p ps)
  let ?c = "dh_nonce (fst p)"
  show ?case
  proof (cases "window_accepts nx seen ?c \<and> f p \<noteq> None")
    case True
    then have "?c \<notin> seen" using Cons.prems[of ?c] by (auto simp: window_accepts_def)
    then show ?thesis
      using Cons.IH[of "insert ?c seen" "max nx (?c + 1)"] Cons.prems True
      unfolding window_run_step by (fastforce simp: accepted_counters_def)
  next
    case False
    then show ?thesis
      using Cons.IH[OF Cons.prems] unfolding window_run_step by (simp only: if_False) (simp add: accepted_counters_def)
  qed
qed (simp add: accepted_counters_def)

text \<open>
  C21: An established session that receives packets, whatever their bytes, counters and order, decides each of them
  as a window over the set of accepted counters would: a packet is delivered exactly when it is authentic and
  its counter is new, or at most the window behind the newest and not accepted before; every other packet
  is rejected and leaves no trace: the session answers the delivered packets alone in the same way and ends in
  the very same state.  No counter is accepted twice.  Counters stay below the last two values of their
  type, and adding the idle and session timeouts to the time of a packet does not overflow.
\<close>

theorem session_refines_replay_window:
  assumes "\<forall>(now, p) \<in> set packets. time_ok cfg now \<and> dh_nonce (fst p) < u64_max - 1"
  shows "\<exists>rs t'. transport_run a cfg packets (transport_new idx sk rk s) = Some (rs, t') \<and>
    map delivered rs = window_run (open_with a rk) 0 {} (map snd packets) \<and>
    transport_run a cfg (delivered_packets packets (map delivered rs)) (transport_new idx sk rk s) =
      Some (filter (\<lambda>r. delivered r \<noteq> None) rs, t') \<and>
    distinct (accepted_counters (map snd packets) (map delivered rs))"
proof -
  have "rf_next filter_new < u64_max" by (simp add: filter_new_def u64_max_def)
  then show ?thesis
    using transport_run_refines[of "transport_new idx sk rk s" "{}" packets cfg a] assms filter_rel_new
      window_run_distinct[of "{}" 0 "map snd packets" "open_with a rk"]
    by (auto simp: transport_new_def filter_new_def)
qed

definition example_aegis :: aegis where
  "example_aegis = \<lparr>aegis_encrypt = (\<lambda>k n d ad. (d, n)),
     aegis_decrypt = (\<lambda>k n d tag ad. if tag = n then Some d else None)\<rparr>"

definition example_session_config :: session_config where
  "example_session_config =
     \<lparr>sc_session_timeout = 10 * 10 ^ 9, sc_session_timeout_jitter = 10 ^ 9, sc_keepalive_interval = 3 * 10 ^ 9,
      sc_keepalive_jitter = 3 * 10 ^ 8, sc_rekey_interval = 21600 * 10 ^ 9, sc_rekey_jitter = 60 * 10 ^ 9,
      sc_max_session_duration = 21900 * 10 ^ 9, sc_gc_idle_timeout = 120 * 10 ^ 9\<rparr>"

definition example_packet :: "u64 \<Rightarrow> octets \<Rightarrow> duration \<times> data_packet" where
  "example_packet c x = (0, \<lparr>dh_receiver_index = 0, dh_nonce = c, dh_tag = cipher_nonce c\<rparr>, x)"

definition example_forged :: "u64 \<Rightarrow> octets \<Rightarrow> duration \<times> data_packet" where
  "example_forged c x = (0, \<lparr>dh_receiver_index = 0, dh_nonce = c, dh_tag = []\<rparr>, x)"

lemma example_opens:
  "open_with example_aegis k (snd (example_packet c x)) = Some x" "open_with example_aegis k (snd (example_forged c x)) = None"
  "dh_nonce (fst (snd (example_packet c x))) = c" "dh_nonce (fst (snd (example_forged c x))) = c"
  by (simp_all add: open_with_def decrypt_in_place_def example_aegis_def example_packet_def example_forged_def cipher_nonce_def)

text \<open>Packets out of order, a replay, a forgery, a jump by more than the window, and one behind it.\<close>

theorem session_refines_replay_window_witness:
  "\<exists>rs t'. transport_run example_aegis example_session_config
       [example_packet 2 [5], example_packet 0 [6], example_packet 2 [5], example_forged 1 [7], example_packet 1 [7],
        example_packet 9000 [8], example_packet 700 [9], example_packet 9000 [8]]
       (transport_new 0 [] [] (session_state_new () () 0 0 3 None True)) = Some (rs, t') \<and>
     map delivered rs = [Some [5], Some [6], None, None, Some [7], Some [8], None, None] \<and>
     transport_run example_aegis example_session_config
       [example_packet 2 [5], example_packet 0 [6], example_packet 1 [7], example_packet 9000 [8]]
       (transport_new 0 [] [] (session_state_new () () 0 0 3 None True)) = Some (filter (\<lambda>r. delivered r \<noteq> None) rs, t')"
proof -
  let ?ps = "[example_packet 2 [5], example_packet 0 [6], example_packet 2 [5], example_forged 1 [7], example_packet 1 [7],
        example_packet 9000 [8], example_packet 700 [9], example_packet 9000 [8]]"
  have ok: "\<forall>(now, p) \<in> set ?ps. time_ok example_session_config now \<and> dh_nonce (fst p) < u64_max - 1"
    by (simp add: example_packet_def example_forged_def time_ok_def example_session_config_def duration_max_def u64_max_def)
  have "window_run (open_with example_aegis []) 0 {} (map snd ?ps) =
      [Some [5], Some [6], None, None, Some [7], Some [8], None, None]"
    by (simp add: window_run_step example_opens window_accepts_def)
  then show ?thesis
    using session_refines_replay_window[OF ok, of example_aegis 0 "[]" "[]" "session_state_new () () 0 0 3 None True"]
    by (auto simp: delivered_packets_def)
qed

section \<open>Nonces, packets and timers\<close>

text \<open>Distinct counters give distinct nonces of the cipher.\<close>

lemma cipher_nonce_inj:
  assumes "cipher_nonce m = cipher_nonce n" and "m \<le> u64_max" and "n \<le> u64_max"
  shows "m = n"
proof -
  have b: "(m div 256 ^ i) mod 256 = (n div 256 ^ i) mod 256" if "i < 8" for i
  proof -
    have "(word_of_nat (m div 256 ^ i) :: 8 word) = word_of_nat (n div 256 ^ i)"
      using assms(1) that unfolding cipher_nonce_def by auto
    then have "unat (word_of_nat (m div 256 ^ i) :: 8 word) = unat (word_of_nat (n div 256 ^ i) :: 8 word)" by simp
    then show ?thesis by (simp add: unat_of_nat)
  qed
  have "m mod 256 ^ i = n mod 256 ^ i" if "i \<le> 8" for i
    using that
  proof (induction i)
    case (Suc i)
    have "k mod 256 ^ Suc i = 256 ^ i * (k div 256 ^ i mod 256) + k mod 256 ^ i" for k :: nat
      using mod_mult2_eq[of k "256 ^ i" 256] by (simp add: mult.commute)
    then show ?case using Suc b[of i] by simp
  qed simp
  from this[of 8] show ?thesis using assms(2,3) by (simp add: u64_max_def)
qed

text \<open>The packet that one end encrypts is authentic for the other end, which holds the same key.\<close>

lemma encrypted_packet_opens:
  assumes "transport_encrypt a next_u64 cfg now plaintext g t = Some ((p, timer), g', t')"
    and "\<And>k n d ad. aegis_decrypt a k n (fst (aegis_encrypt a k n d ad)) (snd (aegis_encrypt a k n d ad)) ad = Some d"
  shows "open_with a (send_key t) p = Some plaintext" "dh_nonce (fst p) = send_nonce t"
    "send_nonce t' = wrapping_add u64_max (send_nonce t) 1" "send_key t' = send_key t"
  using assms
  by (auto simp: transport_encrypt_def Let_def split_def bind_eq_Some_conv open_with_def encrypt_in_place_def decrypt_in_place_def)

text \<open>A tick that does not end the session leaves it with timers in the future only.\<close>

lemma encrypt_keeps_timers:
  assumes "transport_encrypt a next_u64 cfg now [] g t = Some (x, g', t')" and "0 < sc_keepalive_interval cfg"
  shows "common t' = (common t)\<lparr>keepalive_deadline := keepalive_deadline (common t')\<rparr>"
    "\<not> expired (keepalive_deadline (common t')) now"
  using assms
  by (auto simp: expired_def transport_encrypt_def Let_def split_def bind_eq_Some_conv reset_keepalive_def add_jitter_def dur_add_def)

lemma tick_leaves_future_timers:
  fixes t :: "('a, 'p) transport_state"
  assumes "transport_tick a next_u64 cfg now g t = Some (r, g', t')" and "tr_terminated r = None"
    and "0 < sc_keepalive_interval cfg"
  shows "tr_timer r = get_next_deadline (common t')" "\<forall>d \<in> set (timers (common t')). now < d"
proof -
  let ?s = "common t"
  have alive: "\<not> expired (max_session_duration_deadline ?s) now" "\<not> expired (session_timeout_deadline ?s) now"
    "\<not> expired (gc_deadline ?s) now"
    using assms(1,2) by (auto simp: transport_tick_def Let_def split_def split: if_splits)
  obtain t1 :: "('a, 'p) transport_state" where t1: "\<not> expired (keepalive_deadline (common t1)) now"
    "common t1 = ?s\<lparr>keepalive_deadline := keepalive_deadline (common t1)\<rparr>"
    and t': "common t' = (if expired (rekey_deadline (common t1)) now then clear_rekey (common t1) else common t1)"
    and r: "tr_timer r = get_next_deadline (common t')"
  proof (cases "expired (keepalive_deadline ?s) now")
    case True
    then obtain x g1 t2 where e: "transport_encrypt a next_u64 cfg now [] g (t\<lparr>common := clear_keepalive ?s\<rparr>) = Some (x, g1, t2)"
      using assms(1) alive by (fastforce simp: transport_tick_def Let_def bind_eq_Some_conv)
    show ?thesis
    proof (rule that[of t2])
      show "\<not> expired (keepalive_deadline (common t2)) now" using encrypt_keeps_timers(2)[OF e assms(3)] .
      show "common t2 = ?s\<lparr>keepalive_deadline := keepalive_deadline (common t2)\<rparr>"
        using encrypt_keeps_timers(1)[OF e assms(3)] by (simp add: clear_keepalive_def)
    qed (use assms(1) alive True e in \<open>auto simp: transport_tick_def Let_def split_def\<close>)
  next
    case False
    then show ?thesis using that[of t] assms(1) alive by (auto simp: transport_tick_def Let_def)
  qed
  show "tr_timer r = get_next_deadline (common t')" by (rule r)
  have f: "max_session_duration_deadline (common t1) = max_session_duration_deadline ?s"
    "session_timeout_deadline (common t1) = session_timeout_deadline ?s" "gc_deadline (common t1) = gc_deadline ?s"
    by (subst t1(2), simp)+
  show "\<forall>d \<in> set (timers (common t')). now < d"
    using alive t1(1) f unfolding t' by (auto simp: set_timers clear_rekey_def expired_def not_le split: if_splits option.splits)
qed

text \<open>A finite number of retries is used up one by one.\<close>

lemma timeout_retries:
  assumes "handle_session_timeout s = ((e, Some (RekeyEvent pk addr n cookie)), s')" and "retry_attempts s \<noteq> RETRY_ALWAYS"
  shows "is_initiator s \<and> 0 < retry_attempts s \<and> n = retry_attempts s - 1 \<and> retry_attempts s' = n"
  using assms by (auto simp: handle_session_timeout_def Let_def split: if_splits)

end
