(* ===== verification/Lean_Udp.thy ===== *)
theory Lean_Udp
  imports Prelude "HOL-Library.Word"
begin

unbundle bit_operations_syntax

text \<open>
  The wire format and the encoder of LeanUDP, the fragmentation protocol below the transaction and
  consensus messages: \<^verbatim>\<open>monad-leanudp/src/lib.rs\<close> and \<^verbatim>\<open>monad-leanudp/src/encoder.rs\<close>, and the
  parsing of a packet in \<^verbatim>\<open>monad-leanudp/src/decoder.rs\<close>.

  Payloads are lists of 8 bit words.  \<^verbatim>\<open>u16\<close> and \<^verbatim>\<open>usize\<close> values are naturals with the width written
  out.  The header is \<^verbatim>\<open>repr(C, packed)\<close> with little endian fields, so its bytes are the fields in
  order.  The executor metrics that both sides count are left out: nothing reads them back.

  The lemmas show that a header survives the wire, and that the fragments of a payload are numbered
  from zero, flagged at the end only, and concatenate to the payload.
\<close>

section \<open>Packets\<close>

type_synonym byte = "8 word"
type_synonym bytes = "byte list"
type_synonym u16 = nat

definition u16_max :: u16 where
  "u16_max = 2 ^ 16 - 1"

definition as_u16 :: "nat \<Rightarrow> u16" where
  "as_u16 n = n mod 2 ^ 16"

datatype fragment_type = Start | Middle | End | Complete

definition END_FLAG :: byte where
  "END_FLAG = 1"

definition KNOWN_FLAGS_MASK :: byte where
  "KNOWN_FLAGS_MASK = END_FLAG"

fun fragment_flags :: "fragment_type \<Rightarrow> byte" where
  "fragment_flags Start = 0"
| "fragment_flags Middle = 0"
| "fragment_flags Complete = END_FLAG"
| "fragment_flags End = END_FLAG"

record packet_header =
  ph_version :: byte
  ph_msg_id :: u16
  ph_seq_num :: u16
  ph_flags :: byte

definition LEANUDP_HEADER_SIZE :: nat where
  "LEANUDP_HEADER_SIZE = 6"

definition LEANUDP_PROTOCOL_VERSION :: byte where
  "LEANUDP_PROTOCOL_VERSION = 1"

definition header_new :: "u16 \<Rightarrow> u16 \<Rightarrow> fragment_type \<Rightarrow> packet_header" where
  "header_new msg_id seq_num ty =
     \<lparr>ph_version = LEANUDP_PROTOCOL_VERSION, ph_msg_id = msg_id, ph_seq_num = seq_num,
      ph_flags = fragment_flags ty\<rparr>"

definition header_fragment_type :: "packet_header \<Rightarrow> fragment_type" where
  "header_fragment_type h =
     (if ph_seq_num h = 0 then if ph_flags h AND END_FLAG \<noteq> 0 then Complete else Start
      else if ph_flags h AND END_FLAG \<noteq> 0 then End else Middle)"

definition has_known_flags :: "packet_header \<Rightarrow> bool" where
  "has_known_flags h \<longleftrightarrow> ph_flags h AND NOT KNOWN_FLAGS_MASK = 0"

definition le_bytes :: "u16 \<Rightarrow> bytes" where
  "le_bytes n = [word_of_nat n, word_of_nat (n div 256)]"

definition le_value :: "byte \<Rightarrow> byte \<Rightarrow> u16" where
  "le_value lo hi = unat lo + 256 * unat hi"

definition header_bytes :: "packet_header \<Rightarrow> bytes" where
  "header_bytes h = [ph_version h] @ le_bytes (ph_msg_id h) @ le_bytes (ph_seq_num h) @ [ph_flags h]"

definition header_read_from_bytes :: "bytes \<Rightarrow> packet_header option" where
  "header_read_from_bytes bs =
     (case bs of
        [v, id0, id1, s0, s1, fl] \<Rightarrow>
          Some \<lparr>ph_version = v, ph_msg_id = le_value id0 id1, ph_seq_num = le_value s0 s1, ph_flags = fl\<rparr>
      | _ \<Rightarrow> None)"

datatype decode_error =
    InvalidHeaderSize nat nat
  | InvalidHeader
  | UnsupportedVersion byte byte
  | IdentityLimitExceeded nat
  | DuplicateFragment u16 u16
  | TooManyFragments nat nat
  | ConflictingEndMarker u16 u16
  | MessageSizeExceeded nat nat
  | PoolFull

type_synonym packet = "packet_header \<times> bytes"

definition packet_try_from :: "bytes \<Rightarrow> decode_error + packet" where
  "packet_try_from packet =
     (if length packet \<ge> LEANUDP_HEADER_SIZE then
        case header_read_from_bytes (take LEANUDP_HEADER_SIZE packet) of
          None \<Rightarrow> Inl InvalidHeader
        | Some header \<Rightarrow> Inr (header, drop LEANUDP_HEADER_SIZE packet)
      else Inl (InvalidHeaderSize (length packet) LEANUDP_HEADER_SIZE))"

section \<open>The encoder\<close>

definition MAX_FRAGMENTS :: nat where
  "MAX_FRAGMENTS = 512"

definition NETWORK_OVERHEAD :: nat where
  "NETWORK_OVERHEAD = 32 + 20 + 8"

definition max_payload_for_mtu :: "nat \<Rightarrow> nat" where
  "max_payload_for_mtu mtu = saturating_sub mtu (NETWORK_OVERHEAD + LEANUDP_HEADER_SIZE)"

datatype encode_error = PayloadTooLarge nat nat

record encoder =
  en_max_fragment_payload :: nat
  en_next_msg_id :: u16

record fragment_iter =
  fi_payload :: bytes
  fi_max_payload :: nat
  fi_msg_id :: u16
  fi_current :: nat
  fi_count :: nat

definition encoder_new :: "nat \<Rightarrow> encoder" where
  "encoder_new max_fragment_payload =
     \<lparr>en_max_fragment_payload = saturating_sub max_fragment_payload LEANUDP_HEADER_SIZE, en_next_msg_id = 0\<rparr>"

definition encoder_fragment :: "bytes \<Rightarrow> encoder \<Rightarrow> ((encode_error + fragment_iter) \<times> encoder) option" where
  "encoder_fragment payload e = do {
     assert_p (en_max_fragment_payload e \<noteq> 0);
     let payload_len = length payload;
         count = div_ceil (max payload_len 1) (en_max_fragment_payload e)
     in if count > MAX_FRAGMENTS then Some (Inl (PayloadTooLarge payload_len count), e)
        else Some (Inr \<lparr>fi_payload = payload, fi_max_payload = en_max_fragment_payload e,
                        fi_msg_id = en_next_msg_id e, fi_current = 0, fi_count = count\<rparr>,
                   e\<lparr>en_next_msg_id := wrapping_add u16_max (en_next_msg_id e) 1\<rparr>)
   }"

definition max_payload_size :: "encoder \<Rightarrow> nat" where
  "max_payload_size e = saturating_mul u64_max (en_max_fragment_payload e) MAX_FRAGMENTS"

definition fragment_next :: "fragment_iter \<Rightarrow> (packet option \<times> fragment_iter) option" where
  "fragment_next it =
     (if fi_current it \<ge> fi_count it then Some (None, it)
      else
        let i = fi_current it;
            start = saturating_mul u64_max i (fi_max_payload it);
            stop = min (saturating_add u64_max start (fi_max_payload it)) (length (fi_payload it))
        in do {
          assert_p (start \<le> stop);
          let data = take (stop - start) (drop start (fi_payload it));
              is_start = (i = 0);
              is_end = (i = fi_count it - 1);
              ty = (if is_start then if is_end then Complete else Start
                    else if is_end then End else Middle)
          in Some (Some (header_new (fi_msg_id it) (as_u16 i) ty, data), it\<lparr>fi_current := i + 1\<rparr>)
        })"

text \<open>Draining the iterator.\<close>

function fragments_from :: "fragment_iter \<Rightarrow> packet list option" where
  "fragments_from it =
     (case fragment_next it of
        None \<Rightarrow> None
      | Some (None, _) \<Rightarrow> Some []
      | Some (Some p, it') \<Rightarrow> map_option ((#) p) (fragments_from it'))"
  by pat_completeness auto
termination
proof (relation "measure (\<lambda>it. fi_count it - fi_current it)")
  fix it x p it' a
  assume "fragment_next it = Some x" and "(p, it') = x" and "p = Some a"
  then show "(it', it) \<in> measure (\<lambda>it. fi_count it - fi_current it)"
    by (auto simp: fragment_next_def Let_def bind_eq_Some_conv split: if_splits)
qed simp

declare fragments_from.simps [simp del]

section \<open>Headers survive the wire\<close>

lemma le_value_bytes:
  assumes "n \<le> u16_max"
  shows "le_value (word_of_nat n) (word_of_nat (n div 256)) = n"
proof -
  have "n div 256 < 256" using assms by (simp add: u16_max_def less_mult_imp_div_less)
  then show ?thesis by (simp add: le_value_def unat_of_nat)
qed

lemma header_round_trip:
  assumes "ph_msg_id h \<le> u16_max" and "ph_seq_num h \<le> u16_max"
  shows "packet_try_from (header_bytes h @ data) = Inr (h, data)"
  using assms
  by (simp add: packet_try_from_def header_bytes_def header_read_from_bytes_def le_bytes_def
      le_value_bytes LEANUDP_HEADER_SIZE_def)

lemma header_new_type:
  "header_fragment_type (header_new msg i (if i = 0 then if e then Complete else Start else if e then End else Middle)) =
     (if i = 0 then if e then Complete else Start else if e then End else Middle)"
  by (simp add: header_fragment_type_def header_new_def END_FLAG_def)

lemma header_new_accepted [simp]:
  "has_known_flags (header_new msg i ty)" "ph_version (header_new msg i ty) = LEANUDP_PROTOCOL_VERSION"
  "ph_msg_id (header_new msg i ty) = msg" "ph_seq_num (header_new msg i ty) = i"
  by (cases ty; simp add: has_known_flags_def header_new_def KNOWN_FLAGS_MASK_def END_FLAG_def)+

section \<open>The fragments of a payload\<close>

definition chunk :: "nat \<Rightarrow> bytes \<Rightarrow> nat \<Rightarrow> bytes" where
  "chunk m payload i = take m (drop (i * m) payload)"

definition position_type :: "nat \<Rightarrow> nat \<Rightarrow> fragment_type" where
  "position_type n i = (if i = 0 then if i = n - 1 then Complete else Start
                        else if i = n - 1 then End else Middle)"

definition fragment_at :: "u16 \<Rightarrow> nat \<Rightarrow> bytes \<Rightarrow> nat \<Rightarrow> nat \<Rightarrow> packet" where
  "fragment_at msg_id m payload n i = (header_new msg_id i (position_type n i), chunk m payload i)"

lemma position_type_header:
  "header_fragment_type (header_new msg i (position_type n i)) = position_type n i"
  by (simp add: position_type_def header_new_type)

lemma concat_chunks:
  "concat (map (chunk m payload) [0..<n]) = take (n * m) payload"
proof (induction n)
  case (Suc n)
  have "take (n * m) payload @ take m (drop (n * m) payload) = take (n * m + m) payload"
    by (simp add: take_add)
  then show ?case using Suc by (simp add: chunk_def add.commute)
qed simp

lemma div_ceil_bounds:
  assumes "0 < b" and "0 < a"
  shows "a \<le> div_ceil a b * b" "(div_ceil a b - 1) * b < a" "0 < div_ceil a b"
proof -
  define q where "q = (a - 1) div b"
  obtain c where c: "a = Suc c" using assms(2) gr0_implies_Suc by blast
  have d: "div_ceil a b = q + 1" unfolding div_ceil_def q_def c using assms(1) div_add_self2[of b c] by simp
  have q: "q * b \<le> a - 1" "a - 1 < q * b + b"
    unfolding q_def using assms dividend_less_div_times[of b "a - 1"] by (simp_all add: add.commute)
  show "a \<le> div_ceil a b * b" "(div_ceil a b - 1) * b < a" "0 < div_ceil a b"
    using q assms(2) unfolding d by (simp_all add: add.commute)
qed

lemma fragments_from_spec:
  assumes "fi_current it \<le> fi_count it" and "fi_count it \<le> MAX_FRAGMENTS"
    and "\<And>i. i < fi_count it \<Longrightarrow> i * fi_max_payload it \<le> length (fi_payload it)"
    and "length (fi_payload it) \<le> u64_max"
  shows "fragments_from it = Some (map (fragment_at (fi_msg_id it) (fi_max_payload it) (fi_payload it) (fi_count it))
    [fi_current it..<fi_count it])"
  using assms
proof (induction it rule: fragments_from.induct)
  case (1 it)
  let ?i = "fi_current it" and ?m = "fi_max_payload it" and ?p = "fi_payload it" and ?n = "fi_count it"
  show ?case
  proof (cases "?i < ?n")
    case False
    then show ?thesis by (simp add: fragments_from.simps[of it] fragment_next_def)
  next
    case True
    have i: "?i * ?m \<le> length ?p" using "1.prems"(3) True by simp
    have s: "saturating_mul u64_max ?i ?m = ?i * ?m" using i "1.prems"(4) by (simp add: saturating_mul_def)
    have u: "as_u16 ?i = ?i" using True "1.prems"(2) by (simp add: as_u16_def MAX_FRAGMENTS_def)
    have t: "take (min (saturating_add u64_max (?i * ?m) ?m) (length ?p) - ?i * ?m) (drop (?i * ?m) ?p) = chunk ?m ?p ?i"
      using i "1.prems"(4) by (auto simp: chunk_def saturating_add_def min_def)
    define it' where "it' = it\<lparr>fi_current := ?i + 1\<rparr>"
    have a: "?i * ?m \<le> min (saturating_add u64_max (?i * ?m) ?m) (length ?p)"
      using i "1.prems"(4) by (simp add: saturating_add_def)
    have n: "fragment_next it = Some (Some (fragment_at (fi_msg_id it) ?m ?p ?n ?i), it')"
      using True a
      unfolding fragment_next_def Let_def s u t fragment_at_def position_type_def it'_def
      by (simp del: min_def)
    have f: "fragments_from it' = Some (map (fragment_at (fi_msg_id it) ?m ?p ?n) [?i + 1..<?n])"
      using "1.IH"[OF n refl refl] "1.prems" True by (simp add: it'_def)
    then show ?thesis using True by (simp add: fragments_from.simps[of it] n upt_conv_Cons)
  qed
qed

lemma encoder_fragments:
  assumes "encoder_fragment payload e = Some (Inr it, e')" and "length payload \<le> u64_max"
  obtains n where "0 < n" "n \<le> MAX_FRAGMENTS"
    "fragments_from it = Some (map (fragment_at (en_next_msg_id e) (en_max_fragment_payload e) payload n) [0..<n])"
    "concat (map (chunk (en_max_fragment_payload e) payload) [0..<n]) = payload"
proof -
  let ?m = "en_max_fragment_payload e" and ?n = "div_ceil (max (length payload) 1) (en_max_fragment_payload e)"
  have m: "0 < ?m" and n: "?n \<le> MAX_FRAGMENTS"
    and it: "it = \<lparr>fi_payload = payload, fi_max_payload = ?m, fi_msg_id = en_next_msg_id e, fi_current = 0, fi_count = ?n\<rparr>"
    using assms(1) by (auto simp: encoder_fragment_def Let_def bind_eq_Some_conv split: if_splits)
  note b = div_ceil_bounds[OF m, of "max (length payload) 1"]
  have "i * ?m \<le> length payload" if "i < ?n" for i
  proof -
    have "i * ?m \<le> (?n - 1) * ?m" using that by (intro mult_le_mono1) simp
    also have "\<dots> < max (length payload) 1" using b(2) by simp
    finally show ?thesis by auto
  qed
  then have "fragments_from it = Some (map (fragment_at (en_next_msg_id e) ?m payload ?n) [0..<?n])"
    using fragments_from_spec[of it] n assms(2) by (simp add: it)
  moreover have "concat (map (chunk ?m payload) [0..<?n]) = payload"
    using b(1) by (simp add: concat_chunks)
  ultimately show ?thesis using that[of ?n] b(3) n by simp
qed

end
