(* ===== verification/Lean_Udp_Pool.thy ===== *)
theory Lean_Udp_Pool
  imports Lean_Udp "HOL-Library.Product_Lexorder" "HOL-Library.Multiset"
begin

text \<open>
  The pool of partially received messages of the LeanUDP decoder, from
  \<^verbatim>\<open>monad-leanudp/src/pool.rs\<close>: the messages in an \<^verbatim>\<open>IndexMap\<close> (a list in index order, whose
  \<^verbatim>\<open>swap_remove\<close> moves the last entry into the hole), an index of their deadlines, the same index for
  each identity, and the number of messages of each identity.

  The limit on the messages of an identity is the trait \<^verbatim>\<open>IdentityLimitPolicy\<close>, whose implementation
  computes with floating point numbers; the pool and the proofs know it only through the three
  functions of the trait, in the record \<open>pool_env\<close> with the random number generator.

  \<open>pool_wf\<close> is the well-formedness of a pool: the two indices and the counts agree with the messages,
  the pool is within its capacity, and every message is within its size.  Every operation keeps it and,
  on a well-formed pool, none of the \<^verbatim>\<open>expect\<close> calls fails.
\<close>

section \<open>Ordered sets and the index map\<close>

abbreviation bs_insert :: "'a::linorder \<Rightarrow> 'a btree_set \<Rightarrow> 'a btree_set" where
  "bs_insert x s \<equiv> insort_insert x s"

abbreviation bs_remove :: "'a \<Rightarrow> 'a btree_set \<Rightarrow> 'a btree_set" where
  "bs_remove x s \<equiv> removeAll x s"

definition bs_first :: "'a btree_set \<Rightarrow> 'a option" where
  "bs_first s = (case s of [] \<Rightarrow> None | x # _ \<Rightarrow> Some x)"

definition bs_wf :: "'a::linorder btree_set \<Rightarrow> bool" where
  "bs_wf s \<longleftrightarrow> sorted s \<and> distinct s"

fun swap_remove :: "'k \<Rightarrow> ('k \<times> 'v) list \<Rightarrow> 'v option \<times> ('k \<times> 'v) list" where
  "swap_remove k [] = (None, [])"
| "swap_remove k ((k', v) # m) =
     (if k = k' then (Some v, if m = [] then [] else last m # butlast m)
      else let (r, m') = swap_remove k m in (r, (k', v) # m'))"

section \<open>State\<close>

type_synonym instant = nat

definition instant_max :: instant where
  "instant_max = (2 ^ 63 - 1) * 10 ^ 9 + 999999999"

record message_state =
  ms_fragments :: "(u16, bytes) btree_map"
  ms_total_size :: nat
  ms_total_frags :: "u16 option"
  ms_deadline :: instant

record pool_config =
  pc_max_messages :: nat
  pc_max_message_size :: nat
  pc_message_timeout :: nat

datatype eviction_kind = Timeout | Random

datatype message_status = Missing | Active | Stale

record ('i, 'l, 'r) pool_env =
  pe_limit :: "'i \<Rightarrow> nat \<Rightarrow> nat \<Rightarrow> 'l \<Rightarrow> nat \<times> 'l"
  pe_record_service :: "'i \<Rightarrow> 'l \<Rightarrow> 'l"
  pe_removed :: "'i \<Rightarrow> 'l \<Rightarrow> 'l"
  pe_gen_range :: "nat \<Rightarrow> 'r \<Rightarrow> nat \<times> 'r"

record ('i, 'l) identity_usage =
  iu_counts :: "('i, nat) hash_map"
  iu_policy :: 'l

record ('i, 'l, 'r) message_pool =
  mp_messages :: "(('i \<times> u16) \<times> message_state) list"
  mp_eviction_index :: "(instant \<times> ('i \<times> u16)) btree_set"
  mp_by_identity :: "('i, (instant \<times> u16) btree_set) btree_map"
  mp_cfg :: pool_config
  mp_rng :: 'r
  mp_usage :: "('i, 'l) identity_usage"

record 'i fragment_input =
  in_identity :: 'i
  in_msg_id :: u16
  in_seq_num :: u16
  in_fragment_type :: fragment_type
  in_payload :: bytes

datatype decode_outcome = Pending | Completed bytes

definition message_state_new :: "instant \<Rightarrow> message_state" where
  "message_state_new deadline =
     \<lparr>ms_fragments = [], ms_total_size = 0, ms_total_frags = None, ms_deadline = deadline\<rparr>"

definition message_extract :: "message_state \<Rightarrow> bytes" where
  "message_extract st = concat (bt_values (ms_fragments st))"

section \<open>Messages of an identity\<close>

definition identity_count :: "('i, 'l) identity_usage \<Rightarrow> 'i \<Rightarrow> nat" where
  "identity_count u i = entry_or 0 (map_of (iu_counts u) i)"

definition limit_for_new_message ::
  "('i, 'l, 'r) pool_env \<Rightarrow> 'i \<Rightarrow> nat \<Rightarrow> nat \<Rightarrow> ('i, 'l) identity_usage \<Rightarrow> nat \<times> ('i, 'l) identity_usage" where
  "limit_for_new_message env i pool_size pool_max_size u =
     (let (n, l) = pe_limit env i pool_size pool_max_size (iu_policy u) in (n, u\<lparr>iu_policy := l\<rparr>))"

definition usage_is_at_limit ::
  "('i, 'l, 'r) pool_env \<Rightarrow> 'i \<Rightarrow> nat \<Rightarrow> nat \<Rightarrow> ('i, 'l) identity_usage \<Rightarrow> bool \<times> ('i, 'l) identity_usage" where
  "usage_is_at_limit env i pool_size pool_max_size u =
     (let (n, u') = limit_for_new_message env i pool_size pool_max_size u in (identity_count u i \<ge> n, u'))"

definition increment_identity_count :: "'i \<Rightarrow> ('i, 'l) identity_usage \<Rightarrow> ('i, 'l) identity_usage" where
  "increment_identity_count i u =
     u\<lparr>iu_counts := AList.update i (wrapping_add u64_max (entry_or 0 (map_of (iu_counts u) i)) 1) (iu_counts u)\<rparr>"

definition decrement_identity_count ::
  "('i, 'l, 'r) pool_env \<Rightarrow> 'i \<Rightarrow> ('i, 'l) identity_usage \<Rightarrow> ('i, 'l) identity_usage option" where
  "decrement_identity_count env i u = do {
     count \<leftarrow> map_of (iu_counts u) i;
     let count = wrapping_add u64_max count u64_max
     in if count = 0 then
          Some (u\<lparr>iu_counts := AList.delete i (iu_counts u), iu_policy := pe_removed env i (iu_policy u)\<rparr>)
        else Some (u\<lparr>iu_counts := AList.update i count (iu_counts u)\<rparr>)
   }"

definition usage_ensure_identity_capacity ::
  "('i, 'l, 'r) pool_env \<Rightarrow> 'i \<Rightarrow> nat \<Rightarrow> nat \<Rightarrow> ('i, 'l) identity_usage
     \<Rightarrow> (decode_error + unit) \<times> ('i, 'l) identity_usage" where
  "usage_ensure_identity_capacity env i pool_size pool_max_size u =
     (let (n, u') = limit_for_new_message env i pool_size pool_max_size u
      in (if identity_count u' i < n then Inr () else Inl (IdentityLimitExceeded n), u'))"

section \<open>The pool\<close>

definition pool_new :: "pool_config \<Rightarrow> 'r \<Rightarrow> 'l \<Rightarrow> ('i, 'l, 'r) message_pool" where
  "pool_new cfg rng policy =
     \<lparr>mp_messages = [], mp_eviction_index = [], mp_by_identity = [], mp_cfg = cfg, mp_rng = rng,
      mp_usage = \<lparr>iu_counts = [], iu_policy = policy\<rparr>\<rparr>"

definition has_message :: "('i, 'l, 'r) message_pool \<Rightarrow> 'i \<times> u16 \<Rightarrow> bool" where
  "has_message p key \<longleftrightarrow> map_of (mp_messages p) key \<noteq> None"

definition remove_message ::
  "('i::linorder, 'l, 'r) pool_env \<Rightarrow> 'i \<times> u16 \<Rightarrow> ('i, 'l, 'r) message_pool
     \<Rightarrow> (message_state option \<times> ('i, 'l, 'r) message_pool) option" where
  "remove_message env key p =
     (case swap_remove key (mp_messages p) of
        (None, _) \<Rightarrow> Some (None, p)
      | (Some st, messages) \<Rightarrow>
          let deadline = ms_deadline st;
              by_identity =
                (case bt_get (mp_by_identity p) (fst key) of
                   None \<Rightarrow> mp_by_identity p
                 | Some ix \<Rightarrow>
                     let ix = bs_remove (deadline, snd key) ix
                     in if ix = [] then bt_remove (fst key) (mp_by_identity p)
                        else bt_insert (fst key) ix (mp_by_identity p))
          in do {
            usage \<leftarrow> decrement_identity_count env (fst key) (mp_usage p);
            Some (Some st, p\<lparr>mp_messages := messages,
              mp_eviction_index := bs_remove (deadline, key) (mp_eviction_index p),
              mp_by_identity := by_identity, mp_usage := usage\<rparr>)
          })"

definition pool_message_status ::
  "('i::linorder, 'l, 'r) pool_env \<Rightarrow> 'i \<times> u16 \<Rightarrow> instant \<Rightarrow> ('i, 'l, 'r) message_pool
     \<Rightarrow> (message_status \<times> ('i, 'l, 'r) message_pool) option" where
  "pool_message_status env key now p =
     (case map_of (mp_messages p) key of
        None \<Rightarrow> Some (Missing, p)
      | Some st \<Rightarrow>
          if ms_deadline st > now then Some (Active, p)
          else do { (_, p) \<leftarrow> remove_message env key p; Some (Stale, p) })"

definition ensure_identity_capacity ::
  "('i, 'l, 'r) pool_env \<Rightarrow> 'i \<Rightarrow> ('i, 'l, 'r) message_pool \<Rightarrow> (decode_error + unit) \<times> ('i, 'l, 'r) message_pool" where
  "ensure_identity_capacity env i p =
     (let (r, u) = usage_ensure_identity_capacity env i (length (mp_messages p)) (pc_max_messages (mp_cfg p)) (mp_usage p)
      in (r, p\<lparr>mp_usage := u\<rparr>))"

definition is_at_identity_limit ::
  "('i, 'l, 'r) pool_env \<Rightarrow> 'i \<Rightarrow> ('i, 'l, 'r) message_pool \<Rightarrow> bool \<times> ('i, 'l, 'r) message_pool" where
  "is_at_identity_limit env i p =
     (let (b, u) = usage_is_at_limit env i (length (mp_messages p)) (pc_max_messages (mp_cfg p)) (mp_usage p)
      in (b, p\<lparr>mp_usage := u\<rparr>))"

definition evict_candidate_if_stale ::
  "('i::linorder, 'l, 'r) pool_env \<Rightarrow> (instant \<times> ('i \<times> u16)) option \<Rightarrow> instant \<Rightarrow> ('i, 'l, 'r) message_pool
     \<Rightarrow> (bool \<times> ('i, 'l, 'r) message_pool) option" where
  "evict_candidate_if_stale env candidate now p =
     (case candidate of
        None \<Rightarrow> Some (False, p)
      | Some (deadline, stale_key) \<Rightarrow>
          if deadline > now then Some (False, p)
          else do { (_, p) \<leftarrow> remove_message env stale_key p; Some (True, p) })"

definition evict_stale_for_identity ::
  "('i::linorder, 'l, 'r) pool_env \<Rightarrow> 'i \<Rightarrow> instant \<Rightarrow> ('i, 'l, 'r) message_pool
     \<Rightarrow> (bool \<times> ('i, 'l, 'r) message_pool) option" where
  "evict_stale_for_identity env i now p =
     evict_candidate_if_stale env
       (map_option (\<lambda>(deadline, msg_id). (deadline, (i, msg_id)))
         (Option.bind (bt_get (mp_by_identity p) i) bs_first)) now p"

definition evict_one_stale_for_identity_if_limited ::
  "('i::linorder, 'l, 'r) pool_env \<Rightarrow> 'i \<Rightarrow> instant \<Rightarrow> ('i, 'l, 'r) message_pool
     \<Rightarrow> (bool \<times> ('i, 'l, 'r) message_pool) option" where
  "evict_one_stale_for_identity_if_limited env i now p =
     (let (limited, p) = is_at_identity_limit env i p
      in if \<not> limited then Some (False, p) else evict_stale_for_identity env i now p)"

definition record_identity_service ::
  "('i, 'l, 'r) pool_env \<Rightarrow> 'i \<Rightarrow> ('i, 'l, 'r) message_pool \<Rightarrow> ('i, 'l, 'r) message_pool" where
  "record_identity_service env i p =
     p\<lparr>mp_usage := (mp_usage p)\<lparr>iu_policy := pe_record_service env i (iu_policy (mp_usage p))\<rparr>\<rparr>"

definition evict_before_admission ::
  "('i::linorder, 'l, 'r) pool_env \<Rightarrow> instant \<Rightarrow> ('i, 'l, 'r) message_pool
     \<Rightarrow> (eviction_kind option \<times> ('i, 'l, 'r) message_pool) option" where
  "evict_before_admission env now p =
     (if mp_messages p = [] then Some (None, p)
      else do {
        (evicted, p) \<leftarrow> evict_candidate_if_stale env (bs_first (mp_eviction_index p)) now p;
        if evicted then Some (Some Timeout, p)
        else
          let (random_index, rng) = pe_gen_range env (length (mp_messages p)) (mp_rng p);
              p = p\<lparr>mp_rng := rng\<rparr>
          in if random_index < length (mp_messages p) then do {
               (_, p) \<leftarrow> remove_message env (fst (mp_messages p ! random_index)) p;
               Some (Some Random, p)
             } else Some (None, p)
      })"

definition admission_blocked :: "('i, 'l, 'r) message_pool \<Rightarrow> bool" where
  "admission_blocked p \<longleftrightarrow> length (mp_messages p) \<ge> pc_max_messages (mp_cfg p)"

definition insert_message ::
  "'i::linorder \<times> u16 \<Rightarrow> instant \<Rightarrow> ('i, 'l, 'r) message_pool \<Rightarrow> ('i, 'l, 'r) message_pool option" where
  "insert_message key now p = do {
     deadline \<leftarrow> checked_add instant_max now (pc_message_timeout (mp_cfg p));
     Some (p\<lparr>mp_messages := AList.update key (message_state_new deadline) (mp_messages p),
       mp_eviction_index := bs_insert (deadline, key) (mp_eviction_index p),
       mp_by_identity := bt_insert (fst key)
         (bs_insert (deadline, snd key) (entry_or [] (bt_get (mp_by_identity p) (fst key)))) (mp_by_identity p)\<rparr>)
   }"

text \<open>Decoding a fragment drops the whole message when the fragment contradicts it.\<close>

definition drop_with ::
  "('i::linorder, 'l, 'r) pool_env \<Rightarrow> 'i \<times> u16 \<Rightarrow> decode_error \<Rightarrow> ('i, 'l, 'r) message_pool
     \<Rightarrow> ((decode_error + decode_outcome) \<times> ('i, 'l, 'r) message_pool) option" where
  "drop_with env key e p = do { (_, p) \<leftarrow> remove_message env key p; Some (Inl e, p) }"

definition is_final :: "fragment_type \<Rightarrow> bool" where
  "is_final ty \<longleftrightarrow> ty = End \<or> ty = Complete"

definition pool_decode ::
  "('i::linorder, 'l, 'r) pool_env \<Rightarrow> 'i fragment_input \<Rightarrow> ('i, 'l, 'r) message_pool
     \<Rightarrow> ((decode_error + decode_outcome) \<times> ('i, 'l, 'r) message_pool) option" where
  "pool_decode env input p =
     (let key = (in_identity input, in_msg_id input);
          seq_num = in_seq_num input;
          data = in_payload input
      in case map_of (mp_messages p) key of
           None \<Rightarrow> Some (Inl PoolFull, p)
         | Some st \<Rightarrow>
             if \<not> seq_num < MAX_FRAGMENTS then
               drop_with env key (TooManyFragments (MAX_FRAGMENTS + 1) MAX_FRAGMENTS) p
             else if bt_get (ms_fragments st) seq_num \<noteq> None then
               Some (Inl (DuplicateFragment (in_msg_id input) seq_num), p)
             else if is_final (in_fragment_type input) \<and> ms_total_frags st \<noteq> None then
               drop_with env key
                 (ConflictingEndMarker (entry_or 0 (ms_total_frags st)) (wrapping_add u16_max seq_num 1)) p
             else
               let total_frags = (if is_final (in_fragment_type input)
                                  then Some (wrapping_add u16_max seq_num 1) else ms_total_frags st)
               in if \<exists>t \<in> set_option total_frags. \<not> seq_num < t then
                    drop_with env key
                      (ConflictingEndMarker (entry_or 0 total_frags) (wrapping_add u16_max seq_num 1)) p
                  else
                    let total_size = checked_add u64_max (ms_total_size st) (length data)
                    in if \<not> (\<exists>size \<in> set_option total_size. size \<le> pc_max_message_size (mp_cfg p)) then
                         drop_with env key
                           (MessageSizeExceeded (entry_or u64_max total_size) (pc_max_message_size (mp_cfg p))) p
                       else
                         let st = st\<lparr>ms_total_frags := total_frags, ms_total_size := the total_size,
                                     ms_fragments := bt_insert seq_num data (ms_fragments st)\<rparr>;
                             p = p\<lparr>mp_messages := AList.update key st (mp_messages p)\<rparr>
                         in if ms_total_frags st \<noteq> Some (as_u16 (length (ms_fragments st))) then Some (Inr Pending, p)
                            else do {
                              (removed, p) \<leftarrow> remove_message env key (record_identity_service env (fst key) p);
                              st \<leftarrow> removed;
                              Some (Inr (Completed (message_extract st)), p)
                            })"

definition decode_with_admission ::
  "('i::linorder, 'l, 'r) pool_env \<Rightarrow> instant \<Rightarrow> 'i \<times> u16 \<Rightarrow> 'i fragment_input \<Rightarrow> ('i, 'l, 'r) message_pool
     \<Rightarrow> (((decode_error + decode_outcome) \<times> eviction_kind option) \<times> ('i, 'l, 'r) message_pool) option" where
  "decode_with_admission env now key input p =
     (if has_message p key then
        map_option (\<lambda>(r, p). ((r, None), p)) (pool_decode env input p)
      else do {
        (evicted, p) \<leftarrow> (if admission_blocked p then evict_before_admission env now p else Some (None, p));
        if admission_blocked p then Some ((Inl PoolFull, evicted), p)
        else do {
          p \<leftarrow> insert_message key now p;
          let p = p\<lparr>mp_usage := increment_identity_count (in_identity input) (mp_usage p)\<rparr>;
          map_option (\<lambda>(r, p). ((r, evicted), p)) (pool_decode env input p)
        }
      })"

section \<open>The index map\<close>

lemma swap_remove_absent: "map_of m k = None \<Longrightarrow> swap_remove k m = (None, m)"
  by (induction m) (auto split: if_splits)

lemma swap_remove_present:
  "map_of m k = Some v \<Longrightarrow> \<exists>m'. swap_remove k m = (Some v, m') \<and> mset m = add_mset (k, v) (mset m')"
proof (induction m)
  case (Cons e m)
  show ?case
  proof (cases "fst e = k")
    case True
    have "m \<noteq> [] \<Longrightarrow> mset (last m # butlast m) = mset m"
      by (metis append_butlast_last_id mset_append mset.simps union_commute add_mset_add_single)
    then show ?thesis using True Cons.prems by (cases e) auto
  next
    case False
    then show ?thesis using Cons by (cases e) (fastforce simp: split_def)
  qed
qed simp

lemma remove_entry:
  assumes "hm_wf m" and "mset m = add_mset (k, v) (mset m')"
  shows "hm_wf m'" "map_of m' = (map_of m)(k := None)" "length m = Suc (length m')"
    "count_list (map (f \<circ> fst) m) i = count_list (map (f \<circ> fst) m') i + (if f k = i then 1 else 0)"
proof -
  have k: "mset (map fst m) = mset (map fst ((k, v) # m'))" using assms(2) by simp
  have d: "distinct (map fst ((k, v) # m'))"
    using assms(1) mset_eq_imp_distinct_iff[OF k] by (simp add: hm_wf_def)
  then show "hm_wf m'" by (simp add: hm_wf_def)
  have "set m = set ((k, v) # m')" using assms(2) by (metis mset.simps(2) mset_eq_setD)
  then have "map_of m = map_of ((k, v) # m')"
    using map_of_inject_set[of m "(k, v) # m'"] d assms(1) unfolding hm_wf_def by blast
  then show "map_of m' = (map_of m)(k := None)"
    using d by (auto simp: fun_eq_iff map_of_eq_None_iff)
  show "length m = Suc (length m')" using assms(2) by (metis size_add_mset size_mset)
  have "mset (map (f \<circ> fst) m) = add_mset (f k) (mset (map (f \<circ> fst) m'))"
    using assms(2) by simp
  then show "count_list (map (f \<circ> fst) m) i = count_list (map (f \<circ> fst) m') i + (if f k = i then 1 else 0)"
    unfolding count_mset[symmetric] by simp
qed

lemma update_keys: "map_of m k \<noteq> None \<Longrightarrow> map fst (AList.update k v m) = map fst m"
  by (simp add: update_keys map_of_eq_None_iff)

section \<open>Well-formed pools\<close>

definition state_wf :: "nat \<Rightarrow> message_state \<Rightarrow> bool" where
  "state_wf max_size st \<longleftrightarrow> bt_wf (ms_fragments st)
     \<and> (\<forall>s \<in> fst ` set (ms_fragments st). s < MAX_FRAGMENTS)
     \<and> ms_total_size st = length (concat (bt_values (ms_fragments st))) \<and> ms_total_size st \<le> max_size
     \<and> (\<forall>t. ms_total_frags st = Some t \<longrightarrow> 0 < t \<and> t \<le> MAX_FRAGMENTS \<and> t \<noteq> length (ms_fragments st))"

definition index_wf ::
  "('i::linorder \<times> u16 \<Rightarrow> instant option) \<Rightarrow> (instant \<times> ('i \<times> u16)) btree_set
     \<Rightarrow> ('i, (instant \<times> u16) btree_set) btree_map \<Rightarrow> bool" where
  "index_wf D ev by_id \<longleftrightarrow> bs_wf ev \<and> (\<forall>d k. (d, k) \<in> set ev \<longleftrightarrow> D k = Some d)
     \<and> bt_wf by_id \<and> (\<forall>i. bt_get by_id i \<noteq> Some [])
     \<and> (\<forall>i. bs_wf (entry_or [] (bt_get by_id i)))
     \<and> (\<forall>i d m. (d, m) \<in> set (entry_or [] (bt_get by_id i)) \<longleftrightarrow> D (i, m) = Some d)"

definition counts_wf :: "'i list \<Rightarrow> ('i, nat) hash_map \<Rightarrow> bool" where
  "counts_wf ids counts \<longleftrightarrow> hm_wf counts
     \<and> (\<forall>i. map_of counts i = (if count_list ids i = 0 then None else Some (count_list ids i)))"

definition deadlines :: "('i, 'l, 'r) message_pool \<Rightarrow> 'i \<times> u16 \<Rightarrow> instant option" where
  "deadlines p = map_option ms_deadline \<circ> map_of (mp_messages p)"

definition pool_shape :: "('i::linorder, 'l, 'r) message_pool \<Rightarrow> bool" where
  "pool_shape p \<longleftrightarrow> hm_wf (mp_messages p)
     \<and> length (mp_messages p) \<le> pc_max_messages (mp_cfg p) \<and> pc_max_messages (mp_cfg p) \<le> u64_max
     \<and> index_wf (deadlines p) (mp_eviction_index p) (mp_by_identity p)
     \<and> counts_wf (map (fst \<circ> fst) (mp_messages p)) (iu_counts (mp_usage p))"

definition pool_wf :: "('i::linorder, 'l, 'r) message_pool \<Rightarrow> bool" where
  "pool_wf p \<longleftrightarrow> pool_shape p
     \<and> (\<forall>k st. map_of (mp_messages p) k = Some st \<longrightarrow> state_wf (pc_max_message_size (mp_cfg p)) st)"

lemma pool_wf_state:
  "pool_wf p \<Longrightarrow> map_of (mp_messages p) k = Some st \<Longrightarrow> state_wf (pc_max_message_size (mp_cfg p)) st"
  unfolding pool_wf_def by blast

lemma pool_wfI:
  "pool_shape p \<Longrightarrow> (\<And>k st. map_of (mp_messages p) k = Some st \<Longrightarrow> state_wf (pc_max_message_size (mp_cfg p)) st)
     \<Longrightarrow> pool_wf p"
  unfolding pool_wf_def by blast

lemma pool_wf_new: "pc_max_messages cfg \<le> u64_max \<Longrightarrow> pool_wf (pool_new cfg rng l)"
  by (simp add: pool_wf_def pool_shape_def pool_new_def hm_wf_def index_wf_def bs_wf_def counts_wf_def deadlines_def)

lemma pool_new_cfg [simp]: "mp_cfg (pool_new cfg rng l) = cfg"
  by (simp add: pool_new_def)

text \<open>Well-formedness does not depend on the limit policy nor on the generator.\<close>

lemma pool_wf_policy [simp]:
  "pool_wf (p\<lparr>mp_usage := (mp_usage p)\<lparr>iu_policy := l\<rparr>\<rparr>) = pool_wf p" "pool_wf (p\<lparr>mp_rng := g\<rparr>) = pool_wf p"
  by (simp_all add: pool_wf_def pool_shape_def deadlines_def)

section \<open>Indices and counts under insertion and removal\<close>

lemma bs_wf_insert [simp]: "bs_wf s \<Longrightarrow> bs_wf (bs_insert x s)"
  by (simp add: bs_wf_def sorted_insort_insert distinct_insort_insert)

lemma bs_wf_remove [simp]: "bs_wf s \<Longrightarrow> bs_wf (bs_remove x s)"
  by (simp add: bs_wf_def distinct_removeAll removeAll_filter_not_eq sorted_filter[of "\<lambda>x. x", simplified])

lemma bs_insert_nonempty [simp]: "bs_insert x s \<noteq> []"
  using set_insort_insert[of x s] by (metis empty_set insert_not_empty)

lemma index_wf_insert:
  assumes "index_wf D ev by_id" and "D (i, m) = None"
  shows "index_wf (D((i, m) \<mapsto> d)) (bs_insert (d, i, m) ev)
    (bt_insert i (bs_insert (d, m) (entry_or [] (bt_get by_id i))) by_id)"
  using assms by (auto simp: index_wf_def set_insort_insert)

lemma index_wf_remove:
  assumes "index_wf D ev by_id" and "D (i, m) = Some d"
  shows "index_wf (D((i, m) := None)) (bs_remove (d, i, m) ev)
    (case bt_get by_id i of
       None \<Rightarrow> by_id
     | Some ix \<Rightarrow>
         let ix = bs_remove (d, m) ix in if ix = [] then bt_remove i by_id else bt_insert i ix by_id)"
    (is "index_wf ?D' ?ev' ?by")
proof -
  let ?ix = "bs_remove (d, m) (entry_or [] (bt_get by_id i))"
  have wf: "(d, m) \<in> set (entry_or [] (bt_get by_id i))" "bs_wf ?ix"
    using assms by (auto simp: index_wf_def)
  have b: "?by = (if ?ix = [] then bt_remove i by_id else bt_insert i ?ix by_id)"
    using wf(1) by (cases "bt_get by_id i") (auto simp: Let_def)
  have g: "entry_or [] (bt_get ?by j) = (if j = i then ?ix else entry_or [] (bt_get by_id j))"
    "bt_get ?by j \<noteq> Some []" for j
    unfolding b using assms(1) by (auto simp: index_wf_def)
  have "bt_wf ?by" unfolding b using assms(1) by (simp add: index_wf_def)
  then show ?thesis
    unfolding index_wf_def g using assms wf(2) by (auto simp: index_wf_def g)
qed

lemma counts_wf_insert:
  assumes "counts_wf ids (iu_counts u)" and "length ids < u64_max"
  shows "counts_wf (ids @ [i]) (iu_counts (increment_identity_count i u))"
proof -
  have "count_list ids i \<le> length ids" by (rule count_le_length)
  then have "wrapping_add u64_max (count_list ids i) 1 = count_list ids i + 1"
    using assms(2) by (simp add: wrapping_add_def)
  moreover have "entry_or 0 (map_of (iu_counts u) i) = count_list ids i"
    using assms(1) by (simp add: counts_wf_def)
  ultimately show ?thesis
    using assms(1) by (auto simp: counts_wf_def increment_identity_count_def hmm.wf_put hmm.get_put)
qed

lemma decrement_total:
  assumes "counts_wf ids (iu_counts u)" and "\<And>j. count_list ids j = count_list ids' j + (if i = j then 1 else 0)"
    and "length ids \<le> u64_max"
  shows "\<exists>u'. decrement_identity_count env i u = Some u' \<and> counts_wf ids' (iu_counts u')"
proof -
  have "count_list ids i \<le> u64_max" using count_le_length[of ids i] assms(3) by simp
  then have w: "wrapping_add u64_max (count_list ids i) u64_max = count_list ids' i"
    using assms(2)[of i] mod_add_self2[of "count_list ids' i" "Suc u64_max"] by (simp add: wrapping_add_def)
  have g: "map_of (iu_counts u) i = Some (count_list ids i)"
    using assms(1) assms(2)[of i] by (simp add: counts_wf_def)
  have e: "decrement_identity_count env i u = Some (if count_list ids' i = 0
    then u\<lparr>iu_counts := AList.delete i (iu_counts u), iu_policy := pe_removed env i (iu_policy u)\<rparr>
    else u\<lparr>iu_counts := AList.update i (count_list ids' i) (iu_counts u)\<rparr>)"
    by (simp add: decrement_identity_count_def g w)
  show ?thesis
    unfolding e using assms(1) assms(2)
    by (auto simp: counts_wf_def hmm.wf_put hmm.wf_del hmm.get_put hmm.get_del)
qed

section \<open>Every operation keeps a pool well formed\<close>

text \<open>The messages of a pool with those of the keys \<open>K\<close> dropped, and nothing else of the state that a
  client of the pool relies on.\<close>

definition dropped :: "('i \<times> u16) set \<Rightarrow> ('i, 'l, 'r) message_pool \<Rightarrow> ('i, 'l, 'r) message_pool \<Rightarrow> bool" where
  "dropped K p p' \<longleftrightarrow> map_of (mp_messages p') = (map_of (mp_messages p)) |` (- K) \<and> mp_cfg p' = mp_cfg p"

lemma dropped_refl [simp]: "dropped {} p p"
  by (simp add: dropped_def restrict_map_def)

lemma remove_message_shape:
  assumes "pool_shape p"
  shows "\<exists>p'. remove_message env key p = Some (map_of (mp_messages p) key, p') \<and> pool_shape p' \<and> dropped {key} p p'"
proof (cases "map_of (mp_messages p) key")
  case None
  then have "map_of (mp_messages p) |` (- {key}) = map_of (mp_messages p)"
    by (auto simp: fun_eq_iff restrict_map_def)
  then show ?thesis
    using None assms by (simp add: remove_message_def swap_remove_absent dropped_def)
next
  case (Some st)
  obtain i m where key: "key = (i, m)" by (cases key)
  from swap_remove_present[OF Some] obtain ms' where
    sr: "swap_remove key (mp_messages p) = (Some st, ms')" "mset (mp_messages p) = add_mset (key, st) (mset ms')"
    by blast
  have wf: "hm_wf (mp_messages p)" "length (mp_messages p) \<le> u64_max"
    "counts_wf (map (fst \<circ> fst) (mp_messages p)) (iu_counts (mp_usage p))"
    "index_wf (deadlines p) (mp_eviction_index p) (mp_by_identity p)"
    using assms by (auto simp: pool_shape_def)
  note r = remove_entry[OF wf(1) sr(2)]
  have d: "deadlines p (i, m) = Some (ms_deadline st)" using Some key by (simp add: deadlines_def)
  obtain u where u: "decrement_identity_count env i (mp_usage p) = Some u"
    "counts_wf (map (fst \<circ> fst) ms') (iu_counts u)"
    using decrement_total[OF wf(3), of "map (fst \<circ> fst) ms'" i env] r(4)[of fst] wf(2) key by auto
  have D: "map_option ms_deadline \<circ> map_of ms' = (deadlines p)(key := None)"
    by (auto simp: r(2) deadlines_def fun_eq_iff)
  define by_id where "by_id = (case bt_get (mp_by_identity p) i of None \<Rightarrow> mp_by_identity p
    | Some ix \<Rightarrow> let ix = bs_remove (ms_deadline st, m) ix
        in if ix = [] then bt_remove i (mp_by_identity p) else bt_insert i ix (mp_by_identity p))"
  define p' where "p' = p\<lparr>mp_messages := ms', mp_eviction_index := bs_remove (ms_deadline st, key) (mp_eviction_index p),
    mp_by_identity := by_id, mp_usage := u\<rparr>"
  have "remove_message env key p = Some (Some st, p')"
    using sr(1) u(1) unfolding key remove_message_def by_id_def p'_def Let_def fst_conv snd_conv by simp
  moreover have "deadlines p' = (deadlines p)(key := None)"
    using D by (simp add: p'_def deadlines_def)
  then have "index_wf (deadlines p') (mp_eviction_index p') (mp_by_identity p')"
    using index_wf_remove[OF wf(4) d] by (simp add: p'_def by_id_def key)
  then have "pool_shape p'"
    using assms u(2) r(1,2,3) by (auto simp: pool_shape_def p'_def)
  moreover have "dropped {key} p p'"
    by (auto simp: dropped_def p'_def r(2) restrict_map_def fun_eq_iff)
  ultimately show ?thesis using Some by simp
qed

lemma dropped_wf:
  assumes "dropped K p p'" and "pool_shape p'" and "\<And>k st. k \<notin> K \<Longrightarrow> map_of (mp_messages p) k = Some st \<Longrightarrow>
    state_wf (pc_max_message_size (mp_cfg p)) st"
  shows "pool_wf p'"
  using assms by (auto simp: pool_wf_def dropped_def restrict_map_def split: if_splits)

lemma remove_message_total:
  assumes "pool_wf p"
  shows "\<exists>p'. remove_message env key p = Some (map_of (mp_messages p) key, p') \<and> pool_wf p' \<and> dropped {key} p p'"
  using remove_message_shape[of p env key] dropped_wf assms unfolding pool_wf_def by metis

lemma insert_message_total:
  assumes "pool_wf p" and "map_of (mp_messages p) key = None" and "\<not> admission_blocked p"
    and "now + pc_message_timeout (mp_cfg p) \<le> instant_max"
  shows "\<exists>p'. insert_message key now p = Some p' \<and>
    pool_wf (p'\<lparr>mp_usage := increment_identity_count (fst key) (mp_usage p')\<rparr>) \<and> mp_cfg p' = mp_cfg p \<and>
    map_of (mp_messages p') = (map_of (mp_messages p))(key \<mapsto> message_state_new (now + pc_message_timeout (mp_cfg p)))"
proof -
  obtain i m where key: "key = (i, m)" by (cases key)
  let ?d = "now + pc_message_timeout (mp_cfg p)"
  define p' where "p' = p\<lparr>mp_messages := mp_messages p @ [(key, message_state_new ?d)],
    mp_eviction_index := bs_insert (?d, key) (mp_eviction_index p),
    mp_by_identity := bt_insert i (bs_insert (?d, m) (entry_or [] (bt_get (mp_by_identity p) i))) (mp_by_identity p)\<rparr>"
  have e: "insert_message key now p = Some p'"
    using assms(2,4) by (simp add: insert_message_def checked_add_def alist_update_new key p'_def)
  have M: "map_of (mp_messages p') = (map_of (mp_messages p))(key \<mapsto> message_state_new ?d)"
    using assms(2) by (auto simp: p'_def map_add_def fun_eq_iff split: option.splits)
  have D: "deadlines p' = (deadlines p)(key \<mapsto> ?d)"
    by (auto simp: deadlines_def M fun_eq_iff message_state_new_def)
  have "deadlines p (i, m) = None" using assms(2) key by (simp add: deadlines_def)
  then have ix: "index_wf (deadlines p') (mp_eviction_index p') (mp_by_identity p')"
    using index_wf_insert[of "deadlines p"] assms(1) unfolding D by (simp add: pool_wf_def pool_shape_def p'_def key)
  have h: "hm_wf (mp_messages p')" "length (mp_messages p') \<le> pc_max_messages (mp_cfg p)" "length (mp_messages p) < u64_max"
    using assms(1,2,3) by (auto simp: pool_wf_def pool_shape_def p'_def hm_wf_def admission_blocked_def map_of_eq_None_iff)
  have "state_wf n (message_state_new ?d)" for n
    by (simp add: state_wf_def message_state_new_def bt_values_def)
  then have "pool_wf (p'\<lparr>mp_usage := increment_identity_count i (mp_usage p')\<rparr>)"
    using assms(1) ix h counts_wf_insert[of "map (fst \<circ> fst) (mp_messages p)" "mp_usage p" i]
    by (auto simp: pool_wf_def pool_shape_def M deadlines_def p'_def[THEN arg_cong[where f = mp_cfg]]
        p'_def[THEN arg_cong[where f = mp_usage]] p'_def[THEN arg_cong[where f = mp_messages]] key split: if_splits)
  then show ?thesis using e M by (simp add: key p'_def)
qed

lemma update_shape:
  assumes "pool_shape p" and "map_of (mp_messages p) key = Some st" and "ms_deadline st' = ms_deadline st"
  shows "pool_shape (p\<lparr>mp_messages := AList.update key st' (mp_messages p)\<rparr>)"
proof -
  let ?m = "AList.update key st' (mp_messages p)"
  have k: "map fst ?m = map fst (mp_messages p)" by (rule update_keys) (simp add: assms(2))
  then have "length ?m = length (mp_messages p)" "map (fst \<circ> fst) ?m = map (fst \<circ> fst) (mp_messages p)"
    by (metis length_map, metis map_map)
  moreover have "map_option ms_deadline \<circ> map_of ?m = map_option ms_deadline \<circ> map_of (mp_messages p)"
    using assms(2,3) by (auto simp: update_conv' fun_eq_iff)
  ultimately show ?thesis
    using assms(1) k by (simp add: pool_shape_def deadlines_def hm_wf_def)
qed

section \<open>Decoding a fragment\<close>

definition add_fragment :: "fragment_type \<Rightarrow> u16 \<Rightarrow> bytes \<Rightarrow> message_state \<Rightarrow> message_state" where
  "add_fragment ty seq data st =
     st\<lparr>ms_total_frags := if is_final ty then Some (seq + 1) else ms_total_frags st,
        ms_total_size := ms_total_size st + length data,
        ms_fragments := bt_insert seq data (ms_fragments st)\<rparr>"

definition fragment_fits :: "pool_config \<Rightarrow> fragment_type \<Rightarrow> u16 \<Rightarrow> bytes \<Rightarrow> message_state \<Rightarrow> bool" where
  "fragment_fits cfg ty seq data st \<longleftrightarrow> seq < MAX_FRAGMENTS \<and> bt_get (ms_fragments st) seq = None
     \<and> (is_final ty \<longrightarrow> ms_total_frags st = None)
     \<and> (\<forall>t. ms_total_frags (add_fragment ty seq data st) = Some t \<longrightarrow> seq < t)
     \<and> ms_total_size st + length data \<le> min u64_max (pc_max_message_size cfg)"

definition finish_fragment ::
  "('i::linorder, 'l, 'r) pool_env \<Rightarrow> 'i \<times> u16 \<Rightarrow> message_state \<Rightarrow> ('i, 'l, 'r) message_pool
     \<Rightarrow> ((decode_error + decode_outcome) \<times> ('i, 'l, 'r) message_pool) option" where
  "finish_fragment env key st p =
     (let p = p\<lparr>mp_messages := AList.update key st (mp_messages p)\<rparr>
      in if ms_total_frags st \<noteq> Some (as_u16 (length (ms_fragments st))) then Some (Inr Pending, p)
         else do {
           (removed, p) \<leftarrow> remove_message env key (record_identity_service env (fst key) p);
           st \<leftarrow> removed;
           Some (Inr (Completed (message_extract st)), p)
         })"

lemma seq_succ: "seq < MAX_FRAGMENTS \<Longrightarrow> wrapping_add u16_max seq 1 = seq + 1"
  by (simp add: wrapping_add_def u16_max_def MAX_FRAGMENTS_def)

lemma pool_decode_fits:
  assumes "map_of (mp_messages p) (in_identity input, in_msg_id input) = Some st"
    and "fragment_fits (mp_cfg p) (in_fragment_type input) (in_seq_num input) (in_payload input) st"
  shows "pool_decode env input p = finish_fragment env (in_identity input, in_msg_id input)
    (add_fragment (in_fragment_type input) (in_seq_num input) (in_payload input) st) p"
  using assms seq_succ[of "in_seq_num input"]
  by (auto simp: pool_decode_def fragment_fits_def add_fragment_def finish_fragment_def Let_def checked_add_def
      split: if_splits)

lemma pool_decode_rejects:
  assumes "map_of (mp_messages p) (in_identity input, in_msg_id input) = Some st"
    and "\<not> fragment_fits (mp_cfg p) (in_fragment_type input) (in_seq_num input) (in_payload input) st"
  shows "(\<exists>e. pool_decode env input p = drop_with env (in_identity input, in_msg_id input) e p)
    \<or> (\<exists>e. pool_decode env input p = Some (Inl e, p))"
proof (cases "in_seq_num input < MAX_FRAGMENTS")
  case True
  then show ?thesis
    using assms seq_succ[OF True]
    by (auto simp: pool_decode_def fragment_fits_def add_fragment_def Let_def checked_add_def split: if_splits)
next
  case False
  then show ?thesis using assms(1) by (auto simp: pool_decode_def Let_def)
qed

lemma length_bt_insert: "map_of m k = None \<Longrightarrow> length (bt_insert k v m) = Suc (length m)"
  by (induction k v m rule: bt_insert.induct) (auto split: if_splits)

lemma size_bt_insert:
  "map_of m k = None \<Longrightarrow> length (concat (bt_values (bt_insert k v m))) = length (concat (bt_values m)) + length v"
  by (induction k v m rule: bt_insert.induct) (auto simp: bt_values_def split: if_splits)

lemma fragments_bounded:
  assumes "bt_wf m" and "\<forall>s \<in> fst ` set m. s < MAX_FRAGMENTS"
  shows "as_u16 (length m) = length m" "length m \<le> MAX_FRAGMENTS"
proof -
  have "set (map fst m) \<subseteq> {..<MAX_FRAGMENTS}" using assms(2) by auto
  then have "card (set (map fst m)) \<le> MAX_FRAGMENTS" using card_mono[of "{..<MAX_FRAGMENTS}"] by force
  then show "length m \<le> MAX_FRAGMENTS"
    using distinct_card[OF bt_wf_distinct[OF assms(1)]] by simp
  then show "as_u16 (length m) = length m" by (simp add: as_u16_def MAX_FRAGMENTS_def)
qed

lemma add_fragment_wf:
  assumes "state_wf (pc_max_message_size cfg) st" and "fragment_fits cfg ty seq data st"
    and "ms_total_frags (add_fragment ty seq data st) \<noteq> Some (length (ms_fragments (add_fragment ty seq data st)))"
  shows "state_wf (pc_max_message_size cfg) (add_fragment ty seq data st)"
  using assms by (auto simp: state_wf_def fragment_fits_def add_fragment_def size_bt_insert split: if_splits)

lemma add_fragment_count:
  assumes "state_wf n st" and "fragment_fits cfg ty seq data st"
  shows "as_u16 (length (ms_fragments (add_fragment ty seq data st))) = Suc (length (ms_fragments st))"
  using assms fragments_bounded[of "bt_insert seq data (ms_fragments st)"]
  by (simp add: state_wf_def fragment_fits_def add_fragment_def length_bt_insert)

text \<open>A fragment that fits is stored, or completes the message, which leaves the pool.\<close>

lemma finish_fragment_total:
  assumes wf: "pool_wf p" and st: "map_of (mp_messages p) key = Some st"
    and fits: "fragment_fits (mp_cfg p) ty seq data st"
  defines "st' \<equiv> add_fragment ty seq data st"
  shows "\<exists>p'. pool_wf p' \<and> mp_cfg p' = mp_cfg p \<and>
    (if ms_total_frags st' = Some (Suc (length (ms_fragments st)))
     then finish_fragment env key st' p = Some (Inr (Completed (message_extract st')), p') \<and>
       map_of (mp_messages p') = (map_of (mp_messages p))(key := None)
     else finish_fragment env key st' p = Some (Inr Pending, p') \<and>
       map_of (mp_messages p') = (map_of (mp_messages p))(key \<mapsto> st'))"
proof -
  let ?p = "p\<lparr>mp_messages := AList.update key st' (mp_messages p)\<rparr>"
  have sw: "state_wf (pc_max_message_size (mp_cfg p)) st" using pool_wf_state[OF wf st] .
  have c: "as_u16 (length (ms_fragments st')) = Suc (length (ms_fragments st))"
    "length (ms_fragments st') = Suc (length (ms_fragments st))"
    unfolding st'_def using add_fragment_count[OF sw fits] fits
    by (simp_all add: add_fragment_def fragment_fits_def length_bt_insert)
  have sh: "pool_shape ?p"
    using update_shape[of p key st st'] wf st by (simp add: pool_wf_def st'_def add_fragment_def)
  have states: "state_wf (pc_max_message_size (mp_cfg p)) s" if "k \<noteq> key" "map_of (mp_messages ?p) k = Some s" for k s
    using that pool_wf_state[OF wf, of k s] by (simp add: update_conv')
  show ?thesis
  proof (cases "ms_total_frags st' = Some (Suc (length (ms_fragments st)))")
    case False
    then have "state_wf (pc_max_message_size (mp_cfg p)) st'"
      using add_fragment_wf[OF sw fits] c(2) by (simp add: st'_def)
    moreover have "map_of (mp_messages ?p) key = Some st'" by (simp add: update_conv')
    ultimately have "state_wf (pc_max_message_size (mp_cfg p)) s" if "map_of (mp_messages ?p) k = Some s" for k s
      using that states[of k s] by (cases "k = key") simp_all
    then have "pool_wf ?p" using pool_wfI[OF sh] by simp
    then show ?thesis using False c by (intro exI[of _ ?p]) (simp add: finish_fragment_def update_conv')
  next
    case True
    let ?q = "record_identity_service env (fst key) ?p"
    have "pool_shape ?q" using sh by (simp add: pool_shape_def record_identity_service_def deadlines_def)
    from remove_message_shape[OF this, of env key] obtain p' where
      r: "remove_message env key ?q = Some (Some st', p')" "pool_shape p'" "dropped {key} ?q p'"
      by (auto simp: record_identity_service_def update_conv')
    have "pool_wf p'"
      using dropped_wf[OF r(3,2)] states by (simp add: record_identity_service_def)
    moreover have "map_of (mp_messages p') = (map_of (mp_messages p))(key := None)" "mp_cfg p' = mp_cfg p"
      using r(3) by (auto simp: dropped_def record_identity_service_def update_conv' restrict_map_def fun_eq_iff)
    ultimately show ?thesis
      using True c r(1) by (intro exI[of _ p']) (simp add: finish_fragment_def)
  qed
qed

lemma drop_with_total:
  assumes "pool_wf p"
  shows "\<exists>p'. drop_with env key e p = Some (Inl e, p') \<and> pool_wf p' \<and> dropped {key} p p'"
  using remove_message_total[OF assms, of env key] by (auto simp: drop_with_def)

lemma pool_decode_total:
  assumes "pool_wf p"
  shows "\<exists>r p'. pool_decode env input p = Some (r, p') \<and> pool_wf p' \<and> mp_cfg p' = mp_cfg p"
proof (cases "map_of (mp_messages p) (in_identity input, in_msg_id input)")
  case None
  then show ?thesis using assms by (simp add: pool_decode_def)
next
  case (Some st)
  show ?thesis
  proof (cases "fragment_fits (mp_cfg p) (in_fragment_type input) (in_seq_num input) (in_payload input) st")
    case True
    then show ?thesis
      using finish_fragment_total[OF assms Some True, of env] pool_decode_fits[OF Some True, of env]
      by (auto split: if_splits)
  next
    case False
    then show ?thesis
      using pool_decode_rejects[OF Some False, of env] drop_with_total[OF assms] assms
      by (metis dropped_def)
  qed
qed

section \<open>Admission\<close>

text \<open>Making room drops messages and keeps the pool well formed; a key that is absent stays absent.\<close>

definition makes_room :: "('i::linorder, 'l, 'r) message_pool \<Rightarrow> ('i, 'l, 'r) message_pool \<Rightarrow> bool" where
  "makes_room p p' \<longleftrightarrow> pool_wf p' \<and> mp_cfg p' = mp_cfg p
     \<and> dom (map_of (mp_messages p')) \<subseteq> dom (map_of (mp_messages p))"

lemma makes_room_refl: "pool_wf p \<Longrightarrow> makes_room p p"
  by (simp add: makes_room_def)

lemma makes_room_trans: "makes_room p q \<Longrightarrow> makes_room q r \<Longrightarrow> makes_room p r"
  unfolding makes_room_def by (elim conjE, intro conjI, assumption, simp, rule subset_trans, assumption+)

lemma makes_room_absent: "makes_room p p' \<Longrightarrow> map_of (mp_messages p) k = None \<Longrightarrow> map_of (mp_messages p') k = None"
  unfolding makes_room_def by blast

lemma makes_room_policy:
  "pool_wf p \<Longrightarrow> makes_room p (p\<lparr>mp_usage := (mp_usage p)\<lparr>iu_policy := l\<rparr>\<rparr>)" "pool_wf p \<Longrightarrow> makes_room p (p\<lparr>mp_rng := g\<rparr>)"
  by (simp_all add: makes_room_def)

lemma remove_message_room:
  assumes "pool_wf p"
  shows "\<exists>r p'. remove_message env key p = Some (r, p') \<and> makes_room p p'"
  using remove_message_total[OF assms, of env key] by (auto simp: makes_room_def dropped_def)

lemma evict_candidate_room:
  assumes "pool_wf p"
  shows "\<exists>r p'. evict_candidate_if_stale env c now p = Some (r, p') \<and> makes_room p p'"
proof (cases c)
  case (Some e)
  obtain r p' where "remove_message env (snd e) p = Some (r, p')" "makes_room p p'"
    using remove_message_room[OF assms] by blast
  then show ?thesis
    using Some makes_room_refl[OF assms] by (cases e) (auto simp: evict_candidate_if_stale_def)
qed (auto simp: evict_candidate_if_stale_def makes_room_refl[OF assms])

lemma message_status_room:
  assumes "pool_wf p"
  shows "\<exists>r p'. pool_message_status env key now p = Some (r, p') \<and> makes_room p p'"
proof -
  obtain r p' where "remove_message env key p = Some (r, p')" "makes_room p p'"
    using remove_message_room[OF assms] by blast
  then show ?thesis
    using makes_room_refl[OF assms] by (cases "map_of (mp_messages p) key") (simp_all add: pool_message_status_def)
qed

lemma identity_capacity_room:
  assumes "pool_wf p"
  shows "makes_room p (snd (ensure_identity_capacity env i p))" "makes_room p (snd (is_at_identity_limit env i p))"
  using makes_room_policy(1)[OF assms]
  by (auto simp: ensure_identity_capacity_def is_at_identity_limit_def usage_ensure_identity_capacity_def
      usage_is_at_limit_def limit_for_new_message_def split_def Let_def)

lemma evict_one_room:
  assumes "pool_wf p"
  shows "\<exists>r p'. evict_one_stale_for_identity_if_limited env i now p = Some (r, p') \<and> makes_room p p'"
proof -
  obtain b q where q: "is_at_identity_limit env i p = (b, q)" by force
  then have m: "makes_room p q" using identity_capacity_room(2)[OF assms, of env i] by simp
  then have "pool_wf q" by (simp add: makes_room_def)
  then obtain r p' where "evict_stale_for_identity env i now q = Some (r, p')" "makes_room q p'"
    using evict_candidate_room unfolding evict_stale_for_identity_def by blast
  then show ?thesis
    using makes_room_trans[OF m] m by (cases b) (auto simp: evict_one_stale_for_identity_if_limited_def q)
qed

lemma evict_before_admission_room:
  assumes "pool_wf p"
  shows "\<exists>r p'. evict_before_admission env now p = Some (r, p') \<and> makes_room p p'"
proof (cases "mp_messages p = []")
  case True
  then show ?thesis using makes_room_refl[OF assms] by (simp add: evict_before_admission_def)
next
  case False
  obtain b q where q: "evict_candidate_if_stale env (bs_first (mp_eviction_index p)) now p = Some (b, q)" "makes_room p q"
    using evict_candidate_room[OF assms, of env] by blast
  obtain i g where g: "pe_gen_range env (length (mp_messages q)) (mp_rng q) = (i, g)" by force
  let ?q = "q\<lparr>mp_rng := g\<rparr>"
  have wq: "pool_wf ?q" using q(2) by (simp add: makes_room_def)
  have m: "makes_room p ?q" using q(2) by (simp add: makes_room_def)
  obtain r p' where r: "remove_message env (fst (mp_messages q ! i)) ?q = Some (r, p')" "makes_room ?q p'"
    using remove_message_room[OF wq] by blast
  show ?thesis
    using False q g m r makes_room_trans[OF m r(2)] by (auto simp: evict_before_admission_def Let_def)
qed

lemma decode_with_admission_total:
  assumes "pool_wf p" and "now + pc_message_timeout (mp_cfg p) \<le> instant_max" and "fst key = in_identity input"
  shows "\<exists>r p'. decode_with_admission env now key input p = Some (r, p') \<and> pool_wf p' \<and> mp_cfg p' = mp_cfg p"
proof (cases "has_message p key")
  case True
  then show ?thesis
    using pool_decode_total[OF assms(1), of env input] by (auto simp: decode_with_admission_def)
next
  case False
  obtain v q where q: "(if admission_blocked p then evict_before_admission env now p else Some (None, p)) = Some (v, q)"
    "makes_room p q"
    using evict_before_admission_room[OF assms(1), of env now] makes_room_refl[OF assms(1)]
    by (cases "admission_blocked p") auto
  have wq: "pool_wf q" "mp_cfg q = mp_cfg p" "map_of (mp_messages q) key = None"
    using q(2) False makes_room_absent[OF q(2)] by (simp_all add: makes_room_def has_message_def)
  show ?thesis
  proof (cases "admission_blocked q")
    case True
    then show ?thesis using False q(1) wq by (simp add: decode_with_admission_def)
  next
    case ok: False
    obtain q' where i: "insert_message key now q = Some q'" "mp_cfg q' = mp_cfg p"
      "pool_wf (q'\<lparr>mp_usage := increment_identity_count (in_identity input) (mp_usage q')\<rparr>)"
      using insert_message_total[OF wq(1,3) ok, of now] assms(2,3) wq(2) by auto
    show ?thesis
      using pool_decode_total[OF i(3), of env input] False q(1) ok i(1,2)
      by (auto simp: decode_with_admission_def)
  qed
qed

end
