(* ===== verification/Lean_Udp_Decoder.thy ===== *)
theory Lean_Udp_Decoder
  imports Lean_Udp_Pool
begin

text \<open>
  The LeanUDP decoder, from \<^verbatim>\<open>monad-leanudp/src/decoder.rs\<close>: it parses a packet, chooses one of its
  two pools and hands the fragment to it.  The scoring of identities is the trait \<^verbatim>\<open>IdentityScore\<close> and
  the clock is the trait \<^verbatim>\<open>Clock\<close>; the score is an argument of the definitions and the time of each
  packet comes with the packet.

  The theorems: the decoder never panics and stays within the memory its configuration grants, for
  every sequence of packets; and the fragments of a message, delivered in any order before the
  deadline, reassemble to the message.
\<close>

section \<open>Configuration\<close>

datatype fragment_policy = Regular | Prioritized

record udp_config =
  uc_max_message_size :: nat
  uc_max_priority_messages :: nat
  uc_max_regular_messages :: nat
  uc_max_messages_per_identity :: nat
  uc_message_timeout :: nat
  uc_max_fragment_payload :: nat

definition udp_config_default :: udp_config where
  "udp_config_default =
     \<lparr>uc_max_message_size = 512 * 1024, uc_max_priority_messages = 2048, uc_max_regular_messages = 1024,
      uc_max_messages_per_identity = 100, uc_message_timeout = 100 * 1000000, uc_max_fragment_payload = 1440\<rparr>"

definition udp_config_validate :: "udp_config \<Rightarrow> unit option" where
  "udp_config_validate c = do {
     assert_p (uc_max_message_size c > 0);
     assert_p (uc_max_messages_per_identity c > 0);
     assert_p (uc_message_timeout c \<noteq> 0);
     assert_p (uc_max_fragment_payload c > LEANUDP_HEADER_SIZE)
   }"

definition pool_config_from_config :: "udp_config \<Rightarrow> nat \<Rightarrow> pool_config" where
  "pool_config_from_config c max_messages =
     \<lparr>pc_max_messages = max_messages, pc_max_message_size = uc_max_message_size c,
      pc_message_timeout = uc_message_timeout c\<rparr>"

section \<open>The decoder\<close>

datatype pool_selection = Priority | RegularPool

fun selection_of_policy :: "fragment_policy \<Rightarrow> pool_selection" where
  "selection_of_policy Prioritized = Priority"
| "selection_of_policy Regular = RegularPool"

record ('i, 'l, 'r) decoder =
  dc_priority :: "('i, 'l, 'r) message_pool"
  dc_regular :: "('i, 'l, 'r) message_pool"

definition decoder_new :: "udp_config \<Rightarrow> 'r \<Rightarrow> 'r \<Rightarrow> 'l \<Rightarrow> 'l \<Rightarrow> ('i, 'l, 'r) decoder" where
  "decoder_new c priority_rng regular_rng priority_policy regular_policy =
     \<lparr>dc_priority = pool_new (pool_config_from_config c (uc_max_priority_messages c)) priority_rng priority_policy,
      dc_regular = pool_new (pool_config_from_config c (uc_max_regular_messages c)) regular_rng regular_policy\<rparr>"

definition udp_build ::
  "udp_config \<Rightarrow> 'r \<Rightarrow> 'r \<Rightarrow> 'l \<Rightarrow> 'l \<Rightarrow> (encoder \<times> ('i, 'l, 'r) decoder) option" where
  "udp_build c priority_rng regular_rng priority_policy regular_policy = do {
     udp_config_validate c;
     Some (encoder_new (uc_max_fragment_payload c),
           decoder_new c priority_rng regular_rng priority_policy regular_policy)
   }"

definition get_pool :: "pool_selection \<Rightarrow> ('i, 'l, 'r) decoder \<Rightarrow> ('i, 'l, 'r) message_pool" where
  "get_pool s d = (case s of Priority \<Rightarrow> dc_priority d | RegularPool \<Rightarrow> dc_regular d)"

definition set_pool :: "pool_selection \<Rightarrow> ('i, 'l, 'r) message_pool \<Rightarrow> ('i, 'l, 'r) decoder \<Rightarrow> ('i, 'l, 'r) decoder" where
  "set_pool s p d = (case s of Priority \<Rightarrow> d\<lparr>dc_priority := p\<rparr> | RegularPool \<Rightarrow> d\<lparr>dc_regular := p\<rparr>)"

definition select_pool ::
  "('i::linorder, 'l, 'r) pool_env \<Rightarrow> ('i \<Rightarrow> fragment_policy) \<Rightarrow> 'i \<Rightarrow> 'i \<times> u16 \<Rightarrow> instant \<Rightarrow> ('i, 'l, 'r) decoder
     \<Rightarrow> (pool_selection \<times> ('i, 'l, 'r) decoder) option" where
  "select_pool env score i key now d = do {
     (status, p) \<leftarrow> pool_message_status env key now (dc_priority d);
     let d = d\<lparr>dc_priority := p\<rparr>;
     case status of
       Active \<Rightarrow> Some (Priority, d)
     | Stale \<Rightarrow> Some (selection_of_policy (score i), d)
     | Missing \<Rightarrow> do {
         (status, p) \<leftarrow> pool_message_status env key now (dc_regular d);
         let d = d\<lparr>dc_regular := p\<rparr>;
         Some (case status of Active \<Rightarrow> RegularPool | _ \<Rightarrow> selection_of_policy (score i), d)
       }
   }"

definition decode_in_pool ::
  "('i::linorder, 'l, 'r) pool_env \<Rightarrow> instant \<Rightarrow> pool_selection \<Rightarrow> 'i \<times> u16 \<Rightarrow> 'i fragment_input \<Rightarrow> ('i, 'l, 'r) decoder
     \<Rightarrow> ((decode_error + decode_outcome) \<times> ('i, 'l, 'r) decoder) option" where
  "decode_in_pool env now sel key input d =
     (let admit = (\<lambda>p. do {
            ((r, _), p) \<leftarrow> decode_with_admission env now key input p;
            Some (r, set_pool sel p d)
          })
      in if has_message (get_pool sel d) key then admit (get_pool sel d)
         else do {
           (_, p) \<leftarrow> evict_one_stale_for_identity_if_limited env (in_identity input) now (get_pool sel d);
           let (r, p) = ensure_identity_capacity env (in_identity input) p;
           case r of
             Inl e \<Rightarrow> Some (Inl e, set_pool sel p d)
           | Inr _ \<Rightarrow> admit p
         })"

definition decoder_decode ::
  "('i::linorder, 'l, 'r) pool_env \<Rightarrow> ('i \<Rightarrow> fragment_policy) \<Rightarrow> instant \<Rightarrow> 'i \<Rightarrow> decode_error + packet \<Rightarrow> ('i, 'l, 'r) decoder
     \<Rightarrow> ((decode_error + decode_outcome) \<times> ('i, 'l, 'r) decoder) option" where
  "decoder_decode env score now i packet d =
     (case packet of
        Inl e \<Rightarrow> Some (Inl e, d)
      | Inr (header, payload) \<Rightarrow>
          if ph_version header \<noteq> LEANUDP_PROTOCOL_VERSION then
            Some (Inl (UnsupportedVersion (ph_version header) LEANUDP_PROTOCOL_VERSION), d)
          else if \<not> has_known_flags header then Some (Inl InvalidHeader, d)
          else
            let key = (i, ph_msg_id header) in do {
              (sel, d) \<leftarrow> select_pool env score i key now d;
              decode_in_pool env now sel key
                \<lparr>in_identity = i, in_msg_id = ph_msg_id header, in_seq_num = ph_seq_num header,
                 in_fragment_type = header_fragment_type header, in_payload = payload\<rparr> d
            })"

text \<open>Receiving a sequence of datagrams, each at its time and from its identity.\<close>

fun receive_all ::
  "('i::linorder, 'l, 'r) pool_env \<Rightarrow> ('i \<Rightarrow> fragment_policy) \<Rightarrow> (instant \<times> 'i \<times> bytes) list \<Rightarrow> ('i, 'l, 'r) decoder
     \<Rightarrow> ((decode_error + decode_outcome) list \<times> ('i, 'l, 'r) decoder) option" where
  "receive_all env score [] d = Some ([], d)"
| "receive_all env score ((now, i, datagram) # rest) d = do {
     (r, d) \<leftarrow> decoder_decode env score now i (packet_try_from datagram) d;
     (rs, d) \<leftarrow> receive_all env score rest d;
     Some (r # rs, d)
   }"

section \<open>The decoder stays well formed\<close>

definition decoder_wf :: "udp_config \<Rightarrow> ('i::linorder, 'l, 'r) decoder \<Rightarrow> bool" where
  "decoder_wf c d \<longleftrightarrow> pool_wf (dc_priority d) \<and> pool_wf (dc_regular d)
     \<and> mp_cfg (dc_priority d) = pool_config_from_config c (uc_max_priority_messages c)
     \<and> mp_cfg (dc_regular d) = pool_config_from_config c (uc_max_regular_messages c)"

definition stored_bytes :: "('i, 'l, 'r) message_pool \<Rightarrow> nat" where
  "stored_bytes p = sum_list (map (\<lambda>e. length (message_extract (snd e))) (mp_messages p))"

lemma stored_bytes_bound:
  assumes "pool_wf p"
  shows "stored_bytes p \<le> pc_max_messages (mp_cfg p) * pc_max_message_size (mp_cfg p)"
proof -
  have "length (message_extract (snd e)) \<le> pc_max_message_size (mp_cfg p)" if "e \<in> set (mp_messages p)" for e
  proof -
    have "map_of (mp_messages p) (fst e) = Some (snd e)"
      using that assms by (auto simp: pool_wf_def pool_shape_def hm_wf_def intro!: map_of_is_SomeI)
    from pool_wf_state[OF assms this] show ?thesis by (simp add: state_wf_def message_extract_def)
  qed
  then have "stored_bytes p \<le> length (mp_messages p) * pc_max_message_size (mp_cfg p)"
    unfolding stored_bytes_def
    using sum_list_mono[of "mp_messages p" _ "\<lambda>_. pc_max_message_size (mp_cfg p)"]
    by (simp add: sum_list_triv)
  also have "\<dots> \<le> pc_max_messages (mp_cfg p) * pc_max_message_size (mp_cfg p)"
    using assms by (intro mult_le_mono1) (simp add: pool_wf_def pool_shape_def)
  finally show ?thesis .
qed

lemma decoder_new_wf:
  assumes "uc_max_priority_messages c \<le> u64_max" and "uc_max_regular_messages c \<le> u64_max"
  shows "decoder_wf c (decoder_new c g h l m)"
  using assms by (simp add: decoder_wf_def decoder_new_def pool_wf_new pool_config_from_config_def)

lemma decoder_wf_pool:
  assumes "decoder_wf c d"
  shows "pool_wf (get_pool s d)" "pc_message_timeout (mp_cfg (get_pool s d)) = uc_message_timeout c"
  using assms by (cases s; simp add: decoder_wf_def get_pool_def pool_config_from_config_def)+

lemma decoder_wf_set:
  assumes "decoder_wf c d" and "pool_wf p" and "mp_cfg p = mp_cfg (get_pool s d)"
  shows "decoder_wf c (set_pool s p d)"
  using assms by (cases s) (simp_all add: decoder_wf_def set_pool_def get_pool_def)

lemma get_set_pool [simp]:
  "get_pool s (set_pool t p d) = (if s = t then p else get_pool s d)" "set_pool s (get_pool s d) d = d"
  by (cases s; cases t; simp add: get_pool_def set_pool_def) (cases s; simp add: get_pool_def set_pool_def)

lemma select_pool_total:
  assumes "decoder_wf c d"
  shows "\<exists>s d'. select_pool env score i key now d = Some (s, d') \<and> decoder_wf c d'
    \<and> makes_room (dc_priority d) (dc_priority d') \<and> makes_room (dc_regular d) (dc_regular d')"
proof -
  have w: "pool_wf (dc_priority d)" "pool_wf (dc_regular d)" using assms by (simp_all add: decoder_wf_def)
  obtain a p where a: "pool_message_status env key now (dc_priority d) = Some (a, p)" "makes_room (dc_priority d) p"
    using message_status_room[OF w(1)] by blast
  obtain b q where b: "pool_message_status env key now (dc_regular d) = Some (b, q)" "makes_room (dc_regular d) q"
    using message_status_room[OF w(2)] by blast
  show ?thesis
    using assms a b makes_room_refl[OF w(2)]
    by (cases a) (auto simp: select_pool_def decoder_wf_def makes_room_def)
qed

lemma decode_in_pool_total:
  assumes "decoder_wf c d" and "now + uc_message_timeout c \<le> instant_max" and "fst key = in_identity input"
  shows "\<exists>r d'. decode_in_pool env now s key input d = Some (r, d') \<and> decoder_wf c d'"
proof -
  note w = decoder_wf_pool[OF assms(1), of s]
  have admit: "\<exists>r q. decode_with_admission env now key input p = Some (r, q) \<and> decoder_wf c (set_pool s q d)"
    if "makes_room (get_pool s d) p" for p
    using decode_with_admission_total[of p now key input env] decoder_wf_set[OF assms(1)] that assms(2,3) w(2)
    by (auto simp: makes_room_def)
  obtain b p where e: "evict_one_stale_for_identity_if_limited env (in_identity input) now (get_pool s d) = Some (b, p)"
    "makes_room (get_pool s d) p"
    using evict_one_room[OF w(1)] by blast
  obtain r q where q: "ensure_identity_capacity env (in_identity input) p = (r, q)" by force
  have "makes_room (get_pool s d) q"
    using identity_capacity_room(1)[of p env "in_identity input"] q e(2) makes_room_trans[OF e(2)]
    by (simp add: makes_room_def)
  moreover from this have "decoder_wf c (set_pool s q d)"
    using decoder_wf_set[OF assms(1)] by (simp add: makes_room_def)
  ultimately show ?thesis
    using admit[of q] admit[OF makes_room_refl[OF w(1)]] e(1) q
    by (cases r) (auto simp: decode_in_pool_def Let_def)
qed

lemma decoder_decode_total:
  assumes "decoder_wf c d" and "now + uc_message_timeout c \<le> instant_max"
  shows "\<exists>r d'. decoder_decode env score now i packet d = Some (r, d') \<and> decoder_wf c d'"
proof (cases packet)
  case (Inr hp)
  obtain h p where hp: "hp = (h, p)" by (cases hp)
  let ?in = "\<lparr>in_identity = i, in_msg_id = ph_msg_id h, in_seq_num = ph_seq_num h,
    in_fragment_type = header_fragment_type h, in_payload = p\<rparr>"
  obtain s d' where s: "select_pool env score i (i, ph_msg_id h) now d = Some (s, d')" "decoder_wf c d'"
    using select_pool_total[OF assms(1)] by blast
  show ?thesis
    using decode_in_pool_total[OF s(2) assms(2), of "(i, ph_msg_id h)" ?in env s] s(1) assms(1)
    by (auto simp: decoder_decode_def Inr hp)
qed (simp add: decoder_decode_def assms(1))

lemma receive_all_total:
  assumes "decoder_wf c d" and "\<forall>(now, _) \<in> set packets. now + uc_message_timeout c \<le> instant_max"
  shows "\<exists>rs d'. receive_all env score packets d = Some (rs, d') \<and> length rs = length packets \<and> decoder_wf c d'"
  using assms
proof (induction packets arbitrary: d)
  case (Cons x packets)
  obtain now i b where x: "x = (now, i, b)" by (cases x)
  obtain r d1 where "decoder_decode env score now i (packet_try_from b) d = Some (r, d1)" "decoder_wf c d1"
    using decoder_decode_total[OF Cons.prems(1)] Cons.prems(2) x by fastforce
  moreover obtain rs d2 where "receive_all env score packets d1 = Some (rs, d2)" "length rs = length packets" "decoder_wf c d2"
    using Cons.IH[OF calculation(2)] Cons.prems(2) by auto
  ultimately show ?case by (simp add: x)
qed simp

section \<open>Reassembly\<close>

text \<open>The state of a message of \<open>n\<close> fragments of which those with the numbers \<open>ds\<close> have arrived.\<close>

definition holds :: "nat \<Rightarrow> nat \<Rightarrow> bytes \<Rightarrow> nat set \<Rightarrow> message_state \<Rightarrow> bool" where
  "holds n m payload ds st \<longleftrightarrow> bt_wf (ms_fragments st)
     \<and> map_of (ms_fragments st) = (\<lambda>i. if i \<in> ds then Some (chunk m payload i) else None)
     \<and> ms_total_size st = (\<Sum>i\<in>ds. length (chunk m payload i))
     \<and> ms_total_frags st = (if n - 1 \<in> ds then Some n else None)"

lemma holds_new: "holds n m payload {} (message_state_new t)"
  by (simp add: holds_def message_state_new_def)

lemma holds_count:
  assumes "holds n m payload ds st" and "finite ds"
  shows "length (ms_fragments st) = card ds"
proof -
  have "fst ` set (ms_fragments st) = ds"
    using assms(1) by (auto simp: holds_def dom_map_of_conv_image_fst[symmetric] split: if_splits)
  then show ?thesis
    using distinct_card[OF bt_wf_distinct[of "ms_fragments st"]] assms(1) by (simp add: holds_def)
qed

lemma position_final: "i < n \<Longrightarrow> is_final (position_type n i) \<longleftrightarrow> i = n - 1"
  by (auto simp: is_final_def position_type_def)

lemma holds_add:
  assumes "holds n m payload ds st" and "i < n" and "i \<notin> ds" and "finite ds"
  shows "holds n m payload (insert i ds) (add_fragment (position_type n i) i (chunk m payload i) st)"
  using assms by (auto simp: holds_def add_fragment_def position_final fun_eq_iff)

lemma chunks_size:
  assumes "concat (map (chunk m payload) [0..<n]) = payload" and "ds \<subseteq> {..<n}"
  shows "(\<Sum>i\<in>ds. length (chunk m payload i)) \<le> length payload"
proof -
  have "(\<Sum>i\<in>ds. length (chunk m payload i)) \<le> (\<Sum>i<n. length (chunk m payload i))"
    using assms(2) by (intro sum_mono2) auto
  also have "\<dots> = length (concat (map (chunk m payload) [0..<n]))"
    by (simp add: length_concat interv_sum_list_conv_sum_set_nat o_def atLeast0LessThan)
  finally show ?thesis using assms(1) by simp
qed

lemma holds_fits:
  assumes "holds n m payload ds st" and "i < n" and "i \<notin> ds" and "ds \<subseteq> {..<n}" and "n \<le> MAX_FRAGMENTS"
    and "concat (map (chunk m payload) [0..<n]) = payload"
    and "length payload \<le> min u64_max (pc_max_message_size cfg)"
  shows "fragment_fits cfg (position_type n i) i (chunk m payload i) st"
proof -
  have "finite ds" using assms(4) finite_subset by blast
  then have "ms_total_size st + length (chunk m payload i) = (\<Sum>j\<in>insert i ds. length (chunk m payload j))"
    using assms(1,3) by (simp add: holds_def)
  then have "ms_total_size st + length (chunk m payload i) \<le> length payload"
    using chunks_size[OF assms(6), of "insert i ds"] assms(2,4) by simp
  then show ?thesis
    using assms by (auto simp: fragment_fits_def holds_def add_fragment_def position_final split: if_splits)
qed

lemma holds_all_extract:
  assumes "holds n m payload {..<n} st" and "concat (map (chunk m payload) [0..<n]) = payload"
  shows "message_extract st = payload"
proof -
  have "set (map fst (ms_fragments st)) = {..<n}"
    using assms(1) by (auto simp: holds_def dom_map_of_conv_image_fst[symmetric] split: if_splits)
  then have k: "map fst (ms_fragments st) = [0..<n]"
    using assms(1) by (intro sorted_distinct_set_unique)
      (auto simp: holds_def bt_wf_def strict_sorted_iff atLeast0LessThan)
  have "snd e = chunk m payload (fst e)" if "e \<in> set (ms_fragments st)" for e
    using that assms(1) map_of_is_SomeI[OF bt_wf_distinct, of "ms_fragments st" "fst e" "snd e"]
    by (auto simp: holds_def split: if_splits)
  then have "bt_values (ms_fragments st) = map (chunk m payload) (map fst (ms_fragments st))"
    by (simp add: bt_values_def)
  then show ?thesis unfolding message_extract_def k using assms(2) by simp
qed

text \<open>One more fragment of a message in a pool.\<close>

lemma pool_decode_next:
  assumes wf: "pool_wf p" and st: "map_of (mp_messages p) (j, msg_id) = Some st" and h: "holds n m payload ds st"
    and i: "i < n" "i \<notin> ds" "ds \<subseteq> {..<n}" and n: "n \<le> MAX_FRAGMENTS"
    and pl: "concat (map (chunk m payload) [0..<n]) = payload" "length payload \<le> min u64_max (pc_max_message_size (mp_cfg p))"
  defines "input \<equiv> \<lparr>in_identity = j, in_msg_id = msg_id, in_seq_num = i, in_fragment_type = position_type n i,
    in_payload = chunk m payload i\<rparr>"
  shows "\<exists>p'. pool_wf p' \<and> mp_cfg p' = mp_cfg p \<and>
    (if insert i ds = {..<n} then pool_decode env input p = Some (Inr (Completed payload), p')
     else pool_decode env input p = Some (Inr Pending, p') \<and>
       (\<exists>st'. map_of (mp_messages p') (j, msg_id) = Some st' \<and> holds n m payload (insert i ds) st' \<and>
         ms_deadline st' = ms_deadline st))"
proof -
  let ?st = "add_fragment (position_type n i) i (chunk m payload i) st"
  have f: "finite ds" using i(3) finite_subset by blast
  note fits = holds_fits[OF h i n pl]
  note h' = holds_add[OF h i(1,2) f]
  have e: "pool_decode env input p = finish_fragment env (j, msg_id) ?st p"
    using pool_decode_fits[of p input st env] st fits by (simp add: input_def)
  have "card (insert i ds) = n \<longleftrightarrow> insert i ds = {..<n}"
  proof
    show "insert i ds = {..<n}" if "card (insert i ds) = n"
      using card_subset_eq[of "{..<n}" "insert i ds"] that i by simp
  qed simp
  moreover have "Suc (length (ms_fragments st)) = card (insert i ds)"
    using holds_count[OF h f] i(2) f by simp
  moreover have "n - 1 \<in> insert i ds" if "insert i ds = {..<n}" unfolding that using i(1) by simp
  moreover have "ms_total_frags ?st = (if n - 1 \<in> insert i ds then Some n else None)"
    using h' unfolding holds_def by blast
  ultimately have c: "ms_total_frags ?st = Some (Suc (length (ms_fragments st))) \<longleftrightarrow> insert i ds = {..<n}"
    by (metis option.inject option.distinct(1))
  have "insert i ds = {..<n} \<Longrightarrow> message_extract ?st = payload"
    using holds_all_extract[of n m payload ?st] h' pl(1) by simp
  then show ?thesis
    using finish_fragment_total[OF wf st fits, of env] h' unfolding e c
    by (cases "insert i ds = {..<n}") (auto simp: add_fragment_def)
qed

text \<open>A fragment of a message that is in progress goes to the pool that has the message.\<close>

definition in_progress :: "pool_selection \<Rightarrow> 'i \<times> u16 \<Rightarrow> message_state \<Rightarrow> ('i, 'l, 'r) decoder \<Rightarrow> bool" where
  "in_progress s key st d \<longleftrightarrow> map_of (mp_messages (get_pool s d)) key = Some st
     \<and> (s = RegularPool \<longrightarrow> map_of (mp_messages (dc_priority d)) key = None)"

lemma decode_active:
  assumes "in_progress s (j, ph_msg_id h) st d" and "now < ms_deadline st"
    and "ph_version h = LEANUDP_PROTOCOL_VERSION" and "has_known_flags h"
  shows "decoder_decode env score now j (Inr (h, data)) d =
    map_option (\<lambda>(r, p). (r, set_pool s p d))
      (pool_decode env \<lparr>in_identity = j, in_msg_id = ph_msg_id h, in_seq_num = ph_seq_num h,
         in_fragment_type = header_fragment_type h, in_payload = data\<rparr> (get_pool s d))"
proof -
  have sel: "select_pool env score j (j, ph_msg_id h) now d = Some (s, d)"
    using assms(1,2) by (cases s) (simp_all add: in_progress_def select_pool_def pool_message_status_def get_pool_def)
  have "has_message (get_pool s d) (j, ph_msg_id h)"
    using assms(1) by (simp add: in_progress_def has_message_def)
  then show ?thesis
    using assms(3,4)
    by (simp add: decoder_decode_def sel decode_in_pool_def decode_with_admission_def Let_def map_option_case
        split: option.splits)
qed

lemma decode_admitted:
  assumes wf: "decoder_wf c d"
    and absent: "map_of (mp_messages (dc_priority d)) (j, ph_msg_id h) = None" "map_of (mp_messages (dc_regular d)) (j, ph_msg_id h) = None"
    and r: "decoder_decode env score now j (Inr (h, data)) d = Some (Inr r, d1)"
    and t: "now + uc_message_timeout c \<le> instant_max"
    and h: "ph_version h = LEANUDP_PROTOCOL_VERSION" "has_known_flags h"
  shows "\<exists>s p p'. pool_wf p \<and> mp_cfg p = mp_cfg (get_pool s d) \<and> d1 = set_pool s p' d \<and>
    map_of (mp_messages p) (j, ph_msg_id h) = Some (message_state_new (now + uc_message_timeout c)) \<and>
    pool_decode env \<lparr>in_identity = j, in_msg_id = ph_msg_id h, in_seq_num = ph_seq_num h,
      in_fragment_type = header_fragment_type h, in_payload = data\<rparr> p = Some (Inr r, p')"
proof -
  let ?key = "(j, ph_msg_id h)" and ?s = "selection_of_policy (score j)"
  let ?in = "\<lparr>in_identity = j, in_msg_id = ph_msg_id h, in_seq_num = ph_seq_num h,
      in_fragment_type = header_fragment_type h, in_payload = data\<rparr>"
  note w = decoder_wf_pool[OF wf, of ?s]
  have none: "map_of (mp_messages (get_pool ?s d)) ?key = None" using absent by (cases ?s) (simp_all add: get_pool_def)
  have sel: "select_pool env score j ?key now d = Some (?s, d)"
    using absent by (simp add: select_pool_def pool_message_status_def)
  obtain b p1 where p1: "evict_one_stale_for_identity_if_limited env j now (get_pool ?s d) = Some (b, p1)"
    "makes_room (get_pool ?s d) p1"
    using evict_one_room[OF w(1)] by blast
  obtain x p2 where p2: "ensure_identity_capacity env j p1 = (x, p2)" by force
  have m2: "makes_room (get_pool ?s d) p2"
    using identity_capacity_room(1)[of p1 env j] p2 p1(2) makes_room_trans[OF p1(2)] by (simp add: makes_room_def)
  have "decode_in_pool env now ?s ?key ?in d = Some (Inr r, d1)"
    using r h sel by (simp add: decoder_decode_def)
  then obtain y p' where y: "decode_with_admission env now ?key ?in p2 = Some ((Inr r, y), p')" "d1 = set_pool ?s p' d"
    using p1(1) p2 none
    by (cases x) (auto simp: decode_in_pool_def has_message_def bind_eq_Some_conv)
  have n2: "map_of (mp_messages p2) ?key = None" using makes_room_absent[OF m2 none] .
  obtain p3 v where p3: "(if admission_blocked p2 then evict_before_admission env now p2 else Some (None, p2)) = Some (v, p3)"
    "\<not> admission_blocked p3"
    "do { q \<leftarrow> insert_message ?key now p3;
          pool_decode env ?in (q\<lparr>mp_usage := increment_identity_count j (mp_usage q)\<rparr>) } = Some (Inr r, p')"
    using y(1) n2
    by (auto simp: decode_with_admission_def has_message_def bind_eq_Some_conv split: if_splits)
  have "makes_room p2 p3"
    using p3(1) evict_before_admission_room[of p2 env now] m2 makes_room_refl[of p2]
    by (auto simp: makes_room_def split: if_splits)
  then have m3: "makes_room (get_pool ?s d) p3" using makes_room_trans[OF m2] by blast
  have w3: "pool_wf p3" "mp_cfg p3 = mp_cfg (get_pool ?s d)" "map_of (mp_messages p3) ?key = None"
    using m3 makes_room_absent[OF m3 none] by (simp_all add: makes_room_def)
  show ?thesis
    using insert_message_total[OF w3(1,3) p3(2), of now] w3(2) w(2) t p3(3) y(2)
    by fastforce
qed

section \<open>Delivering the fragments of a message\<close>

definition wire :: "packet \<Rightarrow> bytes" where
  "wire p = header_bytes (fst p) @ snd p"

definition deliveries :: "instant list \<Rightarrow> 'i \<Rightarrow> packet list \<Rightarrow> nat list \<Rightarrow> (instant \<times> 'i \<times> bytes) list" where
  "deliveries ts j frags ks = map2 (\<lambda>t k. (t, j, wire (frags ! k))) ts ks"

lemma wire_parses:
  assumes "msg_id \<le> u16_max" and "k < n" and "n \<le> MAX_FRAGMENTS"
  shows "packet_try_from (wire (fragment_at msg_id m payload n k)) = Inr (fragment_at msg_id m payload n k)"
  using assms header_round_trip[of "header_new msg_id k (position_type n k)"]
  by (simp add: wire_def fragment_at_def MAX_FRAGMENTS_def u16_max_def)

lemma deliver_next:
  assumes wf: "decoder_wf c d" and prog: "in_progress s (j, msg_id) st d" "now < ms_deadline st"
    and h: "holds n m payload ds st" "i < n" "i \<notin> ds" "ds \<subseteq> {..<n}" "n \<le> MAX_FRAGMENTS"
    and pl: "concat (map (chunk m payload) [0..<n]) = payload" "length payload \<le> min u64_max (uc_max_message_size c)"
  shows "\<exists>d'. decoder_wf c d' \<and>
    (if insert i ds = {..<n}
     then decoder_decode env score now j (Inr (fragment_at msg_id m payload n i)) d = Some (Inr (Completed payload), d')
     else decoder_decode env score now j (Inr (fragment_at msg_id m payload n i)) d = Some (Inr Pending, d') \<and>
       (\<exists>st'. in_progress s (j, msg_id) st' d' \<and> holds n m payload (insert i ds) st' \<and> ms_deadline st' = ms_deadline st))"
proof -
  let ?p = "get_pool s d"
  let ?in = "\<lparr>in_identity = j, in_msg_id = msg_id, in_seq_num = i, in_fragment_type = position_type n i, in_payload = chunk m payload i\<rparr>"
  have w: "pool_wf ?p" "length payload \<le> min u64_max (pc_max_message_size (mp_cfg ?p))"
    using wf pl(2) by (cases s; simp add: decoder_wf_def get_pool_def pool_config_from_config_def)+
  have st: "map_of (mp_messages ?p) (j, msg_id) = Some st" using prog(1) by (simp add: in_progress_def)
  have e: "decoder_decode env score now j (Inr (fragment_at msg_id m payload n i)) d =
      map_option (\<lambda>(r, p). (r, set_pool s p d)) (pool_decode env ?in ?p)"
    unfolding fragment_at_def
    by (subst decode_active[where s = s and st = st]) (use prog in \<open>simp_all add: position_type_header\<close>)
  obtain p' where p': "pool_wf p'" "mp_cfg p' = mp_cfg ?p"
    "if insert i ds = {..<n} then pool_decode env ?in ?p = Some (Inr (Completed payload), p')
     else pool_decode env ?in ?p = Some (Inr Pending, p') \<and>
       (\<exists>st'. map_of (mp_messages p') (j, msg_id) = Some st' \<and> holds n m payload (insert i ds) st' \<and>
         ms_deadline st' = ms_deadline st)"
    using pool_decode_next[OF w(1) st h pl(1) w(2), of env] by blast
  have keep: "in_progress s (j, msg_id) st' (set_pool s p' d)" if "map_of (mp_messages p') (j, msg_id) = Some st'" for st'
    using that prog(1) by (cases s) (simp_all add: in_progress_def get_pool_def set_pool_def)
  have "decoder_wf c (set_pool s p' d)" using decoder_wf_set[OF wf p'(1,2)] .
  then show ?thesis
    using p'(3) keep unfolding e by (cases "insert i ds = {..<n}") (simp, auto)
qed

lemma deliver_rest:
  assumes "decoder_wf c d" and "in_progress s (j, msg_id) st d" and "holds n m payload ds st"
    and "distinct ks" and "set ks \<inter> ds = {}" and "set ks \<union> ds = {..<n}" and "ks \<noteq> []"
    and "length ts = length ks" and "\<forall>t \<in> set ts. t < ms_deadline st"
    and "msg_id \<le> u16_max" and "n \<le> MAX_FRAGMENTS"
    and "concat (map (chunk m payload) [0..<n]) = payload" and "length payload \<le> min u64_max (uc_max_message_size c)"
  shows "\<exists>d'. receive_all env score (deliveries ts j (map (fragment_at msg_id m payload n) [0..<n]) ks) d =
    Some (map Inr (replicate (length ks - 1) Pending @ [Completed payload]), d')"
  using assms(1-9)
proof (induction ks arbitrary: ts d ds st)
  case (Cons k ks)
  obtain t ts' where ts: "ts = t # ts'" using Cons.prems(8) by (cases ts) auto
  let ?F = "map (fragment_at msg_id m payload n) [0..<n]"
  have k: "k < n" "k \<notin> ds" "ds \<subseteq> {..<n}" using Cons.prems(5,6) by auto
  have parse: "packet_try_from (wire (?F ! k)) = Inr (fragment_at msg_id m payload n k)"
    using wire_parses[OF assms(10) k(1) assms(11)] k(1) by simp
  have all: "insert k ds = {..<n} \<longleftrightarrow> ks = []"
  proof (cases ks)
    case (Cons a _)
    then have "a \<in> {..<n}" "a \<notin> insert k ds" using Cons.prems(4,5,6) by auto
    then show ?thesis using Cons by blast
  qed (use Cons.prems(6) in simp)
  have "t < ms_deadline st" using Cons.prems(9) ts by simp
  from deliver_next[OF Cons.prems(1,2) this Cons.prems(3) k assms(11,12,13), of env score]
  obtain d1 where d1: "decoder_wf c d1"
    "if ks = [] then decoder_decode env score t j (Inr (fragment_at msg_id m payload n k)) d = Some (Inr (Completed payload), d1)
     else decoder_decode env score t j (Inr (fragment_at msg_id m payload n k)) d = Some (Inr Pending, d1) \<and>
       (\<exists>st'. in_progress s (j, msg_id) st' d1 \<and> holds n m payload (insert k ds) st' \<and> ms_deadline st' = ms_deadline st)"
    unfolding all by blast
  show ?case
  proof (cases "ks = []")
    case True
    then show ?thesis using d1(2) Cons.prems(8) by (simp add: ts deliveries_def parse[simplified k(1)] parse)
  next
    case False
    then obtain st' where st': "in_progress s (j, msg_id) st' d1" "holds n m payload (insert k ds) st'"
      "ms_deadline st' = ms_deadline st"
      "decoder_decode env score t j (Inr (fragment_at msg_id m payload n k)) d = Some (Inr Pending, d1)"
      using d1(2) by auto
    obtain d2 where "receive_all env score (deliveries ts' j ?F ks) d1 =
        Some (map Inr (replicate (length ks - 1) Pending @ [Completed payload]), d2)"
      using Cons.IH[OF d1(1) st'(1,2), of ts'] Cons.prems False st'(3) ts by fastforce
    moreover have "length ks = Suc (length ks - 1)" using False by (cases ks) auto
    ultimately show ?thesis using st'(4) parse by (simp add: ts deliveries_def) (metis replicate_Suc append_Cons)
  qed
qed simp

lemma deliver_first:
  assumes wf: "decoder_wf c d"
    and absent: "\<not> has_message (dc_priority d) (j, msg_id)" "\<not> has_message (dc_regular d) (j, msg_id)"
    and first: "decoder_decode env score t j (Inr (fragment_at msg_id m payload n k)) d = Some (Inr r, d1)"
    and t: "t + uc_message_timeout c \<le> instant_max" and n: "k < n" "n \<le> MAX_FRAGMENTS"
    and pl: "concat (map (chunk m payload) [0..<n]) = payload" "length payload \<le> min u64_max (uc_max_message_size c)"
  shows "decoder_wf c d1 \<and> (if {k} = {..<n} then r = Completed payload else r = Pending \<and>
    (\<exists>s st. in_progress s (j, msg_id) st d1 \<and> holds n m payload {k} st \<and> ms_deadline st = t + uc_message_timeout c))"
proof -
  let ?in = "\<lparr>in_identity = j, in_msg_id = msg_id, in_seq_num = k, in_fragment_type = position_type n k,
    in_payload = chunk m payload k\<rparr>"
  obtain s p p' where p: "pool_wf p" "mp_cfg p = mp_cfg (get_pool s d)" "d1 = set_pool s p' d"
    "map_of (mp_messages p) (j, msg_id) = Some (message_state_new (t + uc_message_timeout c))"
    "pool_decode env ?in p = Some (Inr r, p')"
    using decode_admitted[OF wf _ _ first[unfolded fragment_at_def]] absent t
    by (auto simp: has_message_def position_type_header)
  have "length payload \<le> min u64_max (pc_max_message_size (mp_cfg p))"
    using wf pl(2) p(2) by (cases s) (simp_all add: decoder_wf_def get_pool_def pool_config_from_config_def)
  from pool_decode_next[OF p(1,4) holds_new n(1) _ _ n(2) pl(1) this, of env] p(5)
  have q: "pool_wf p'" "mp_cfg p' = mp_cfg p" "if {k} = {..<n} then r = Completed payload else r = Pending \<and>
     (\<exists>st. map_of (mp_messages p') (j, msg_id) = Some st \<and> holds n m payload {k} st \<and> ms_deadline st = t + uc_message_timeout c)"
    by (auto simp: message_state_new_def split: if_splits)
  have keep: "in_progress s (j, msg_id) st d1" if "map_of (mp_messages p') (j, msg_id) = Some st" for st
    using that absent by (cases s) (auto simp: in_progress_def p(3) get_pool_def set_pool_def has_message_def)
  have "decoder_wf c d1" using decoder_wf_set[OF wf q(1)] q(2) p(2,3) by simp
  then show ?thesis using q(3) keep by (cases "{k} = {..<n}") (simp, auto)
qed

section \<open>Properties\<close>

lemma build_decoder:
  assumes "udp_build c g h l m = Some (e, d)"
  shows "d = decoder_new c g h l m" "e = encoder_new (uc_max_fragment_payload c)"
  using assms by (auto simp: udp_build_def bind_eq_Some_conv)

text \<open>
  C19: The decoder that a configuration builds keeps its type: for every sequence of datagrams, whatever their
  bytes, their senders and their order, it answers each of them without a panic, its indices and
  counts agree with its messages, each message is within the limits on fragments and size, and the bytes
  it stores are at most those its configuration grants to each pool.
\<close>

theorem decoder_never_panics_within_memory:
  assumes "udp_build c g h l m = Some (e, d)"
    and "uc_max_priority_messages c \<le> u64_max" and "uc_max_regular_messages c \<le> u64_max"
    and "\<forall>(now, _) \<in> set datagrams. now + uc_message_timeout c \<le> instant_max"
  shows "\<exists>rs d'. receive_all env score datagrams d = Some (rs, d') \<and> length rs = length datagrams \<and> decoder_wf c d'
    \<and> stored_bytes (dc_priority d') \<le> uc_max_priority_messages c * uc_max_message_size c
    \<and> stored_bytes (dc_regular d') \<le> uc_max_regular_messages c * uc_max_message_size c"
proof -
  have "decoder_wf c d" using build_decoder(1)[OF assms(1)] decoder_new_wf[OF assms(2,3)] by simp
  from receive_all_total[OF this assms(4), of env score] obtain rs d' where
    r: "receive_all env score datagrams d = Some (rs, d')" "length rs = length datagrams" "decoder_wf c d'"
    by blast
  then show ?thesis
    using stored_bytes_bound[of "dc_priority d'"] stored_bytes_bound[of "dc_regular d'"]
    by (auto simp: decoder_wf_def pool_config_from_config_def)
qed

text \<open>
  C20: A payload that the encoder fragments is reassembled by a decoder that has no message under the same
  identity and message number: once the first fragment to arrive is admitted, the fragments in any order,
  all before the deadline, are each pending until the last one, which completes the message with exactly
  the payload.
\<close>

theorem fragments_reassemble_in_any_order:
  assumes "decoder_wf c d" and "encoder_fragment payload e = Some (Inr it, e')" and "fragments_from it = Some frags"
    and "en_next_msg_id e \<le> u16_max" and "length payload \<le> min u64_max (uc_max_message_size c)"
    and "\<not> has_message (dc_priority d) (j, en_next_msg_id e)" and "\<not> has_message (dc_regular d) (j, en_next_msg_id e)"
    and "mset ks = mset [0..<length frags]" and "length ts = length ks"
    and "hd ts + uc_message_timeout c \<le> instant_max" and "\<forall>t \<in> set ts. t < hd ts + uc_message_timeout c"
    and "decoder_decode env score (hd ts) j (packet_try_from (wire (frags ! hd ks))) d = Some (Inr r, d1)"
  shows "\<exists>d'. receive_all env score (deliveries ts j frags ks) d =
    Some (map Inr (replicate (length frags - 1) Pending @ [Completed payload]), d')"
proof -
  define m msg_id where "m = en_max_fragment_payload e" and "msg_id = en_next_msg_id e"
  obtain n where n: "0 < n" "n \<le> MAX_FRAGMENTS" "concat (map (chunk m payload) [0..<n]) = payload"
    and F: "frags = map (fragment_at msg_id m payload n) [0..<n]"
    using encoder_fragments[OF assms(2)] assms(3,5) by (auto simp: m_def msg_id_def)
  have ks: "distinct ks" "set ks = {..<n}" "length ks = n"
    using assms(8) mset_eq_imp_distinct_iff[OF assms(8)] mset_eq_setD[OF assms(8)] mset_eq_length[OF assms(8)]
    by (auto simp: F atLeast0LessThan)
  obtain k ks' where k: "ks = k # ks'" using ks(3) n(1) by (cases ks) auto
  obtain t ts' where t: "ts = t # ts'" using assms(9) k by (cases ts) auto
  have kn: "k < n" using ks(2) k by auto
  have parse: "packet_try_from (wire (frags ! k)) = Inr (fragment_at msg_id m payload n k)"
    using wire_parses[of msg_id k n] assms(4) kn n(2) by (simp add: F msg_id_def)
  have first: "decoder_decode env score t j (Inr (fragment_at msg_id m payload n k)) d = Some (Inr r, d1)"
    using assms(12) parse by (simp add: k t)
  have q: "decoder_wf c d1 \<and> (if {k} = {..<n} then r = Completed payload else r = Pending \<and>
    (\<exists>s st. in_progress s (j, msg_id) st d1 \<and> holds n m payload {k} st \<and> ms_deadline st = t + uc_message_timeout c))"
    by (rule deliver_first[OF assms(1) _ _ first _ kn n(2,3) assms(5)]) (use assms(6,7,10) t in \<open>simp_all add: msg_id_def\<close>)
  show ?thesis
  proof (cases "ks' = []")
    case True
    then have "{k} = {..<n}" using ks(2) k by simp
    then show ?thesis
      using q first parse assms(9) True ks(3) by (simp add: deliveries_def k t F)
  next
    case False
    then obtain a where a: "a \<in> set ks'" "a \<noteq> k" "a < n" using ks(1,2) k by (cases ks') auto
    then have "{k} \<noteq> {..<n}" by blast
    then obtain s st where st: "r = Pending" "in_progress s (j, msg_id) st d1" "holds n m payload {k} st"
      "ms_deadline st = t + uc_message_timeout c"
      using q by auto
    have "\<exists>d'. receive_all env score (deliveries ts' j frags ks') d1 =
        Some (map Inr (replicate (length ks' - 1) Pending @ [Completed payload]), d')"
      unfolding F
      by (rule deliver_rest[OF conjunct1[OF q] st(2,3)])
        (use ks k t st(4) assms(4,5,9,11) n(2,3) False in \<open>auto simp: msg_id_def\<close>)
    then obtain d' where "receive_all env score (deliveries ts' j frags ks') d1 =
        Some (map Inr (replicate (length ks' - 1) Pending @ [Completed payload]), d')" by blast
    moreover have "n - 1 = Suc (length ks' - 1)" using ks(3) k False by (cases ks') auto
    ultimately show ?thesis
      using first parse st(1) ks(3) by (simp add: deliveries_def k t F)
  qed
qed

section \<open>A concrete decoder\<close>

definition example_udp_env :: "(nat, unit, unit) pool_env" where
  "example_udp_env = \<lparr>pe_limit = (\<lambda>_ _ _ l. (100, l)), pe_record_service = (\<lambda>_ l. l), pe_removed = (\<lambda>_ l. l),
     pe_gen_range = (\<lambda>_ g. (0, g))\<rparr>"

definition example_udp_config :: udp_config where
  "example_udp_config = udp_config_default\<lparr>uc_max_fragment_payload := 9\<rparr>"

definition example_decoder :: "(nat, unit, unit) decoder" where
  "example_decoder = decoder_new example_udp_config () () () ()"

definition example_payload :: bytes where
  "example_payload = [1, 2, 3, 4, 5, 6, 7]"

definition example_fragments :: "packet list" where
  "example_fragments = map (fragment_at 0 3 example_payload 3) [0..<3]"

lemmas example_udp_defs =
  example_udp_env_def example_udp_config_def udp_config_default_def example_decoder_def example_payload_def

lemmas udp_eval =
  decoder_new_def pool_new_def pool_config_from_config_def decoder_decode_def select_pool_def pool_message_status_def
  decode_in_pool_def get_pool_def set_pool_def has_message_def evict_one_stale_for_identity_if_limited_def
  is_at_identity_limit_def usage_is_at_limit_def limit_for_new_message_def identity_count_def
  ensure_identity_capacity_def usage_ensure_identity_capacity_def decode_with_admission_def admission_blocked_def
  insert_message_def increment_identity_count_def message_state_new_def pool_decode_def is_final_def
  bt_values_def as_u16_def u16_max_def u64_max_def instant_max_def MAX_FRAGMENTS_def wrapping_add_def
  checked_add_def Let_def header_new_def has_known_flags_def header_fragment_type_def
  END_FLAG_def KNOWN_FLAGS_MASK_def LEANUDP_HEADER_SIZE_def fragment_at_def position_type_def chunk_def

lemma example_build:
  "udp_build example_udp_config () () () () = Some (encoder_new 9, example_decoder)"
  by (simp add: udp_build_def udp_config_validate_def example_decoder_def example_udp_config_def udp_config_default_def
      LEANUDP_HEADER_SIZE_def)

lemma example_encode:
  "\<exists>it. encoder_fragment example_payload (encoder_new 9) =
     Some (Inr it, (encoder_new 9)\<lparr>en_next_msg_id := 1\<rparr>) \<and> fragments_from it = Some example_fragments"
proof -
  let ?it = "\<lparr>fi_payload = example_payload, fi_max_payload = 3, fi_msg_id = 0, fi_current = 0, fi_count = 3\<rparr>"
  have "encoder_fragment example_payload (encoder_new 9) = Some (Inr ?it, (encoder_new 9)\<lparr>en_next_msg_id := 1\<rparr>)"
    by (simp add: encoder_fragment_def encoder_new_def example_payload_def div_ceil_def saturating_sub_def
        LEANUDP_HEADER_SIZE_def MAX_FRAGMENTS_def wrapping_add_def u16_max_def)
  moreover have "fragments_from ?it = Some example_fragments"
    using fragments_from_spec[of ?it] by (simp add: example_fragments_def MAX_FRAGMENTS_def example_payload_def u64_max_def)
  ultimately show ?thesis by blast
qed

lemma example_first_admitted:
  "\<exists>d1. decoder_decode example_udp_env (\<lambda>_. Regular) 5 7 (packet_try_from (wire (example_fragments ! 2))) example_decoder =
     Some (Inr Pending, d1)"
proof -
  have "packet_try_from (wire (example_fragments ! 2)) = Inr (fragment_at 0 3 example_payload 3 2)"
    using wire_parses[of 0 2 3 3 example_payload] by (simp add: example_fragments_def MAX_FRAGMENTS_def eval_nat_numeral)
  then show ?thesis
    by (simp add: udp_eval example_udp_defs LEANUDP_PROTOCOL_VERSION_def)
qed

lemma example_config_values:
  "uc_max_message_size example_udp_config = 524288" "uc_max_priority_messages example_udp_config = 2048"
  "uc_max_regular_messages example_udp_config = 1024" "uc_message_timeout example_udp_config = 100000000"
  by (simp_all add: example_udp_config_def udp_config_default_def)

text \<open>Three datagrams of one sender: a malformed one, a fragment, and the same fragment again.\<close>

theorem decoder_never_panics_within_memory_witness:
  "\<exists>rs d'. receive_all example_udp_env (\<lambda>_. Regular)
       [(5, 7, [1, 2]), (6, 7, wire (example_fragments ! 2)), (9, 7, wire (example_fragments ! 2))] example_decoder = Some (rs, d')
    \<and> length rs = 3 \<and> decoder_wf example_udp_config d'
    \<and> stored_bytes (dc_priority d') \<le> 2048 * 524288 \<and> stored_bytes (dc_regular d') \<le> 1024 * 524288"
  using decoder_never_panics_within_memory[OF example_build, of
      "[(5, 7, [1, 2]), (6, 7, wire (example_fragments ! 2)), (9, 7, wire (example_fragments ! 2))]"
      example_udp_env "\<lambda>_. Regular"]
  by (simp add: example_config_values u64_max_def instant_max_def numeral_3_eq_3 del: receive_all.simps)

text \<open>A payload of seven bytes in three fragments, the last of which arrives first.\<close>

theorem fragments_reassemble_in_any_order_witness:
  "\<exists>d'. receive_all example_udp_env (\<lambda>_. Regular) (deliveries [5, 9, 6] 7 example_fragments [2, 0, 1]) example_decoder =
     Some ([Inr Pending, Inr Pending, Inr (Completed [1, 2, 3, 4, 5, 6, 7])], d')"
proof -
  obtain it where it: "encoder_fragment example_payload (encoder_new 9) =
     Some (Inr it, (encoder_new 9)\<lparr>en_next_msg_id := 1\<rparr>)" "fragments_from it = Some example_fragments"
    using example_encode by blast
  obtain d1 where d1: "decoder_decode example_udp_env (\<lambda>_. Regular) 5 7
     (packet_try_from (wire (example_fragments ! 2))) example_decoder = Some (Inr Pending, d1)"
    using example_first_admitted by blast
  have wf: "decoder_wf example_udp_config example_decoder"
    unfolding example_decoder_def
    by (rule decoder_new_wf) (simp_all add: example_config_values u64_max_def)
  have l: "length example_fragments = 3" by (simp add: example_fragments_def)
  have n: "\<not> has_message (dc_priority example_decoder) k" "\<not> has_message (dc_regular example_decoder) k" for k
    by (simp_all add: example_decoder_def decoder_new_def pool_new_def has_message_def)
  have two: "replicate 2 x = [x, x]" for x :: "decode_error + decode_outcome" by (simp add: numeral_2_eq_2)
  have ks: "mset [2, 0, 1] = mset [0..<length example_fragments]"
    unfolding l by (simp add: upt_rec[of 0] upt_rec[of "Suc 0"] numeral_2_eq_2 numeral_3_eq_3)
  show ?thesis
    using fragments_reassemble_in_any_order[where j = 7 and ts = "[5, 9, 6]" and env = example_udp_env and
      score = "\<lambda>_. Regular" and r = Pending and ?d1.0 = d1, OF wf it _ _ n ks] d1
    unfolding l
    by (simp add: encoder_new_def u16_max_def u64_max_def instant_max_def example_config_values
        example_payload_def two del: receive_all.simps)
qed

text \<open>
  The end marker is compared with the fragments that arrive after it, not with those already stored: a
  sender that announces the end below an earlier fragment completes a message that lacks a fragment.
\<close>

definition example_middle :: packet where
  "example_middle = (header_new 0 5 Middle, [9])"

definition example_early_end :: packet where
  "example_early_end = (header_new 0 1 End, [8])"

lemma early_end_completes_with_a_hole:
  "\<exists>d d'. decoder_decode example_udp_env (\<lambda>_. Regular) 5 7 (Inr example_middle) example_decoder = Some (Inr Pending, d) \<and>
     decoder_decode example_udp_env (\<lambda>_. Regular) 6 7 (Inr example_early_end) d = Some (Inr (Completed [8, 9]), d')"
  by (simp add: udp_eval example_udp_defs LEANUDP_PROTOCOL_VERSION_def example_middle_def example_early_end_def
      record_identity_service_def remove_message_def decrement_identity_count_def message_extract_def insort_insert_key_def)

end
