(* ===== verification/Spec2Isabelle.thy ===== *)
theory Spec2Isabelle
  imports Prelude Monad_Types Validator_Set Signature_Collection Certificates Safety Epoch_Manager
    Leader_Election Vote_State No_Endorsement_State Pacemaker Messages Validation Block_Tree Block_Tree_Correct
    Block_Tree_Theorems Base_Fee Merkle Timestamp Vote_Delay Consensus_State Handler_Logic Consensus_Safety Consensus_Progress
    Node_Theorems Block_Sync Eth_Theorems Replay_Filter Wire_Session Lean_Udp Lean_Udp_Pool Lean_Udp_Decoder
begin

text \<open>
  A verification library for the MonadBFT node: the consensus protocol from messages to finalised blocks,
  the Ethereum block layer that decides which blocks are valid, and the two lowest layers of the network
  stack.  Paths below are under \<^verbatim>\<open>src/\<close>.

  \<^bold>\<open>The program.\<close>  A validator receives signed messages.  \<^verbatim>\<open>monad-consensus/src/validation/\<close> checks their
  signatures and certificates against the validator sets of \<^verbatim>\<open>monad-validator\<close>.  The state machine of
  \<^verbatim>\<open>monad-consensus-state\<close> then runs one handler per message: it asks the safety module whether it may vote,
  the pacemaker for the round, collects votes, timeouts and no-endorsements into certificates, keeps the
  uncommitted blocks in the block tree, and emits commands.  Blocks it misses are fetched by
  \<^verbatim>\<open>monad-blocksync\<close>.  Which blocks are coherent is decided by
  \<^verbatim>\<open>monad-eth-block-policy\<close> and \<^verbatim>\<open>monad-eth-block-validator\<close>.  Below, \<^verbatim>\<open>monad-leanudp\<close> splits messages into
  datagrams and \<^verbatim>\<open>monad-wireauth\<close> authenticates them.

  \<^bold>\<open>Conventions\<close> (theory \<open>Prelude\<close>).  A panic is \<^term>\<open>None\<close>, a \<^verbatim>\<open>Result\<close> is a sum with \<^term>\<open>Inl\<close> for the error,
  and \<open>try_bind\<close> is the question mark operator.  \<^verbatim>\<open>u64\<close> and \<^verbatim>\<open>U256\<close> are naturals with the width in each
  operation.  A \<^verbatim>\<open>BTreeMap\<close> is a sorted association list, a \<^verbatim>\<open>HashMap\<close> an association list with distinct keys;
  the locale \<open>keyed_map\<close> has the laws of both.  Code of other packages (signatures, hashes, RLP, the cipher, the
  random generators) is a function in a record that the definitions take as an argument; what a theorem needs of
  it is a named hypothesis with a concrete instance in the witness.  Metrics, log lines with what only they evaluate,
  and assertions of debug builds are left out.

  \<^bold>\<open>Validators, signatures and certificates.\<close>
  \<^item> \<open>Monad_Types\<close>: scalar types (\<^verbatim>\<open>monad-types\<close>).
  \<^item> \<open>Validator_Set\<close> (\<^verbatim>\<open>validator_set.rs\<close>): stakes, thresholds, the factory.  The locale \<open>quorum_system\<close> is the
    contract of quorums: two of them meet outside the faulty nodes.
  \<^item> \<open>Signature_Collection\<close> (\<^verbatim>\<open>signing_domain.rs\<close>, \<^verbatim>\<open>signature_collection.rs\<close>, \<^verbatim>\<open>monad-multi-sig\<close>): signing domains
    and the multi-signature, which satisfies the contract \<open>sct_laws\<close> used everywhere else.
  \<^item> \<open>Certificates\<close> (\<^verbatim>\<open>monad-consensus-types\<close>): votes, quorum, timeout and no-endorsement certificates, tips,
    blocks; construction of a timeout certificate and the order of high extends.
  \<^item> \<open>Epoch_Manager\<close> (\<^verbatim>\<open>epoch_manager.rs\<close>, \<^verbatim>\<open>validators_epoch_mapping.rs\<close>), \<open>Leader_Election\<close>
    (\<^verbatim>\<open>weighted_round_robin.rs\<close>, \<^verbatim>\<open>simple_round_robin.rs\<close>).

  \<^bold>\<open>Consensus.\<close>
  \<^item> \<open>Safety\<close> (\<^verbatim>\<open>validation/safety.rs\<close>): the voting rules, the runs \<open>safety_run\<close> of the safety module, and that no run
    votes twice in a round or votes against a no-endorsement of that round.
  \<^item> \<open>Vote_State\<close>, \<open>No_Endorsement_State\<close>, \<open>Pacemaker\<close>: aggregation into certificates and rounds.  Each operation
    ends without a panic on a well-formed state and keeps everything that is correctly signed; what it drops is
    invalid and bars its sender, it builds a certificate exactly when what is left is a super majority, and that certificate
    verifies with exactly the senders as signers.  A second no-endorsement certificate of a round panics.
  \<^item> \<open>Messages\<close>, \<open>Validation\<close> (\<^verbatim>\<open>messages/\<close>, \<^verbatim>\<open>validation/signing.rs\<close>, \<^verbatim>\<open>certificate_cache.rs\<close>): validation ends
    without a panic, accepts only messages with valid certificates and keeps its cache sound; the node's own
    certificates and timeouts pass it.
  \<^item> \<open>Block_Tree\<close>, \<open>Block_Tree_Correct\<close>, \<open>Block_Tree_Theorems\<close> (\<^verbatim>\<open>monad-blocktree\<close>): the tree, its invariant
    \<open>bt_inv\<close>, termination of every loop, and what pruning, coherency updates and commits return.  Pruning keeps
    \<open>bt_inv\<close> when no stored block conflicts with the new root (\<open>commit_safe\<close>), which the protocol is to
    guarantee and which is not derived here; what it commits and which blocks it keeps is shown without that.
  \<^item> \<open>Timestamp\<close>, \<open>Vote_Delay\<close>, \<open>Merkle\<close> (\<^verbatim>\<open>timestamp.rs\<close>, \<^verbatim>\<open>vote_delay_metrics.rs\<close>, \<^verbatim>\<open>monad-merkle\<close>).
  \<^item> \<open>Consensus_State\<close> (\<^verbatim>\<open>monad-consensus-state/src/lib.rs\<close>): all handlers, in the monad \<open>cm\<close> that threads the state
    and collects commands.  \<open>Handler_Logic\<close> has the program logic: the locale \<open>effect\<close> states when a relation
    composes, \<open>pm_effect\<close> and \<open>node_effect\<close> which relations hold of every handler once they hold of the basic
    steps.  \<open>Consensus_Safety\<close> interprets them to show that the handlers refine the safety module,
    \<open>Consensus_Progress\<close> that rounds increase and finalised blocks form a chain.  \<open>Node_Theorems\<close> states this for
    all runs \<open>node_run\<close>, in which the clock, the validator sets and everything else the node only reads may change at
    every event, and evaluates a run that finalises a block.
  \<^item> \<open>Block_Sync\<close> (\<^verbatim>\<open>monad-blocksync\<close>): all handlers that fetch missing blocks for the node and answer peers.  For every
    run \<open>sync_run\<close> they end without a panic, bound the body requests in flight, and emit verified chains only.  This relies
    on the ledger, the block cache and the choice of a peer (\<open>event_ok\<close>, \<open>view_ok\<close>), and on nothing that peers send.
  \<^item> This theory composes the parts: accepted quorum certificates of one round agree.

  \<^bold>\<open>Ethereum blocks.\<close>
  \<^item> \<open>Base_Fee\<close> (\<^verbatim>\<open>monad-tfm\<close>): the fee controller in 256 bit arithmetic, and that it returns and stays in its documented
    range.
  \<^item> \<open>Chain_Config\<close>, \<open>Eth_Txn\<close>, \<open>Nonce_Usage\<close>, \<open>System_Calls\<close>, \<open>Reserve_Balance\<close>, \<open>Eth_Block_Validator\<close>,
    \<open>Eth_Block_Policy\<close> (\<^verbatim>\<open>monad-chain-config\<close>, \<^verbatim>\<open>monad-eth-block-policy\<close>, \<^verbatim>\<open>monad-system-calls\<close>,
    \<^verbatim>\<open>monad-eth-block-validator\<close>): static checks, nonces, the reserve balance, system transactions, the block
    buffer and the coherency check.  \<open>Eth_Coherency\<close> and \<open>Eth_Theorems\<close> show that charging the summaries of
    accepted blocks to an account gives what executing their transactions would.

  \<^bold>\<open>Network.\<close>
  \<^item> \<open>Replay_Filter\<close>, \<open>Wire_Session\<close> (\<^verbatim>\<open>monad-wireauth/src/session/\<close>): the bitmap of seen counters as 64 bit words,
    the established session, its timers.  Decryption refines a window over the set of accepted counters, and a
    rejected packet leaves no trace.
  \<^item> \<open>Lean_Udp\<close>, \<open>Lean_Udp_Pool\<close>, \<open>Lean_Udp_Decoder\<close> (\<^verbatim>\<open>monad-leanudp\<close>): header, encoder, message pool, decoder.
    \<open>pool_wf\<close> is the type of a pool; the decoder keeps it, never panics, and reassembles what was encoded.

  \<^bold>\<open>Loops and bounds.\<close>  There is no fuel.  Loops that are not structural are partial functions in the option
  monad (\<open>exponential_loop\<close>, \<open>randomize_loop\<close>, \<open>collect_loop\<close>, \<open>tc_loop\<close>, the loops of the block tree), where not ending
  is \<^term>\<open>None\<close>, and the theorems show that they return; \<open>randomize_loop\<close> returns when the stream has an accepted
  draw.  Rounds in hypotheses stay below the last value of \<^verbatim>\<open>u64\<close>, total stake at most half of the last
  \<^verbatim>\<open>U256\<close> (\<open>vs_small\<close>), counters of a session below the last two values, and times below the largest time.

  \<^bold>\<open>Not modelled.\<close>
  \<^item> Cryptography: BLS, secp256k1, Keccak, AEGIS and the Noise handshake are calls to other packages.
  \<^item> The identity limits of LeanUDP, peer scores and the fair queue compute with floating point numbers; the pool
    is verified for every implementation of its limit trait.
  \<^item> State sync, the transaction pool and RaptorCast decide when data arrives.  The theorems hold for
    every order of arrival, so they do not depend on these parts; they promise safety, not delivery.
  \<^item> The state backend, ledger, write-ahead log, executors, data plane, RPC server and archive are input and
    output: files, sockets, threads and databases behind C interfaces.
  \<^item> Node start-up, configuration files, instrumentation, and the test and simulation crates.
\<close>

section \<open>Agreement on a round\<close>

text \<open>
  \<open>votes_unforgeable\<close>: a valid vote signature under the certificate key of a node outside \<open>F\<close>
  was made by that node, which signs votes only for the tips its safety module lets through
  (\<^verbatim>\<open>try_vote\<close> and the vote inside a timeout message).
\<close>

definition votes_unforgeable ::
  "('s, 'c, 'x) env \<Rightarrow> 's validity \<Rightarrow> etv \<Rightarrow> node_id set \<Rightarrow> (node_id \<Rightarrow> ('s, 'c, 'x) safety_event list) \<Rightarrow> bool" where
  "votes_unforgeable E valid etv F hist \<longleftrightarrow>
     (\<forall>ep r vs vmap l n pk v s. etv ep r = Some (Inr (vs, vmap, l)) \<longrightarrow> n \<notin> F \<longrightarrow> bt_get vmap n = Some pk \<longrightarrow>
        valid DomainVote (rlp_vote E v) pk s \<longrightarrow>
        (\<exists>tip. (vote_round v, tip) \<in> votes_in (hist n) \<and> vote_id v = get_id E (tip_block_header tip)))"

lemma epoch_to_validators_epoch:
  "epoch_to_validators em vem gl ep r = Some (Inr x) \<Longrightarrow> get_epoch em r = Some ep"
  by (cases "get_epoch em r") (auto simp: epoch_to_validators_def ok_or_def ensure_def ok_def err_def split: if_splits)

lemma accepted_qc_ok:
  assumes "checks_ok E valid W L etv" "cache_sound E valid W L etv C" "verify_qc E W L etv qc C = Some (Inr (), C')"
  shows "qc_ok E valid etv qc"
  using verify_qc_safe[OF assms(1), of qc] assms(2,3) unfolding v_safe_def by fastforce

lemma signers_agree:
  assumes "vs_valid vs" "tolerable vs F" "super_majority vs A" "super_majority vs B"
    and "signed_all valid vmap DomainVote (rlp_vote E v) A" "signed_all valid vmap DomainVote (rlp_vote E w) B"
    and "votes_unforgeable E valid etv F hist" "etv ep r = Some (Inr (vs, vmap, l))"
    and "\<And>n. n \<notin> F \<Longrightarrow> safety_run (st n) (hist n)" "vote_round v = vote_round w"
  shows "vote_id v = vote_id w"
proof -
  obtain n where n: "n \<in> A" "n \<in> B" "n \<notin> F"
    using vsq.quorum_inter[of vs F A B] assms(1-4) by (auto simp: byz_quorum_def)
  obtain t u where "(vote_round v, t) \<in> votes_in (hist n)" "vote_id v = get_id E (tip_block_header t)"
    "(vote_round w, u) \<in> votes_in (hist n)" "vote_id w = get_id E (tip_block_header u)"
    using assms(5-8) n unfolding votes_unforgeable_def signed_all_def by metis
  moreover have "votes_inv (st n) (votes_in (hist n))" by (rule votes_inv_run[OF assms(9)[OF n(3)]])
  ultimately show ?thesis using assms(10) unfolding votes_inv_def by auto
qed

text \<open>
  C1: agreement.  If the faulty nodes hold at most a third of the stake of every epoch, every
  other node only runs the operations of its safety module, and their vote signatures cannot be
  forged, then two quorum certificates of the same round that \<^verbatim>\<open>verify_qc\<close> accepts, possibly at
  different nodes with different caches, certify the same vote: the same block, round and epoch.
\<close>

theorem quorum_certificates_agree:
  assumes "checks_ok E valid W L (epoch_to_validators em vem gl)"
    and "cache_sound E valid W L (epoch_to_validators em vem gl) C"
    and "cache_sound E valid W L (epoch_to_validators em vem gl) D"
    and "verify_qc E W L (epoch_to_validators em vem gl) qc C = Some (Inr (), C')"
    and "verify_qc E W L (epoch_to_validators em vem gl) qd D = Some (Inr (), D')"
    and "get_round qc = get_round qd"
    and "\<forall>n. n \<notin> F \<longrightarrow> safety_run (st n) (hist n)"
    and "votes_unforgeable E valid (epoch_to_validators em vem gl) F hist"
    and "\<forall>ep r vs vmap l. epoch_to_validators em vem gl ep r = Some (Inr (vs, vmap, l)) \<longrightarrow> tolerable vs F"
  shows "qc_info qc = qc_info qd"
proof -
  let ?etv = "epoch_to_validators em vem gl"
  have ok: "qc_ok E valid ?etv qc" "qc_ok E valid ?etv qd"
    using accepted_qc_ok[OF assms(1)] assms(2-5) by blast+
  then have ep: "get_epoch_of_qc qc = get_epoch_of_qc qd"
    using assms(6) epoch_to_validators_epoch[of em vem gl] unfolding qc_ok_def by (metis option.inject)
  show ?thesis
  proof (cases "get_round qc = GENESIS_ROUND")
    case True
    then show ?thesis using ok assms(6) unfolding qc_ok_def by auto
  next
    case False
    obtain vs vmap l where e: "?etv (get_epoch_of_qc qc) (get_round qc) = Some (Inr (vs, vmap, l))"
      "quorum_signed valid vs vmap DomainVote (rlp_vote E (qc_info qc))"
      "quorum_signed valid vs vmap DomainVote (rlp_vote E (qc_info qd))"
      using ok False ep assms(6) unfolding qc_ok_def by auto
    have "vote_id (qc_info qc) = vote_id (qc_info qd)"
      using e(2,3) signers_agree[OF checks_okD(6)[OF assms(1) e(1)] assms(9)[rule_format, OF e(1)] _ _ _ _ assms(8) e(1)
          assms(7)[rule_format], of _ _ "qc_info qc" "qc_info qd"] assms(6)
      unfolding quorum_signed_def get_round_def by blast
    then show ?thesis using ep assms(6) by (simp add: get_round_def get_epoch_of_qc_def)
  qed
qed

text \<open>
  A signature scheme in which only the votes of one round have been signed: every validator of
  the example voted for the block of \<open>example_tip 3\<close>.
\<close>

definition agreed_vote :: vote where
  "agreed_vote = \<lparr>vote_id = get_id example_env (example_header 3), vote_round = 3, vote_epoch = 1\<rparr>"

definition signed_ops :: "nop_signature sig_ops" where
  "signed_ops =
     \<lparr>sig_recover = (\<lambda>d m s. if d = DomainVote \<and> m = rlp_vote example_env agreed_vote
        then nop_recover_pubkey example_hash d m s else None), sig_verify = nop_verify example_hash\<rparr>"

definition signed_env :: "(nop_signature, nop_signature multi_sig, unit) env" where
  "signed_env = example_env\<lparr>sct_new := ms_new signed_ops, sct_verify := ms_verify signed_ops\<rparr>"

definition agreed_qc :: "node_id list \<Rightarrow> nop_signature multi_sig quorum_certificate" where
  "agreed_qc ns = \<lparr>qc_info = agreed_vote,
     qc_signatures = \<lparr>ms_sigs = map snd (example_sigs DomainVote (rlp_vote example_env agreed_vote) ns)\<rparr>\<rparr>"

lemma signed_checks_ok: "checks_ok signed_env (ms_valid signed_ops) example_wire example_lru example_etv"
proof -
  have "sct_laws signed_env (ms_valid signed_ops)"
    by (rule sct_laws_cong[OF _ _ msl.sct_laws_axioms]) (simp_all add: signed_env_def ms_ops_def)
  moreover have "genesis_qc signed_env \<noteq> None"
    by (simp add: genesis_qc_def signed_env_def example_env_def ms_new_def)
  ultimately show ?thesis using example_checks_ok by (simp add: checks_ok_def)
qed

lemma agreed_qc_accepted:
  assumes "ns = [1, 2, 3] \<or> ns = [1, 2, 4]"
  shows "\<exists>C'. verify_qc signed_env example_wire example_lru example_etv (agreed_qc ns) C = Some (Inr (), C')"
proof -
  obtain l where l: "example_etv 1 3 = Some (Inr (example_vs, example_vm, l))" using example_etv_epoch1[of 3] by auto
  have "sct_new signed_env DomainVote (example_sigs DomainVote (rlp_vote example_env agreed_vote) ns) example_vm
      (rlp_vote signed_env agreed_vote) = Inr (qc_signatures (agreed_qc ns))"
    using assms by (auto simp: signed_env_def signed_ops_def agreed_vote_def agreed_qc_def example_sigs_def example_env_simps)
  moreover have "super_majority example_vs (fst ` set (example_sigs DomainVote (rlp_vote example_env agreed_vote) ns))"
    using assms by (auto simp: super_majority_def stake_of_def example_vs_def example_sigs_def)
  ultimately show ?thesis
    using l by (intro verify_qc_accepts[OF signed_checks_ok])
      (simp_all add: agreed_qc_def agreed_vote_def get_round_def get_epoch_of_qc_def GENESIS_ROUND_def vm_inj_def bt_wf_def example_vm_def)
qed

lemma signed_unforgeable: "votes_unforgeable signed_env (ms_valid signed_ops) example_etv F (\<lambda>_. [SentVote 3 None (example_tip 3)])"
proof -
  have "v = agreed_vote" if "rlp_vote signed_env v = rlp_vote example_env agreed_vote" for v
    using that by (simp add: signed_env_def example_env_def agreed_vote_def)
  moreover have "get_id signed_env (tip_block_header (example_tip 3)) = vote_id agreed_vote"
    by (simp add: example_tip_def tip_new_def agreed_vote_def get_id_def signed_env_def)
  ultimately show ?thesis
    by (force simp: votes_unforgeable_def ms_valid_def signed_ops_def agreed_vote_def split: if_splits)
qed

theorem quorum_certificates_agree_witness:
  "\<exists>C D. verify_qc signed_env example_wire example_lru example_etv (agreed_qc [1, 2, 3])
            (certificate_cache_default example_lru) = Some (Inr (), C) \<and>
     verify_qc signed_env example_wire example_lru example_etv (agreed_qc [1, 2, 4])
       (certificate_cache_default example_lru) = Some (Inr (), D) \<and>
     qc_info (agreed_qc [1, 2, 3]) = qc_info (agreed_qc [1, 2, 4])"
proof -
  have cache: "cache_sound signed_env (ms_valid signed_ops) example_wire example_lru example_etv (certificate_cache_default example_lru)"
    using signed_checks_ok by (intro cache_sound_default) (simp add: checks_ok_def)
  obtain s where run: "safety_run s [SentVote 3 None (example_tip 3)]"
    using run_vote[OF run_default, of 3 None "example_tip 3"]
    by (auto simp: safety_vote_Some is_safe_to_vote_iff safety_default_def GENESIS_ROUND_def)
  have F: "tolerable vs {}" for vs by (simp add: tolerable_def)
  from agreed_qc_accepted[of "[1, 2, 3]"] agreed_qc_accepted[of "[1, 2, 4]"] obtain C D where
    v: "verify_qc signed_env example_wire example_lru example_etv (agreed_qc [1, 2, 3])
      (certificate_cache_default example_lru) = Some (Inr (), C)"
    "verify_qc signed_env example_wire example_lru example_etv (agreed_qc [1, 2, 4])
      (certificate_cache_default example_lru) = Some (Inr (), D)" by blast
  have "qc_info (agreed_qc [1, 2, 3]) = qc_info (agreed_qc [1, 2, 4])"
    by (rule quorum_certificates_agree[OF signed_checks_ok cache cache v _ _ signed_unforgeable[of "{}"], where st = "\<lambda>_. s"])
       (simp_all add: run F agreed_qc_def get_round_def)
  then show ?thesis using v by blast
qed

end
